(* ===== verification/Prelude.thy ===== *)
theory Prelude
  imports Main "HOL-Library.Sublist"
begin

text \<open>
  Shared vocabulary of the development: JavaScript strings and the string operations the web
  client uses (\<open>split\<close>, \<open>join\<close>, \<open>startsWith\<close>, \<open>trim\<close>, \<open>slice\<close>, regular-expression classes),
  and JavaScript's insertion-ordered \<open>Map\<close> as an association list behind the locale
  \<open>ordered_map\<close>.

  A JavaScript string is a sequence of UTF-16 code units. It is modelled as \<^typ>\<open>string\<close>, that is a
  list of code units in the range U+0000 .. U+00FF, where one code unit is one code point; indices
  and lengths are counted in code units as in the source.
\<close>

named_theorems js_defs \<open>definitions of the string and value operations of the language\<close>

section \<open>Characters\<close>

definition code :: "char \<Rightarrow> nat" where
  [js_defs]: "code c = of_char c"

definition is_digit :: "char \<Rightarrow> bool" where
  [js_defs]: "is_digit c \<longleftrightarrow> 48 \<le> code c \<and> code c \<le> 57"

definition is_alpha :: "char \<Rightarrow> bool" where
  [js_defs]: "is_alpha c \<longleftrightarrow> (65 \<le> code c \<and> code c \<le> 90) \<or> (97 \<le> code c \<and> code c \<le> 122)"

text \<open>The class \<open>\s\<close> of regular expressions, which is also what \<open>trim\<close> removes: tab, line feed,
  vertical tab, form feed, carriage return, space and no-break space.\<close>

definition is_space :: "char \<Rightarrow> bool" where
  [js_defs]: "is_space c \<longleftrightarrow> (9 \<le> code c \<and> code c \<le> 13) \<or> code c = 32 \<or> code c = 160"

text \<open>The class \<open>\w\<close>.\<close>

definition is_word :: "char \<Rightarrow> bool" where
  [js_defs]: "is_word c \<longleftrightarrow> is_alpha c \<or> is_digit c \<or> c = CHR ''_''"

text \<open>\<open>toLowerCase\<close> on one code unit of the modelled range: A-Z and the accented capitals
  U+00C0 .. U+00DE without the multiplication sign U+00D7 move up by 32.\<close>

definition lower_char :: "char \<Rightarrow> char" where
  [js_defs]: "lower_char c =
     (if (65 \<le> code c \<and> code c \<le> 90) \<or> (192 \<le> code c \<and> code c \<le> 222 \<and> code c \<noteq> 215)
      then char_of (code c + 32) else c)"

definition newline :: char where
  [js_defs]: "newline = char_of (10::nat)"

section \<open>Strings\<close>

definition starts_with :: "string \<Rightarrow> string \<Rightarrow> bool" where
  [js_defs]: "starts_with s p \<longleftrightarrow> prefix p s"

definition str_includes :: "string \<Rightarrow> string \<Rightarrow> bool" where
  [js_defs]: "str_includes s t \<longleftrightarrow> sublist t s"

definition to_lower :: "string \<Rightarrow> string" where
  [js_defs]: "to_lower s = map lower_char s"

definition trim_start :: "string \<Rightarrow> string" where
  [js_defs]: "trim_start s = dropWhile is_space s"

definition trim_end :: "string \<Rightarrow> string" where
  [js_defs]: "trim_end s = rev (dropWhile is_space (rev s))"

definition trim :: "string \<Rightarrow> string" where
  [js_defs]: "trim s = trim_end (trim_start s)"

text \<open>\<open>s.slice(a, b)\<close> for indices that are not negative.\<close>

definition slice :: "nat \<Rightarrow> nat \<Rightarrow> 'a list \<Rightarrow> 'a list" where
  [js_defs]: "slice a b s = take (b - a) (drop a s)"

text \<open>\<open>s.split(c)\<close> for a separator of one code unit, and \<open>xs.join(sep)\<close>.\<close>

fun split_on :: "char \<Rightarrow> string \<Rightarrow> string list" where
  "split_on c [] = [[]]"
| "split_on c (x # xs) =
     (if x = c then [] # split_on c xs
      else (case split_on c xs of [] \<Rightarrow> [[x]] | y # ys \<Rightarrow> (x # y) # ys))"

fun join :: "string \<Rightarrow> string list \<Rightarrow> string" where
  "join sep [] = []"
| "join sep [x] = x"
| "join sep (x # y # zs) = x @ sep @ join sep (y # zs)"

text \<open>\<open>a || b\<close> on strings that may be absent: the empty string is falsy.\<close>

definition truthy :: "string option \<Rightarrow> bool" where
  [js_defs]: "truthy x \<longleftrightarrow> (case x of None \<Rightarrow> False | Some s \<Rightarrow> s \<noteq> [])"

lemma split_on_not_Nil [simp]: "split_on c s \<noteq> []"
  by (cases s) (auto split: list.splits)

lemma split_on_notin [simp]: "c \<notin> set s \<Longrightarrow> split_on c s = [s]"
  by (induction s) auto

lemma split_on_append:
  "c \<notin> set s \<Longrightarrow> split_on c (s @ c # t) = s # split_on c t"
  by (induction s) auto

lemma join_Cons: "xs \<noteq> [] \<Longrightarrow> join sep (x # xs) = x @ sep @ join sep xs"
  by (cases xs) auto

lemma join_split_on [simp]: "join [c] (split_on c s) = s"
proof (induction s)
  case Nil
  show ?case by simp
next
  case (Cons x s)
  obtain y ys where y: "split_on c s = y # ys"
    by (cases "split_on c s") auto
  with Cons.IH show ?case
    by (cases ys) (auto simp: join_Cons)
qed

lemma split_on_join:
  "xs \<noteq> [] \<Longrightarrow> (\<And>x. x \<in> set xs \<Longrightarrow> c \<notin> set x) \<Longrightarrow> split_on c (join [c] xs) = xs"
proof (induction xs)
  case Nil
  then show ?case by simp
next
  case (Cons x xs)
  show ?case
  proof (cases "xs = []")
    case True
    with Cons.prems show ?thesis by simp
  next
    case False
    with Cons show ?thesis by (simp add: join_Cons split_on_append)
  qed
qed

lemma set_split_on: "x \<in> set (split_on c s) \<Longrightarrow> c \<notin> set x"
proof (induction s arbitrary: x)
  case Nil
  then show ?case by simp
next
  case (Cons a s)
  then show ?case
    by (cases "split_on c s") (auto split: if_splits)
qed

lemma trim_idem [simp]: "trim (trim s) = trim s"
proof -
  have *: "dropWhile P (rev (dropWhile P (rev (dropWhile P t)))) = rev (dropWhile P (rev (dropWhile P t)))"
    for P and t :: string
  proof (cases "dropWhile P t")
    case Nil
    then show ?thesis by (simp only: Nil) simp
  next
    case (Cons a u)
    then have na: "\<not> P a" by (metis dropWhile_eq_Cons_conv)
    then have "rev (dropWhile P (rev (a # u))) = a # rev (dropWhile P (rev u))"
      by (simp add: dropWhile_append) 
    with na Cons show ?thesis by simp
  qed
  show ?thesis by (simp add: trim_def trim_end_def trim_start_def * dropWhile_idem)
qed

section \<open>First occurrences\<close>

text \<open>The elements whose key was not seen before, in order: lodash's \<open>uniqBy\<close>, and the filter with a \<open>Set\<close> of
  seen keys.\<close>

fun uniq_by :: "('a \<Rightarrow> 'k) \<Rightarrow> 'k list \<Rightarrow> 'a list \<Rightarrow> 'a list" where
  "uniq_by f seen [] = []"
| "uniq_by f seen (x # xs) = (if f x \<in> set seen then uniq_by f seen xs else x # uniq_by f (f x # seen) xs)"

lemma uniq_by_props:
  "distinct (map f (uniq_by f seen xs))" "set (uniq_by f seen xs) \<subseteq> set xs"
  "f ` set (uniq_by f seen xs) = f ` set xs - set seen"
proof (induction xs arbitrary: seen)
  case (Cons x xs)
  { case 1 show ?case using Cons(1,3) [of "f x # seen"] Cons(1) [of seen] by (auto; blast) }
  { case 2 show ?case using Cons(2) [of "f x # seen"] Cons(2) [of seen] by auto }
  { case 3 show ?case using Cons(3) [of "f x # seen"] Cons(3) [of seen] by auto }
qed simp_all

lemma uniq_by_append_fresh:
  "distinct (map f xs) \<Longrightarrow> f ` set xs \<inter> set seen = {} \<Longrightarrow>
     uniq_by f seen (xs @ [y]) = (if f y \<in> f ` set xs \<union> set seen then xs else xs @ [y])"
  by (induction xs arbitrary: seen) auto

section \<open>Insertion-ordered maps\<close>

text \<open>
  JavaScript's \<open>Map\<close> and plain objects keep their keys in insertion order; \<open>set\<close> on a present key
  replaces the value and keeps the position. The implementation is an association list.
\<close>

type_synonym ('k, 'v) jsmap = "('k \<times> 'v) list"

fun map_set :: "'k \<Rightarrow> 'v \<Rightarrow> ('k, 'v) jsmap \<Rightarrow> ('k, 'v) jsmap" where
  "map_set k v [] = [(k, v)]"
| "map_set k v ((a, b) # m) = (if a = k then (a, v) # m else (a, b) # map_set k v m)"

definition map_get :: "('k, 'v) jsmap \<Rightarrow> 'k \<Rightarrow> 'v option" where
  "map_get m k = map_of m k"

definition map_delete :: "'k \<Rightarrow> ('k, 'v) jsmap \<Rightarrow> ('k, 'v) jsmap" where
  "map_delete k m = filter (\<lambda>(a, b). a \<noteq> k) m"

definition map_wf :: "('k, 'v) jsmap \<Rightarrow> bool" where
  "map_wf m \<longleftrightarrow> distinct (map fst m)"

locale ordered_map =
  fixes empty :: 'm
    and get :: "'m \<Rightarrow> 'k \<Rightarrow> 'v option"
    and put :: "'k \<Rightarrow> 'v \<Rightarrow> 'm \<Rightarrow> 'm"
    and del :: "'k \<Rightarrow> 'm \<Rightarrow> 'm"
    and keys :: "'m \<Rightarrow> 'k list"
    and invar :: "'m \<Rightarrow> bool"
  assumes get_empty: "get empty k = None"
    and get_put: "get (put k v m) j = (if j = k then Some v else get m j)"
    and get_del: "get (del k m) j = (if j = k then None else get m j)"
    and keys_empty: "keys empty = []"
    and keys_put: "keys (put k v m) = (if k \<in> set (keys m) then keys m else keys m @ [k])"
    and keys_get: "k \<in> set (keys m) \<longleftrightarrow> get m k \<noteq> None"
    and invar_keys: "invar m \<longleftrightarrow> distinct (keys m)"
begin

lemma invar_put: "invar m \<Longrightarrow> invar (put k v m)"
  by (auto simp: invar_keys keys_put)

lemma invar_empty: "invar empty"
  by (simp add: invar_keys keys_empty)

text \<open>Grouping a list by a key: the loop \<open>group = m.get(k) ?? []; group.push(x); m.set(k, group)\<close>
  in abstract form.\<close>

definition group_step :: "('k \<Rightarrow> 'v \<Rightarrow> 'v) \<Rightarrow> 'v \<Rightarrow> 'k \<Rightarrow> 'm \<Rightarrow> 'm" where
  "group_step f d k m = put k (f k (case get m k of None \<Rightarrow> d | Some v \<Rightarrow> v)) m"

lemma get_group_step_other: "j \<noteq> k \<Longrightarrow> get (group_step f d k m) j = get m j"
  by (simp add: group_step_def get_put)

lemma invar_fold_group: "invar m \<Longrightarrow> invar (fold (group_step f d) ks m)"
  by (induction ks arbitrary: m) (auto simp: group_step_def intro: invar_put)

end

lemma map_get_Nil [simp]: "map_get [] k = None"
  by (simp add: map_get_def)

lemma map_get_set [simp]: "map_get (map_set k v m) j = (if j = k then Some v else map_get m j)"
  by (induction m) (auto simp: map_get_def)

lemma map_get_delete [simp]: "map_get (map_delete k m) j = (if j = k then None else map_get m j)"
  by (induction m) (auto simp: map_get_def map_delete_def)

lemma keys_map_set:
  "map fst (map_set k v m) = (if k \<in> set (map fst m) then map fst m else map fst m @ [k])"
  by (induction m) force+

lemma map_get_keys: "k \<in> set (map fst m) \<longleftrightarrow> map_get m k \<noteq> None"
  unfolding map_get_def by (induction m) auto

interpretation jsm: ordered_map "[]" map_get map_set map_delete "map fst" map_wf
  by unfold_locales (simp_all only: keys_map_set map_get_keys map_wf_def map_get_set map_get_delete
    map_get_Nil list.map)

end
