(* ===== verification/Storage.thy ===== *)
theory Storage
  imports Prelude
begin

text \<open>
  The Web Storage interface (\<open>localStorage\<close>, \<open>sessionStorage\<close>) as the client sees it. Any access
  throws where storage is blocked (privacy modes), and a write also throws when the quota is used up.
  A throwing call is \<open>None\<close>; the clients catch it. The locale \<open>web_storage\<close> is the contract that the
  token, draft, OAuth and theme code rely on.
\<close>

record storage =
  items :: "string \<Rightarrow> string option"
  accessible :: bool
  has_room :: bool

definition get_item :: "storage \<Rightarrow> string \<Rightarrow> string option option" where
  "get_item st k = (if accessible st then Some (items st k) else None)"

definition set_item :: "string \<Rightarrow> string \<Rightarrow> storage \<Rightarrow> storage option" where
  "set_item k v st = (if accessible st \<and> has_room st then Some (st\<lparr>items := (items st)(k \<mapsto> v)\<rparr>) else None)"

definition remove_item :: "string \<Rightarrow> storage \<Rightarrow> storage option" where
  "remove_item k st = (if accessible st then Some (st\<lparr>items := (items st)(k := None)\<rparr>) else None)"

definition empty_storage :: storage where
  "empty_storage = \<lparr>items = Map.empty, accessible = True, has_room = True\<rparr>"

locale web_storage =
  fixes get :: "'s \<Rightarrow> string \<Rightarrow> string option option"
    and put :: "string \<Rightarrow> string \<Rightarrow> 's \<Rightarrow> 's option"
    and del :: "string \<Rightarrow> 's \<Rightarrow> 's option"
  assumes get_put: "put k v s = Some s' \<Longrightarrow> get s' j = (if j = k then Some (Some v) else get s j)"
    and get_del: "del k s = Some s' \<Longrightarrow> get s' j = (if j = k then Some None else get s j)"
    and put_readable: "put k v s = Some s' \<Longrightarrow> get s j \<noteq> None"
    and del_readable: "del k s \<noteq> None \<longleftrightarrow> get s j \<noteq> None"
begin

text \<open>The best-effort write and removal of the clients: a throwing call leaves the storage as it is.\<close>

definition try_put :: "string \<Rightarrow> string \<Rightarrow> 's \<Rightarrow> 's" where
  "try_put k v s = (case put k v s of None \<Rightarrow> s | Some s' \<Rightarrow> s')"

definition try_del :: "string \<Rightarrow> 's \<Rightarrow> 's" where
  "try_del k s = (case del k s of None \<Rightarrow> s | Some s' \<Rightarrow> s')"

text \<open>After a removal the key reads as absent, or nothing is readable at all.\<close>

lemma get_try_del: "get (try_del k s) k = Some None \<or> get (try_del k s) k = None"
proof (cases "del k s")
  case None
  then show ?thesis using del_readable [of k s k] by (simp add: try_del_def)
next
  case (Some s')
  then show ?thesis by (simp add: try_del_def get_del)
qed

lemma get_try_del_other: "j \<noteq> k \<Longrightarrow> get (try_del k s) j = get s j"
  by (auto simp: try_del_def get_del split: option.splits)

lemma get_try_put: "get (try_put k v s) k = Some (Some v) \<or> try_put k v s = s"
  by (auto simp: try_put_def get_put split: option.splits)

lemma get_try_put_other: "j \<noteq> k \<Longrightarrow> get (try_put k v s) j = get s j"
  by (auto simp: try_put_def get_put split: option.splits)

end

interpretation ws: web_storage get_item set_item remove_item
  by unfold_locales (auto simp: get_item_def set_item_def remove_item_def split: if_splits)

definition try_set_item :: "string \<Rightarrow> string \<Rightarrow> storage \<Rightarrow> storage" where
  "try_set_item k v st = (case set_item k v st of None \<Rightarrow> st | Some st' \<Rightarrow> st')"

definition try_remove_item :: "string \<Rightarrow> storage \<Rightarrow> storage" where
  "try_remove_item k st = (case remove_item k st of None \<Rightarrow> st | Some st' \<Rightarrow> st')"

lemma try_items:
  "try_set_item k v st = ws.try_put k v st" "try_remove_item k st = ws.try_del k st"
  by (simp_all add: try_set_item_def try_remove_item_def ws.try_put_def ws.try_del_def)

end
