(* ===== verification/Dates.thy ===== *)
theory Dates
  imports Prelude
begin

text \<open>
  JavaScript's \<open>Date\<close> as a time value in milliseconds since 1970-01-01T00:00:00Z: the proleptic
  Gregorian calendar, \<open>toISOString\<close> and the parsing of that format, which the client uses to keep
  times in \<open>localStorage\<close> and in draft entries. A parsed string in any other format counts as an
  invalid date.
\<close>

type_synonym date = int

section \<open>The calendar\<close>

text \<open>Days are counted in eras of 400 years that start on 1 March of year 0, so that the leap day is
  the last day of its year; \<open>719468\<close> is the number of days from there to the epoch.\<close>

definition civil :: "int \<Rightarrow> int \<times> int \<times> int" where
  "civil n =
     (let z = n + 719468; era = z div 146097; doe = z mod 146097;
          c = min (doe div 36524) 3; r = doe - 36524 * c;
          q = r div 1461; r2 = r mod 1461;
          y = min (r2 div 365) 3; doy = r2 - 365 * y;
          mp = (5 * doy + 2) div 153;
          d = doy - (153 * mp + 2) div 5 + 1;
          m = (if mp < 10 then mp + 3 else mp - 9)
      in (400 * era + 100 * c + 4 * q + y + (if m \<le> 2 then 1 else 0), m, d))"

definition days_of :: "int \<Rightarrow> int \<Rightarrow> int \<Rightarrow> int" where
  "days_of y m d =
     (let yy = (if m \<le> 2 then y - 1 else y); era = yy div 400; yoe = yy mod 400;
          mp = (if m > 2 then m - 3 else m + 9)
      in 146097 * era + 36524 * (yoe div 100) + 1461 * (yoe mod 100 div 4) + 365 * (yoe mod 4)
         + (153 * mp + 2) div 5 + d - 1 - 719468)"

section \<open>Printing and parsing\<close>

definition digit_char :: "nat \<Rightarrow> char" where
  [js_defs]: "digit_char n = char_of (48 + n)"

definition digit_val :: "char \<Rightarrow> nat" where
  [js_defs]: "digit_val c = code c - 48"

text \<open>Decimal digits padded with zeros to a width, and their value.\<close>

fun padded :: "nat \<Rightarrow> nat \<Rightarrow> string" where
  "padded 0 n = []"
| "padded (Suc w) n = padded w (n div 10) @ [digit_char (n mod 10)]"

definition digits_val :: "string \<Rightarrow> nat" where
  [js_defs]: "digits_val s = foldl (\<lambda>a c. 10 * a + digit_val c) 0 s"

definition iso_year :: "int \<Rightarrow> string" where
  "iso_year y =
     (if 0 \<le> y \<and> y \<le> 9999 then padded 4 (nat y)
      else (if y < 0 then ''-'' else ''+'') @ padded 6 (nat \<bar>y\<bar>))"

definition to_iso :: "date \<Rightarrow> string" where
  "to_iso t =
     (let (y, m, d) = civil (t div 86400000); s = t mod 86400000
      in iso_year y @ ''-'' @ padded 2 (nat m) @ ''-'' @ padded 2 (nat d) @ ''T''
         @ padded 2 (nat (s div 3600000)) @ '':'' @ padded 2 (nat (s mod 3600000 div 60000)) @ '':''
         @ padded 2 (nat (s mod 60000 div 1000)) @ ''.'' @ padded 3 (nat (s mod 1000)) @ ''Z'')"

text \<open>The fields of a string in the ISO format, read at their positions behind the year.\<close>

definition iso_fields :: "string \<Rightarrow> date" where
  "iso_fields s =
     (let signed = starts_with s ''-'' \<or> starts_with s ''+'';
          n = (if signed then 7 else 4);
          y = int (digits_val (if signed then slice 1 7 s else slice 0 4 s));
          r = drop n s;
          num = (\<lambda>a b. int (digits_val (slice a b r)))
      in 86400000 * days_of (if starts_with s ''-'' then - y else y) (num 1 3) (num 4 6)
         + 3600000 * num 7 9 + 60000 * num 10 12 + 1000 * num 13 15 + num 16 19)"

definition parse_iso :: "string \<Rightarrow> date option" where
  "parse_iso s = (let t = iso_fields s in if to_iso t = s then Some t else None)"

text \<open>The time values of a valid \<open>Date\<close>: at most 100 million days from the epoch.\<close>

definition valid_date :: "date \<Rightarrow> bool" where
  "valid_date t \<longleftrightarrow> \<bar>t\<bar> \<le> 8640000000000000"

section \<open>The calendar is a bijection\<close>

lemma civil_days_of:
  assumes "civil n = (y, m, d)"
  shows "days_of y m d = n" "1 \<le> m" "m \<le> 12" "1 \<le> d" "d \<le> 31"
proof -
  define z where "z = n + 719468"
  define doe where "doe = z mod 146097"
  define c where "c = min (doe div 36524) 3"
  define r where "r = doe - 36524 * c"
  define q where "q = r div 1461"
  define r2 where "r2 = r mod 1461"
  define y0 where "y0 = min (r2 div 365) 3"
  define doy where "doy = r2 - 365 * y0"
  define mp where "mp = (5 * doy + 2) div 153"
  have doe: "0 \<le> doe" "doe < 146097" by (simp_all add: doe_def)
  have c: "0 \<le> c" "c \<le> 3" "0 \<le> r" "r \<le> 36524"
    using doe by (auto simp: c_def r_def min_def)
  have q: "0 \<le> q" "q \<le> 24" "0 \<le> r2" "r2 < 1461" "r = 1461 * q + r2"
    using c by (auto simp: q_def r2_def)
  have y0: "0 \<le> y0" "y0 \<le> 3" "0 \<le> doy" "doy < 366"
    using q by (auto simp: y0_def doy_def min_def)
  have mp: "0 \<le> mp" "mp \<le> 11" using y0 unfolding mp_def by linarith+
  have dd: "1 \<le> doy - (153 * mp + 2) div 5 + 1" "doy - (153 * mp + 2) div 5 + 1 \<le> 31"
    using y0 unfolding mp_def by linarith+
  have cv: "civil n = (400 * (z div 146097) + 100 * c + 4 * q + y0 +
      (if (if mp < 10 then mp + 3 else mp - 9) \<le> 2 then 1 else 0),
      if mp < 10 then mp + 3 else mp - 9, doy - (153 * mp + 2) div 5 + 1)"
    by (simp only: civil_def Let_def z_def doe_def c_def r_def q_def r2_def y0_def doy_def mp_def)
  then have eq: "y = 400 * (z div 146097) + 100 * c + 4 * q + y0 + (if m \<le> 2 then 1 else 0)"
    "m = (if mp < 10 then mp + 3 else mp - 9)" "d = doy - (153 * mp + 2) div 5 + 1"
    using assms by (simp_all only: prod.inject)
  define yoe where "yoe = 100 * c + 4 * q + y0"
  have e1: "yoe = (4 * q + y0) + c * 100" and e2: "yoe = y0 + (25 * c + q) * 4"
    by (simp_all add: yoe_def)
  have s: "0 \<le> 4 * q + y0" "4 * q + y0 < 100" using q y0 by auto
  have "yoe div 100 = c" "yoe mod 100 = 4 * q + y0"
    unfolding e1 using s by simp_all
  moreover have "(y0 + q * 4) div 4 = q" using y0 by (subst div_mult_self1) auto
  moreover have "yoe mod 4 = y0" unfolding e2 using y0 by (subst mod_mult_self1) auto
  ultimately have yoe: "yoe div 100 = c" "yoe mod 100 div 4 = q" "yoe mod 4 = y0" "0 \<le> yoe" "yoe < 400"
    using c q y0 by (auto simp: yoe_def algebra_simps)
  show "1 \<le> m" "m \<le> 12" "1 \<le> d" "d \<le> 31" using eq mp dd by auto
  have yy: "(if m \<le> 2 then y - 1 else y) = 400 * (z div 146097) + yoe"
    using eq by (simp add: yoe_def)
  have mpe: "(if m > 2 then m - 3 else m + 9) = mp" using eq mp by auto
  have "days_of y m d = 146097 * (z div 146097) + 36524 * c + 1461 * q + 365 * y0
      + (153 * mp + 2) div 5 + d - 1 - 719468"
    using yoe by (simp add: days_of_def Let_def yy mpe)
  also have "\<dots> = 146097 * (z div 146097) + doe - 719468"
    using eq(3) q(5) by (simp add: doy_def r_def)
  also have "\<dots> = n" by (simp add: doe_def z_def)
  finally show "days_of y m d = n" .
qed

lemma length_padded [simp]: "length (padded w n) = w"
  by (induction w arbitrary: n) auto

lemma digit_val_char: "n < 10 \<Longrightarrow> digit_val (digit_char n) = n"
  by (simp add: digit_val_def digit_char_def code_def)

lemma digits_val_padded: "n < 10 ^ w \<Longrightarrow> digits_val (padded w n) = n"
proof (induction w arbitrary: n)
  case 0
  then show ?case by (simp add: digits_val_def)
next
  case (Suc w)
  then have "digits_val (padded w (n div 10)) = n div 10" by (simp add: less_mult_imp_div_less mult.commute)
  then show ?case by (simp add: digits_val_def digit_val_char)
qed

lemma padded_digit: "c \<in> set (padded w n) \<Longrightarrow> is_digit c"
proof (induction w arbitrary: n)
  case (Suc w)
  have "is_digit (digit_char (n mod 10))"
    by (simp add: is_digit_def digit_char_def code_def)
  with Suc show ?case by auto
qed simp

lemma iso_year_head:
  "starts_with (iso_year y @ r) ''-'' \<longleftrightarrow> y < 0"
  "starts_with (iso_year y @ r) ''+'' \<longleftrightarrow> 9999 < y"
proof -
  obtain c u where cu: "padded 4 (nat y) = c # u"
    by (cases "padded 4 (nat y)") (auto dest: arg_cong [where f = length])
  then have "is_digit c" using padded_digit [of c 4 "nat y"] by simp
  moreover have "\<not> is_digit (CHR ''-'')" "\<not> is_digit (CHR ''+'')" by code_simp+
  ultimately have "c \<noteq> CHR ''-''" "c \<noteq> CHR ''+''" by metis+
  with cu show "starts_with (iso_year y @ r) ''-'' \<longleftrightarrow> y < 0"
    "starts_with (iso_year y @ r) ''+'' \<longleftrightarrow> 9999 < y"
    by (auto simp: iso_year_def starts_with_def)
qed

lemma civil_year_bound:
  assumes "civil n = (y, m, d)" "\<bar>n\<bar> \<le> 100000000"
  shows "\<bar>y\<bar> < 1000000"
proof -
  define yy where "yy = (if m \<le> 2 then y - 1 else y)"
  define mp where "mp = (if m > 2 then m - 3 else m + 9)"
  note cd = civil_days_of [OF assms(1)]
  have n: "n = 146097 * (yy div 400) + 36524 * (yy mod 400 div 100) + 1461 * (yy mod 400 mod 100 div 4)
      + 365 * (yy mod 400 mod 4) + (153 * mp + 2) div 5 + d - 1 - 719468"
    using cd(1) [symmetric] by (simp only: days_of_def Let_def yy_def mp_def)
  have r: "0 \<le> yy mod 400" "yy mod 400 < 400" by simp_all
  have mp: "0 \<le> mp" "mp \<le> 11" using cd(2,3) by (auto simp: mp_def)
  define A where "A = yy div 400"
  define B where "B = yy mod 400 div 100"
  define C where "C = yy mod 400 mod 100 div 4"
  define D where "D = yy mod 400 mod 4"
  define E where "E = (153 * mp + 2) div 5"
  have "0 \<le> E" "E \<le> 400" using mp unfolding E_def by linarith+
  moreover have "0 \<le> B" "B \<le> 3" using r unfolding B_def by linarith+
  moreover have "0 \<le> C" "C \<le> 24" "0 \<le> D" "D \<le> 3" unfolding C_def D_def by linarith+
  moreover have "n = 146097 * A + 36524 * B + 1461 * C + 365 * D + E + d - 1 - 719468"
    using n by (simp only: A_def B_def C_def D_def E_def)
  ultimately have "\<bar>A\<bar> \<le> 700" using cd(4,5) assms(2) by linarith
  moreover have "yy = 400 * A + yy mod 400" by (simp add: A_def)
  ultimately have "\<bar>yy\<bar> \<le> 281000" using r by linarith
  then show ?thesis by (auto simp: yy_def split: if_splits)
qed

lemma sum_chain: "(a::int) = x + b \<Longrightarrow> b = y + c \<Longrightarrow> c = z + e \<Longrightarrow> x + y + z + e = a"
  by simp

lemma sum_shift: "x + y + z + e = (a::int) \<Longrightarrow> q + a = t \<Longrightarrow> q + x + y + z + e = t"
  by simp

lemma clock_split:
  fixes s :: int
  shows "3600000 * (s div 3600000) + 60000 * (s mod 3600000 div 60000) + 1000 * (s mod 60000 div 1000)
      + s mod 1000 = s"
proof -
  have "s mod 3600000 mod 60000 = s mod 60000" "s mod 60000 mod 1000 = s mod 1000"
    by (simp_all add: mod_mod_cancel)
  then have "s mod 3600000 = 60000 * (s mod 3600000 div 60000) + s mod 60000"
    "s mod 60000 = 1000 * (s mod 60000 div 1000) + s mod 1000"
    by (metis mult_div_mod_eq)+
  then show ?thesis by (intro sum_chain [where b = "s mod 3600000" and c = "s mod 60000"]) simp_all
qed

lemma nat_bound: "x < numeral k \<Longrightarrow> nat x < numeral k"
  by (cases "0 \<le> x") (auto simp: nat_less_iff)

lemma iso_slices:
  assumes "r = ''-'' @ padded 2 m @ ''-'' @ padded 2 d @ ''T'' @ padded 2 h @ '':'' @ padded 2 mi @ '':''
      @ padded 2 se @ ''.'' @ padded 3 ms @ ''Z''"
    and "m < 100" "d < 100" "h < 100" "mi < 100" "se < 100" "ms < 1000"
  shows "digits_val (slice 1 3 r) = m" "digits_val (slice 4 6 r) = d" "digits_val (slice 7 9 r) = h"
    "digits_val (slice 10 12 r) = mi" "digits_val (slice 13 15 r) = se" "digits_val (slice 16 19 r) = ms"
  using assms by (simp_all add: slice_def digits_val_padded)

text \<open>Printing a valid date and reading it back gives the same time value.\<close>

lemma parse_to_iso [simp]:
  assumes "valid_date t"
  shows "parse_iso (to_iso t) = Some t"
proof -
  obtain y m d where ymd: "civil (t div 86400000) = (y, m, d)" by (cases "civil (t div 86400000)") auto
  define s where "s = t mod 86400000"
  define r where "r = ''-'' @ padded 2 (nat m) @ ''-'' @ padded 2 (nat d) @ ''T''
         @ padded 2 (nat (s div 3600000)) @ '':'' @ padded 2 (nat (s mod 3600000 div 60000)) @ '':''
         @ padded 2 (nat (s mod 60000 div 1000)) @ ''.'' @ padded 3 (nat (s mod 1000)) @ ''Z''"
  note cd = civil_days_of [OF ymd]
  have n: "\<bar>t div 86400000\<bar> \<le> 100000000" using assms unfolding valid_date_def by linarith
  note yb = civil_year_bound [OF ymd n]
  have s: "0 \<le> s" "s < 86400000" by (simp_all add: s_def)
  have iso: "to_iso t = iso_year y @ r"
    by (simp only: to_iso_def ymd s_def r_def Let_def prod.case)
  have b: "s div 3600000 < 100" "s mod 3600000 div 60000 < 100" "s mod 60000 div 1000 < 100" "s mod 1000 < 1000"
    "0 \<le> s div 3600000" "0 \<le> s mod 3600000 div 60000" "0 \<le> s mod 60000 div 1000" "0 \<le> s mod 1000"
    using s by linarith+
  have md100: "m < 100" "d < 100" using cd by linarith+
  have slices: "digits_val (slice 1 3 r) = nat m" "digits_val (slice 4 6 r) = nat d"
    "digits_val (slice 7 9 r) = nat (s div 3600000)" "digits_val (slice 10 12 r) = nat (s mod 3600000 div 60000)"
    "digits_val (slice 13 15 r) = nat (s mod 60000 div 1000)" "digits_val (slice 16 19 r) = nat (s mod 1000)"
    by (rule iso_slices [OF r_def]; rule nat_bound; rule b md100)+
  have md: "int (digits_val (slice 1 3 r)) = m" "int (digits_val (slice 4 6 r)) = d"
    unfolding slices using cd by simp_all
  have hms: "int (digits_val (slice 7 9 r)) = s div 3600000"
    "int (digits_val (slice 10 12 r)) = s mod 3600000 div 60000"
    "int (digits_val (slice 13 15 r)) = s mod 60000 div 1000"
    "int (digits_val (slice 16 19 r)) = s mod 1000"
    unfolding slices by (rule nat_0_le; rule b)+
  have "86400000 * (t div 86400000) + s = t" by (simp add: s_def)
  then have fields: "86400000 * days_of y m d + 3600000 * int (digits_val (slice 7 9 r))
      + 60000 * int (digits_val (slice 10 12 r)) + 1000 * int (digits_val (slice 13 15 r))
      + int (digits_val (slice 16 19 r)) = t"
    unfolding hms cd(1) by (rule sum_shift [OF clock_split])
  have "iso_fields (to_iso t) = t"
  proof (cases "0 \<le> y \<and> y \<le> 9999")
    case True
    then have "drop 4 (to_iso t) = r" "int (digits_val (slice 0 4 (to_iso t))) = y"
      unfolding iso by (simp_all add: iso_year_def slice_def digits_val_padded nat_less_iff)
    with True md fields show ?thesis
      unfolding iso_fields_def Let_def iso iso_year_head by simp
  next
    case False
    then have "drop 7 (to_iso t) = r" "int (digits_val (slice 1 7 (to_iso t))) = \<bar>y\<bar>"
      using yb unfolding iso by (auto simp: iso_year_def slice_def digits_val_padded nat_less_iff)
    with False md fields show ?thesis
      unfolding iso_fields_def Let_def iso iso_year_head by auto
  qed
  then show ?thesis by (simp add: parse_iso_def)
qed

lemma to_iso_not_Nil [simp]: "to_iso t \<noteq> []"
  by (simp add: to_iso_def Let_def split_def)

end
