(* ===== verification/Percent.thy ===== *)
theory Percent
  imports Prelude
begin

text \<open>
  Percent-encoding as the client uses it: \<open>encodeURIComponent\<close>/\<open>decodeURIComponent\<close> (filter queries)
  and the \<open>application/x-www-form-urlencoded\<close> serializer and parser of \<open>URLSearchParams\<close> (the auth
  route). Both encoders satisfy the locale \<open>char_codec\<close>, which carries the round trip.
\<close>

section \<open>Bytes\<close>

definition hex_digit :: "nat \<Rightarrow> char" where
  [js_defs]: "hex_digit n = ''0123456789ABCDEF'' ! n"

definition unhex :: "char \<Rightarrow> nat option" where
  [js_defs]: "unhex c =
     (if is_digit c then Some (code c - 48)
      else if 65 \<le> code c \<and> code c \<le> 70 then Some (code c - 55)
      else if 97 \<le> code c \<and> code c \<le> 102 then Some (code c - 87) else None)"

text \<open>UTF-8 of a code point of the modelled range: one byte or two.\<close>

definition utf8 :: "char \<Rightarrow> nat list" where
  [js_defs]: "utf8 c = (if code c < 128 then [code c] else [192 + code c div 64, 128 + code c mod 64])"

definition pct :: "nat \<Rightarrow> string" where
  [js_defs]: "pct b = [CHR ''%'', hex_digit (b div 16), hex_digit (b mod 16)]"

definition pct_char :: "char \<Rightarrow> string" where
  [js_defs]: "pct_char c = concat (map pct (utf8 c))"

text \<open>One percent-encoded byte at the front of the input.\<close>

fun take_byte :: "string \<Rightarrow> (nat \<times> string) option" where
  "take_byte (p # h # l # r) =
     (if p = CHR ''%'' then
        (case (unhex h, unhex l) of (Some a, Some b) \<Rightarrow> Some (16 * a + b, r) | _ \<Rightarrow> None)
      else None)"
| "take_byte _ = None"

lemma take_byte_length: "take_byte s = Some (b, r) \<Longrightarrow> length r < length s"
  by (induction s rule: take_byte.induct) (auto split: if_splits option.splits)

text \<open>
  Decoding. A percent sign that starts no byte is an error for \<open>decodeURIComponent\<close> and stands for
  itself in the form parser (\<open>lenient\<close>). \<open>None\<close> is the \<open>URIError\<close> of malformed input, or a code point
  beyond the modelled range.
\<close>

function pct_decode :: "bool \<Rightarrow> string \<Rightarrow> string option" where
  "pct_decode lenient [] = Some []"
| "pct_decode lenient (c # s) =
     (if c \<noteq> CHR ''%'' then map_option (Cons c) (pct_decode lenient s)
      else (case take_byte (c # s) of
        None \<Rightarrow> if lenient then map_option (Cons c) (pct_decode lenient s) else None
      | Some (b, r) \<Rightarrow>
          if b < 128 then map_option (Cons (char_of b)) (pct_decode lenient r)
          else if b = 194 \<or> b = 195 then
            (case take_byte r of
              None \<Rightarrow> None
            | Some (b2, r2) \<Rightarrow>
                if 128 \<le> b2 \<and> b2 < 192
                then map_option (Cons (char_of ((b - 192) * 64 + (b2 - 128)))) (pct_decode lenient r2)
                else None)
          else None))"
  by pat_completeness auto
termination
  by (relation "measure (\<lambda>(l, s). length s)")
    (auto dest!: take_byte_length simp del: take_byte.simps)

section \<open>The two encoders\<close>

definition uri_keep :: "char \<Rightarrow> bool" where
  [js_defs]: "uri_keep c \<longleftrightarrow> is_alpha c \<or> is_digit c \<or> c \<in> set ''-_.!~*'' \<or> code c \<in> {39, 40, 41}"

definition uri_enc :: "char \<Rightarrow> string" where
  [js_defs]: "uri_enc c = (if uri_keep c then [c] else pct_char c)"

definition encode_uri_component :: "string \<Rightarrow> string" where
  [js_defs]: "encode_uri_component s = concat (map uri_enc s)"

definition decode_uri_component :: "string \<Rightarrow> string option" where
  [js_defs]: "decode_uri_component s = pct_decode False s"

definition form_keep :: "char \<Rightarrow> bool" where
  [js_defs]: "form_keep c \<longleftrightarrow> is_alpha c \<or> is_digit c \<or> c \<in> set ''*-._''"

definition form_enc :: "char \<Rightarrow> string" where
  [js_defs]: "form_enc c = (if c = CHR '' '' then ''+'' else if form_keep c then [c] else pct_char c)"

definition form_encode :: "string \<Rightarrow> string" where
  [js_defs]: "form_encode s = concat (map form_enc s)"

definition plus_to_space :: "char \<Rightarrow> char" where
  [js_defs]: "plus_to_space c = (if c = CHR ''+'' then CHR '' '' else c)"

definition form_decode :: "string \<Rightarrow> string option" where
  [js_defs]: "form_decode s = pct_decode True (map plus_to_space s)"

text \<open>\<open>URLSearchParams\<close>: a list of name-value pairs; \<open>toString\<close> and the constructor on a query string
  (without its leading question mark); \<open>get\<close> is the first value of a name.\<close>

definition search_to_string :: "(string \<times> string) list \<Rightarrow> string" where
  [js_defs]: "search_to_string ps = join ''&'' (map (\<lambda>(k, v). form_encode k @ ''='' @ form_encode v) ps)"

definition search_pair :: "string \<Rightarrow> (string \<times> string) option" where
  [js_defs]: "search_pair s =
     (let k = takeWhile (\<lambda>c. c \<noteq> CHR ''='') s; v = drop (Suc (length k)) s
      in case (form_decode k, form_decode v) of (Some a, Some b) \<Rightarrow> Some (a, b) | _ \<Rightarrow> None)"

definition search_parse :: "string \<Rightarrow> (string \<times> string) option list" where
  [js_defs]: "search_parse q = map search_pair (filter (\<lambda>s. s \<noteq> []) (split_on (CHR ''&'') q))"

definition search_get :: "string \<Rightarrow> string \<Rightarrow> string option" where
  [js_defs]: "search_get q name =
     (case find (\<lambda>p. map_option fst p = Some name) (search_parse q) of
        Some (Some (k, v)) \<Rightarrow> Some v | _ \<Rightarrow> None)"

section \<open>Round trips\<close>

locale char_codec =
  fixes enc :: "char \<Rightarrow> string"
    and dec :: "string \<Rightarrow> string option"
    and safe :: "char \<Rightarrow> bool"
  assumes dec_Nil: "dec [] = Some []"
    and dec_enc: "dec (enc c @ s) = map_option (Cons c) (dec s)"
    and enc_safe: "x \<in> set (enc c) \<Longrightarrow> safe x"
    and enc_not_Nil: "enc c \<noteq> []"
begin

lemma dec_concat: "dec (concat (map enc s)) = Some s"
  by (induction s) (simp_all add: dec_Nil dec_enc)

lemma concat_safe: "x \<in> set (concat (map enc s)) \<Longrightarrow> safe x"
  by (auto intro: enc_safe)

lemma concat_Nil_iff: "concat (map enc s) = [] \<longleftrightarrow> s = []"
  by (cases s) (auto simp: enc_not_Nil)

lemma concat_inject: "concat (map enc s) = concat (map enc t) \<longleftrightarrow> s = t"
  by (metis dec_concat option.inject)

end

lemma code_less: "code c < 256"
  unfolding code_def by (metis nat_of_char_less_256)

lemma char_of_code: "char_of (code c) = c"
  by (simp add: code_def)

lemma unhex_hex_digit: "n < 16 \<Longrightarrow> unhex (hex_digit n) = Some n"
proof -
  have "\<forall>n \<in> set [0..<16]. unhex (hex_digit n) = Some n" by code_simp
  then show "n < 16 \<Longrightarrow> unhex (hex_digit n) = Some n" by auto
qed

lemma hex_digit_alnum: "n < 16 \<Longrightarrow> is_alpha (hex_digit n) \<or> is_digit (hex_digit n)"
proof -
  have "\<forall>n \<in> set [0..<16]. is_alpha (hex_digit n) \<or> is_digit (hex_digit n)" by code_simp
  then show "n < 16 \<Longrightarrow> is_alpha (hex_digit n) \<or> is_digit (hex_digit n)" by auto
qed

lemma take_byte_pct: "b < 256 \<Longrightarrow> take_byte (pct b @ s) = Some (b, s)"
  by (simp add: pct_def unhex_hex_digit)

lemma pct_decode_pct_char: "pct_decode l (pct_char c @ s) = map_option (Cons c) (pct_decode l s)"
proof (cases "code c < 128")
  case True
  then have "take_byte (pct_char c @ s) = Some (code c, s)"
    using take_byte_pct [of "code c" s] by (simp add: pct_char_def utf8_def)
  with True show ?thesis
    by (simp add: pct_char_def utf8_def pct_def char_of_code)
next
  case False
  let ?a = "192 + code c div 64" and ?b = "128 + code c mod 64"
  have a: "?a = 194 \<or> ?a = 195" using False code_less [of c] by auto
  have b: "128 \<le> ?b" "?b < 192" by auto
  have t: "take_byte (pct ?a @ pct ?b @ s) = Some (?a, pct ?b @ s)" "take_byte (pct ?b @ s) = Some (?b, s)"
    using a b by (intro take_byte_pct; force)+
  have e: "(?a - 192) * 64 + (?b - 128) = code c" by simp
  from t a b e False show ?thesis
    by (simp add: pct_char_def utf8_def pct_def char_of_code)
qed

lemma set_pct: "x \<in> set (pct b) \<Longrightarrow> b < 256 \<Longrightarrow> x = CHR ''%'' \<or> is_alpha x \<or> is_digit x"
  using hex_digit_alnum [of "b div 16"] hex_digit_alnum [of "b mod 16"] by (auto simp: pct_def)

lemma set_pct_char: "x \<in> set (pct_char c) \<Longrightarrow> x = CHR ''%'' \<or> is_alpha x \<or> is_digit x"
proof -
  have "b \<in> set (utf8 c) \<Longrightarrow> b < 256" for b
    using code_less [of c] by (auto simp: utf8_def split: if_splits)
  then show "x \<in> set (pct_char c) \<Longrightarrow> x = CHR ''%'' \<or> is_alpha x \<or> is_digit x"
    by (auto simp: pct_char_def dest: set_pct)
qed

lemma pct_char_not_Nil: "pct_char c \<noteq> []"
  by (simp add: pct_char_def utf8_def pct_def)

lemma uri_keep_not_pct: "\<not> uri_keep (CHR ''%'')"
  by code_simp

lemma form_keep_not_pct: "\<not> form_keep (CHR ''%'')"
  by code_simp

lemma form_keep_not_plus: "\<not> form_keep (CHR ''+'')"
  by code_simp

interpretation uri: char_codec uri_enc decode_uri_component "\<lambda>x. x = CHR ''%'' \<or> uri_keep x"
proof unfold_locales
  show "decode_uri_component [] = Some []"
    by (simp add: decode_uri_component_def)
  show "decode_uri_component (uri_enc c @ s) = map_option (Cons c) (decode_uri_component s)" for c s
    using uri_keep_not_pct by (auto simp: decode_uri_component_def uri_enc_def pct_decode_pct_char)
  show "x \<in> set (uri_enc c) \<Longrightarrow> x = CHR ''%'' \<or> uri_keep x" for x c
    by (auto simp: uri_enc_def uri_keep_def dest: set_pct_char split: if_splits)
  show "uri_enc c \<noteq> []" for c
    by (simp add: uri_enc_def pct_char_not_Nil)
qed

lemma plus_to_space_alnum: "x = CHR ''%'' \<or> is_alpha x \<or> is_digit x \<Longrightarrow> plus_to_space x = x"
  by (auto simp: plus_to_space_def is_alpha_def is_digit_def code_def)

lemma form_keep_plus: "form_keep x \<Longrightarrow> plus_to_space x = x"
  by (auto simp: plus_to_space_def form_keep_def is_alpha_def is_digit_def code_def)

lemma map_plus_pct_char: "map plus_to_space (pct_char c) = pct_char c"
  by (rule map_idI) (blast dest: set_pct_char intro: plus_to_space_alnum)

interpretation form: char_codec form_enc form_decode "\<lambda>x. x \<in> {CHR ''%'', CHR ''+''} \<or> form_keep x"
proof unfold_locales
  show "form_decode [] = Some []"
    by (simp add: form_decode_def)
  show "form_decode (form_enc c @ s) = map_option (Cons c) (form_decode s)" for c s
    using form_keep_not_pct form_keep_not_plus
    by (auto simp: form_decode_def form_enc_def pct_decode_pct_char map_plus_pct_char form_keep_plus
        plus_to_space_def)
  show "x \<in> set (form_enc c) \<Longrightarrow> x \<in> {CHR ''%'', CHR ''+''} \<or> form_keep x" for x c
    by (auto simp: form_enc_def form_keep_def dest: set_pct_char split: if_splits)
  show "form_enc c \<noteq> []" for c
    by (simp add: form_enc_def pct_char_not_Nil)
qed

lemmas form_encode_safe = form.concat_safe [folded form_encode_def]
lemmas form_decode_encode [simp] = form.dec_concat [folded form_encode_def]

lemma form_encode_no_amp: "CHR ''&'' \<notin> set (form_encode s)"
proof
  assume "CHR ''&'' \<in> set (form_encode s)"
  from form_encode_safe [OF this] show False
    by (auto simp: form_keep_def is_alpha_def is_digit_def code_def)
qed

lemma form_encode_no_eq: "CHR ''='' \<notin> set (form_encode s)"
proof
  assume "CHR ''='' \<in> set (form_encode s)"
  from form_encode_safe [OF this] show False
    by (auto simp: form_keep_def is_alpha_def is_digit_def code_def)
qed

lemma search_pair_enc: "search_pair (form_encode k @ ''='' @ form_encode v) = Some (k, v)"
proof -
  have "takeWhile (\<lambda>c. c \<noteq> CHR ''='') (form_encode k @ ''='' @ form_encode v) = form_encode k"
    using form_encode_no_eq [of k] by (subst takeWhile_append2) auto
  then show ?thesis by (simp add: search_pair_def)
qed

text \<open>Parsing what \<open>toString\<close> printed gives back every pair in order.\<close>

lemma search_parse_to_string: "search_parse (search_to_string ps) = map Some ps"
proof (cases "ps = []")
  case True
  then show ?thesis by (simp add: search_parse_def search_to_string_def)
next
  case False
  let ?f = "\<lambda>(k, v). form_encode k @ ''='' @ form_encode v"
  have "split_on (CHR ''&'') (join ''&'' (map ?f ps)) = map ?f ps"
    using False form_encode_no_amp by (intro split_on_join) auto
  moreover have "filter (\<lambda>s. s \<noteq> []) (map ?f ps) = map ?f ps"
    by (rule filter_True) auto
  ultimately show ?thesis
    using search_pair_enc by (auto simp: search_parse_def search_to_string_def)
qed

lemma search_get_to_string: "search_get (search_to_string ps) name = map_of ps name"
proof -
  have "(case find (\<lambda>p. map_option fst p = Some name) (map Some ps) of
      Some (Some (k, v)) \<Rightarrow> Some v | _ \<Rightarrow> None) = map_of ps name"
    by (induction ps) auto
  then show ?thesis by (simp add: search_get_def search_parse_to_string)
qed

end
