(* ===== verification/Redirect.thy ===== *)
theory Redirect
  imports Percent
begin

text \<open>
  The pure part of the auth redirects, \<open>web/src/utils/redirect-safety.ts\<close>, over the route table
  \<open>web/src/router/routes.ts\<close>: which paths a sign-in may return to, and the URL of the auth page that
  carries such a path in its query.
\<close>

section \<open>Routes\<close>

definition ROUTES_HOME :: string where "ROUTES_HOME = ''/''"
definition ROUTES_ABOUT :: string where "ROUTES_ABOUT = ''/about''"
definition ROUTES_EXPLORE :: string where "ROUTES_EXPLORE = ''/explore''"
definition ROUTES_AUTH :: string where "ROUTES_AUTH = ''/auth''"
definition ROUTES_SHARED_MEMO :: string where "ROUTES_SHARED_MEMO = ''/memos/shares''"

lemmas routes_defs = ROUTES_HOME_def ROUTES_ABOUT_def ROUTES_EXPLORE_def ROUTES_AUTH_def ROUTES_SHARED_MEMO_def

definition AUTH_REDIRECT_PARAM :: string where "AUTH_REDIRECT_PARAM = ''redirect''"
definition AUTH_REASON_PARAM :: string where "AUTH_REASON_PARAM = ''reason''"

section \<open>Redirect targets\<close>

definition getSafeRedirectPath :: "string option \<Rightarrow> string option" where
  "getSafeRedirectPath path =
     (case path of
        None \<Rightarrow> None
      | Some p \<Rightarrow>
          if p = [] then None
          else if \<not> starts_with p ''/'' \<or> starts_with p ''//'' then None
          else if p = ROUTES_AUTH \<or> starts_with p (ROUTES_AUTH @ ''/'') \<or> starts_with p (ROUTES_AUTH @ ''?'')
          then None
          else Some p)"

text \<open>\<open>options\<close> is split into its two fields; an absent \<open>options\<close> is two absent fields.\<close>

definition auth_params :: "string option \<Rightarrow> string option \<Rightarrow> (string \<times> string) list" where
  "auth_params redirect reason =
     (let ps = (case getSafeRedirectPath redirect of Some p \<Rightarrow> [(AUTH_REDIRECT_PARAM, p)] | None \<Rightarrow> [])
      in if truthy reason then map_set AUTH_REASON_PARAM (the reason) ps else ps)"

definition buildAuthRoute :: "string option \<Rightarrow> string option \<Rightarrow> string" where
  "buildAuthRoute redirect reason =
     (let search = search_to_string (auth_params redirect reason)
      in if search \<noteq> [] then ROUTES_AUTH @ ''?'' @ search else ROUTES_AUTH)"

definition PUBLIC_ROUTE_PREFIXES :: "string list" where
  "PUBLIC_ROUTE_PREFIXES =
     [ROUTES_AUTH, ROUTES_ABOUT, ROUTES_EXPLORE, ROUTES_SHARED_MEMO @ ''/'', ''/u/'', ''/memos/'']"

definition isPublicRoute :: "string \<Rightarrow> bool" where
  "isPublicRoute path \<longleftrightarrow> list_ex (\<lambda>route. starts_with path route) PUBLIC_ROUTE_PREFIXES"

section \<open>Properties\<close>

text \<open>The first segment of a path, up to the next slash, query or fragment.\<close>

definition first_segment :: "string \<Rightarrow> string" where
  "first_segment p = takeWhile (\<lambda>c. c \<notin> set ''/?#'') (drop 1 p)"

lemma getSafeRedirectPath_Some_iff:
  "getSafeRedirectPath path = Some p \<longleftrightarrow>
     path = Some p \<and> starts_with p ''/'' \<and> \<not> starts_with p ''//'' \<and> p \<noteq> ''/auth'' \<and>
     \<not> starts_with p ''/auth/'' \<and> \<not> starts_with p ''/auth?''"
  by (auto simp: getSafeRedirectPath_def ROUTES_AUTH_def starts_with_def split: option.splits)

lemma getSafeRedirectPath_idem: "getSafeRedirectPath (getSafeRedirectPath path) = getSafeRedirectPath path"
proof (cases "getSafeRedirectPath path")
  case None
  then show ?thesis by (simp only: None) (simp add: getSafeRedirectPath_def)
next
  case (Some p)
  then have "path = Some p" by (simp add: getSafeRedirectPath_Some_iff)
  with Some show ?thesis by simp
qed

lemma auth_params_get:
  "map_of (auth_params redirect reason) AUTH_REDIRECT_PARAM = getSafeRedirectPath redirect"
  "map_of (auth_params redirect reason) AUTH_REASON_PARAM = (if truthy reason then reason else None)"
  by (auto simp: auth_params_def AUTH_REDIRECT_PARAM_def AUTH_REASON_PARAM_def truthy_def Let_def
      split: option.splits)

lemma search_to_string_Nil: "search_to_string ps = [] \<longleftrightarrow> ps = []"
proof
  assume "search_to_string ps = []"
  then have "map Some ps = []"
    by (metis search_parse_to_string search_to_string_def list.simps(8) join.simps(1))
  then show "ps = []" by simp
qed (simp add: search_to_string_def)

lemma buildAuthRoute_params:
  "buildAuthRoute redirect reason =
     (if auth_params redirect reason = [] then ''/auth''
      else ''/auth?'' @ search_to_string (auth_params redirect reason))"
  by (simp add: buildAuthRoute_def Let_def search_to_string_Nil ROUTES_AUTH_def)

lemma buildAuthRoute_query:
  "search_get (drop (length ''/auth?'') (buildAuthRoute redirect reason)) name
     = map_of (auth_params redirect reason) name"
proof -
  have "drop (length ''/auth?'') (buildAuthRoute redirect reason)
      = search_to_string (auth_params redirect reason)"
    by (cases "auth_params redirect reason = []") (simp_all add: buildAuthRoute_params search_to_string_def)
  then show ?thesis by (simp only: search_get_to_string)
qed

text \<open>The auth route keeps the redirect target: reading the \<open>redirect\<close> parameter back out of the URL
  that \<open>buildAuthRoute\<close> built gives exactly the validated target, which passes validation again after
  sign-in, and the \<open>reason\<close> parameter gives the reason.\<close>

theorem buildAuthRoute_roundtrip:
  "starts_with (buildAuthRoute redirect reason) ''/auth''
   \<and> search_get (drop (length ''/auth?'') (buildAuthRoute redirect reason)) AUTH_REDIRECT_PARAM
       = getSafeRedirectPath redirect
   \<and> getSafeRedirectPath (search_get (drop (length ''/auth?'') (buildAuthRoute redirect reason)) AUTH_REDIRECT_PARAM)
       = getSafeRedirectPath redirect
   \<and> search_get (drop (length ''/auth?'') (buildAuthRoute redirect reason)) AUTH_REASON_PARAM
       = (if truthy reason then reason else None)"
proof -
  have "starts_with (buildAuthRoute redirect reason) ''/auth''"
    by (simp add: buildAuthRoute_params starts_with_def)
  then show ?thesis
    by (simp only: buildAuthRoute_query auth_params_get getSafeRedirectPath_idem simp_thms)
qed

text \<open>C2. A validated target is the requested path itself, a rooted path that is not protocol-relative,
  and its first segment is not the auth page, unless the path is the auth page with a fragment
  (\<open>/auth#...\<close>), the one auth-family path the check lets through.\<close>

theorem getSafeRedirectPath_safe:
  assumes "getSafeRedirectPath path = Some p"
  shows "path = Some p \<and> (\<exists>r. p = CHR ''/'' # r \<and> \<not> starts_with r ''/'')
    \<and> (first_segment p \<noteq> ''auth'' \<or> starts_with p ''/auth#'')"
proof -
  from assms have p: "path = Some p" "starts_with p ''/''" "\<not> starts_with p ''//''" "p \<noteq> ''/auth''"
    "\<not> starts_with p ''/auth/''" "\<not> starts_with p ''/auth?''"
    by (simp_all add: getSafeRedirectPath_Some_iff)
  then obtain r where r: "p = CHR ''/'' # r" by (auto simp: starts_with_def prefix_def)
  have "starts_with p ''/auth#''" if "first_segment p = ''auth''"
  proof -
    from that r have t: "takeWhile (\<lambda>c. c \<notin> set ''/?#'') r = ''auth''" by (simp add: first_segment_def)
    define s where "s = dropWhile (\<lambda>c. c \<notin> set ''/?#'') r"
    have rs: "r = ''auth'' @ s" using t by (metis takeWhile_dropWhile_id s_def)
    have "s \<noteq> []" using p(4) r rs by auto
    then obtain c u where cu: "s = c # u" by (cases s) auto
    then have "c \<in> set ''/?#''" by (metis s_def hd_dropWhile list.sel(1) list.discI)
    with p(5,6) r rs cu show ?thesis by (auto simp: starts_with_def)
  qed
  with p r show ?thesis by (auto simp: starts_with_def)
qed

theorem getSafeRedirectPath_safe_witness:
  "getSafeRedirectPath (Some ''/memos/7?a=b'') = Some ''/memos/7?a=b'' \<and> first_segment ''/memos/7?a=b'' = ''memos''
   \<and> (\<exists>r. ''/memos/7?a=b'' = CHR ''/'' # r \<and> \<not> starts_with r ''/'')"
proof -
  have h: "getSafeRedirectPath (Some ''/memos/7?a=b'') = Some ''/memos/7?a=b''" by code_simp
  have "first_segment ''/memos/7?a=b'' = ''memos''" by code_simp
  with h getSafeRedirectPath_safe [OF h] show ?thesis by blast
qed

end
