(* ===== verification/AuthState.thy ===== *)
theory AuthState
  imports Storage Dates Redirect
begin

text \<open>
  The access token of a tab, \<open>web/src/auth-state.ts\<close>: the in-memory token and expiry, their copy in
  \<open>localStorage\<close>, and the broadcast of fresh tokens to other tabs; and the redirect of a failed
  session, \<open>web/src/utils/auth-redirect.ts\<close>.
\<close>

section \<open>State\<close>

text \<open>\<open>tokenExpiresAt\<close> is a \<open>Date\<close> object or null; the object may be an invalid date (\<open>Some None\<close>), as
  when it was read from a malformed string. \<open>outbox\<close> is what was posted on the broadcast channel,
  which exists where \<open>channel_ok\<close>.\<close>

record auth_state =
  accessToken :: "string option"
  tokenExpiresAt :: "date option option"
  local_store :: storage
  outbox :: "(string \<times> string) list"
  channel_ok :: bool

definition TOKEN_KEY :: string where "TOKEN_KEY = ''memos_access_token''"
definition EXPIRES_KEY :: string where "EXPIRES_KEY = ''memos_token_expires_at''"

definition REQUEST_TOKEN_EXPIRY_BUFFER_MS :: int where "REQUEST_TOKEN_EXPIRY_BUFFER_MS = 30 * 1000"
definition FOCUS_TOKEN_EXPIRY_BUFFER_MS :: int where "FOCUS_TOKEN_EXPIRY_BUFFER_MS = 2 * 60 * 1000"

text \<open>Loading the module: no token in memory; the storage is shared and stays.\<close>

definition page_load :: "storage \<Rightarrow> bool \<Rightarrow> auth_state" where
  "page_load st ch = \<lparr>accessToken = None, tokenExpiresAt = None, local_store = st, outbox = [], channel_ok = ch\<rparr>"

section \<open>Operations\<close>

text \<open>The channel's \<open>onmessage\<close> handler.\<close>

definition on_token_message :: "string option \<Rightarrow> string option \<Rightarrow> auth_state \<Rightarrow> auth_state" where
  "on_token_message token expiresAt s =
     (if truthy token \<and> truthy expiresAt
      then s\<lparr>accessToken := token, tokenExpiresAt := Some (parse_iso (the expiresAt))\<rparr> else s)"

definition getAccessToken :: "date \<Rightarrow> auth_state \<Rightarrow> string option \<times> auth_state" where
  "getAccessToken now s =
     (let s' =
        (if truthy (accessToken s) then s
         else case (get_item (local_store s) TOKEN_KEY, get_item (local_store s) EXPIRES_KEY) of
             (Some storedToken, Some storedExpires) \<Rightarrow>
               if truthy storedToken \<and> truthy storedExpires then
                 (case parse_iso (the storedExpires) of
                    Some expiresAt \<Rightarrow>
                      if expiresAt > now
                      then s\<lparr>accessToken := storedToken, tokenExpiresAt := Some (Some expiresAt)\<rparr> else s
                  | None \<Rightarrow> s)
               else s
           | _ \<Rightarrow> s)
      in (accessToken s', s'))"

definition setAccessToken :: "string option \<Rightarrow> date option \<Rightarrow> auth_state \<Rightarrow> auth_state" where
  "setAccessToken token expiresAt s0 =
     (let s = s0\<lparr>accessToken := token, tokenExpiresAt := map_option Some expiresAt\<rparr>
      in case (token, expiresAt) of
        (Some t, Some e) \<Rightarrow>
          if t = [] then s\<lparr>local_store := try_remove_item EXPIRES_KEY (try_remove_item TOKEN_KEY (local_store s))\<rparr>
          else (case set_item TOKEN_KEY t (local_store s) of
            None \<Rightarrow> s
          | Some l1 \<Rightarrow>
              if \<not> valid_date e then s\<lparr>local_store := l1\<rparr>
              else (case set_item EXPIRES_KEY (to_iso e) l1 of
                None \<Rightarrow> s\<lparr>local_store := l1\<rparr>
              | Some l2 \<Rightarrow>
                  s\<lparr>local_store := l2,
                    outbox := outbox s @ (if channel_ok s then [(t, to_iso e)] else [])\<rparr>))
      | _ \<Rightarrow> s\<lparr>local_store := try_remove_item EXPIRES_KEY (try_remove_item TOKEN_KEY (local_store s))\<rparr>)"

definition isTokenExpired :: "int \<Rightarrow> date \<Rightarrow> auth_state \<Rightarrow> bool" where
  "isTokenExpired bufferMs now s =
     (case tokenExpiresAt s of None \<Rightarrow> True | Some None \<Rightarrow> False | Some (Some e) \<Rightarrow> now \<ge> e - bufferMs)"

definition hasStoredToken :: "auth_state \<Rightarrow> bool" where
  "hasStoredToken s =
     (if truthy (accessToken s) then True
      else case get_item (local_store s) TOKEN_KEY of None \<Rightarrow> False | Some v \<Rightarrow> truthy v)"

definition clearAccessToken :: "auth_state \<Rightarrow> auth_state" where
  "clearAccessToken s =
     s\<lparr>accessToken := None, tokenExpiresAt := None,
       local_store := try_remove_item EXPIRES_KEY (try_remove_item TOKEN_KEY (local_store s))\<rparr>"

section \<open>Leaving for the auth page\<close>

record page_location =
  pathname :: string
  search_part :: string
  hash_part :: string

text \<open>\<open>redirectOnAuthFailure\<close>: the new token state and the URL passed to \<open>window.location.replace\<close>, if
  any. \<open>options\<close> is split into its fields.\<close>

definition redirectOnAuthFailure ::
  "bool \<Rightarrow> string option \<Rightarrow> string option \<Rightarrow> page_location \<Rightarrow> auth_state \<Rightarrow> string option \<times> auth_state" where
  "redirectOnAuthFailure forceRedirect redirect reason loc s =
     (let currentPath = pathname loc;
          currentRedirectPath = pathname loc @ search_part loc @ hash_part loc
      in if starts_with currentPath ROUTES_AUTH then (None, s)
         else if \<not> forceRedirect \<and> isPublicRoute currentPath then (None, s)
         else (Some (buildAuthRoute (Some (case redirect of None \<Rightarrow> currentRedirectPath | Some r \<Rightarrow> r)) reason),
               clearAccessToken s))"

section \<open>Lemmas\<close>

lemma try_remove_both:
  "get_item (try_remove_item EXPIRES_KEY (try_remove_item TOKEN_KEY st)) TOKEN_KEY \<in> {None, Some None}"
  "get_item (try_remove_item EXPIRES_KEY (try_remove_item TOKEN_KEY st)) EXPIRES_KEY \<in> {None, Some None}"
proof -
  have ne: "TOKEN_KEY \<noteq> EXPIRES_KEY" by (simp add: TOKEN_KEY_def EXPIRES_KEY_def)
  show "get_item (try_remove_item EXPIRES_KEY (try_remove_item TOKEN_KEY st)) TOKEN_KEY \<in> {None, Some None}"
    using ws.get_try_del [of TOKEN_KEY st] ws.get_try_del_other [OF ne] by (auto simp: try_items)
  show "get_item (try_remove_item EXPIRES_KEY (try_remove_item TOKEN_KEY st)) EXPIRES_KEY \<in> {None, Some None}"
    using ws.get_try_del [of EXPIRES_KEY "try_remove_item TOKEN_KEY st"] by (auto simp: try_items)
qed

lemma setAccessToken_stores:
  assumes "t \<noteq> []" "valid_date e" "accessible (local_store s)" "has_room (local_store s)"
  shows "get_item (local_store (setAccessToken (Some t) (Some e) s)) TOKEN_KEY = Some (Some t)"
    "get_item (local_store (setAccessToken (Some t) (Some e) s)) EXPIRES_KEY = Some (Some (to_iso e))"
    "outbox (setAccessToken (Some t) (Some e) s) = outbox s @ (if channel_ok s then [(t, to_iso e)] else [])"
  using assms by (auto simp: setAccessToken_def Let_def set_item_def get_item_def TOKEN_KEY_def EXPIRES_KEY_def)

lemma clear_no_token:
  "fst (getAccessToken now (clearAccessToken s)) = None" "\<not> hasStoredToken (clearAccessToken s)"
  "fst (getAccessToken now (page_load (local_store (clearAccessToken s)) ch)) = None"
  "\<not> hasStoredToken (page_load (local_store (clearAccessToken s)) ch)"
  using try_remove_both [of "local_store s"]
  by (auto simp: clearAccessToken_def getAccessToken_def hasStoredToken_def page_load_def truthy_def Let_def
      split: option.splits)

text \<open>A token that was set with an expiry survives a reload exactly until it expires: in a freshly
  loaded tab over the same storage \<open>getAccessToken\<close> returns it while the expiry is ahead and nothing
  afterwards, and even an expired token still counts as stored, so that a refresh is attempted.\<close>

theorem setAccessToken_reload:
  assumes "t \<noteq> []" "valid_date e" "accessible (local_store s)" "has_room (local_store s)"
  shows "fst (getAccessToken now (page_load (local_store (setAccessToken (Some t) (Some e) s)) ch))
      = (if now < e then Some t else None)
    \<and> hasStoredToken (page_load (local_store (setAccessToken (Some t) (Some e) s)) ch)"
  using assms setAccessToken_stores(1,2) [OF assms]
  by (simp add: getAccessToken_def page_load_def truthy_def hasStoredToken_def)

definition demo_auth :: auth_state where
  "demo_auth = page_load empty_storage True"

theorem setAccessToken_reload_witness:
  "fst (getAccessToken 5 (page_load (local_store (setAccessToken (Some ''tok'') (Some 9) demo_auth)) True)) = Some ''tok''
   \<and> fst (getAccessToken 9 (page_load (local_store (setAccessToken (Some ''tok'') (Some 9) demo_auth)) True)) = None"
proof -
  have a: "accessible (local_store demo_auth)" "has_room (local_store demo_auth)"
    by (simp_all add: demo_auth_def page_load_def empty_storage_def)
  have v: "valid_date 9" by (simp add: valid_date_def)
  have "fst (getAccessToken now (page_load (local_store (setAccessToken (Some ''tok'') (Some 9) demo_auth)) True))
      = (if now < 9 then Some ''tok'' else None)" for now
    using setAccessToken_reload [of "''tok''" 9 demo_auth, OF _ v a] by simp
  then show ?thesis by simp
qed

text \<open>Clearing the token is final whatever the state of the storage: no token is returned, none counts
  as stored, and the token counts as expired, in this tab and after a reload.\<close>

theorem clearAccessToken_final:
  "fst (getAccessToken now (clearAccessToken s)) = None \<and> \<not> hasStoredToken (clearAccessToken s)
   \<and> isTokenExpired b now (clearAccessToken s)
   \<and> fst (getAccessToken now (page_load (local_store (clearAccessToken s)) ch)) = None
   \<and> \<not> hasStoredToken (page_load (local_store (clearAccessToken s)) ch)"
  using clear_no_token by (simp add: isTokenExpired_def clearAccessToken_def)

text \<open>A tab that receives the broadcast of another tab's refresh holds the same token with the same
  expiry: the posted message carries the token, and delivering it makes the two tabs agree.\<close>

theorem token_broadcast_adopted:
  assumes "t \<noteq> []" "valid_date e" "accessible (local_store s)" "has_room (local_store s)" "channel_ok s"
  defines "s1 \<equiv> setAccessToken (Some t) (Some e) s"
  shows "\<exists>tok iso. last (outbox s1) = (tok, iso)
    \<and> accessToken (on_token_message (Some tok) (Some iso) s2) = accessToken s1
    \<and> tokenExpiresAt (on_token_message (Some tok) (Some iso) s2) = tokenExpiresAt s1
    \<and> (\<forall>b now. isTokenExpired b now (on_token_message (Some tok) (Some iso) s2) = isTokenExpired b now s1)"
proof -
  have mem: "accessToken s1 = Some t" "tokenExpiresAt s1 = Some (Some e)"
    by (auto simp: s1_def setAccessToken_def Let_def split: option.splits)
  have "last (outbox s1) = (t, to_iso e)"
    using setAccessToken_stores(3) [OF assms(1-4)] assms(5) by (simp add: s1_def)
  moreover have "accessToken (on_token_message (Some t) (Some (to_iso e)) s2) = Some t"
    "tokenExpiresAt (on_token_message (Some t) (Some (to_iso e)) s2) = Some (Some e)"
    using assms(1,2) by (simp_all add: on_token_message_def truthy_def)
  ultimately show ?thesis using mem by (simp add: isTokenExpired_def)
qed

theorem token_broadcast_adopted_witness:
  "\<exists>tok iso. last (outbox (setAccessToken (Some ''tok'') (Some 9) demo_auth)) = (tok, iso)
    \<and> accessToken (on_token_message (Some tok) (Some iso) demo_auth) = Some ''tok''"
proof -
  have a: "accessible (local_store demo_auth)" "has_room (local_store demo_auth)" "channel_ok demo_auth"
    by (simp_all add: demo_auth_def page_load_def empty_storage_def)
  have v: "valid_date 9" by (simp add: valid_date_def)
  have "accessToken (setAccessToken (Some ''tok'') (Some 9) demo_auth) = Some ''tok''"
    by (auto simp: setAccessToken_def Let_def split: option.splits)
  then show ?thesis
    using token_broadcast_adopted [of "''tok''" 9 demo_auth demo_auth, OF _ v a] by (metis list.distinct(1))
qed

text \<open>A failed session sends the visitor to the auth page at most once and never from a page that needs
  no session: on an auth page, or on a public page when not forced, nothing changes; otherwise the
  token is gone and the auth URL carries the validated current location (or the given target).\<close>

theorem redirectOnAuthFailure_behaviour:
  "(case redirectOnAuthFailure force redirect reason loc s of
      (None, s') \<Rightarrow> s' = s \<and> (starts_with (pathname loc) ''/auth'' \<or> (\<not> force \<and> isPublicRoute (pathname loc)))
    | (Some url, s') \<Rightarrow>
        \<not> starts_with (pathname loc) ''/auth'' \<and> \<not> (\<not> force \<and> isPublicRoute (pathname loc))
        \<and> fst (getAccessToken now s') = None \<and> \<not> hasStoredToken s'
        \<and> search_get (drop (length ''/auth?'') url) AUTH_REDIRECT_PARAM
            = getSafeRedirectPath (Some (case redirect of None \<Rightarrow> pathname loc @ search_part loc @ hash_part loc
                                                       | Some r \<Rightarrow> r)))"
proof -
  have "search_get (drop (length ''/auth?'') (buildAuthRoute r reason)) AUTH_REDIRECT_PARAM
      = getSafeRedirectPath r" for r
    by (simp only: buildAuthRoute_query auth_params_get)
  then show ?thesis
    using clear_no_token unfolding redirectOnAuthFailure_def Let_def ROUTES_AUTH_def by simp
qed

end
