(* ===== verification/Errors.thy ===== *)
theory Errors
  imports Prelude
begin

text \<open>
  Thrown values. A \<open>ConnectError\<close> of the RPC library carries a status code, its raw message and a
  cause; any other \<open>Error\<close> has a name and a message; anything else may be thrown too. The save-error
  classification of \<open>web/src/components/MemoEditor/services/errorService.ts\<close>, the retry rule of
  \<open>web/src/lib/query-client.ts\<close> and \<open>web/src/lib/error.ts\<close> work on these values.
\<close>

datatype connect_code =
  Canceled | UnknownCode | InvalidArgument | DeadlineExceeded | NotFound | AlreadyExists
  | PermissionDenied | ResourceExhausted | FailedPrecondition | Aborted | OutOfRange
  | Unimplemented | Internal | Unavailable | DataLoss | Unauthenticated

datatype js_error =
  ConnectError (conn_code: connect_code) (raw_message: string) (cause: "js_error option")
  | PlainError (err_name: string) (err_message: string)
  | Thrown string

section \<open>errorService\<close>

datatype save_error_kind = Network | Server

text \<open>A \<open>ConnectError\<close> is an \<open>Error\<close> too; its name is \<open>ConnectError\<close>.\<close>

fun isFetchTypeError :: "js_error option \<Rightarrow> bool" where
  "isFetchTypeError (Some (PlainError name msg)) = (name = ''TypeError'')"
| "isFetchTypeError _ = False"

definition classifySaveError :: "bool \<Rightarrow> js_error \<Rightarrow> save_error_kind" where
  "classifySaveError onLine error =
     (case error of
        ConnectError c msg cs \<Rightarrow>
          if c = Unavailable \<or> c = DeadlineExceeded then Network
          else if c = UnknownCode \<and> isFetchTypeError cs then Network
          else if c \<noteq> UnknownCode then Server
          else if \<not> onLine then Network else Server
      | _ \<Rightarrow> if \<not> onLine then Network else Server)"

section \<open>query-client\<close>

text \<open>\<open>shouldRetry\<close>: never after an authentication failure, otherwise once.\<close>

definition shouldRetry :: "nat \<Rightarrow> js_error \<Rightarrow> bool" where
  "shouldRetry failureCount error =
     (case error of ConnectError Unauthenticated m c \<Rightarrow> False | _ \<Rightarrow> failureCount < 1)"

end
