(* ===== verification/Connect.thy ===== *)
theory Connect
  imports AuthState Errors
begin

text \<open>
  The RPC transport of the client, \<open>web/src/connect.ts\<close>: the single-flight refresh manager as a state
  machine over calls and completions, and the authentication interceptor as a function of a world that
  answers refresh calls and requests.
\<close>

section \<open>The token refresh manager\<close>

text \<open>\<open>isRefreshing\<close> and \<open>refreshPromise\<close> are the closure's variables; a promise is the number of the
  refresh that created it. \<open>started\<close> counts the calls of \<open>refreshFn\<close> and \<open>inflight\<close> is the set of
  refreshes that have not settled.\<close>

record refresh_manager =
  isRefreshing :: bool
  refreshPromise :: "nat option"
  started :: nat
  inflight :: "nat set"

definition createTokenRefreshManager :: refresh_manager where
  "createTokenRefreshManager = \<lparr>isRefreshing = False, refreshPromise = None, started = 0, inflight = {}\<rparr>"

definition mgr_refresh :: "refresh_manager \<Rightarrow> nat \<times> refresh_manager" where
  "mgr_refresh m =
     (case refreshPromise m of
        Some p \<Rightarrow> if isRefreshing m then (p, m)
                  else (started m, m\<lparr>isRefreshing := True, refreshPromise := Some (started m),
                          started := Suc (started m), inflight := insert (started m) (inflight m)\<rparr>)
      | None \<Rightarrow> (started m, m\<lparr>isRefreshing := True, refreshPromise := Some (started m),
                          started := Suc (started m), inflight := insert (started m) (inflight m)\<rparr>))"

text \<open>The \<open>finally\<close> handler of a refresh that settles.\<close>

definition mgr_settle :: "nat \<Rightarrow> refresh_manager \<Rightarrow> refresh_manager" where
  "mgr_settle p m = m\<lparr>isRefreshing := False, refreshPromise := None, inflight := inflight m - {p}\<rparr>"

inductive mgr_step :: "refresh_manager \<Rightarrow> refresh_manager \<Rightarrow> bool" where
  call: "mgr_refresh m = (p, m') \<Longrightarrow> mgr_step m m'"
| settle: "p \<in> inflight m \<Longrightarrow> mgr_step m (mgr_settle p m)"

inductive_cases mgr_stepE: "mgr_step m m'"

section \<open>The world of one request\<close>

text \<open>What \<open>next\<close> and the refresh RPC answer is unknown: the \<open>n\<close>-th call gets the \<open>n\<close>-th answer of an
  arbitrary sequence. \<open>sent\<close> logs the requests as they went out, \<open>replaced\<close> the calls of
  \<open>window.location.replace\<close>.\<close>

record request =
  authorization :: "string option"
  x_retry :: "string option"

record 'r world =
  auth :: auth_state
  page :: page_location
  replaced :: "string list"
  clock :: date
  refresh_answer :: "nat \<Rightarrow> js_error + (string \<times> date option)"
  refreshes :: nat
  next_answer :: "nat \<Rightarrow> js_error + 'r"
  sent :: "request list"

definition RETRY_HEADER_VALUE :: string where "RETRY_HEADER_VALUE = ''true''"

definition doRefreshAccessToken :: "'r world \<Rightarrow> (js_error + unit) \<times> 'r world" where
  "doRefreshAccessToken w =
     (let w' = w\<lparr>refreshes := Suc (refreshes w)\<rparr>
      in case refresh_answer w (refreshes w) of
           Inl e \<Rightarrow> (Inl e, w')
         | Inr (token, expiresAt) \<Rightarrow>
             if token = [] then (Inl (ConnectError Internal ''Refresh token response missing access token'' None), w')
             else (Inr (), w'\<lparr>auth := setAccessToken (Some token) expiresAt (auth w')\<rparr>))"

definition setAuthorizationHeader :: "string option \<Rightarrow> request \<Rightarrow> request" where
  "setAuthorizationHeader token req =
     (if truthy token then req\<lparr>authorization := Some (''Bearer '' @ the token)\<rparr> else req)"

definition shouldHandleUnauthenticatedRetry :: "js_error \<Rightarrow> bool \<Rightarrow> bool" where
  "shouldHandleUnauthenticatedRetry error isRetryAttempt =
     (case error of
        ConnectError c msg cs \<Rightarrow> if c \<noteq> Unauthenticated then False else if isRetryAttempt then False else True
      | _ \<Rightarrow> False)"

definition refreshAndGetAccessToken :: "'r world \<Rightarrow> (js_error + string) \<times> 'r world" where
  "refreshAndGetAccessToken w =
     (case doRefreshAccessToken w of
        (Inl e, w') \<Rightarrow> (Inl e, w')
      | (Inr _, w') \<Rightarrow>
          (case getAccessToken (clock w') (auth w') of (token, a) \<Rightarrow>
             if truthy token then (Inr (the token), w'\<lparr>auth := a\<rparr>)
             else (Inl (ConnectError Internal ''Token refresh succeeded but no token available'' None), w'\<lparr>auth := a\<rparr>)))"

definition getRequestToken :: "'r world \<Rightarrow> string option \<times> 'r world" where
  "getRequestToken w0 =
     (case getAccessToken (clock w0) (auth w0) of (token, a) \<Rightarrow>
        let w = w0\<lparr>auth := a\<rparr> in
        if \<not> truthy token then
          if \<not> hasStoredToken (auth w) then (None, w)
          else (case refreshAndGetAccessToken w of (Inr t, w') \<Rightarrow> (Some t, w') | (Inl e, w') \<Rightarrow> (None, w'))
        else if isTokenExpired REQUEST_TOKEN_EXPIRY_BUFFER_MS (clock w) (auth w) then
          (case refreshAndGetAccessToken w of (Inr t, w') \<Rightarrow> (Some t, w') | (Inl e, w') \<Rightarrow> (token, w'))
        else (token, w))"

definition send_next :: "request \<Rightarrow> 'r world \<Rightarrow> (js_error + 'r) \<times> 'r world" where
  "send_next req w = (next_answer w (length (sent w)), w\<lparr>sent := sent w @ [req]\<rparr>)"

definition fail_session :: "'r world \<Rightarrow> 'r world" where
  "fail_session w =
     (case redirectOnAuthFailure False None None (page w) (auth w) of (url, a) \<Rightarrow>
        w\<lparr>auth := a, replaced := replaced w @ (case url of None \<Rightarrow> [] | Some u \<Rightarrow> [u])\<rparr>)"

definition authInterceptor :: "request \<Rightarrow> 'r world \<Rightarrow> (js_error + 'r) \<times> 'r world" where
  "authInterceptor req0 w0 =
     (let isRetryAttempt = (x_retry req0 = Some RETRY_HEADER_VALUE) in
      case getRequestToken w0 of (token, w1) \<Rightarrow>
      let req = setAuthorizationHeader token req0 in
      case send_next req w1 of (ans, w2) \<Rightarrow>
      (case ans of
         Inr r \<Rightarrow> (Inr r, w2)
       | Inl error \<Rightarrow>
           if \<not> shouldHandleUnauthenticatedRetry error isRetryAttempt then (Inl error, w2)
           else (case refreshAndGetAccessToken w2 of
                   (Inl refreshError, w3) \<Rightarrow> (Inl refreshError, fail_session w3)
                 | (Inr newToken, w3) \<Rightarrow>
                     (case send_next ((setAuthorizationHeader (Some newToken) req)\<lparr>x_retry := Some RETRY_HEADER_VALUE\<rparr>) w3 of
                        (Inr r, w4) \<Rightarrow> (Inr r, w4)
                      | (Inl refreshError, w4) \<Rightarrow> (Inl refreshError, fail_session w4)))))"

section \<open>Single flight\<close>

definition mgr_inv :: "refresh_manager \<Rightarrow> bool" where
  "mgr_inv m \<longleftrightarrow> isRefreshing m = (refreshPromise m \<noteq> None) \<and> inflight m = set_option (refreshPromise m)
     \<and> (\<forall>p \<in> inflight m. p < started m)"

inductive mgr_reachable :: "refresh_manager \<Rightarrow> bool" where
  init: "mgr_reachable createTokenRefreshManager"
| step: "mgr_reachable m \<Longrightarrow> mgr_step m m' \<Longrightarrow> mgr_reachable m'"

lemma mgr_step_inv: "mgr_step m m' \<Longrightarrow> mgr_inv m \<Longrightarrow> mgr_inv m'"
  by (erule mgr_stepE)
    (auto simp: mgr_inv_def mgr_refresh_def mgr_settle_def split: option.splits if_splits)

lemma mgr_inv_init: "mgr_inv createTokenRefreshManager"
  by (simp add: mgr_inv_def createTokenRefreshManager_def)

lemma mgr_reachable_inv: "mgr_reachable m \<Longrightarrow> mgr_inv m"
  by (induction rule: mgr_reachable.induct) (blast intro: mgr_inv_init mgr_step_inv)+

text \<open>C7. At any time at most one token refresh is in flight, whatever the interleaving of callers and
  completions; a caller that comes while one is in flight gets that refresh and starts none, and
  otherwise exactly one new refresh starts and its caller gets it.\<close>

theorem refresh_single_flight:
  assumes "mgr_reachable m" "mgr_refresh m = (p, m')"
  shows "card (inflight m') \<le> 1 \<and> p \<in> inflight m'
    \<and> (inflight m \<noteq> {} \<longrightarrow> m' = m \<and> inflight m = {p})
    \<and> (inflight m = {} \<longrightarrow> started m' = Suc (started m) \<and> inflight m' = {p})"
  using mgr_reachable_inv [OF assms(1)] assms(2)
  by (cases "refreshPromise m") (auto simp: mgr_inv_def mgr_refresh_def)

theorem refresh_single_flight_witness:
  "\<exists>m p m'. mgr_reachable m \<and> mgr_refresh m = (p, m') \<and> inflight m = {0} \<and> m' = m \<and> p = 0"
proof -
  let ?m = "snd (mgr_refresh createTokenRefreshManager)"
  have "mgr_step createTokenRefreshManager ?m"
    by (rule mgr_step.call [where p = "fst (mgr_refresh createTokenRefreshManager)"]) simp
  with mgr_reachable.init have r: "mgr_reachable ?m" by (rule mgr_reachable.step)
  have e: "mgr_refresh ?m = (0, ?m)" and i: "inflight ?m = {0}"
    by (simp_all add: createTokenRefreshManager_def mgr_refresh_def)
  from refresh_single_flight [OF r e] r e i show ?thesis by blast
qed

section \<open>The interceptor\<close>

text \<open>What a step on the world leaves alone.\<close>

definition same_env :: "'r world \<Rightarrow> 'r world \<Rightarrow> bool" where
  "same_env w w' \<longleftrightarrow> page w' = page w \<and> clock w' = clock w \<and> refresh_answer w' = refresh_answer w
     \<and> next_answer w' = next_answer w"

lemma doRefresh_frame:
  "doRefreshAccessToken w = (r, w') \<Longrightarrow>
     same_env w w' \<and> sent w' = sent w \<and> replaced w' = replaced w \<and> refreshes w' = Suc (refreshes w)"
  by (auto simp: doRefreshAccessToken_def Let_def same_env_def split: sum.splits prod.splits if_splits)

lemma refreshAndGet_frame:
  "refreshAndGetAccessToken w = (r, w') \<Longrightarrow>
     same_env w w' \<and> sent w' = sent w \<and> replaced w' = replaced w \<and> refreshes w' = Suc (refreshes w)"
  by (auto simp: refreshAndGetAccessToken_def same_env_def
      dest!: doRefresh_frame split: sum.splits prod.splits if_splits)

lemma getRequestToken_frame:
  assumes "getRequestToken w = (t, w')"
  shows "same_env w w' \<and> sent w' = sent w \<and> replaced w' = replaced w \<and> refreshes w' \<le> Suc (refreshes w)"
  using assms
  by (auto simp: getRequestToken_def same_env_def Let_def
      dest!: refreshAndGet_frame split: prod.splits if_splits sum.splits)

lemma send_next_frame:
  "send_next req w = (a, w') \<Longrightarrow>
     same_env w w' \<and> sent w' = sent w @ [req] \<and> replaced w' = replaced w \<and> refreshes w' = refreshes w
     \<and> a = next_answer w (length (sent w)) \<and> auth w' = auth w"
  by (auto simp: send_next_def same_env_def)

lemma fail_session_frame:
  "same_env w (fail_session w)" "sent (fail_session w) = sent w" "refreshes (fail_session w) = refreshes w"
  "length (replaced (fail_session w)) \<le> Suc (length (replaced w))"
  by (auto simp: fail_session_def same_env_def split: prod.splits option.splits)

lemmas interceptor_frames =
  getRequestToken_frame send_next_frame refreshAndGet_frame

lemma x_retry_setAuthorizationHeader [simp]: "x_retry (setAuthorizationHeader t req) = x_retry req"
  by (simp add: setAuthorizationHeader_def)

lemma refreshAndGet_token: "refreshAndGetAccessToken w = (Inr t, w') \<Longrightarrow> t \<noteq> []"
  by (auto simp: refreshAndGetAccessToken_def truthy_def split: sum.splits prod.splits if_splits option.splits)

text \<open>The three ways through the interceptor after the first answer.\<close>

lemma authInterceptor_cases:
  assumes "authInterceptor req w = (res, w')"
  obtains (once) t w1 where "getRequestToken w = (t, w1)"
      "send_next (setAuthorizationHeader t req) w1 = (res, w')"
      "\<And>e. res = Inl e \<Longrightarrow> \<not> shouldHandleUnauthenticatedRetry e (x_retry req = Some ''true'')"
  | (refused) t w1 e w2 e' w3 where "getRequestToken w = (t, w1)"
      "send_next (setAuthorizationHeader t req) w1 = (Inl e, w2)"
      "shouldHandleUnauthenticatedRetry e (x_retry req = Some ''true'')"
      "refreshAndGetAccessToken w2 = (Inl e', w3)" "res = Inl e'" "w' = fail_session w3"
  | (retried) t w1 e w2 tok w3 w4 where "getRequestToken w = (t, w1)"
      "send_next (setAuthorizationHeader t req) w1 = (Inl e, w2)"
      "shouldHandleUnauthenticatedRetry e (x_retry req = Some ''true'')"
      "refreshAndGetAccessToken w2 = (Inr tok, w3)"
      "send_next ((setAuthorizationHeader (Some tok) (setAuthorizationHeader t req))\<lparr>x_retry := Some ''true''\<rparr>) w3
        = (res, w4)"
      "w' = (if isl res then fail_session w4 else w4)"
  using assms
  by (auto simp: authInterceptor_def Let_def RETRY_HEADER_VALUE_def split: prod.splits sum.splits if_splits)

lemma shouldHandle_Unauthenticated:
  "shouldHandleUnauthenticatedRetry e b \<longleftrightarrow> \<not> b \<and> (\<exists>m c. e = ConnectError Unauthenticated m c)"
  by (auto simp: shouldHandleUnauthenticatedRetry_def split: js_error.splits if_splits)

section \<open>Relations kept by a request\<close>

text \<open>A relation between the worlds before and after a step that loading the token, a refresh, sending and the end of the
  session keep is kept by a whole request through the interceptor.\<close>

locale call_relation =
  fixes R :: "'r world \<Rightarrow> 'r world \<Rightarrow> bool"
  assumes R_refl: "R w w"
    and R_trans: "R w w' \<Longrightarrow> R w' w'' \<Longrightarrow> R w w''"
    and R_load: "getAccessToken (clock w) (auth w) = (t, a) \<Longrightarrow> R w (w\<lparr>auth := a\<rparr>)"
    and R_refresh: "R w (snd (doRefreshAccessToken w))"
    and R_send: "R w (w\<lparr>sent := xs\<rparr>)"
    and R_fail: "R w (fail_session w)"
begin

lemma refreshAndGet:
  assumes "refreshAndGetAccessToken w = (r, w')"
  shows "R w w'"
proof -
  obtain x w1 where x: "doRefreshAccessToken w = (x, w1)" by fastforce
  obtain t a where t: "getAccessToken (clock w1) (auth w1) = (t, a)" by fastforce
  have "w' = w1 \<or> w' = w1\<lparr>auth := a\<rparr>"
    using assms x t by (auto simp: refreshAndGetAccessToken_def split: sum.splits if_splits)
  then show ?thesis using R_refresh[of w] x R_trans R_load[OF t] by auto
qed

lemma getRequestToken:
  assumes "getRequestToken w = (t, w')"
  shows "R w w'"
proof -
  obtain u a where u: "getAccessToken (clock w) (auth w) = (u, a)" by fastforce
  obtain r w2 where r: "refreshAndGetAccessToken (w\<lparr>auth := a\<rparr>) = (r, w2)" by fastforce
  have "w' = w\<lparr>auth := a\<rparr> \<or> w' = w2"
    using assms u r by (auto simp: getRequestToken_def Let_def split: if_splits sum.splits)
  then show ?thesis using R_load[OF u] refreshAndGet[OF r] R_trans by blast
qed

lemma send_next: "send_next req w = (x, w') \<Longrightarrow> R w w'"
  using R_send by (auto simp: send_next_def)

lemma interceptor:
  assumes "authInterceptor req w = (res, w')"
  shows "R w w'"
  using assms
proof (cases rule: authInterceptor_cases)
  case (once t w1)
  then show ?thesis using getRequestToken send_next R_trans by blast
next
  case (refused t w1 e w2 e' w3)
  then show ?thesis using R_trans[OF R_trans[OF getRequestToken send_next] R_trans[OF refreshAndGet R_fail]] by blast
next
  case (retried t w1 e w2 tok w3 w4)
  have "R w w4" using R_trans[OF R_trans[OF getRequestToken send_next] R_trans[OF refreshAndGet send_next]] retried(1,2,4,5) by blast
  then show ?thesis using retried(6) R_trans R_fail by auto
qed

end

section \<open>A request is bounded\<close>

text \<open>C8. The interceptor never loops: a request goes out once, or twice where the first answer was an
  authentication failure of a request that was not itself a retry, and then the second is marked as a
  retry and carries a token; at most two refreshes are made, and the visitor is sent to the auth page
  at most once and only when the request fails.\<close>

theorem authInterceptor_bounded:
  assumes "authInterceptor req w = (res, w')"
  shows "((\<exists>r1. sent w' = sent w @ [r1] \<and> x_retry r1 = x_retry req)
    \<or> (\<exists>r1 r2 tok m c. sent w' = sent w @ [r1, r2] \<and> x_retry req \<noteq> Some ''true''
         \<and> next_answer w (length (sent w)) = Inl (ConnectError Unauthenticated m c)
         \<and> x_retry r2 = Some ''true'' \<and> authorization r2 = Some (''Bearer '' @ tok) \<and> tok \<noteq> []))
    \<and> refreshes w' \<le> refreshes w + 2
    \<and> length (replaced w') \<le> Suc (length (replaced w))
    \<and> (isl res \<or> replaced w' = replaced w)"
  using assms
proof (cases rule: authInterceptor_cases)
  case (once t w1)
  then show ?thesis by (auto dest!: interceptor_frames)
next
  case (refused t w1 e w2 e' w3)
  with fail_session_frame [of w3] show ?thesis by (auto dest!: interceptor_frames)
next
  case (retried t w1 e w2 tok w3 w4)
  let ?r1 = "setAuthorizationHeader t req"
  let ?r2 = "(setAuthorizationHeader (Some tok) ?r1)\<lparr>x_retry := Some ''true''\<rparr>"
  have tok: "tok \<noteq> []" using retried(4) by (rule refreshAndGet_token)
  note f = getRequestToken_frame [OF retried(1)] send_next_frame [OF retried(2)]
    refreshAndGet_frame [OF retried(4)] send_next_frame [OF retried(5)] fail_session_frame [of w4]
  have "sent w' = sent w @ [?r1, ?r2]" using f retried(6) by simp
  moreover have "next_answer w (length (sent w)) = Inl e" using f by (simp add: same_env_def)
  moreover have "authorization ?r2 = Some (''Bearer '' @ tok)"
    using tok by (simp add: setAuthorizationHeader_def truthy_def)
  moreover have "refreshes w' \<le> refreshes w + 2" "length (replaced w') \<le> Suc (length (replaced w))"
    "isl res \<or> replaced w' = replaced w"
    using f retried(6) by (auto split: if_splits)
  ultimately show ?thesis
    using retried(3) tok unfolding shouldHandle_Unauthenticated by fastforce
qed

definition demo_world :: "string world" where
  "demo_world = \<lparr>auth = demo_auth, page = \<lparr>pathname = ''/home'', search_part = [], hash_part = []\<rparr>, replaced = [],
     clock = 0, refresh_answer = (\<lambda>_. Inr (''new'', Some 90000)), refreshes = 0,
     next_answer = (\<lambda>n. if n = 0 then Inl (ConnectError Unauthenticated [] None) else Inr ''ok''), sent = []\<rparr>"

theorem authInterceptor_bounded_witness:
  "fst (authInterceptor \<lparr>authorization = None, x_retry = None\<rparr> demo_world) = Inr ''ok''
   \<and> length (sent (snd (authInterceptor \<lparr>authorization = None, x_retry = None\<rparr> demo_world))) = 2
   \<and> refreshes (snd (authInterceptor \<lparr>authorization = None, x_retry = None\<rparr> demo_world)) \<le> 2"
proof -
  let ?x = "authInterceptor \<lparr>authorization = None, x_retry = None\<rparr> demo_world"
  have r: "fst ?x = Inr ''ok''" "length (sent (snd ?x)) = 2" by code_simp+
  have z: "refreshes demo_world = 0" by (simp add: demo_world_def)
  have "?x = (fst ?x, snd ?x)" by simp
  from authInterceptor_bounded [OF this] r z show ?thesis by simp
qed

text \<open>The token a request gets: an unexpired token is used without any refresh; where nothing is
  stored the request goes out anonymously without a refresh; otherwise exactly one refresh is made,
  whose token is used if it succeeds, and the token in memory (none after a reload) if it fails.\<close>

theorem getRequestToken_policy:
  "(let (t, a) = getAccessToken (clock w) (auth w); w1 = w\<lparr>auth := a\<rparr> in
    if truthy t \<and> \<not> isTokenExpired 30000 (clock w) a then getRequestToken w = (t, w1)
    else if \<not> truthy t \<and> \<not> hasStoredToken a then getRequestToken w = (None, w1)
    else (case refreshAndGetAccessToken w1 of
            (Inr new, w2) \<Rightarrow> getRequestToken w = (Some new, w2) \<and> new \<noteq> [] \<and> refreshes w2 = Suc (refreshes w)
          | (Inl e, w2) \<Rightarrow> getRequestToken w = (if truthy t then t else None, w2)
              \<and> refreshes w2 = Suc (refreshes w)))"
  by (auto simp: getRequestToken_def Let_def REQUEST_TOKEN_EXPIRY_BUFFER_MS_def
      dest: refreshAndGet_token refreshAndGet_frame split: prod.splits sum.splits)

end
