(* ===== verification/Json.thy ===== *)
theory Json
  imports Percent Dates
begin

text \<open>
  \<open>JSON.stringify\<close> and \<open>JSON.parse\<close>, which the client uses to keep drafts and OAuth states in Web
  Storage and to quote strings in filter expressions. Integers are exact; a number with a fraction is
  kept as a decimal \<open>m / 10^k\<close>. \<open>None\<close> is the \<open>SyntaxError\<close> of \<open>JSON.parse\<close>. The parser runs on fuel,
  and \<open>parse_fuel\<close> shows that the fuel given by \<open>json_parse\<close> is enough for every input.
\<close>

datatype json =
  JNull | JBool bool | JNum int | JFrac int nat | JStr string | JArr "json list" | JObj "(string, json) jsmap"

section \<open>Printing\<close>

fun show_nat :: "nat \<Rightarrow> string" where
  "show_nat n = (if n < 10 then [digit_char n] else show_nat (n div 10) @ [digit_char (n mod 10)])"

declare show_nat.simps [simp del]

definition show_int :: "int \<Rightarrow> string" where
  [js_defs]: "show_int i = (if i < 0 then ''-'' @ show_nat (nat (- i)) else show_nat (nat i))"

definition quote_char :: char where
  [js_defs]: "quote_char = char_of (34::nat)"

definition backslash :: char where
  [js_defs]: "backslash = char_of (92::nat)"

definition hex_lower :: "nat \<Rightarrow> char" where
  [js_defs]: "hex_lower n = ''0123456789abcdef'' ! n"

definition esc_char :: "char \<Rightarrow> string" where
  [js_defs]: "esc_char c =
     (if c = quote_char then [backslash, quote_char]
      else if c = backslash then [backslash, backslash]
      else if code c = 8 then backslash # ''b''
      else if code c = 9 then backslash # ''t''
      else if code c = 10 then backslash # ''n''
      else if code c = 12 then backslash # ''f''
      else if code c = 13 then backslash # ''r''
      else if code c < 32 then backslash # ''u00'' @ [hex_lower (code c div 16), hex_lower (code c mod 16)]
      else [c])"

definition json_quote :: "string \<Rightarrow> string" where
  [js_defs]: "json_quote s = [quote_char] @ concat (map esc_char s) @ [quote_char]"

fun json_print :: "json \<Rightarrow> string" where
  "json_print JNull = ''null''"
| "json_print (JBool b) = (if b then ''true'' else ''false'')"
| "json_print (JNum i) = show_int i"
| "json_print (JFrac m k) = show_int m @ ''e-'' @ show_nat k"
| "json_print (JStr s) = json_quote s"
| "json_print (JArr vs) = ''['' @ join '','' (map json_print vs) @ '']''"
| "json_print (JObj kvs) = ''{'' @ join '','' (map (\<lambda>(k, v). json_quote k @ '':'' @ json_print v) kvs) @ ''}''"

section \<open>Parsing\<close>

definition json_ws :: "char \<Rightarrow> bool" where
  [js_defs]: "json_ws c \<longleftrightarrow> code c \<in> {9, 10, 13, 32}"

definition skip_ws :: "string \<Rightarrow> string" where
  [js_defs]: "skip_ws s = dropWhile json_ws s"

definition unhex_lower :: "char \<Rightarrow> nat option" where
  [js_defs]: "unhex_lower c =
     (if is_digit c then Some (code c - 48)
      else if 97 \<le> code c \<and> code c \<le> 102 then Some (code c - 87)
      else if 65 \<le> code c \<and> code c \<le> 70 then Some (code c - 55) else None)"

definition unesc :: "char \<Rightarrow> char option" where
  [js_defs]: "unesc e =
     (if e = quote_char \<or> e = backslash \<or> e = CHR ''/'' then Some e
      else if e = CHR ''b'' then Some (char_of (8::nat))
      else if e = CHR ''t'' then Some (char_of (9::nat))
      else if e = CHR ''n'' then Some (char_of (10::nat))
      else if e = CHR ''f'' then Some (char_of (12::nat))
      else if e = CHR ''r'' then Some (char_of (13::nat)) else None)"

fun parse_chars :: "string \<Rightarrow> (string \<times> string) option" where
  "parse_chars [] = None"
| "parse_chars (c # s) =
     (if c = quote_char then Some ([], s)
      else if c = backslash then
        (case s of
           [] \<Rightarrow> None
         | e # r \<Rightarrow>
             if e = CHR ''u'' then
               (case r of
                  a # b # x # y # r2 \<Rightarrow>
                    if a = CHR ''0'' \<and> b = CHR ''0'' then
                      (case (unhex_lower x, unhex_lower y) of
                         (Some p, Some q) \<Rightarrow>
                           (case parse_chars r2 of None \<Rightarrow> None | Some (t, u) \<Rightarrow> Some (char_of (16 * p + q) # t, u))
                       | _ \<Rightarrow> None)
                    else None
                | _ \<Rightarrow> None)
             else (case unesc e of
                     None \<Rightarrow> None
                   | Some x \<Rightarrow> (case parse_chars r of None \<Rightarrow> None | Some (t, u) \<Rightarrow> Some (x # t, u))))
      else if code c < 32 then None
      else (case parse_chars s of None \<Rightarrow> None | Some (t, u) \<Rightarrow> Some (c # t, u)))"

text \<open>A decimal \<open>m * 10^(e - k)\<close> in lowest terms.\<close>

fun norm_num :: "int \<Rightarrow> nat \<Rightarrow> json" where
  "norm_num m 0 = JNum m"
| "norm_num m (Suc k) = (if m mod 10 = 0 then norm_num (m div 10) k else JFrac m (Suc k))"

definition parse_exp :: "string \<Rightarrow> (int \<times> string) option" where
  [js_defs]: "parse_exp s =
     (case s of
        c # r \<Rightarrow>
          if c = CHR ''e'' \<or> c = CHR ''E'' then
            (let neg = starts_with r ''-''; r1 = (if neg \<or> starts_with r ''+'' then drop 1 r else r);
                 ds = takeWhile is_digit r1
             in if ds = [] then None
                else Some (if neg then - int (digits_val ds) else int (digits_val ds), dropWhile is_digit r1))
          else Some (0, s)
      | [] \<Rightarrow> Some (0, s))"

definition parse_num :: "string \<Rightarrow> (json \<times> string) option" where
  [js_defs]: "parse_num s =
     (let neg = starts_with s ''-''; s1 = (if neg then drop 1 s else s);
          ip = takeWhile is_digit s1; s2 = dropWhile is_digit s1;
          dot = starts_with s2 ''.'';
          fp = (if dot then takeWhile is_digit (drop 1 s2) else []);
          s3 = (if dot then dropWhile is_digit (drop 1 s2) else s2)
      in if ip = [] \<or> (length ip > 1 \<and> hd ip = CHR ''0'') \<or> (dot \<and> fp = []) then None
         else (case parse_exp s3 of
                 None \<Rightarrow> None
               | Some (e, r) \<Rightarrow>
                   let m = (if neg then - 1 else 1) * int (digits_val (ip @ fp)); x = e - int (length fp)
                   in Some (if x \<ge> 0 then JNum (m * 10 ^ nat x) else norm_num m (nat (- x)), r)))"

fun parse_val :: "nat \<Rightarrow> string \<Rightarrow> (json \<times> string) option"
and parse_elems :: "nat \<Rightarrow> string \<Rightarrow> (json list \<times> string) option"
and parse_members :: "nat \<Rightarrow> (string, json) jsmap \<Rightarrow> string \<Rightarrow> ((string, json) jsmap \<times> string) option"
where
  "parse_val 0 s = None"
| "parse_val (Suc n) s =
     (case skip_ws s of
        [] \<Rightarrow> None
      | c # r \<Rightarrow>
          if c = quote_char then map_option (\<lambda>(t, u). (JStr t, u)) (parse_chars r)
          else if c = CHR ''['' then
            (if starts_with (skip_ws r) '']'' then Some (JArr [], drop 1 (skip_ws r))
             else map_option (\<lambda>(vs, u). (JArr vs, u)) (parse_elems n r))
          else if c = CHR ''{'' then
            (if starts_with (skip_ws r) ''}'' then Some (JObj [], drop 1 (skip_ws r))
             else map_option (\<lambda>(m, u). (JObj m, u)) (parse_members n [] r))
          else if starts_with (c # r) ''null'' then Some (JNull, drop 4 (c # r))
          else if starts_with (c # r) ''true'' then Some (JBool True, drop 4 (c # r))
          else if starts_with (c # r) ''false'' then Some (JBool False, drop 5 (c # r))
          else parse_num (c # r))"
| "parse_elems 0 s = None"
| "parse_elems (Suc n) s =
     (case parse_val n s of
        None \<Rightarrow> None
      | Some (v, r) \<Rightarrow>
          (case skip_ws r of
             [] \<Rightarrow> None
           | c # r2 \<Rightarrow>
               if c = CHR '','' then map_option (\<lambda>(vs, u). (v # vs, u)) (parse_elems n r2)
               else if c = CHR '']'' then Some ([v], r2) else None))"
| "parse_members 0 m s = None"
| "parse_members (Suc n) m s =
     (case skip_ws s of
        [] \<Rightarrow> None
      | c # r \<Rightarrow>
          if c \<noteq> quote_char then None
          else (case parse_chars r of
                  None \<Rightarrow> None
                | Some (k, r1) \<Rightarrow>
                    (case skip_ws r1 of
                       [] \<Rightarrow> None
                     | d # r2 \<Rightarrow>
                         if d \<noteq> CHR '':'' then None
                         else (case parse_val n r2 of
                                 None \<Rightarrow> None
                               | Some (v, r3) \<Rightarrow>
                                   (case skip_ws r3 of
                                      [] \<Rightarrow> None
                                    | e # r4 \<Rightarrow>
                                        if e = CHR '','' then parse_members n (map_set k v m) r4
                                        else if e = CHR ''}'' then Some (map_set k v m, r4) else None)))))"

definition json_parse :: "string \<Rightarrow> json option" where
  "json_parse s =
     (case parse_val (2 * length s + 2) s of
        Some (v, r) \<Rightarrow> if skip_ws r = [] then Some v else None
      | None \<Rightarrow> None)"

section \<open>Strings and numbers read back\<close>

lemma unhex_hex_lower: "n < 16 \<Longrightarrow> unhex_lower (hex_lower n) = Some n"
proof -
  have "\<forall>n \<in> set [0..<16]. unhex_lower (hex_lower n) = Some n" by code_simp
  then show "n < 16 \<Longrightarrow> unhex_lower (hex_lower n) = Some n" by auto
qed

lemma parse_chars_u:
  "p < 16 \<Longrightarrow> q < 16 \<Longrightarrow>
     parse_chars (backslash # CHR ''u'' # CHR ''0'' # CHR ''0'' # hex_lower p # hex_lower q # t)
     = (case parse_chars t of None \<Rightarrow> None | Some (s, u) \<Rightarrow> Some (char_of (16 * p + q) # s, u))"
  by (simp add: unhex_hex_lower backslash_def quote_char_def)

lemma parse_chars_esc:
  assumes "unesc e = Some x" "e \<noteq> CHR ''u''"
  shows "parse_chars (backslash # e # t) = (case parse_chars t of None \<Rightarrow> None | Some (s, u) \<Rightarrow> Some (x # s, u))"
  using assms by (simp add: backslash_def quote_char_def)

lemma char_by_code: "code c = n \<Longrightarrow> c = char_of n"
  by (metis char_of_code)

lemma esc_char_cases:
  obtains (short) e where "esc_char c = [backslash, e]" "unesc e = Some c" "e \<noteq> CHR ''u''"
  | (hex) "code c < 32" "esc_char c = backslash # ''u00'' @ [hex_lower (code c div 16), hex_lower (code c mod 16)]"
  | (self) "esc_char c = [c]" "c \<noteq> quote_char" "c \<noteq> backslash" "32 \<le> code c"
proof -
  have u: "unesc quote_char = Some quote_char" "unesc backslash = Some backslash"
    "unesc (CHR ''b'') = Some (char_of (8::nat))" "unesc (CHR ''t'') = Some (char_of (9::nat))"
    "unesc (CHR ''n'') = Some (char_of (10::nat))" "unesc (CHR ''f'') = Some (char_of (12::nat))"
    "unesc (CHR ''r'') = Some (char_of (13::nat))" "quote_char \<noteq> CHR ''u''" "backslash \<noteq> CHR ''u''"
    by code_simp+
  have q: "code quote_char = 34" "code backslash = 92" by code_simp+
  let ?short = "\<lambda>e. esc_char c = [backslash, e] \<and> unesc e = Some c \<and> e \<noteq> CHR ''u''"
  have sh1: "c = quote_char \<Longrightarrow> ?short quote_char" "c = backslash \<Longrightarrow> ?short backslash"
    using u q by (auto simp: esc_char_def)
  have sh2: "code c = 8 \<Longrightarrow> ?short (CHR ''b'')" "code c = 9 \<Longrightarrow> ?short (CHR ''t'')"
    "code c = 10 \<Longrightarrow> ?short (CHR ''n'')" "code c = 12 \<Longrightarrow> ?short (CHR ''f'')" "code c = 13 \<Longrightarrow> ?short (CHR ''r'')"
    using u q char_by_code [of c] by (auto simp: esc_char_def)
  have rest: "c \<noteq> quote_char \<Longrightarrow> c \<noteq> backslash \<Longrightarrow> code c \<notin> {8, 9, 10, 12, 13} \<Longrightarrow>
      esc_char c = (if code c < 32 then backslash # ''u00'' @ [hex_lower (code c div 16), hex_lower (code c mod 16)]
        else [c])"
    by (simp add: esc_char_def)
  show ?thesis
  proof (cases "c = quote_char \<or> c = backslash \<or> code c \<in> {8, 9, 10, 12, 13}")
    case True
    with sh1 sh2 have "\<exists>e. ?short e" by blast
    with short show ?thesis by blast
  next
    case False
    with rest show ?thesis using hex self by (cases "code c < 32") auto
  qed
qed

lemma parse_esc_char:
  "parse_chars (esc_char c @ t) = (case parse_chars t of None \<Rightarrow> None | Some (s, u) \<Rightarrow> Some (c # s, u))"
proof (cases c rule: esc_char_cases)
  case (short e)
  then show ?thesis by (simp add: parse_chars_esc del: parse_chars.simps)
next
  case hex
  then have "esc_char c @ t = backslash # CHR ''u'' # CHR ''0'' # CHR ''0''
      # hex_lower (code c div 16) # hex_lower (code c mod 16) # t"
    by simp
  moreover have "code c div 16 < 16" "code c mod 16 < 16" "16 * (code c div 16) + code c mod 16 = code c"
    using hex by auto
  ultimately show ?thesis by (simp only: parse_chars_u char_of_code)
next
  case self
  then show ?thesis by simp
qed

lemma parse_chars_quote: "parse_chars (concat (map esc_char s) @ quote_char # r) = Some (s, r)"
proof (induction s)
  case Nil
  then show ?case by simp
next
  case (Cons c s)
  then show ?case by (simp add: parse_esc_char del: parse_chars.simps)
qed

lemma json_quote_parse: "parse_chars (tl (json_quote s) @ r) = Some (s, r)"
  using parse_chars_quote [of s r] by (simp add: json_quote_def)

lemma digits_val_snoc: "digits_val (s @ [c]) = 10 * digits_val s + digit_val c"
  by (simp add: digits_val_def)

lemma show_nat_props:
  "digits_val (show_nat n) = n" "show_nat n \<noteq> []" "\<forall>c \<in> set (show_nat n). is_digit c"
  "hd (show_nat n) = CHR ''0'' \<Longrightarrow> length (show_nat n) = 1"
proof (induction n rule: show_nat.induct)
  case (1 n)
  have d: "k < 10 \<Longrightarrow> is_digit (digit_char k)" for k
    by (simp add: is_digit_def digit_char_def code_def)
  have z: "digit_char k = CHR ''0'' \<Longrightarrow> k < 10 \<Longrightarrow> k = 0" for k
    using digit_val_char [of k] by (simp add: digit_val_def code_def)
  {
    case 1
    show ?case using "1.IH"(1)
      by (subst show_nat.simps) (auto simp: digits_val_snoc digit_val_char digits_val_def [of "[_]"])
  next
    case 2
    show ?case by (subst show_nat.simps) simp
  next
    case 3
    show ?case using "1.IH"(3) d by (subst show_nat.simps) auto
  next
    case 4
    show ?case
    proof (cases "n < 10")
      case True
      then show ?thesis by (simp add: show_nat.simps [of n])
    next
      case False
      then have ne: "show_nat (n div 10) \<noteq> []" using "1.IH"(2) by simp
      with False 4 have "hd (show_nat (n div 10)) = CHR ''0''" by (simp add: show_nat.simps [of n])
      with False "1.IH"(4) have "length (show_nat (n div 10)) = 1" by simp
      then have "show_nat (n div 10) = [CHR ''0'']"
        using \<open>hd (show_nat (n div 10)) = CHR ''0''\<close> by (cases "show_nat (n div 10)") auto
      then have "n div 10 = 0" using "1.IH"(1) False by (simp add: digits_val_def digit_val_def code_def)
      with False show ?thesis by simp
    qed
  }
qed

text \<open>What may follow a printed number.\<close>

definition num_end :: "string \<Rightarrow> bool" where
  "num_end r \<longleftrightarrow> (case r of [] \<Rightarrow> True | c # _ \<Rightarrow> \<not> is_digit c \<and> c \<notin> set ''.eE'')"

lemma num_end_span:
  assumes "\<forall>c \<in> set s. is_digit c" "num_end r"
  shows "takeWhile is_digit (s @ r) = s" "dropWhile is_digit (s @ r) = r"
  using assms by (cases r; auto simp: num_end_def takeWhile_append dropWhile_append)+

lemma parse_show_int:
  assumes "num_end r"
  shows "parse_num (show_int i @ r) = Some (JNum i, r)"
proof -
  let ?n = "nat \<bar>i\<bar>"
  have nd: "\<not> is_digit (CHR ''-'')" by code_simp
  have hd: "\<not> starts_with (show_nat ?n @ r) ''-''"
    using show_nat_props(2,3) [of ?n] nd by (cases "show_nat ?n") (auto simp: starts_with_def)
  have s1: "(if i < 0 then drop 1 (show_int i @ r) else show_int i @ r) = show_nat ?n @ r" and neg: "starts_with (show_int i @ r) ''-'' \<longleftrightarrow> i < 0"
    using hd by (auto simp: show_int_def starts_with_def)
  have dot: "\<not> starts_with r ''.''" using assms by (auto simp: num_end_def starts_with_def split: list.splits)
  have ex: "parse_exp r = Some (0, r)"
    using assms by (auto simp: num_end_def parse_exp_def split: list.splits)
  have ip: "\<not> (length (show_nat ?n) > 1 \<and> hd (show_nat ?n) = CHR ''0'')"
    using show_nat_props(4) [of ?n] by auto
  have val: "(if i < 0 then - 1 else 1) * int (digits_val (show_nat ?n)) = i"
    by (simp add: show_nat_props(1))
  show ?thesis
    unfolding parse_num_def Let_def s1 neg num_end_span [OF show_nat_props(3) assms]
    using dot ex ip val show_nat_props(2) [of ?n] by simp
qed

section \<open>Values read back\<close>

text \<open>The values the client prints: integers only, and each key of an object once.\<close>

fun json_ok :: "json \<Rightarrow> bool" where
  "json_ok (JFrac m k) = False"
| "json_ok (JArr vs) = list_all json_ok vs"
| "json_ok (JObj kvs) = (distinct (map fst kvs) \<and> list_all (\<lambda>(k, v). json_ok v) kvs)"
| "json_ok _ = True"

lemma skip_ws_Cons: "\<not> json_ws c \<Longrightarrow> skip_ws (c # s) = c # s"
  by (simp add: skip_ws_def)

lemma not_ws:
  "\<not> json_ws quote_char" "\<not> json_ws (CHR ''['')" "\<not> json_ws (CHR '']'')" "\<not> json_ws (CHR ''{'')"
  "\<not> json_ws (CHR ''}'')" "\<not> json_ws (CHR '','')" "\<not> json_ws (CHR '':'')" "\<not> json_ws (CHR ''n'')"
  "\<not> json_ws (CHR ''t'')" "\<not> json_ws (CHR ''f'')" "\<not> json_ws (CHR ''-'')"
  by code_simp+

lemma digit_not_ws: "is_digit c \<Longrightarrow> \<not> json_ws c"
  by (auto simp: is_digit_def json_ws_def)

lemma quote_char_neq: "quote_char \<notin> set ''[]{},:ntf-''"
  by code_simp

lemma num_end_close: "num_end (CHR '','' # r)" "num_end (CHR '']'' # r)" "num_end (CHR ''}'' # r)" "num_end []"
  by (simp_all add: num_end_def is_digit_def code_def)

text \<open>A printed number starts with a minus sign or a digit, so it is taken for nothing else.\<close>

lemma show_int_head:
  obtains c u where "show_int i = c # u" "c = CHR ''-'' \<or> is_digit c"
proof (cases "i < 0")
  case True
  then show ?thesis using that [of "CHR ''-''" "show_nat (nat (- i))"] by (simp add: show_int_def)
next
  case False
  obtain c u where cu: "show_nat (nat i) = c # u" using show_nat_props(2) by (cases "show_nat (nat i)") auto
  then have "is_digit c" using show_nat_props(3) [of "nat i"] by simp
  with False cu show ?thesis using that [of c u] by (simp add: show_int_def)
qed

lemma num_head_dispatch:
  assumes "c = CHR ''-'' \<or> is_digit c"
  shows "c \<noteq> quote_char" "c \<notin> set ''[]{}ntf''" "\<not> json_ws c"
proof -
  have "\<not> is_digit quote_char" "list_all (\<lambda>x. \<not> is_digit x) ''[]{}ntf''" by code_simp+
  with assms quote_char_neq digit_not_ws [of c] not_ws
  show "c \<noteq> quote_char" "c \<notin> set ''[]{}ntf''" "\<not> json_ws c" by (auto simp: list_all_iff)
qed

lemma json_print_head:
  obtains c u where "json_print v = c # u" "\<not> json_ws c" "c \<noteq> CHR '']''" "c \<noteq> CHR ''}''"
proof (cases v)
  case (JNum i)
  obtain c u where c: "show_int i = c # u" "c = CHR ''-'' \<or> is_digit c" by (rule show_int_head)
  with num_head_dispatch [OF c(2)] show ?thesis using that JNum by auto
next
  case (JFrac m k)
  obtain c u where c: "show_int m = c # u" "c = CHR ''-'' \<or> is_digit c" by (rule show_int_head)
  with num_head_dispatch [OF c(2)] show ?thesis using that JFrac by auto
next
  case (JStr s)
  with quote_char_neq not_ws show ?thesis by (intro that [of quote_char]) (auto simp: json_quote_def)
next
  case (JBool b)
  then show ?thesis using that not_ws by (cases b) auto
qed (use that not_ws in auto)

lemma parse_val_num:
  assumes "num_end r"
  shows "parse_val (Suc n) (show_int i @ r) = Some (JNum i, r)"
proof -
  obtain c u where c: "show_int i = c # u" "c = CHR ''-'' \<or> is_digit c" by (rule show_int_head)
  from parse_show_int [OF assms] c(1) have "parse_num (c # u @ r) = Some (JNum i, r)" by (metis append_Cons)
  with num_head_dispatch [OF c(2)] c(1) show ?thesis
    by (auto simp: skip_ws_Cons starts_with_def)
qed

definition reads_back :: "json \<Rightarrow> bool" where
  "reads_back v \<longleftrightarrow>
     (\<forall>n r. num_end r \<longrightarrow> 2 * length (json_print v) < n \<longrightarrow> parse_val n (json_print v @ r) = Some (v, r))"

lemma parse_elems_print:
  assumes "vs \<noteq> []" "\<forall>v \<in> set vs. reads_back v"
    and "2 * length (join '','' (map json_print vs)) + 1 < n"
  shows "parse_elems n (join '','' (map json_print vs) @ CHR '']'' # r) = Some (vs, r)"
  using assms
proof (induction vs arbitrary: n)
  case Nil
  then show ?case by simp
next
  case (Cons v vs)
  obtain m where n: "n = Suc m" using Cons.prems(3) by (cases n) auto
  show ?case
  proof (cases "vs = []")
    case True
    with Cons.prems n have "parse_val m (json_print v @ CHR '']'' # r) = Some (v, CHR '']'' # r)"
      by (auto simp: reads_back_def num_end_close)
    with True n not_ws show ?thesis by (simp add: skip_ws_Cons)
  next
    case False
    let ?j = "join '','' (map json_print vs)"
    have j: "join '','' (map json_print (v # vs)) = json_print v @ '','' @ ?j"
      using False by (simp add: join_Cons)
    have "parse_val m (json_print v @ CHR '','' # ?j @ CHR '']'' # r) = Some (v, CHR '','' # ?j @ CHR '']'' # r)"
      using Cons.prems(2,3) n j by (auto simp: reads_back_def num_end_close)
    moreover have "parse_elems m (?j @ CHR '']'' # r) = Some (vs, r)"
      using Cons.prems(2,3) n j by (intro Cons.IH False) auto
    ultimately show ?thesis using n j not_ws by (simp add: skip_ws_Cons)
  qed
qed

lemma map_set_fresh: "k \<notin> fst ` set m \<Longrightarrow> map_set k v m = m @ [(k, v)]"
  by (induction m) auto

definition print_member :: "string \<times> json \<Rightarrow> string" where
  "print_member = (\<lambda>(k, v). json_quote k @ '':'' @ json_print v)"

lemma parse_member_head:
  "parse_members (Suc n) m (print_member (k, v) @ r) =
     (case parse_val n (json_print v @ r) of
        None \<Rightarrow> None
      | Some (v, r3) \<Rightarrow>
          (case skip_ws r3 of
             [] \<Rightarrow> None
           | e # r4 \<Rightarrow>
               if e = CHR '','' then parse_members n (map_set k v m) r4
               else if e = CHR ''}'' then Some (map_set k v m, r4) else None))"
proof -
  have "parse_chars (concat (map esc_char k) @ quote_char # CHR '':'' # json_print v @ r)
      = Some (k, CHR '':'' # json_print v @ r)"
    by (rule parse_chars_quote)
  then show ?thesis
    using not_ws by (simp add: print_member_def json_quote_def skip_ws_Cons del: parse_chars.simps)
qed

lemma parse_members_print:
  assumes "kvs \<noteq> []" "\<forall>(k, v) \<in> set kvs. reads_back v" "distinct (map fst m @ map fst kvs)"
    and "2 * length (join '','' (map print_member kvs)) < n"
  shows "parse_members n m (join '','' (map print_member kvs) @ CHR ''}'' # r) = Some (m @ kvs, r)"
  using assms
proof (induction kvs arbitrary: n m)
  case Nil
  then show ?case by simp
next
  case (Cons kv kvs)
  obtain k v where kv: "kv = (k, v)" by (cases kv)
  obtain i where n: "n = Suc i" using Cons.prems(4) by (cases n) auto
  have rb: "reads_back v" using Cons.prems(2) kv by auto
  have ms: "map_set k v m = m @ [(k, v)]"
    using Cons.prems(3) kv by (intro map_set_fresh) auto
  have len: "2 * length (json_print v) < 2 * length (print_member kv) - 1"
    by (simp add: kv print_member_def json_quote_def)
  show ?case
  proof (cases "kvs = []")
    case True
    with Cons.prems(4) n len have "parse_val i (json_print v @ CHR ''}'' # r) = Some (v, CHR ''}'' # r)"
      using rb by (auto simp: reads_back_def num_end_close)
    with True n not_ws ms show ?thesis
      by (simp add: kv parse_member_head skip_ws_Cons del: parse_members.simps)
  next
    case False
    let ?j = "join '','' (map print_member kvs)"
    have j: "join '','' (map print_member (kv # kvs)) = print_member kv @ '','' @ ?j"
      using False by (simp add: join_Cons)
    have "parse_val i (json_print v @ CHR '','' # ?j @ CHR ''}'' # r) = Some (v, CHR '','' # ?j @ CHR ''}'' # r)"
      using Cons.prems(4) n j rb len by (auto simp: reads_back_def num_end_close)
    moreover have "parse_members i (m @ [(k, v)]) (?j @ CHR ''}'' # r) = Some ((m @ [(k, v)]) @ kvs, r)"
      using Cons.prems(2,3,4) n j kv by (intro Cons.IH False) auto
    ultimately show ?thesis
      using n j not_ws ms by (simp add: kv parse_member_head skip_ws_Cons del: parse_members.simps)
  qed
qed

lemma join_print_head:
  assumes "vs \<noteq> []"
  obtains c u where "join '','' (map json_print vs) = c # u" "\<not> json_ws c" "c \<noteq> CHR '']''"
proof -
  obtain v ws where v: "vs = v # ws" using assms by (cases vs) auto
  obtain c u where "json_print v = c # u" "\<not> json_ws c" "c \<noteq> CHR '']''" by (rule json_print_head)
  with v that show ?thesis by (cases ws) auto
qed

lemma join_member_head:
  assumes "kvs \<noteq> []"
  obtains u where "join '','' (map print_member kvs) = quote_char # u"
proof -
  obtain k v ws where v: "kvs = (k, v) # ws" using assms by (cases kvs) auto
  then show ?thesis using that by (cases ws) (auto simp: print_member_def json_quote_def)
qed

lemma reads_back_ok: "json_ok v \<Longrightarrow> reads_back v"
proof (induction v)
  case JNull
  have "parse_val n (''null'' @ r) = Some (JNull, r)" if "0 < n" for n r
    using that not_ws quote_char_neq by (cases n) (auto simp: skip_ws_Cons starts_with_def)
  then show ?case by (simp add: reads_back_def)
next
  case (JBool b)
  have "parse_val n ((if b then ''true'' else ''false'') @ r) = Some (JBool b, r)" if "0 < n" for n r
    using that not_ws quote_char_neq by (cases n) (auto simp: skip_ws_Cons starts_with_def)
  then show ?case by (simp add: reads_back_def)
next
  case (JNum i)
  have "parse_val n (show_int i @ r) = Some (JNum i, r)" if "0 < n" "num_end r" for n r
    using that parse_val_num by (cases n) (auto simp del: parse_val.simps)
  then show ?case by (simp add: reads_back_def)
next
  case (JFrac m k)
  then show ?case by simp
next
  case (JStr s)
  have "parse_val n (json_quote s @ r) = Some (JStr s, r)" if "0 < n" for n r
    using that not_ws parse_chars_quote [of s r]
    by (cases n) (auto simp: json_quote_def skip_ws_Cons simp del: parse_chars.simps)
  then show ?case by (simp add: reads_back_def)
next
  case (JArr vs)
  have "parse_val n (json_print (JArr vs) @ r) = Some (JArr vs, r)" if n: "2 * length (json_print (JArr vs)) < n" for n r
  proof (cases "vs = []")
    case True
    with n not_ws quote_char_neq show ?thesis by (cases n) (auto simp: skip_ws_Cons starts_with_def)
  next
    case False
    obtain i where i: "n = Suc i" using n by (cases n) auto
    obtain c u where c: "join '','' (map json_print vs) = c # u" "\<not> json_ws c" "c \<noteq> CHR '']''"
      using False by (rule join_print_head)
    have rb: "\<forall>v \<in> set vs. reads_back v" using JArr by (auto simp: list_all_iff)
    have "parse_elems i (join '','' (map json_print vs) @ CHR '']'' # r) = Some (vs, r)"
      using n i by (intro parse_elems_print False rb) auto
    with c i not_ws quote_char_neq show ?thesis by (auto simp: skip_ws_Cons starts_with_def)
  qed
  then show ?case unfolding reads_back_def by blast
next
  case (JObj kvs)
  have pm: "json_print (JObj kvs) = ''{'' @ join '','' (map print_member kvs) @ ''}''"
    by (simp add: print_member_def)
  have "parse_val n (json_print (JObj kvs) @ r) = Some (JObj kvs, r)" if n: "2 * length (json_print (JObj kvs)) < n" for n r
  proof (cases "kvs = []")
    case True
    with n not_ws quote_char_neq show ?thesis by (cases n) (auto simp: skip_ws_Cons starts_with_def)
  next
    case False
    obtain i where i: "n = Suc i" using n by (cases n) auto
    obtain u where c: "join '','' (map print_member kvs) = quote_char # u" using False by (rule join_member_head)
    have rb: "\<forall>(k, v) \<in> set kvs. reads_back v" using JObj by (fastforce simp: list_all_iff)
    have "parse_members i [] (join '','' (map print_member kvs) @ CHR ''}'' # r) = Some ([] @ kvs, r)"
      using n i pm JObj.prems by (intro parse_members_print False rb) auto
    with c i not_ws quote_char_neq pm show ?thesis
      by (auto simp: skip_ws_Cons starts_with_def simp del: json_print.simps)
  qed
  then show ?case unfolding reads_back_def by blast
qed

text \<open>Parsing a printed value gives the value.\<close>

lemma json_parse_print: "json_ok v \<Longrightarrow> json_parse (json_print v) = Some v"
proof -
  assume "json_ok v"
  then have "num_end [] \<longrightarrow> 2 * length (json_print v) < 2 * length (json_print v) + 2 \<longrightarrow>
      parse_val (2 * length (json_print v) + 2) (json_print v @ []) = Some (v, [])"
    using reads_back_ok unfolding reads_back_def by blast
  then have "parse_val (2 * length (json_print v) + 2) (json_print v @ []) = Some (v, [])"
    using num_end_close(4) by linarith
  then show "json_parse (json_print v) = Some v"
    by (simp only: json_parse_def append_Nil2 option.case prod.case skip_ws_def dropWhile.simps if_True simp_thms)
qed

section \<open>The parser's fuel\<close>

lemma skip_ws_length: "length (skip_ws s) \<le> length s"
  by (simp add: skip_ws_def length_dropWhile_le)

lemma skip_ws_Cons_length: "skip_ws s = c # r \<Longrightarrow> length r < length s"
  using skip_ws_length [of s] by simp

lemma parse_chars_length: "parse_chars s = Some (t, u) \<Longrightarrow> length u < length s"
proof (induction s arbitrary: t u rule: parse_chars.induct)
  case (2 c s)
  then show ?case
    by (fastforce split: if_splits list.splits option.splits prod.splits)
qed simp

lemma length_dropWhile_drop: "length (dropWhile P (drop k xs)) \<le> length xs"
  using length_dropWhile_le [of P "drop k xs"] by simp

lemma parse_exp_length: "parse_exp s = Some (e, r) \<Longrightarrow> length r \<le> length s"
  by (auto simp: parse_exp_def Let_def intro: le_SucI [OF length_dropWhile_le] le_SucI [OF length_dropWhile_drop]
      split: list.splits if_splits simp del: dropWhile.simps drop_Suc_Cons)

lemma parse_num_length:
  assumes "parse_num s = Some (v, r)"
  shows "length r < length s"
proof -
  define s1 where "s1 = (if starts_with s ''-'' then drop 1 s else s)"
  define s2 where "s2 = dropWhile is_digit s1"
  define s3 where "s3 = (if starts_with s2 ''.'' then dropWhile is_digit (drop 1 s2) else s2)"
  from assms have ip: "takeWhile is_digit s1 \<noteq> []" and r: "\<exists>e. parse_exp s3 = Some (e, r)"
    unfolding parse_num_def Let_def s1_def s2_def s3_def by (auto split: if_splits option.splits prod.splits)
  have "length s1 \<le> length s" by (simp add: s1_def)
  moreover have "length (takeWhile is_digit s1) + length s2 = length s1"
    unfolding s2_def by (metis length_append takeWhile_dropWhile_id)
  moreover have "length s3 \<le> length s2"
    using length_dropWhile_drop [of is_digit 1 s2] by (simp add: s3_def)
  moreover have "length r \<le> length s3" using r parse_exp_length by blast
  ultimately show ?thesis using ip by (cases "takeWhile is_digit s1") auto
qed

lemma parse_val_rest:
  assumes "parse_val (Suc n) s = Some (v, r)" "skip_ws s = c # t"
  shows "(\<exists>x. parse_chars t = Some (x, r)) \<or> (\<exists>vs. parse_elems n t = Some (vs, r))
    \<or> (\<exists>m. parse_members n [] t = Some (m, r)) \<or> parse_num (c # t) = Some (v, r)
    \<or> r = drop 1 (skip_ws t) \<or> r = drop 4 (c # t) \<or> r = drop 5 (c # t)"
  using assms(1) unfolding parse_val.simps assms(2) list.case
  by (auto simp: map_option_eq_Some simp del: drop_Suc_Cons split: if_splits)

lemma parse_elems_rest:
  assumes "parse_elems (Suc n) s = Some (vs, r)"
  obtains v t c u where "parse_val n s = Some (v, t)" "skip_ws t = c # u" "r = u \<or> (\<exists>ws. parse_elems n u = Some (ws, r))"
  using assms by (auto split: option.splits prod.splits list.splits if_splits)

lemma parse_members_rest:
  assumes "parse_members (Suc n) m s = Some (m', r)"
  obtains c t k t1 d t2 v t3 e t4 where "skip_ws s = c # t" "parse_chars t = Some (k, t1)" "skip_ws t1 = d # t2"
    "parse_val n t2 = Some (v, t3)" "skip_ws t3 = e # t4" "r = t4 \<or> (\<exists>m2. parse_members n m2 t4 = Some (m', r))"
  using assms by (auto split: option.splits prod.splits list.splits if_splits) blast

lemma parse_length:
  "(\<forall>s v r. parse_val n s = Some (v, r) \<longrightarrow> length r < length s)
   \<and> (\<forall>s vs r. parse_elems n s = Some (vs, r) \<longrightarrow> length r < length s)
   \<and> (\<forall>m s m' r. parse_members n m s = Some (m', r) \<longrightarrow> length r < length s)"
proof (induction n)
  case 0
  then show ?case by simp
next
  case (Suc n)
  have val: "length r < length s" if p: "parse_val (Suc n) s = Some (v, r)" for s v r
  proof -
    obtain c t where ct: "skip_ws s = c # t" using p by (cases "skip_ws s") auto
    have l: "length t < length s" "length (skip_ws t) \<le> length t" "length (c # t) \<le> length s"
      using skip_ws_Cons_length [OF ct] skip_ws_length [of t] by simp_all
    have "length r \<le> length t"
      using parse_val_rest [OF p ct]
    proof (elim disjE exE)
      show "length r \<le> length t" if "parse_chars t = Some (x, r)" for x
        using parse_chars_length [OF that] by simp
      show "length r \<le> length t" if "parse_elems n t = Some (vs, r)" for vs
        using Suc.IH that by (meson less_imp_le)
      show "length r \<le> length t" if "parse_members n [] t = Some (m, r)" for m
        using Suc.IH that by (meson less_imp_le)
      show "length r \<le> length t" if "parse_num (c # t) = Some (v, r)"
        using parse_num_length [OF that] by simp
    qed (use l in simp_all)
    with l show ?thesis by simp
  qed
  have elems: "length r < length s" if p: "parse_elems (Suc n) s = Some (vs, r)" for s vs r
  proof -
    obtain v t c u where "parse_val n s = Some (v, t)" "skip_ws t = c # u"
      and r: "r = u \<or> (\<exists>ws. parse_elems n u = Some (ws, r))" using p by (rule parse_elems_rest)
    then have "length t < length s" "length u < length t" using Suc.IH skip_ws_Cons_length by blast+
    moreover from r have "length r \<le> length u" using Suc.IH by (auto intro: less_imp_le)
    ultimately show ?thesis by linarith
  qed
  have mem: "length r < length s" if p: "parse_members (Suc n) m s = Some (m', r)" for m s m' r
  proof -
    obtain c t k t1 d t2 v t3 e t4 where "skip_ws s = c # t" "parse_chars t = Some (k, t1)" "skip_ws t1 = d # t2"
      "parse_val n t2 = Some (v, t3)" "skip_ws t3 = e # t4"
      and r: "r = t4 \<or> (\<exists>m2. parse_members n m2 t4 = Some (m', r))" using p by (rule parse_members_rest)
    then have "length t < length s" "length t1 < length t" "length t2 < length t1" "length t3 < length t2"
      "length t4 < length t3" using Suc.IH skip_ws_Cons_length parse_chars_length by blast+
    moreover from r have "length r \<le> length t4" using Suc.IH by (auto intro: less_imp_le)
    ultimately show ?thesis by linarith
  qed
  from val elems mem show ?case by blast
qed

lemmas parse_val_length = parse_length [THEN conjunct1, rule_format]

lemma parse_fuel:
  "(\<forall>s. 2 * length s < n \<longrightarrow> parse_val (Suc n) s = parse_val n s)
   \<and> (\<forall>s. 2 * length s + 1 < n \<longrightarrow> parse_elems (Suc n) s = parse_elems n s)
   \<and> (\<forall>m s. 2 * length s < n \<longrightarrow> parse_members (Suc n) m s = parse_members n m s)"
proof (induction n)
  case 0
  then show ?case by simp
next
  case (Suc n)
  have val: "parse_val (Suc (Suc n)) s = parse_val (Suc n) s" if n: "2 * length s < Suc n" for s
  proof (cases "skip_ws s")
    case (Cons c r)
    then have "2 * length r + 1 < n" using skip_ws_Cons_length [OF Cons] n by linarith
    with Suc.IH have "parse_elems (Suc n) r = parse_elems n r" "parse_members (Suc n) [] r = parse_members n [] r"
      by auto
    with Cons show ?thesis by (simp only: parse_val.simps list.case)
  qed simp
  have elems: "parse_elems (Suc (Suc n)) s = parse_elems (Suc n) s" if n: "2 * length s + 1 < Suc n" for s
  proof -
    have v: "parse_val (Suc n) s = parse_val n s" using Suc.IH n by auto
    have "parse_elems (Suc n) r2 = parse_elems n r2" if "parse_val n s = Some (x, r)" "skip_ws r = c # r2" for x r c r2
    proof -
      have "2 * length r2 + 1 < n"
        using parse_val_length [OF that(1)] skip_ws_Cons_length [OF that(2)] n by linarith
      with Suc.IH show ?thesis by blast
    qed
    then show ?thesis
      unfolding parse_elems.simps v by (auto split: option.splits prod.splits list.splits)
  qed
  have mem: "parse_members (Suc (Suc n)) m s = parse_members (Suc n) m s" if n: "2 * length s < Suc n" for m s
  proof -
    have sub: "parse_val (Suc n) t = parse_val n t" "parse_members (Suc n) m' t = parse_members n m' t"
      if "length t < length s" for t m'
      using that n Suc.IH by auto
    show ?thesis
    proof (cases "skip_ws s")
      case (Cons c t)
      show ?thesis
      proof (cases "parse_chars t")
        case (Some kt)
        obtain k t1 where kt: "kt = (k, t1)" by (cases kt)
        show ?thesis
        proof (cases "skip_ws t1")
          case (Cons d t2)
          have l: "length t2 < length s"
            using skip_ws_Cons_length [OF \<open>skip_ws s = c # t\<close>] parse_chars_length [OF Some [unfolded kt]]
              skip_ws_Cons_length [OF Cons] by linarith
          have cont: "parse_members (Suc n) m' t4 = parse_members n m' t4"
            if "parse_val n t2 = Some (v, t3)" "skip_ws t3 = e # t4" for m' v t3 e t4
            using parse_val_length [OF that(1)] skip_ws_Cons_length [OF that(2)] l by (intro sub(2)) linarith
          show ?thesis
            unfolding parse_members.simps(2) [of "Suc n" m s] parse_members.simps(2) [of n m s] \<open>skip_ws s = c # t\<close> Some kt Cons list.case option.case prod.case sub(1) [OF l]
            using cont by (auto split: option.split list.split simp del: parse_members.simps parse_val.simps)
        qed (simp only: parse_members.simps \<open>skip_ws s = c # t\<close> Some kt list.case option.case prod.case)
      qed (simp only: parse_members.simps Cons list.case option.case)
    qed (simp only: parse_members.simps list.case)
  qed
  from val elems mem show ?case by blast
qed

text \<open>With at least the fuel that \<open>json_parse\<close> gives, more fuel changes nothing: the parser never runs out.\<close>

lemma json_parse_fuel: "2 * length s < n \<Longrightarrow> parse_val (n + k) s = parse_val n s"
proof (induction k)
  case (Suc k)
  then have "parse_val (Suc (n + k)) s = parse_val (n + k) s"
    using parse_fuel [of "n + k"] by (simp del: parse_val.simps)
  with Suc show ?case by (simp del: parse_val.simps)
qed simp

section \<open>The codec contract\<close>

text \<open>A codec for stored values: what was printed is read back. The draft cache and the OAuth state rest
  on it.\<close>

locale value_codec =
  fixes print :: "'v \<Rightarrow> string"
    and parse :: "string \<Rightarrow> 'v option"
    and ok :: "'v \<Rightarrow> bool"
  assumes parse_print: "ok v \<Longrightarrow> parse (print v) = Some v"
begin

lemma print_inj: "ok v \<Longrightarrow> ok w \<Longrightarrow> print v = print w \<longleftrightarrow> v = w"
  by (metis parse_print option.inject)

end

interpretation js: value_codec json_print json_parse json_ok
  by unfold_locales (rule json_parse_print)

end
