(* ===== verification/DraftCache.thy ===== *)
theory DraftCache
  imports Json Storage
begin

text \<open>
  The draft cache of the memo editor, \<open>components/MemoEditor/services/cacheService.ts\<close>. A draft is
  written to \<open>localStorage\<close> as a versioned JSON object; \<open>save\<close> is debounced by a browser timer, \<open>saveNow\<close>
  and \<open>clear\<close> cancel the timer of their key. The module-level map \<open>pendingSaves\<close>, the browser's timers and
  the clock are fields of one record, and the step relation \<open>cache_step\<close> interleaves the calls with the
  timers that fire.
\<close>

section \<open>Drafts and their JSON form\<close>

datatype MemoEditorDraftMode = CreateMode | EditMode

record MemoEditorDraftMetadata =
  m_mode :: "MemoEditorDraftMode option"
  m_memoName :: "string option"
  m_baseUpdateTime :: "string option"
  m_savedAt :: "string option"
  m_requestId :: "string option"
  m_pending :: "bool option"
  m_attemptedAt :: "string option"

record MemoEditorDraft =
  d_mode :: MemoEditorDraftMode
  d_memoName :: "string option"
  d_baseUpdateTime :: "string option"
  d_savedAt :: "string option"
  d_requestId :: "string option"
  d_pending :: "bool option"
  d_attemptedAt :: "string option"
  d_content :: string

definition STRUCTURED_CACHE_ENTRY_KIND :: string where
  "STRUCTURED_CACHE_ENTRY_KIND = ''memos.editor-cache''"

definition STRUCTURED_CACHE_ENTRY_VERSION :: int where
  "STRUCTURED_CACHE_ENTRY_VERSION = 3"

definition CACHE_DEBOUNCE_DELAY :: nat where
  "CACHE_DEBOUNCE_DELAY = 500"

definition mode_string :: "MemoEditorDraftMode \<Rightarrow> string" where
  "mode_string m = (case m of CreateMode \<Rightarrow> ''create'' | EditMode \<Rightarrow> ''edit'')"

definition parse_mode :: "json option \<Rightarrow> MemoEditorDraftMode option" where
  "parse_mode v =
     (if v = Some (JStr ''create'') then Some CreateMode else if v = Some (JStr ''edit'') then Some EditMode else None)"

text \<open>The draft that the text itself is: drafts were once stored as raw markdown.\<close>

definition raw_draft :: "string \<Rightarrow> MemoEditorDraft" where
  "raw_draft raw = \<lparr>d_mode = CreateMode, d_memoName = None, d_baseUpdateTime = None, d_savedAt = None,
     d_requestId = None, d_pending = None, d_attemptedAt = None, d_content = raw\<rparr>"

text \<open>An optional property of the parsed object: outer \<open>None\<close> is a value of the wrong type, inner \<open>None\<close> is
  \<open>undefined\<close>.\<close>

definition opt_str :: "json option \<Rightarrow> string option option" where
  "opt_str v = (case v of None \<Rightarrow> Some None | Some (JStr s) \<Rightarrow> Some (Some s) | Some _ \<Rightarrow> None)"

definition opt_bool :: "json option \<Rightarrow> bool option option" where
  "opt_bool v = (case v of None \<Rightarrow> Some None | Some (JBool b) \<Rightarrow> Some (Some b) | Some _ \<Rightarrow> None)"

text \<open>Reading a property of the parsed value: \<open>null\<close> throws, which the caller's \<open>catch\<close> takes (and so it reads as
  no property at all); numbers, strings, booleans and arrays have none of the properties asked for.\<close>

definition json_prop :: "json \<Rightarrow> string \<Rightarrow> json option" where
  "json_prop v k = (case v of JObj m \<Rightarrow> map_get m k | _ \<Rightarrow> None)"

definition str_prop :: "json \<Rightarrow> string \<Rightarrow> string option" where
  "str_prop v k = (case json_prop v k of Some (JStr s) \<Rightarrow> Some s | _ \<Rightarrow> None)"

definition deserialize_structured :: "string \<Rightarrow> json \<Rightarrow> MemoEditorDraft" where
  "deserialize_structured raw p =
     (let v = json_prop p ''version'' in
      case (parse_mode (json_prop p ''mode''), opt_str (json_prop p ''memoName''),
            opt_str (json_prop p ''baseUpdateTime''), str_prop p ''savedAt'', str_prop p ''content'') of
        (Some md, Some mn, Some bu, Some sa, Some ct) \<Rightarrow>
          if v = Some (JNum 2) then
            \<lparr>d_mode = md, d_memoName = mn, d_baseUpdateTime = bu, d_savedAt = Some sa,
             d_requestId = None, d_pending = None, d_attemptedAt = None, d_content = ct\<rparr>
          else if v = Some (JNum STRUCTURED_CACHE_ENTRY_VERSION) then
            (case (opt_str (json_prop p ''requestId''), opt_bool (json_prop p ''pending''),
                   opt_str (json_prop p ''attemptedAt'')) of
               (Some ri, Some pe, Some aa) \<Rightarrow>
                 \<lparr>d_mode = md, d_memoName = mn, d_baseUpdateTime = bu, d_savedAt = Some sa,
                  d_requestId = ri, d_pending = pe, d_attemptedAt = aa, d_content = ct\<rparr>
             | _ \<Rightarrow> raw_draft raw)
          else raw_draft raw
      | _ \<Rightarrow> raw_draft raw)"

definition deserializeDraft :: "string \<Rightarrow> MemoEditorDraft" where
  "deserializeDraft raw =
     (case json_parse raw of
        None \<Rightarrow> raw_draft raw
      | Some p \<Rightarrow>
          if json_prop p ''kind'' \<noteq> Some (JStr STRUCTURED_CACHE_ENTRY_KIND) then raw_draft raw
          else (case str_prop p ''content'' of
                  Some c \<Rightarrow>
                    if json_prop p ''version'' = Some (JNum 1) then raw_draft c else deserialize_structured raw p
                | None \<Rightarrow> deserialize_structured raw p))"

text \<open>\<open>JSON.stringify\<close> leaves out the properties that are \<open>undefined\<close>.\<close>

definition opt_field :: "string \<Rightarrow> ('a \<Rightarrow> json) \<Rightarrow> 'a option \<Rightarrow> (string \<times> json) list" where
  "opt_field k f v = (case v of None \<Rightarrow> [] | Some x \<Rightarrow> [(k, f x)])"

definition entry_json :: "MemoEditorDraft \<Rightarrow> json" where
  "entry_json d = JObj
     ([(''kind'', JStr STRUCTURED_CACHE_ENTRY_KIND), (''version'', JNum STRUCTURED_CACHE_ENTRY_VERSION),
       (''mode'', JStr (mode_string (d_mode d)))]
      @ opt_field ''memoName'' JStr (d_memoName d)
      @ opt_field ''baseUpdateTime'' JStr (d_baseUpdateTime d)
      @ opt_field ''savedAt'' JStr (d_savedAt d)
      @ opt_field ''requestId'' JStr (d_requestId d)
      @ opt_field ''pending'' JBool (d_pending d)
      @ opt_field ''attemptedAt'' JStr (d_attemptedAt d)
      @ [(''content'', JStr (d_content d))])"

section \<open>Storage entries\<close>

definition removeEntry :: "string \<Rightarrow> storage \<Rightarrow> bool \<times> storage" where
  "removeEntry k st = (case remove_item k st of None \<Rightarrow> (False, st) | Some st' \<Rightarrow> (True, st'))"

definition metadata_mode :: "MemoEditorDraftMetadata \<Rightarrow> MemoEditorDraftMode" where
  "metadata_mode m = (case m_mode m of None \<Rightarrow> CreateMode | Some x \<Rightarrow> x)"

text \<open>\<open>metadata.pending\<close> as a condition: \<open>undefined\<close> is falsy.\<close>

definition is_pending :: "bool option \<Rightarrow> bool" where
  "is_pending p \<longleftrightarrow> p = Some True"

definition draft_entry :: "date \<Rightarrow> string \<Rightarrow> MemoEditorDraftMetadata \<Rightarrow> MemoEditorDraft" where
  "draft_entry now c m =
     \<lparr>d_mode = metadata_mode m, d_memoName = m_memoName m, d_baseUpdateTime = m_baseUpdateTime m,
      d_savedAt = Some (case m_savedAt m of None \<Rightarrow> to_iso now | Some s \<Rightarrow> s),
      d_requestId = m_requestId m, d_pending = m_pending m, d_attemptedAt = m_attemptedAt m, d_content = c\<rparr>"

definition writeEntry ::
  "date \<Rightarrow> string \<Rightarrow> string \<Rightarrow> MemoEditorDraftMetadata \<Rightarrow> storage \<Rightarrow> bool \<times> storage" where
  "writeEntry now k c m st =
     (if metadata_mode m = CreateMode \<and> trim c = []
      then (let (removed, st') = removeEntry k st in (if is_pending (m_pending m) then False else removed, st'))
      else (case set_item k (json_print (entry_json (draft_entry now c m))) st of
              None \<Rightarrow> (False, st)
            | Some st' \<Rightarrow> (True, st')))"

definition loadDraftEntry :: "storage \<Rightarrow> string \<Rightarrow> MemoEditorDraft option" where
  "loadDraftEntry st k =
     (case get_item st k of
        None \<Rightarrow> None
      | Some None \<Rightarrow> None
      | Some (Some raw) \<Rightarrow> Some (deserializeDraft raw))"

section \<open>The service\<close>

text \<open>A live browser timer holds what its callback captured. Timer ids are positive, so \<open>if (pendingSave)\<close> is
  a test for presence.\<close>

record save_timer =
  t_due :: date
  t_key :: string
  t_content :: string
  t_meta :: MemoEditorDraftMetadata

record draft_cache =
  c_store :: storage
  pendingSaves :: "(string, nat) jsmap"
  timers :: "(nat, save_timer) jsmap"
  next_timer :: nat
  clock :: date

definition cache_key :: "string \<Rightarrow> string option \<Rightarrow> string" where
  "cache_key username ck = username @ ''-'' @ (case ck of None \<Rightarrow> '''' | Some x \<Rightarrow> x)"

definition clearTimeout :: "nat \<Rightarrow> draft_cache \<Rightarrow> draft_cache" where
  "clearTimeout t s = s\<lparr>timers := map_delete t (timers s)\<rparr>"

definition cache_save :: "string \<Rightarrow> string \<Rightarrow> MemoEditorDraftMetadata \<Rightarrow> draft_cache \<Rightarrow> draft_cache" where
  "cache_save k c m s =
     (let s1 = (case map_get (pendingSaves s) k of None \<Rightarrow> s | Some t \<Rightarrow> clearTimeout t s);
          t = next_timer s1
      in s1\<lparr>timers := map_set t \<lparr>t_due = clock s1 + int CACHE_DEBOUNCE_DELAY, t_key = k, t_content = c, t_meta = m\<rparr>
              (timers s1),
            next_timer := Suc t,
            pendingSaves := map_set k t (pendingSaves s1)\<rparr>)"

text \<open>The opening of \<open>saveNow\<close> and \<open>clear\<close>.\<close>

definition cancel_pending :: "string \<Rightarrow> draft_cache \<Rightarrow> draft_cache" where
  "cancel_pending k s =
     (case map_get (pendingSaves s) k of
        None \<Rightarrow> s
      | Some t \<Rightarrow> (clearTimeout t s)\<lparr>pendingSaves := map_delete k (pendingSaves s)\<rparr>)"

definition saveNow :: "string \<Rightarrow> string \<Rightarrow> MemoEditorDraftMetadata \<Rightarrow> draft_cache \<Rightarrow> bool \<times> draft_cache" where
  "saveNow k c m s =
     (let s1 = cancel_pending k s; (ok, st) = writeEntry (clock s1) k c m (c_store s1)
      in (ok, s1\<lparr>c_store := st\<rparr>))"

definition cache_load :: "draft_cache \<Rightarrow> string \<Rightarrow> string" where
  "cache_load s k = (case loadDraftEntry (c_store s) k of None \<Rightarrow> '''' | Some d \<Rightarrow> d_content d)"

definition loadDraft :: "draft_cache \<Rightarrow> string \<Rightarrow> MemoEditorDraft option" where
  "loadDraft s k = loadDraftEntry (c_store s) k"

definition cache_clear :: "string \<Rightarrow> draft_cache \<Rightarrow> draft_cache" where
  "cache_clear k s = (let s1 = cancel_pending k s in s1\<lparr>c_store := snd (removeEntry k (c_store s1))\<rparr>)"

definition clearAll :: "draft_cache \<Rightarrow> draft_cache" where
  "clearAll s = (fold (\<lambda>(k, t). clearTimeout t) (pendingSaves s) s)\<lparr>pendingSaves := []\<rparr>"

text \<open>The callback of the debounce timer.\<close>

definition fire_save :: "nat \<Rightarrow> save_timer \<Rightarrow> draft_cache \<Rightarrow> draft_cache" where
  "fire_save t d s =
     s\<lparr>timers := map_delete t (timers s),
       pendingSaves := map_delete (t_key d) (pendingSaves s),
       c_store := snd (writeEntry (clock s) (t_key d) (t_content d) (t_meta d) (c_store s))\<rparr>"

definition empty_cache :: draft_cache where
  "empty_cache = \<lparr>c_store = empty_storage, pendingSaves = [], timers = [], next_timer = 1, clock = 0\<rparr>"

section \<open>Executions\<close>

datatype cache_event =
  Save string string MemoEditorDraftMetadata
| SaveNow string string MemoEditorDraftMetadata
| Clear string
| ClearAll
| Fire nat
| Wait nat

inductive cache_step :: "cache_event \<Rightarrow> draft_cache \<Rightarrow> draft_cache \<Rightarrow> bool" where
  step_save: "cache_step (Save k c m) s (cache_save k c m s)"
| step_save_now: "cache_step (SaveNow k c m) s (snd (saveNow k c m s))"
| step_clear: "cache_step (Clear k) s (cache_clear k s)"
| step_clear_all: "cache_step ClearAll s (clearAll s)"
| step_fire: "map_get (timers s) t = Some d \<Longrightarrow> t_due d \<le> clock s \<Longrightarrow> cache_step (Fire t) s (fire_save t d s)"
| step_wait: "cache_step (Wait n) s (s\<lparr>clock := clock s + int n\<rparr>)"

inductive_cases step_saveE: "cache_step (Save k c m) s s'"
inductive_cases step_save_nowE: "cache_step (SaveNow k c m) s s'"
inductive_cases step_clearE: "cache_step (Clear k) s s'"
inductive_cases step_clear_allE: "cache_step ClearAll s s'"
inductive_cases step_fireE: "cache_step (Fire t) s s'"
inductive_cases step_waitE: "cache_step (Wait n) s s'"

inductive cache_runs :: "cache_event list \<Rightarrow> draft_cache \<Rightarrow> draft_cache \<Rightarrow> bool" where
  runs_nil: "cache_runs [] s s"
| runs_cons: "cache_step e s s1 \<Longrightarrow> cache_runs es s1 s' \<Longrightarrow> cache_runs (e # es) s s'"

inductive_simps runs_nil_simp [simp]: "cache_runs [] s s'"
inductive_simps runs_cons_simp: "cache_runs (e # es) s s'"

text \<open>The live timers are exactly the ones in \<open>pendingSaves\<close>, under the key they write.\<close>

definition cache_inv :: "draft_cache \<Rightarrow> bool" where
  "cache_inv s \<longleftrightarrow>
     (\<forall>t d. map_get (timers s) t = Some d \<longrightarrow> t < next_timer s \<and> map_get (pendingSaves s) (t_key d) = Some t)
     \<and> (\<forall>k t. map_get (pendingSaves s) k = Some t \<longrightarrow> (\<exists>d. map_get (timers s) t = Some d \<and> t_key d = k))"

section \<open>Reading back an entry\<close>

lemma json_ok_entry: "json_ok (entry_json d)"
  by (auto simp: entry_json_def opt_field_def split: option.splits)

lemma entry_props:
  "json_prop (entry_json d) ''kind'' = Some (JStr STRUCTURED_CACHE_ENTRY_KIND)"
  "json_prop (entry_json d) ''version'' = Some (JNum STRUCTURED_CACHE_ENTRY_VERSION)"
  "json_prop (entry_json d) ''mode'' = Some (JStr (mode_string (d_mode d)))"
  "json_prop (entry_json d) ''memoName'' = map_option JStr (d_memoName d)"
  "json_prop (entry_json d) ''baseUpdateTime'' = map_option JStr (d_baseUpdateTime d)"
  "json_prop (entry_json d) ''savedAt'' = map_option JStr (d_savedAt d)"
  "json_prop (entry_json d) ''requestId'' = map_option JStr (d_requestId d)"
  "json_prop (entry_json d) ''pending'' = map_option JBool (d_pending d)"
  "json_prop (entry_json d) ''attemptedAt'' = map_option JStr (d_attemptedAt d)"
  "json_prop (entry_json d) ''content'' = Some (JStr (d_content d))"
  by (simp_all add: json_prop_def entry_json_def opt_field_def map_get_def split: option.splits)

lemma opt_map [simp]:
  "opt_str (map_option JStr x) = Some x" "opt_bool (map_option JBool y) = Some y"
  by (simp_all add: opt_str_def opt_bool_def split: option.splits)

lemma parse_mode_string [simp]: "parse_mode (Some (JStr (mode_string m))) = Some m"
  by (cases m) (simp_all add: parse_mode_def mode_string_def)

lemma deserialize_entry:
  assumes "d_savedAt d = Some sa"
  shows "deserializeDraft (json_print (entry_json d)) = d"
  using assms js.parse_print [OF json_ok_entry, of d]
  by (simp add: deserializeDraft_def deserialize_structured_def str_prop_def entry_props STRUCTURED_CACHE_ENTRY_VERSION_def)

section \<open>The invariant\<close>

lemma get_removeEntry:
  "get_item (snd (removeEntry k st)) j = (if j = k \<and> accessible st then Some None else get_item st j)"
  by (auto simp: removeEntry_def remove_item_def get_item_def)

lemma snd_writeEntry:
  "snd (writeEntry now k c m st) =
     (if metadata_mode m = CreateMode \<and> trim c = [] then snd (removeEntry k st)
      else try_set_item k (json_print (entry_json (draft_entry now c m))) st)"
  by (simp add: writeEntry_def try_set_item_def split: option.split prod.split)

lemma writeEntry_other: "j \<noteq> k \<Longrightarrow> get_item (snd (writeEntry now k c m st)) j = get_item st j"
  by (simp add: snd_writeEntry get_removeEntry try_items ws.get_try_put_other)

lemma loadDraftEntry_other:
  "j \<noteq> k \<Longrightarrow> loadDraftEntry (snd (writeEntry now k c m st)) j = loadDraftEntry st j"
  "j \<noteq> k \<Longrightarrow> loadDraftEntry (snd (removeEntry k st)) j = loadDraftEntry st j"
  by (simp_all add: loadDraftEntry_def writeEntry_other get_removeEntry)

lemma loadDraftEntry_removed: "loadDraftEntry (snd (removeEntry k st)) k = None"
  by (simp add: loadDraftEntry_def get_removeEntry) (simp add: get_item_def)

lemma cancel_pending_simps [simp]:
  "c_store (cancel_pending k s) = c_store s" "clock (cancel_pending k s) = clock s"
  "map_get (pendingSaves (cancel_pending k s)) j = (if j = k then None else map_get (pendingSaves s) j)"
  by (auto simp: cancel_pending_def clearTimeout_def split: option.splits)

lemma service_store:
  "c_store (snd (saveNow k c m s)) = snd (writeEntry (clock s) k c m (c_store s))"
  "c_store (cache_clear k s) = snd (removeEntry k (c_store s))"
  by (simp_all add: saveNow_def cache_clear_def split: prod.split)

lemma service_pending:
  "map_get (pendingSaves (snd (saveNow k c m s))) j = (if j = k then None else map_get (pendingSaves s) j)"
  "map_get (pendingSaves (cache_clear k s)) j = (if j = k then None else map_get (pendingSaves s) j)"
  by (simp_all add: saveNow_def cache_clear_def split: prod.split)

lemma cache_invI:
  assumes "\<And>t d. map_get (timers s) t = Some d \<Longrightarrow> t < next_timer s \<and> map_get (pendingSaves s) (t_key d) = Some t"
    and "\<And>k t. map_get (pendingSaves s) k = Some t \<Longrightarrow> \<exists>d. map_get (timers s) t = Some d \<and> t_key d = k"
  shows "cache_inv s"
  using assms by (simp add: cache_inv_def)

lemma cache_inv_timer:
  "cache_inv s \<Longrightarrow> map_get (timers s) t = Some d \<Longrightarrow> t < next_timer s"
  "cache_inv s \<Longrightarrow> map_get (timers s) t = Some d \<Longrightarrow> map_get (pendingSaves s) (t_key d) = Some t"
  by (simp_all add: cache_inv_def)

lemma cache_inv_pending:
  assumes "cache_inv s" "map_get (pendingSaves s) k = Some t"
  obtains d where "map_get (timers s) t = Some d" "t_key d = k"
  using assms unfolding cache_inv_def by blast

lemma cache_inv_key: "cache_inv s \<Longrightarrow> map_get (pendingSaves s) k = Some t \<Longrightarrow> map_get (timers s) t = Some d \<Longrightarrow> t_key d = k"
  by (metis cache_inv_pending option.inject)

lemma cache_inv_cancel:
  assumes "cache_inv s"
  shows "cache_inv (cancel_pending k s)"
proof (cases "map_get (pendingSaves s) k")
  case None
  with assms show ?thesis by (simp add: cancel_pending_def)
next
  case (Some t)
  note inv = cache_inv_timer [OF assms] cache_inv_key [OF assms]
  show ?thesis
  proof (rule cache_invI)
    show "t' < next_timer (cancel_pending k s) \<and> map_get (pendingSaves (cancel_pending k s)) (t_key d) = Some t'"
      if "map_get (timers (cancel_pending k s)) t' = Some d" for t' d
      using that Some inv by (auto simp: cancel_pending_def clearTimeout_def split: if_splits)
    show "\<exists>d. map_get (timers (cancel_pending k s)) t' = Some d \<and> t_key d = j"
      if j: "map_get (pendingSaves (cancel_pending k s)) j = Some t'" for t' j
    proof -
      from j have "j \<noteq> k" "map_get (pendingSaves s) j = Some t'" by (simp_all split: if_splits)
      moreover from this(2) obtain d where "map_get (timers s) t' = Some d" "t_key d = j"
        using cache_inv_pending [OF assms] by blast
      moreover from calculation have "t' \<noteq> t" using Some inv(3) by blast
      ultimately show ?thesis using Some by (auto simp: cancel_pending_def clearTimeout_def)
    qed
  qed
qed

lemma cache_inv_store [simp]: "cache_inv (s\<lparr>c_store := st\<rparr>) = cache_inv s" "cache_inv (s\<lparr>clock := n\<rparr>) = cache_inv s"
  by (simp_all add: cache_inv_def)

text \<open>\<open>save\<close> is \<open>cancel_pending\<close> followed by the registration of a new timer, up to the position of the key in
  \<open>pendingSaves\<close>.\<close>

lemma cache_save_simps [simp]:
  "c_store (cache_save k c m s) = c_store s" "clock (cache_save k c m s) = clock s"
  "map_get (pendingSaves (cache_save k c m s)) j = (if j = k then Some (next_timer s) else map_get (pendingSaves s) j)"
  "next_timer (cache_save k c m s) = Suc (next_timer s)"
  "map_get (timers (cache_save k c m s)) t =
     (if t = next_timer s
      then Some \<lparr>t_due = clock s + int CACHE_DEBOUNCE_DELAY, t_key = k, t_content = c, t_meta = m\<rparr>
      else map_get (timers (cancel_pending k s)) t)"
  by (simp_all add: cache_save_def cancel_pending_def clearTimeout_def Let_def split: option.split)

lemma cache_inv_save:
  assumes "cache_inv s"
  shows "cache_inv (cache_save k c m s)"
proof (rule cache_invI)
  have nt: "next_timer (cancel_pending k s) = next_timer s"
    by (simp add: cancel_pending_def clearTimeout_def split: option.split)
  note inv = cache_inv_cancel [OF assms, of k]
  show "t < next_timer (cache_save k c m s) \<and> map_get (pendingSaves (cache_save k c m s)) (t_key d) = Some t"
    if "map_get (timers (cache_save k c m s)) t = Some d" for t d
    using that nt cache_inv_timer [OF inv, of t d] by (auto split: if_splits)
  show "\<exists>d. map_get (timers (cache_save k c m s)) t = Some d \<and> t_key d = j"
    if j: "map_get (pendingSaves (cache_save k c m s)) j = Some t" for t j
  proof (cases "j = k")
    case False
    with j have "map_get (pendingSaves (cancel_pending k s)) j = Some t" by simp
    then obtain d where "map_get (timers (cancel_pending k s)) t = Some d" "t_key d = j"
      using cache_inv_pending [OF inv] by blast
    with nt cache_inv_timer(1) [OF inv, of t d] show ?thesis by auto
  qed (use j in auto)
qed

lemma cache_inv_fire:
  assumes "cache_inv s" "map_get (timers s) t = Some d"
  shows "cache_inv (fire_save t d s)"
proof (rule cache_invI)
  note inv = cache_inv_timer [OF assms(1)] cache_inv_key [OF assms(1)]
  show "t' < next_timer (fire_save t d s) \<and> map_get (pendingSaves (fire_save t d s)) (t_key d') = Some t'"
    if "map_get (timers (fire_save t d s)) t' = Some d'" for t' d'
    using that assms(2) inv(1,2) [of t' d'] inv(2) [of t d] by (auto simp: fire_save_def split: if_splits)
  show "\<exists>d'. map_get (timers (fire_save t d s)) t' = Some d' \<and> t_key d' = j"
    if "map_get (pendingSaves (fire_save t d s)) j = Some t'" for t' j
  proof -
    from that have "j \<noteq> t_key d" and j: "map_get (pendingSaves s) j = Some t'"
      by (simp_all add: fire_save_def split: if_splits)
    moreover from j obtain d' where "map_get (timers s) t' = Some d'" "t_key d' = j"
      using cache_inv_pending [OF assms(1)] by blast
    ultimately show ?thesis using assms(2) by (auto simp: fire_save_def)
  qed
qed

lemma fold_clearTimeout:
  "fold (\<lambda>(k, t). clearTimeout t) ps s = s\<lparr>timers := filter (\<lambda>(t, d). t \<notin> snd ` set ps) (timers s)\<rparr>"
  by (induction ps arbitrary: s) (auto simp: clearTimeout_def map_delete_def intro!: arg_cong [of _ _ "\<lambda>x. _\<lparr>timers := x\<rparr>"]
      filter_cong)

lemma clearAll_timers:
  assumes "cache_inv s"
  shows "timers (clearAll s) = []"
proof -
  have "t \<in> snd ` set (pendingSaves s)" if "(t, d) \<in> set (timers s)" for t d
  proof -
    from that obtain d' where "map_get (timers s) t = Some d'"
      by (metis fst_conv map_get_keys image_eqI list.set_map not_None_eq)
    with assms have "map_get (pendingSaves s) (t_key d') = Some t" by (auto simp: cache_inv_def)
    then show ?thesis by (force simp: map_get_def dest: map_of_SomeD)
  qed
  then show ?thesis by (auto simp: clearAll_def fold_clearTimeout filter_empty_conv)
qed

lemma cache_inv_clearAll: "cache_inv s \<Longrightarrow> cache_inv (clearAll s)"
  using clearAll_timers [of s] by (simp add: cache_inv_def) (simp add: clearAll_def fold_clearTimeout)

lemma cache_inv_step:
  assumes "cache_step e s s'" "cache_inv s"
  shows "cache_inv s'"
  using assms
  by (cases rule: cache_step.cases)
    (auto simp: saveNow_def cache_clear_def Let_def cache_inv_save cache_inv_cancel cache_inv_fire cache_inv_clearAll
      split: prod.splits)

lemma cache_inv_empty: "cache_inv empty_cache"
  by (simp add: cache_inv_def empty_cache_def)

lemma cache_inv_runs: "cache_runs es s s' \<Longrightarrow> cache_inv s \<Longrightarrow> cache_inv s'"
  by (induction rule: cache_runs.induct) (auto dest: cache_inv_step)

section \<open>Keys that are left alone\<close>

text \<open>The key an event is a call for.\<close>

fun event_key :: "cache_event \<Rightarrow> string option" where
  "event_key (Save k c m) = Some k"
| "event_key (SaveNow k c m) = Some k"
| "event_key (Clear k) = Some k"
| "event_key _ = None"

definition idle_for :: "string \<Rightarrow> cache_event \<Rightarrow> bool" where
  "idle_for k e \<longleftrightarrow> event_key e \<noteq> Some k"

lemma step_other_key:
  assumes "cache_step e s s'" "cache_inv s" "idle_for k e" "map_get (pendingSaves s) k = None"
  shows "map_get (pendingSaves s') k = None \<and> loadDraft s' k = loadDraft s k"
  using assms(1)
proof (cases rule: cache_step.cases)
  case (step_save k' c m)
  then show ?thesis using assms(3,4)
    by (simp add: idle_for_def loadDraft_def)
next
  case (step_save_now k' c m)
  then show ?thesis using assms(3,4)
    by (simp add: idle_for_def service_store service_pending loadDraft_def loadDraftEntry_other)
next
  case (step_clear k')
  then show ?thesis using assms(3,4)
    by (simp add: idle_for_def service_store service_pending loadDraft_def loadDraftEntry_other)
next
  case step_clear_all
  then show ?thesis by (simp add: clearAll_def fold_clearTimeout loadDraft_def)
next
  case (step_fire t d)
  then have "t_key d \<noteq> k" using cache_inv_timer(2) [OF assms(2)] assms(4) by force
  then show ?thesis using step_fire assms(4) by (auto simp: fire_save_def loadDraft_def loadDraftEntry_other)
qed (use assms in \<open>simp_all add: loadDraft_def\<close>)

lemma runs_other_key:
  "cache_runs es s s' \<Longrightarrow> cache_inv s \<Longrightarrow> list_all (idle_for k) es \<Longrightarrow> map_get (pendingSaves s) k = None \<Longrightarrow>
     map_get (pendingSaves s') k = None \<and> loadDraft s' k = loadDraft s k"
proof (induction rule: cache_runs.induct)
  case (runs_cons e s s1 es s')
  then show ?case using step_other_key [of e s s1 k] cache_inv_step [of e s s1] by auto
qed simp

text \<open>While the timer of a key is pending and no call is made for the key, the timer stays as it is or fires.\<close>

lemma step_pending:
  assumes "cache_step e s s'" "cache_inv s" "idle_for k e" "e \<noteq> ClearAll"
    and "map_get (pendingSaves s) k = Some t" "map_get (timers s) t = Some d"
  shows "(map_get (pendingSaves s') k = Some t \<and> map_get (timers s') t = Some d)
     \<or> (e = Fire t \<and> t_due d \<le> clock s \<and> s' = fire_save t d s)"
proof -
  note key = cache_inv_key [OF assms(2) _ assms(6)] cache_inv_timer [OF assms(2,6)]
  have cancel: "map_get (timers (cancel_pending j s)) t = Some d" if "j \<noteq> k" for j
    using that assms(5,6) key(1) [of j] key(1) [of k]
    by (auto simp: cancel_pending_def clearTimeout_def split: option.split)
  from assms(1) show ?thesis
  proof (cases rule: cache_step.cases)
    case (step_save k' c m)
    then show ?thesis using assms(3,5) key(2) cancel [of k'] by (auto simp: idle_for_def)
  next
    case (step_save_now k' c m)
    then show ?thesis using assms(3,5) cancel [of k'] by (auto simp: idle_for_def saveNow_def split: prod.split)
  next
    case (step_clear k')
    then show ?thesis using assms(3,5) cancel [of k'] by (auto simp: idle_for_def cache_clear_def)
  next
    case (step_fire t' d')
    show ?thesis
    proof (cases "t' = t")
      case True
      with step_fire assms(6) show ?thesis by simp
    next
      case False
      moreover have "t_key d' \<noteq> k" using cache_inv_timer(2) [OF assms(2) step_fire(3)] assms(5) False by auto
      ultimately show ?thesis using step_fire assms(5,6) by (simp add: fire_save_def)
    qed
  qed (use assms in simp_all)
qed


text \<open>No step changes whether the storage can be used.\<close>

lemma writeEntry_env:
  "accessible (snd (writeEntry now k c m st)) = accessible st" "has_room (snd (writeEntry now k c m st)) = has_room st"
  by (simp_all add: snd_writeEntry try_set_item_def set_item_def removeEntry_def remove_item_def)

lemma removeEntry_env:
  "accessible (snd (removeEntry k st)) = accessible st" "has_room (snd (removeEntry k st)) = has_room st"
  by (simp_all add: removeEntry_def remove_item_def)

lemma step_storage_env:
  assumes "cache_step e s s'"
  shows "accessible (c_store s') = accessible (c_store s) \<and> has_room (c_store s') = has_room (c_store s)"
  using assms
  by (cases rule: cache_step.cases)
    (simp_all add: service_store clearAll_def fold_clearTimeout fire_save_def writeEntry_env removeEntry_env)

lemma step_pending_draft:
  assumes "cache_step e s s'" "cache_inv s" "idle_for k e" "e \<noteq> ClearAll"
    and "map_get (pendingSaves s) k = Some t" "map_get (pendingSaves s') k = Some t"
  shows "loadDraft s' k = loadDraft s k"
  using assms(1)
proof (cases rule: cache_step.cases)
  case (step_save_now k' c m)
  then show ?thesis using assms(3) by (simp add: idle_for_def service_store loadDraft_def loadDraftEntry_other)
next
  case (step_fire t' d')
  then have "t_key d' \<noteq> k" using assms(6) by (auto simp: fire_save_def split: if_splits)
  then show ?thesis using step_fire by (simp add: fire_save_def loadDraft_def loadDraftEntry_other)
qed (use assms(3,4) in \<open>auto simp: idle_for_def cache_clear_def loadDraft_def loadDraftEntry_other\<close>)

lemma runs_pending:
  assumes "cache_runs es s s'" "cache_inv s" "list_all (\<lambda>e. idle_for k e \<and> e \<noteq> ClearAll) es"
    and "map_get (pendingSaves s) k = Some t" "map_get (timers s) t = Some d"
  shows "(map_get (pendingSaves s') k = Some t \<and> map_get (timers s') t = Some d \<and> loadDraft s' k = loadDraft s k)
     \<or> (\<exists>u \<ge> t_due d. \<exists>st. accessible st = accessible (c_store s) \<and> has_room st = has_room (c_store s)
          \<and> loadDraft s' k = loadDraftEntry (snd (writeEntry u k (t_content d) (t_meta d) st)) k)"
  using assms
proof (induction rule: cache_runs.induct)
  case (runs_cons e s s1 es s')
  have inv1: "cache_inv s1" using runs_cons.hyps(1) runs_cons.prems(1) by (rule cache_inv_step)
  have idle: "idle_for k e" "e \<noteq> ClearAll" "list_all (idle_for k) es" using runs_cons.prems(2) by (simp_all add: list_all_iff)
  have env: "accessible (c_store s1) = accessible (c_store s)" "has_room (c_store s1) = has_room (c_store s)"
    using step_storage_env [OF runs_cons.hyps(1)] by simp_all
  from step_pending [OF runs_cons.hyps(1) runs_cons.prems(1) idle(1,2) runs_cons.prems(3,4)]
  show ?case
  proof (elim disjE conjE)
    assume p: "map_get (pendingSaves s1) k = Some t" "map_get (timers s1) t = Some d"
    have "loadDraft s1 k = loadDraft s k"
      using runs_cons.hyps(1) runs_cons.prems(1) idle(1,2) runs_cons.prems(3) p(1) by (rule step_pending_draft)
    with runs_cons.IH [OF inv1 _ p] runs_cons.prems(2) env show ?thesis by simp
  next
    assume f: "t_due d \<le> clock s" "s1 = fire_save t d s"
    have k: "t_key d = k" using runs_cons.prems by (intro cache_inv_key)
    have "map_get (pendingSaves s1) k = None" by (simp add: f fire_save_def k)
    from runs_other_key [OF runs_cons.hyps(2) inv1 idle(3) this] have "loadDraft s' k = loadDraft s1 k" by simp
    then show ?thesis using f(1) by (auto simp: f(2) fire_save_def loadDraft_def k)
  qed
qed simp


lemma loadDraft_written:
  assumes "accessible st" "has_room st"
  shows "loadDraftEntry (snd (writeEntry now k c m st)) k =
     (if metadata_mode m = CreateMode \<and> trim c = [] then None else Some (draft_entry now c m))"
  using assms
  by (auto simp: snd_writeEntry loadDraftEntry_removed)
    (simp_all add: loadDraftEntry_def try_set_item_def set_item_def get_item_def deserialize_entry draft_entry_def)

lemma writeEntry_ok:
  assumes "writeEntry now k c m st = (True, st')"
  shows "loadDraftEntry st' k = (if metadata_mode m = CreateMode \<and> trim c = [] then None else Some (draft_entry now c m))"
    and "is_pending (m_pending m) \<Longrightarrow> \<not> (metadata_mode m = CreateMode \<and> trim c = [])"
proof -
  show "loadDraftEntry st' k = (if metadata_mode m = CreateMode \<and> trim c = [] then None else Some (draft_entry now c m))"
  proof (cases "metadata_mode m = CreateMode \<and> trim c = []")
    case True
    with assms have "st' = snd (removeEntry k st)" by (simp add: writeEntry_def split: prod.splits)
    with True show ?thesis by (simp add: loadDraftEntry_removed)
  next
    case False
    with assms have "accessible st" "has_room st" by (auto simp: writeEntry_def set_item_def split: if_splits)
    then show ?thesis using loadDraft_written [of st now k c m] assms by simp
  qed
  show "is_pending (m_pending m) \<Longrightarrow> \<not> (metadata_mode m = CreateMode \<and> trim c = [])"
    using assms by (auto simp: writeEntry_def split: prod.splits)
qed

text \<open>The states the page can get into from any contents of the storage.\<close>

definition cache_reachable :: "draft_cache \<Rightarrow> bool" where
  "cache_reachable s \<longleftrightarrow> (\<exists>st now es. cache_runs es (empty_cache\<lparr>c_store := st, clock := now\<rparr>) s)"

lemma cache_reachable_inv: "cache_reachable s \<Longrightarrow> cache_inv s"
  unfolding cache_reachable_def using cache_inv_runs cache_inv_empty cache_inv_store by metis

lemma cache_runs_snoc: "cache_runs es s s' \<Longrightarrow> cache_step e s' s2 \<Longrightarrow> cache_runs (es @ [e]) s s2"
  by (induction rule: cache_runs.induct) (auto intro: cache_runs.intros)

lemma cache_reachable_empty: "cache_reachable empty_cache"
proof -
  have "empty_cache\<lparr>c_store := empty_storage, clock := 0\<rparr> = empty_cache" by (simp add: empty_cache_def)
  then have "cache_runs [] (empty_cache\<lparr>c_store := empty_storage, clock := 0\<rparr>) empty_cache" by simp
  then show ?thesis unfolding cache_reachable_def by blast
qed

lemma cache_reachable_step: "cache_reachable s \<Longrightarrow> cache_step e s s' \<Longrightarrow> cache_reachable s'"
  unfolding cache_reachable_def using cache_runs_snoc by blast

lemma deserialize_content:
  "d_content (deserialize_structured raw p) = raw
   \<or> str_prop p ''content'' = Some (d_content (deserialize_structured raw p))"
  unfolding deserialize_structured_def Let_def by (simp add: raw_draft_def split: option.split)

lemma str_prop_Some: "str_prop p k = Some x \<longleftrightarrow> json_prop p k = Some (JStr x)"
  by (auto simp: str_prop_def split: option.splits json.splits)

section \<open>Properties\<close>

definition text_meta :: "MemoEditorDraftMetadata" where
  "text_meta = \<lparr>m_mode = Some EditMode, m_memoName = Some ''memos/1'', m_baseUpdateTime = None, m_savedAt = None,
     m_requestId = Some ''r1'', m_pending = Some True, m_attemptedAt = None\<rparr>"



text \<open>A pending save is recoverable. When \<open>saveNow\<close> reports success for a draft marked as pending, that draft
  is what a reload finds: its text, request id and attempt time are all there. In particular success is not
  reported for a pending create that has attachments but no text.\<close>

theorem pending_save_recoverable:
  assumes "saveNow k c m s = (True, s')" "is_pending (m_pending m)"
  shows "loadDraft s' k = Some (draft_entry (clock s) c m) \<and> cache_load s' k = c"
proof -
  from assms(1) have "writeEntry (clock s) k c m (c_store s) = (True, c_store s')"
    by (auto simp: saveNow_def split: prod.splits)
  from writeEntry_ok [OF this] assms(2) show ?thesis
    by (auto simp: loadDraft_def cache_load_def draft_entry_def)
qed

theorem pending_save_recoverable_witness:
  "is_pending (m_pending text_meta)
   \<and> cache_load (snd (saveNow ''u-'' ''hi'' text_meta empty_cache)) ''u-'' = ''hi''"
proof -
  have "saveNow ''u-'' ''hi'' text_meta empty_cache = (True, snd (saveNow ''u-'' ''hi'' text_meta empty_cache))"
    by (simp add: saveNow_def cancel_pending_def empty_cache_def writeEntry_def metadata_mode_def text_meta_def
        set_item_def empty_storage_def)
  moreover have p: "is_pending (m_pending text_meta)" by (simp add: is_pending_def text_meta_def)
  ultimately show ?thesis using pending_save_recoverable [of "''u-''" "''hi''" text_meta empty_cache] by blast
qed

text \<open>C12. A cleared draft does not come back. After \<open>clear\<close>, whatever timers fire and whatever is saved or
  cleared under other keys, the key has no draft until it is saved again.\<close>

theorem clear_final:
  assumes "cache_reachable s" "cache_runs es (cache_clear k s) s'" "list_all (idle_for k) es"
  shows "loadDraft s' k = None"
proof -
  have "cache_inv (cache_clear k s)"
    using cache_inv_step [OF step_clear cache_reachable_inv [OF assms(1)]] .
  from runs_other_key [OF assms(2) this assms(3)] show ?thesis
    by (simp add: service_pending service_store loadDraft_def loadDraftEntry_removed)
qed

theorem clear_final_witness:
  "loadDraft ((cache_clear ''u-'' (cache_save ''u-'' ''hi'' text_meta empty_cache))\<lparr>clock := 900\<rparr>) ''u-'' = None"
proof (rule clear_final)
  show "cache_reachable (cache_save ''u-'' ''hi'' text_meta empty_cache)"
    using cache_reachable_step [OF cache_reachable_empty step_save] .
  have "clock (cache_clear ''u-'' (cache_save ''u-'' ''hi'' text_meta empty_cache)) = 0"
    by (simp add: cache_clear_def) (simp add: empty_cache_def)
  then show "cache_runs [Wait 900] (cache_clear ''u-'' (cache_save ''u-'' ''hi'' text_meta empty_cache))
      ((cache_clear ''u-'' (cache_save ''u-'' ''hi'' text_meta empty_cache))\<lparr>clock := 900\<rparr>)"
    using step_wait [of 900 "cache_clear ''u-'' (cache_save ''u-'' ''hi'' text_meta empty_cache)"]
    by (auto intro!: runs_cons runs_nil)
  show "list_all (idle_for ''u-'') [Wait 900]" by (simp add: idle_for_def)
qed

text \<open>Debouncing keeps the last text. After a debounced \<open>save\<close>, as long as no further call is made for the
  key, either the stored draft is still the old one and the timer is live, and can fire as soon as
  \<open>CACHE_DEBOUNCE_DELAY\<close> has passed; or the timer has fired, no earlier than that, and the stored draft is the one
  given to that last \<open>save\<close>: no earlier text and no other timer has replaced it.\<close>

theorem save_debounced:
  assumes "cache_reachable s" "cache_runs es (cache_save k c m s) s'"
    and "list_all (\<lambda>e. idle_for k e \<and> e \<noteq> ClearAll) es" "accessible (c_store s)" "has_room (c_store s)"
  shows "(loadDraft s' k = loadDraft s k
        \<and> (\<exists>d. map_get (timers s') (next_timer s) = Some d \<and> t_due d = clock s + int CACHE_DEBOUNCE_DELAY
              \<and> t_key d = k \<and> t_content d = c \<and> t_meta d = m))
     \<or> (\<exists>u \<ge> clock s + int CACHE_DEBOUNCE_DELAY.
          loadDraft s' k = (if metadata_mode m = CreateMode \<and> trim c = [] then None else Some (draft_entry u c m)))"
proof -
  let ?d = "\<lparr>t_due = clock s + int CACHE_DEBOUNCE_DELAY, t_key = k, t_content = c, t_meta = m\<rparr>"
  have inv: "cache_inv (cache_save k c m s)" using cache_inv_save [OF cache_reachable_inv [OF assms(1)]] .
  have "map_get (pendingSaves (cache_save k c m s)) k = Some (next_timer s)"
    "map_get (timers (cache_save k c m s)) (next_timer s) = Some ?d" by simp_all
  from runs_pending [OF assms(2) inv assms(3) this] show ?thesis
    using assms(4,5) by (auto simp: loadDraft_written) (simp_all add: loadDraft_def)
qed

theorem save_debounced_witness:
  "let s = (cache_save ''u-'' ''hi'' text_meta empty_cache)\<lparr>clock := 500\<rparr>;
       d = \<lparr>t_due = 500, t_key = ''u-'', t_content = ''hi'', t_meta = text_meta\<rparr>
   in cache_runs [Wait 500, Fire 1] (cache_save ''u-'' ''hi'' text_meta empty_cache) (fire_save 1 d s)
      \<and> (\<exists>u \<ge> 500. loadDraft (fire_save 1 d s) ''u-'' = Some (draft_entry u ''hi'' text_meta))"
proof -
  let ?init = "cache_save ''u-'' ''hi'' text_meta empty_cache"
  let ?s = "?init\<lparr>clock := 500\<rparr>"
  let ?d = "\<lparr>t_due = 500, t_key = ''u-'', t_content = ''hi'', t_meta = text_meta\<rparr>"
  have n: "next_timer empty_cache = 1" "clock empty_cache = 0" "accessible (c_store empty_cache)"
    "has_room (c_store empty_cache)" by (simp_all add: empty_cache_def empty_storage_def)
  have w: "cache_step (Wait 500) ?init ?s" using step_wait [of 500 ?init] by (simp add: n)
  have "map_get (timers ?s) 1 = Some ?d" by (simp add: n CACHE_DEBOUNCE_DELAY_def)
  then have "cache_step (Fire 1) ?s (fire_save 1 ?d ?s)" by (rule step_fire) simp
  with w have r: "cache_runs [Wait 500, Fire 1] ?init (fire_save 1 ?d ?s)" by (meson runs_cons runs_nil)
  have gone: "map_get (timers (fire_save 1 ?d ?s)) 1 = None" by (simp add: fire_save_def)
  have nc: "\<not> (metadata_mode text_meta = CreateMode \<and> trim ''hi'' = [])"
    by (simp add: text_meta_def metadata_mode_def)
  have "list_all (\<lambda>e. idle_for ''u-'' e \<and> e \<noteq> ClearAll) [Wait 500, Fire 1]" by (simp add: idle_for_def)
  from save_debounced [OF cache_reachable_empty r this n(3,4)] gone nc
  have "\<exists>u \<ge> 500. loadDraft (fire_save 1 ?d ?s) ''u-'' = Some (draft_entry u ''hi'' text_meta)"
    by (simp add: n CACHE_DEBOUNCE_DELAY_def)
  with r show ?thesis by (simp add: Let_def)
qed

text \<open>Old drafts stay readable. Text that is not JSON is a create draft with that text; a version 1 entry
  gives its text; a version 2 entry gives its text and metadata without delivery fields; and in no case is the
  text of the draft anything but the raw entry or its \<open>content\<close> property.\<close>

theorem deserialize_legacy:
  "(json_parse raw = None \<longrightarrow> deserializeDraft raw = raw_draft raw)
   \<and> deserializeDraft (json_print (JObj [(''kind'', JStr STRUCTURED_CACHE_ENTRY_KIND), (''version'', JNum 1),
        (''content'', JStr c)])) = raw_draft c
   \<and> deserializeDraft (json_print (JObj [(''kind'', JStr STRUCTURED_CACHE_ENTRY_KIND), (''version'', JNum 2),
        (''mode'', JStr ''edit''), (''memoName'', JStr n), (''savedAt'', JStr t), (''content'', JStr c)]))
      = (raw_draft c)\<lparr>d_mode := EditMode, d_memoName := Some n, d_savedAt := Some t\<rparr>
   \<and> d_content (deserializeDraft raw)
       \<in> {raw} \<union> {x. \<exists>p. json_parse raw = Some p \<and> json_prop p ''content'' = Some (JStr x)}"
proof (intro conjI)
  show "json_parse raw = None \<longrightarrow> deserializeDraft raw = raw_draft raw" by (simp add: deserializeDraft_def)
  show "d_content (deserializeDraft raw)
      \<in> {raw} \<union> {x. \<exists>p. json_parse raw = Some p \<and> json_prop p ''content'' = Some (JStr x)}"
  proof (cases "json_parse raw")
    case (Some p)
    then show ?thesis using deserialize_content [of raw p]
      by (auto simp: deserializeDraft_def raw_draft_def str_prop_Some split: option.split)
  qed (simp add: deserializeDraft_def raw_draft_def)
qed (simp_all add: deserializeDraft_def str_prop_def js.parse_print json_prop_def map_get_def deserialize_structured_def parse_mode_def
    opt_str_def raw_draft_def del: json_print.simps)

theorem deserialize_legacy_witness:
  "json_parse ''# hi'' = None \<and> deserializeDraft ''# hi'' = raw_draft ''# hi''"
proof -
  have "json_parse ''# hi'' = None" by code_simp
  with deserialize_legacy [of "''# hi''" "''x''" "''n''" "''t''"] show ?thesis by blast
qed

end
