(* ===== verification/AutoSave.thy ===== *)
theory AutoSave
  imports DraftCache
begin

text \<open>
  The auto-save hook of the editor, \<open>components/MemoEditor/hooks/useAutoSave.ts\<close>. A mounted hook is a record
  with its refs, the properties of its last render, the \<open>flushDraft\<close> closure that the third effect registered, and
  the draft cache it writes to. A re-render runs the effects whose dependencies changed, cleanups first, in the
  order of the source.
\<close>

section \<open>The hook\<close>

record autosave_props =
  a_content :: string
  a_username :: string
  a_cacheKey :: "string option"
  a_enabled :: bool
  a_baseline :: string
  a_mode :: MemoEditorDraftMode
  a_memoName :: "string option"
  a_baseUpdateTime :: "string option"
  a_requestId :: "string option"
  a_pending :: "bool option"
  a_attemptedAt :: "string option"

text \<open>\<open>latestDelivery\<close> is the ref with \<open>requestId\<close>, \<open>pending\<close> and \<open>attemptedAt\<close>; \<open>flusher\<close> holds the properties
  that the registered \<open>flushDraft\<close> closed over.\<close>

record autosave =
  latestContent :: string
  discardedContent :: "string option"
  latestDelivery :: "string option \<times> bool option \<times> string option"
  flusher :: "autosave_props option"
  rendered :: autosave_props
  a_cache :: draft_cache

definition props_key :: "autosave_props \<Rightarrow> string" where
  "props_key p = cache_key (a_username p) (a_cacheKey p)"

definition delivery :: "autosave_props \<Rightarrow> string option \<times> bool option \<times> string option" where
  "delivery p = (a_requestId p, a_pending p, a_attemptedAt p)"

definition props_meta :: "autosave_props \<Rightarrow> string option \<times> bool option \<times> string option \<Rightarrow> MemoEditorDraftMetadata" where
  "props_meta p dl = \<lparr>m_mode = Some (a_mode p), m_memoName = a_memoName p, m_baseUpdateTime = a_baseUpdateTime p,
     m_savedAt = None, m_requestId = fst dl, m_pending = fst (snd dl), m_attemptedAt = snd (snd dl)\<rparr>"

definition flushDraft :: "autosave_props \<Rightarrow> autosave \<Rightarrow> autosave" where
  "flushDraft p s =
     (if discardedContent s = Some (latestContent s) then s
      else if latestContent s = a_baseline p \<and> \<not> is_pending (fst (snd (latestDelivery s)))
      then s\<lparr>a_cache := cache_clear (props_key p) (a_cache s)\<rparr>
      else s\<lparr>a_cache := snd (saveNow (props_key p) (latestContent s) (props_meta p (latestDelivery s)) (a_cache s))\<rparr>)"

definition flush_registered :: "autosave \<Rightarrow> autosave" where
  "flush_registered s = (case flusher s of None \<Rightarrow> s | Some p \<Rightarrow> flushDraft p s)"

text \<open>The first effect, on \<open>[content]\<close>.\<close>

definition effect_content :: "autosave_props \<Rightarrow> autosave \<Rightarrow> autosave" where
  "effect_content p s =
     s\<lparr>latestContent := a_content p,
       discardedContent := (case discardedContent s of
          None \<Rightarrow> None | Some d \<Rightarrow> if d \<noteq> a_content p then None else Some d)\<rparr>"

text \<open>The second effect, on all properties.\<close>

definition effect_save :: "autosave_props \<Rightarrow> autosave \<Rightarrow> autosave" where
  "effect_save p s =
     (if \<not> a_enabled p then s
      else if a_content p = a_baseline p \<and> \<not> is_pending (a_pending p)
      then s\<lparr>a_cache := cache_clear (props_key p) (a_cache s)\<rparr>
      else s\<lparr>a_cache := cache_save (props_key p) (a_content p) (props_meta p (delivery p)) (a_cache s)\<rparr>)"

text \<open>The dependencies of the third effect.\<close>

definition flush_deps ::
  "autosave_props \<Rightarrow> string \<times> string option \<times> bool \<times> string \<times> MemoEditorDraftMode \<times> string option \<times> string option" where
  "flush_deps p = (a_username p, a_cacheKey p, a_enabled p, a_baseline p, a_mode p, a_memoName p, a_baseUpdateTime p)"

definition effect_register :: "autosave_props \<Rightarrow> autosave \<Rightarrow> autosave" where
  "effect_register p s = s\<lparr>flusher := if a_enabled p then Some p else None\<rparr>"

definition autosave_mount :: "autosave_props \<Rightarrow> draft_cache \<Rightarrow> autosave" where
  "autosave_mount p c =
     effect_register p (effect_save p (effect_content p
       \<lparr>latestContent = a_content p, discardedContent = None, latestDelivery = delivery p, flusher = None,
        rendered = p, a_cache = c\<rparr>))"

definition autosave_render :: "autosave_props \<Rightarrow> autosave \<Rightarrow> autosave" where
  "autosave_render p s =
     (let old = rendered s;
          s1 = s\<lparr>latestDelivery := delivery p, rendered := p\<rparr>;
          s2 = (if flush_deps p \<noteq> flush_deps old then (flush_registered s1)\<lparr>flusher := None\<rparr> else s1);
          s3 = (if a_content p \<noteq> a_content old then effect_content p s2 else s2);
          s4 = (if p \<noteq> old then effect_save p s3 else s3)
      in if flush_deps p \<noteq> flush_deps old then effect_register p s4 else s4)"

definition autosave_unmount :: "autosave \<Rightarrow> autosave" where
  "autosave_unmount s = (flush_registered s)\<lparr>flusher := None\<rparr>"

definition discardDraft :: "autosave \<Rightarrow> autosave" where
  "discardDraft s =
     s\<lparr>discardedContent := Some (latestContent s), a_cache := cache_clear (props_key (rendered s)) (a_cache s)\<rparr>"

section \<open>Executions\<close>

text \<open>\<open>Hide\<close> is \<open>pagehide\<close> or \<open>visibilitychange\<close> to hidden; \<open>Tick\<close> lets time pass and \<open>Timer\<close> fires a debounce timer
  that is due.\<close>

datatype autosave_event = Rerender autosave_props | Hide | Discard | Timer nat | Tick nat

fun autosave_exec :: "autosave_event \<Rightarrow> autosave \<Rightarrow> autosave" where
  "autosave_exec (Rerender p) s = autosave_render p s"
| "autosave_exec Hide s = flush_registered s"
| "autosave_exec Discard s = discardDraft s"
| "autosave_exec (Timer t) s =
     (case map_get (timers (a_cache s)) t of
        None \<Rightarrow> s
      | Some d \<Rightarrow> if t_due d \<le> clock (a_cache s) then s\<lparr>a_cache := fire_save t d (a_cache s)\<rparr> else s)"
| "autosave_exec (Tick n) s = s\<lparr>a_cache := (a_cache s)\<lparr>clock := clock (a_cache s) + int n\<rparr>\<rparr>"

definition autosave_run :: "autosave_event list \<Rightarrow> autosave \<Rightarrow> autosave" where
  "autosave_run es s = fold autosave_exec es s"

section \<open>Invariant\<close>

text \<open>The refs agree with the last render, the closure was registered by a render with the same dependencies, and
  the cache is in order.\<close>

definition autosave_inv :: "autosave \<Rightarrow> bool" where
  "autosave_inv s \<longleftrightarrow>
     latestContent s = a_content (rendered s)
     \<and> latestDelivery s = delivery (rendered s)
     \<and> (case flusher s of None \<Rightarrow> \<not> a_enabled (rendered s)
        | Some p \<Rightarrow> a_enabled (rendered s) \<and> flush_deps p = flush_deps (rendered s))
     \<and> cache_inv (a_cache s)"

lemma cache_inv_clear [simp]: "cache_inv s \<Longrightarrow> cache_inv (cache_clear k s)"
  using cache_inv_step [OF step_clear] .

lemma cache_inv_saveNow [simp]: "cache_inv s \<Longrightarrow> cache_inv (snd (saveNow k c m s))"
  using cache_inv_step [OF step_save_now] .

lemma flushDraft_frame [simp]:
  "latestContent (flushDraft p s) = latestContent s" "discardedContent (flushDraft p s) = discardedContent s"
  "latestDelivery (flushDraft p s) = latestDelivery s" "flusher (flushDraft p s) = flusher s"
  "rendered (flushDraft p s) = rendered s"
  by (simp_all add: flushDraft_def)

lemma flush_registered_frame [simp]:
  "latestContent (flush_registered s) = latestContent s" "discardedContent (flush_registered s) = discardedContent s"
  "latestDelivery (flush_registered s) = latestDelivery s" "flusher (flush_registered s) = flusher s"
  "rendered (flush_registered s) = rendered s"
  by (simp_all add: flush_registered_def split: option.split)

lemma effect_save_frame [simp]:
  "latestContent (effect_save p s) = latestContent s" "discardedContent (effect_save p s) = discardedContent s"
  "latestDelivery (effect_save p s) = latestDelivery s" "flusher (effect_save p s) = flusher s"
  "rendered (effect_save p s) = rendered s"
  by (simp_all add: effect_save_def)

lemma flush_cache_inv [simp]: "cache_inv (a_cache s) \<Longrightarrow> cache_inv (a_cache (flush_registered s))"
  by (simp add: flush_registered_def flushDraft_def split: option.split)

lemma effect_cache_inv [simp]: "cache_inv (a_cache s) \<Longrightarrow> cache_inv (a_cache (effect_save p s))"
  by (simp add: effect_save_def cache_inv_save)

lemma autosave_inv_mount: "cache_inv c \<Longrightarrow> autosave_inv (autosave_mount p c)"
  by (simp add: autosave_inv_def autosave_mount_def effect_register_def effect_content_def)

lemma autosave_inv_render: "autosave_inv s \<Longrightarrow> autosave_inv (autosave_render p s)"
  by (auto simp: autosave_inv_def autosave_render_def Let_def effect_register_def effect_content_def flush_deps_def
      split: option.splits)

lemma autosave_inv_exec: "autosave_inv s \<Longrightarrow> autosave_inv (autosave_exec e s)"
proof (cases e)
  case (Rerender p)
  then show "autosave_inv s \<Longrightarrow> ?thesis" by (simp add: autosave_inv_render)
next
  case (Timer t)
  then show "autosave_inv s \<Longrightarrow> ?thesis"
    by (auto simp: autosave_inv_def cache_inv_fire split: option.splits)
qed (auto simp: autosave_inv_def discardDraft_def split: option.split)

lemma autosave_inv_run: "autosave_inv s \<Longrightarrow> autosave_inv (autosave_run es s)"
  by (induction es arbitrary: s) (auto simp: autosave_run_def autosave_inv_exec)

section \<open>Flushing and discarding\<close>

lemma flush_deps_key: "flush_deps p = flush_deps q \<Longrightarrow> props_key p = props_key q \<and> props_meta p = props_meta q \<and> a_baseline p = a_baseline q"
  by (auto simp: flush_deps_def props_key_def props_meta_def)

definition worth_saving :: "autosave_props \<Rightarrow> bool" where
  "worth_saving p \<longleftrightarrow> (a_content p \<noteq> a_baseline p \<or> is_pending (a_pending p)) \<and> (a_mode p = EditMode \<or> trim (a_content p) \<noteq> [])"

lemma flush_writes:
  assumes "autosave_inv s" "a_enabled (rendered s)" "worth_saving (rendered s)"
    and "discardedContent s \<noteq> Some (a_content (rendered s))"
    and "accessible (c_store (a_cache s))" "has_room (c_store (a_cache s))"
  shows "loadDraft (a_cache (flush_registered s)) (props_key (rendered s)) =
     Some (draft_entry (clock (a_cache s)) (a_content (rendered s)) (props_meta (rendered s) (delivery (rendered s))))"
proof -
  let ?p = "rendered s"
  obtain q where q: "flusher s = Some q" "flush_deps q = flush_deps ?p"
    using assms(1,2) by (auto simp: autosave_inv_def split: option.splits)
  note k = flush_deps_key [OF q(2)]
  have r: "latestContent s = a_content ?p" "latestDelivery s = delivery ?p"
    using assms(1) by (simp_all add: autosave_inv_def)
  have "a_cache (flush_registered s) = snd (saveNow (props_key ?p) (a_content ?p) (props_meta ?p (delivery ?p)) (a_cache s))"
    using assms(3,4) k r by (auto simp: flush_registered_def q(1) flushDraft_def worth_saving_def delivery_def)
  moreover have "\<not> (metadata_mode (props_meta ?p (delivery ?p)) = CreateMode \<and> trim (a_content ?p) = [])"
    using assms(3) by (auto simp: worth_saving_def metadata_mode_def props_meta_def)
  ultimately show ?thesis
    using loadDraft_written [OF assms(5,6)] by (simp only: loadDraft_def service_store if_False)
qed

lemma flush_discarded: "discardedContent s = Some (latestContent s) \<Longrightarrow> flush_registered s = s"
  by (simp add: flush_registered_def flushDraft_def split: option.split)

lemma fire_idle:
  assumes "cache_inv c" "map_get (pendingSaves c) k = None" "map_get (timers c) t = Some d"
  shows "map_get (pendingSaves (fire_save t d c)) k = None \<and> loadDraft (fire_save t d c) k = loadDraft c k"
proof -
  have "t_key d \<noteq> k" using cache_inv_timer(2) [OF assms(1,3)] assms(2) by auto
  with assms(2) show ?thesis by (simp add: fire_save_def loadDraft_def loadDraftEntry_other)
qed

definition no_render :: "autosave_event \<Rightarrow> bool" where
  "no_render e \<longleftrightarrow> (case e of Rerender p \<Rightarrow> False | Discard \<Rightarrow> False | _ \<Rightarrow> True)"

definition discarded :: "string \<Rightarrow> autosave \<Rightarrow> bool" where
  "discarded k s \<longleftrightarrow> cache_inv (a_cache s) \<and> discardedContent s = Some (latestContent s)
     \<and> map_get (pendingSaves (a_cache s)) k = None \<and> loadDraft (a_cache s) k = None"

lemma discarded_exec: "discarded k s \<Longrightarrow> no_render e \<Longrightarrow> discarded k (autosave_exec e s)"
proof (cases e)
  case (Timer t)
  then show "discarded k s \<Longrightarrow> no_render e \<Longrightarrow> ?thesis"
    using fire_idle [of "a_cache s" k t] cache_inv_fire [of "a_cache s" t]
    by (auto simp: discarded_def split: option.splits)
qed (auto simp: discarded_def no_render_def flush_discarded loadDraft_def)

lemma discarded_run: "discarded k s \<Longrightarrow> list_all no_render es \<Longrightarrow> discarded k (autosave_run es s)"
  by (induction es arbitrary: s) (auto simp: autosave_run_def discarded_exec)

lemma discard_discarded: "autosave_inv s \<Longrightarrow> discarded (props_key (rendered s)) (discardDraft s)"
  by (simp add: discarded_def discardDraft_def autosave_inv_def service_pending loadDraft_def service_store
      loadDraftEntry_removed)

section \<open>Properties\<close>

definition demo_props :: autosave_props where
  "demo_props = \<lparr>a_content = ''hi'', a_username = ''users/u'', a_cacheKey = None, a_enabled = True, a_baseline = '''',
     a_mode = CreateMode, a_memoName = None, a_baseUpdateTime = None, a_requestId = Some ''r1'', a_pending = Some True,
     a_attemptedAt = None\<rparr>"



text \<open>A discarded draft is not flushed back. After \<open>discardDraft\<close> (a finished or abandoned save), whatever
  timers fire and however often the page is hidden, up to and including the unmount, no draft is stored under the
  key, as long as the editor is not rendered again.\<close>

theorem discard_final:
  assumes "cache_reachable c" "s = autosave_run es (autosave_mount p0 c)" "list_all no_render es'"
  shows "loadDraft (a_cache (autosave_unmount (autosave_run es' (discardDraft s)))) (props_key (rendered s)) = None"
proof -
  have "autosave_inv s"
    using assms(2) autosave_inv_run [OF autosave_inv_mount [OF cache_reachable_inv [OF assms(1)]]] by blast
  from discarded_run [OF discard_discarded [OF this] assms(3)] show ?thesis
    by (simp add: autosave_unmount_def discarded_def flush_discarded)
qed

theorem discard_final_witness:
  "loadDraft (a_cache (autosave_unmount (autosave_run [Tick 900, Timer 1, Hide]
     (discardDraft (autosave_mount demo_props empty_cache))))) (props_key demo_props) = None"
proof -
  have "list_all no_render [Tick 900, Timer 1, Hide]" by (simp add: no_render_def)
  moreover have "autosave_mount demo_props empty_cache = autosave_run [] (autosave_mount demo_props empty_cache)"
    "rendered (autosave_mount demo_props empty_cache) = demo_props"
    by (simp_all add: autosave_run_def autosave_mount_def effect_register_def effect_content_def)
  ultimately show ?thesis using discard_final [OF cache_reachable_empty, of _ "[]" demo_props] by metis
qed

text \<open>The restriction to histories without a render matters. When the editor is rendered again with the same text
  and other delivery metadata, as happens right after a successful create clears the request id and the delivery
  state, the second effect schedules the discarded text again, and the timer stores it.\<close>

theorem discard_undone_by_render:
  "map_option d_content (loadDraft (a_cache (autosave_run [Discard, Rerender (demo_props\<lparr>a_requestId := None, a_pending := Some False\<rparr>),
       Tick 500, Timer 2] (autosave_mount demo_props empty_cache))) (props_key demo_props)) = Some ''hi''"
proof -
  let ?p = "demo_props\<lparr>a_requestId := None, a_pending := Some False\<rparr>"
  let ?k = "props_key demo_props"
  let ?r = "autosave_run [Discard, Rerender ?p] (autosave_mount demo_props empty_cache)"
  have k: "props_key ?p = ?k" "flush_deps ?p = flush_deps demo_props"
    by (simp_all add: props_key_def flush_deps_def)
  have p: "a_content demo_props = ''hi''" "a_baseline demo_props = []" "a_enabled demo_props" "?p \<noteq> demo_props"
    by (simp_all add: demo_props_def)
  have c: "next_timer empty_cache = 1" "clock empty_cache = 0" "accessible (c_store empty_cache)" "has_room (c_store empty_cache)"
    by (simp_all add: empty_cache_def empty_storage_def)
  have r: "a_cache ?r = cache_save ?k ''hi'' (props_meta ?p (delivery ?p)) (cache_clear ?k
      (cache_save ?k ''hi'' (props_meta demo_props (delivery demo_props)) empty_cache))"
    by (simp add: autosave_run_def autosave_mount_def effect_register_def effect_content_def effect_save_def
        discardDraft_def autosave_render_def k p Let_def)
  have n: "next_timer (cache_clear k x) = next_timer x" "clock (cache_clear k x) = clock x"
    "accessible (c_store (cache_clear k x)) = accessible (c_store x)" "has_room (c_store (cache_clear k x)) = has_room (c_store x)" for k x
    by (simp_all add: cache_clear_def cancel_pending_def clearTimeout_def removeEntry_env split: option.split)
  let ?d = "\<lparr>t_due = 500, t_key = ?k, t_content = ''hi'', t_meta = props_meta ?p (delivery ?p)\<rparr>"
  have t: "map_get (timers (a_cache ?r)) 2 = Some ?d" "clock (a_cache ?r) = 0"
    "accessible (c_store (a_cache ?r))" "has_room (c_store (a_cache ?r))"
    by (simp_all add: r n c CACHE_DEBOUNCE_DELAY_def)
  have e: "autosave_run [Discard, Rerender ?p, Tick 500, Timer 2] (autosave_mount demo_props empty_cache)
      = autosave_exec (Timer 2) (autosave_exec (Tick 500) ?r)" by (simp add: autosave_run_def)
  have "trim ''hi'' \<noteq> []" by code_simp
  with t show ?thesis unfolding e
    by (simp add: fire_save_def loadDraft_def loadDraft_written) (simp add: draft_entry_def)
qed

end
