(* ===== verification/Proto.thy ===== *)
theory Proto
  imports Dates
begin

text \<open>
  The protobuf messages the client works with, as the generated TypeScript declares them
  (\<open>types/proto/api/v1/memo_service_pb.ts\<close>, \<open>attachment_service_pb.ts\<close>), and their proto3 default values, which \<open>create(Schema, init)\<close> fills in.
  Floating-point coordinates are only copied and compared; they are decimals \<open>m / 10^k\<close>.
\<close>

record Timestamp =
  seconds :: int
  nanos :: nat

datatype Visibility = VISIBILITY_UNSPECIFIED | PRIVATE | PROTECTED | PUBLIC

datatype MotionMediaFamily = MOTION_MEDIA_FAMILY_UNSPECIFIED | APPLE_LIVE_PHOTO | ANDROID_MOTION_PHOTO

datatype MotionMediaRole = MOTION_MEDIA_ROLE_UNSPECIFIED | STILL | VIDEO | CONTAINER

datatype MemoRelation_Type = TYPE_UNSPECIFIED | REFERENCE | COMMENT

record MotionMedia =
  family :: MotionMediaFamily
  role :: MotionMediaRole
  groupId :: string
  presentationTimestampUs :: int
  hasEmbeddedVideo :: bool

record Attachment =
  att_name :: string
  att_createTime :: "Timestamp option"
  att_filename :: string
  att_content :: "nat list"
  att_externalLink :: string
  att_type :: string
  att_size :: int
  att_memo :: "string option"
  att_motionMedia :: "MotionMedia option"

record MemoRelation_Memo =
  rm_name :: string
  rm_snippet :: string

record MemoRelation =
  rel_memo :: "MemoRelation_Memo option"
  rel_relatedMemo :: "MemoRelation_Memo option"
  rel_type :: MemoRelation_Type

record Location =
  placeholder :: string
  latitude :: "int \<times> nat"
  longitude :: "int \<times> nat"

datatype MemoState = STATE_UNSPECIFIED | NORMAL | ARCHIVED

record Memo_Property =
  hasLink :: bool
  hasTaskList :: bool
  hasCode :: bool
  hasIncompleteTasks :: bool
  prop_title :: string

record Reaction =
  reaction_name :: string
  reaction_creator :: string
  reaction_contentId :: string
  reaction_type :: string
  reaction_createTime :: "Timestamp option"

record Memo =
  memo_name :: string
  memo_state :: MemoState
  memo_creator :: string
  memo_createTime :: "Timestamp option"
  memo_updateTime :: "Timestamp option"
  memo_content :: string
  memo_visibility :: Visibility
  memo_tags :: "string list"
  memo_pinned :: bool
  memo_attachments :: "Attachment list"
  memo_relations :: "MemoRelation list"
  memo_reactions :: "Reaction list"
  memo_property :: "Memo_Property option"
  memo_parent :: "string option"
  memo_snippet :: string
  memo_location :: "Location option"

datatype User_Role = ROLE_UNSPECIFIED | ROLE_ADMIN | ROLE_USER

record User =
  user_name :: string
  user_role :: User_Role
  user_username :: string
  user_email :: string
  user_displayName :: string
  user_avatarUrl :: string
  user_description :: string
  user_password :: string
  user_state :: MemoState
  user_createTime :: "Timestamp option"
  user_updateTime :: "Timestamp option"

record UserSetting_GeneralSetting =
  gs_locale :: string
  gs_memoVisibility :: string
  gs_theme :: string

record UserWebhook =
  wh_name :: string
  wh_url :: string
  wh_displayName :: string
  wh_createTime :: "Timestamp option"
  wh_updateTime :: "Timestamp option"

record UserSetting_WebhooksSetting =
  ws_webhooks :: "UserWebhook list"

datatype UserSetting_value = GeneralSetting UserSetting_GeneralSetting | WebhooksSetting UserSetting_WebhooksSetting | NoSetting

record UserSetting =
  us_name :: string
  us_value :: UserSetting_value

datatype UserSetting_Key = KEY_UNSPECIFIED | GENERAL | WEBHOOKS

record Shortcut =
  sc_name :: string
  sc_title :: string
  sc_filter :: string

definition default_attachment :: Attachment where
  "default_attachment = \<lparr>att_name = '''', att_createTime = None, att_filename = '''', att_content = [],
     att_externalLink = '''', att_type = '''', att_size = 0, att_memo = None, att_motionMedia = None\<rparr>"

definition default_memo :: Memo where
  "default_memo = \<lparr>memo_name = '''', memo_state = STATE_UNSPECIFIED, memo_creator = '''', memo_createTime = None,
     memo_updateTime = None, memo_content = '''', memo_visibility = VISIBILITY_UNSPECIFIED, memo_tags = [],
     memo_pinned = False, memo_attachments = [], memo_relations = [], memo_reactions = [], memo_property = None, memo_parent = None,
     memo_snippet = '''', memo_location = None\<rparr>"

text \<open>The conversions between protobuf timestamps and \<open>Date\<close> belong to the protobuf runtime and are parameters of
  the definitions that use them. What those rely on: a date survives the trip through a timestamp.\<close>

record wkt =
  timestampDate :: "Timestamp \<Rightarrow> date"
  timestampFromDate :: "date \<Rightarrow> Timestamp"

definition timestamp_roundtrip :: "wkt \<Rightarrow> bool" where
  "timestamp_roundtrip w \<longleftrightarrow> (\<forall>d. timestampDate w (timestampFromDate w d) = d)"

text \<open>A concrete pair of conversions, of millisecond precision.\<close>

definition ms_wkt :: wkt where
  "ms_wkt = \<lparr>timestampDate = (\<lambda>t. seconds t * 1000 + int (nanos t div 1000000)),
     timestampFromDate = (\<lambda>d. \<lparr>seconds = d div 1000, nanos = nat (d mod 1000) * 1000000\<rparr>)\<rparr>"

lemma ms_wkt_roundtrip: "timestamp_roundtrip ms_wkt"
  by (simp add: timestamp_roundtrip_def ms_wkt_def)

end
