(* ===== verification/EditorState.thy ===== *)
theory EditorState
  imports Proto Prelude
begin

text \<open>
  The state of the memo editor (\<open>components/MemoEditor/state/types.ts\<close>), its reducer
  (\<open>state/reducer.ts\<close>) and the check before saving (\<open>services/validationService.ts\<close>). The constructors of
  \<open>EditorAction\<close> are the action creators of \<open>state/actions.ts\<close>.
\<close>

section \<open>State\<close>

datatype LoadingKey = saving_key | uploading_key | loading_key

datatype AudioRecorderPermission = perm_unknown | perm_granted | perm_denied

datatype AudioRecorderStatus = st_idle | st_requesting_permission | st_recording | st_error | st_unsupported

record File =
  file_name :: string
  file_size :: int
  file_type :: string
  file_bytes :: "nat list"

datatype file_origin = audio_recording | upload

record LocalFile =
  lf_file :: File
  lf_previewUrl :: string
  lf_origin :: "file_origin option"
  lf_durationSeconds :: "nat option"
  lf_motionMedia :: "MotionMedia option"

record EditorMetadata =
  visibility :: Visibility
  attachments :: "Attachment list"
  relations :: "MemoRelation list"
  location :: "Location option"

record EditorLoading =
  saving :: bool
  uploading :: bool
  loading :: bool

record EditorUi =
  isFocusMode :: bool
  isLoading :: EditorLoading
  isComposing :: bool

record EditorTimestamps =
  createTime :: "date option"
  updateTime :: "date option"

record AudioRecorderState =
  isSupported :: bool
  permission :: AudioRecorderPermission
  status :: AudioRecorderStatus
  elapsedSeconds :: nat
  recorder_error :: "string option"

record EditorState =
  content :: string
  metadata :: EditorMetadata
  ui :: EditorUi
  timestamps :: EditorTimestamps
  localFiles :: "LocalFile list"
  audioRecorder :: AudioRecorderState

definition initialState :: EditorState where
  "initialState = \<lparr>content = '''',
     metadata = \<lparr>visibility = PRIVATE, attachments = [], relations = [], location = None\<rparr>,
     ui = \<lparr>isFocusMode = False, isLoading = \<lparr>saving = False, uploading = False, loading = False\<rparr>, isComposing = False\<rparr>,
     timestamps = \<lparr>createTime = None, updateTime = None\<rparr>,
     localFiles = [],
     audioRecorder = \<lparr>isSupported = True, permission = perm_unknown, status = st_idle, elapsedSeconds = 0,
       recorder_error = None\<rparr>\<rparr>"

section \<open>Actions\<close>

text \<open>A partial object of the source: a property that is absent leaves the state's property, one that is present
  replaces it, also when its value is \<open>undefined\<close> (inner \<open>None\<close>).\<close>

record PartialMetadata =
  pm_visibility :: "Visibility option"
  pm_attachments :: "Attachment list option"
  pm_relations :: "MemoRelation list option"
  pm_location :: "Location option option"

record PartialTimestamps =
  pt_createTime :: "date option option"
  pt_updateTime :: "date option option"

datatype EditorAction =
  initMemo string EditorMetadata EditorTimestamps
| updateContent string
| setMetadata PartialMetadata
| addAttachment Attachment
| removeAttachment string
| addRelation MemoRelation
| removeRelation string
| addLocalFile LocalFile
| removeLocalFile string
| setLocalFiles "LocalFile list"
| clearLocalFiles
| toggleFocusMode
| setLoading LoadingKey bool
| setComposing bool
| setTimestamps PartialTimestamps
| setAudioRecorderSupport bool
| setAudioRecorderPermission AudioRecorderPermission
| setAudioRecorderStatus AudioRecorderStatus
| setAudioRecorderElapsed nat
| setAudioRecorderError "string option"
| reset

text \<open>\<open>{...old, ...payload}\<close> for one property.\<close>

definition spread :: "'a \<Rightarrow> 'a option \<Rightarrow> 'a" where
  "spread old new = (case new of None \<Rightarrow> old | Some v \<Rightarrow> v)"

definition set_loading :: "LoadingKey \<Rightarrow> bool \<Rightarrow> EditorLoading \<Rightarrow> EditorLoading" where
  "set_loading k v l = (case k of saving_key \<Rightarrow> l\<lparr>saving := v\<rparr> | uploading_key \<Rightarrow> l\<lparr>uploading := v\<rparr>
     | loading_key \<Rightarrow> l\<lparr>loading := v\<rparr>)"

fun editorReducer :: "EditorState \<Rightarrow> EditorAction \<Rightarrow> EditorState" where
  "editorReducer s (initMemo c m t) = s\<lparr>content := c, metadata := m, timestamps := t\<rparr>"
| "editorReducer s (updateContent c) = s\<lparr>content := c\<rparr>"
| "editorReducer s (setMetadata p) =
     s\<lparr>metadata := \<lparr>visibility = spread (visibility (metadata s)) (pm_visibility p),
        attachments = spread (attachments (metadata s)) (pm_attachments p),
        relations = spread (relations (metadata s)) (pm_relations p),
        location = spread (location (metadata s)) (pm_location p)\<rparr>\<rparr>"
| "editorReducer s (addAttachment a) =
     s\<lparr>metadata := (metadata s)\<lparr>attachments := attachments (metadata s) @ [a]\<rparr>\<rparr>"
| "editorReducer s (removeAttachment n) =
     s\<lparr>metadata := (metadata s)\<lparr>attachments := filter (\<lambda>a. att_name a \<noteq> n) (attachments (metadata s))\<rparr>\<rparr>"
| "editorReducer s (addRelation r) =
     s\<lparr>metadata := (metadata s)\<lparr>relations := relations (metadata s) @ [r]\<rparr>\<rparr>"
| "editorReducer s (removeRelation n) =
     s\<lparr>metadata := (metadata s)\<lparr>relations :=
        filter (\<lambda>r. map_option rm_name (rel_relatedMemo r) \<noteq> Some n) (relations (metadata s))\<rparr>\<rparr>"
| "editorReducer s (addLocalFile f) = s\<lparr>localFiles := localFiles s @ [f]\<rparr>"
| "editorReducer s (removeLocalFile u) = s\<lparr>localFiles := filter (\<lambda>f. lf_previewUrl f \<noteq> u) (localFiles s)\<rparr>"
| "editorReducer s (setLocalFiles fs) = s\<lparr>localFiles := fs\<rparr>"
| "editorReducer s clearLocalFiles = s\<lparr>localFiles := []\<rparr>"
| "editorReducer s toggleFocusMode = s\<lparr>ui := (ui s)\<lparr>isFocusMode := \<not> isFocusMode (ui s)\<rparr>\<rparr>"
| "editorReducer s (setLoading k v) = s\<lparr>ui := (ui s)\<lparr>isLoading := set_loading k v (isLoading (ui s))\<rparr>\<rparr>"
| "editorReducer s (setComposing v) = s\<lparr>ui := (ui s)\<lparr>isComposing := v\<rparr>\<rparr>"
| "editorReducer s (setTimestamps p) =
     s\<lparr>timestamps := \<lparr>createTime = spread (createTime (timestamps s)) (pt_createTime p),
        updateTime = spread (updateTime (timestamps s)) (pt_updateTime p)\<rparr>\<rparr>"
| "editorReducer s (setAudioRecorderSupport v) =
     s\<lparr>audioRecorder := (audioRecorder s)\<lparr>isSupported := v,
        status := if v then status (audioRecorder s) else st_unsupported\<rparr>\<rparr>"
| "editorReducer s (setAudioRecorderPermission p) = s\<lparr>audioRecorder := (audioRecorder s)\<lparr>permission := p\<rparr>\<rparr>"
| "editorReducer s (setAudioRecorderStatus x) = s\<lparr>audioRecorder := (audioRecorder s)\<lparr>status := x\<rparr>\<rparr>"
| "editorReducer s (setAudioRecorderElapsed n) = s\<lparr>audioRecorder := (audioRecorder s)\<lparr>elapsedSeconds := n\<rparr>\<rparr>"
| "editorReducer s (setAudioRecorderError e) = s\<lparr>audioRecorder := (audioRecorder s)\<lparr>recorder_error := e\<rparr>\<rparr>"
| "editorReducer s reset = initialState"

definition dispatch_all :: "EditorAction list \<Rightarrow> EditorState \<Rightarrow> EditorState" where
  "dispatch_all as s = foldl editorReducer s as"

section \<open>validationService\<close>

definition canSave :: "EditorState \<Rightarrow> string option" where
  "canSave s =
     (if loading (isLoading (ui s)) then Some ''Loading memo content''
      else if trim (content s) = [] \<and> attachments (metadata s) = [] \<and> localFiles s = []
        then Some ''Content, attachment, or file required''
      else if uploading (isLoading (ui s)) then Some ''Wait for upload to complete''
      else if status (audioRecorder s) = st_recording \<or> status (audioRecorder s) = st_requesting_permission
        then Some ''Finish audio recording before saving''
      else if saving (isLoading (ui s)) then Some ''Save in progress''
      else None)"

end
