(* ===== verification/SaveMemo.thy ===== *)
theory SaveMemo
  imports EditorState Errors
begin

text \<open>
  Saving a memo: \<open>components/MemoEditor/services/memoService.ts\<close> and \<open>uploadService.ts\<close>. The backend is an
  argument: every call gets an answer that may depend on the whole history of calls, so the theorems hold for
  any server and any pattern of failures. An RPC that throws is a left value.
\<close>

section \<open>The backend\<close>

datatype rpc_call =
  CreateAttachment Attachment
| GetMemo string
| UpdateMemo Memo "string list"
| CreateMemo Memo "string option"
| CreateMemoComment string Memo "string option"

record backend =
  b_createAttachment :: "rpc_call list \<Rightarrow> Attachment \<Rightarrow> js_error + Attachment"
  b_getMemo :: "rpc_call list \<Rightarrow> string \<Rightarrow> js_error + Memo"
  b_updateMemo :: "rpc_call list \<Rightarrow> Memo \<Rightarrow> string list \<Rightarrow> js_error + Memo"
  b_createMemo :: "rpc_call list \<Rightarrow> Memo \<Rightarrow> string option \<Rightarrow> js_error + Memo"
  b_createMemoComment :: "rpc_call list \<Rightarrow> string \<Rightarrow> Memo \<Rightarrow> string option \<Rightarrow> js_error + Memo"

section \<open>uploadService\<close>

definition upload_request :: "LocalFile \<Rightarrow> Attachment" where
  "upload_request f = default_attachment\<lparr>att_filename := file_name (lf_file f), att_size := file_size (lf_file f),
     att_type := file_type (lf_file f), att_content := file_bytes (lf_file f), att_motionMedia := lf_motionMedia f\<rparr>"

fun uploadFiles ::
  "backend \<Rightarrow> LocalFile list \<Rightarrow> rpc_call list \<Rightarrow> (js_error + Attachment list) \<times> rpc_call list" where
  "uploadFiles b [] log = (Inr [], log)"
| "uploadFiles b (f # fs) log =
     (case b_createAttachment b log (upload_request f) of
        Inl e \<Rightarrow> (Inl e, log @ [CreateAttachment (upload_request f)])
      | Inr a \<Rightarrow>
          (case uploadFiles b fs (log @ [CreateAttachment (upload_request f)]) of
             (Inl e, log') \<Rightarrow> (Inl e, log')
           | (Inr as, log') \<Rightarrow> (Inr (a # as), log')))"

section \<open>The update mask\<close>

definition toAttachmentReferences :: "Attachment list \<Rightarrow> Attachment list" where
  "toAttachmentReferences as = map (\<lambda>a. default_attachment\<lparr>att_name := att_name a\<rparr>) as"

text \<open>\<open>mask\<close> is a JavaScript \<open>Set\<close>: insertion order, no duplicates.\<close>

definition set_add :: "'a \<Rightarrow> 'a list \<Rightarrow> 'a list" where
  "set_add x xs = (if x \<in> set xs then xs else xs @ [x])"

text \<open>\<open>if (b) { mask.add(k); patch.f = ...; }\<close>\<close>

definition mark_if :: "bool \<Rightarrow> string \<Rightarrow> (Memo \<Rightarrow> Memo) \<Rightarrow> string list \<times> Memo \<Rightarrow> string list \<times> Memo" where
  "mark_if b k f q = (if b then (set_add k (fst q), f (snd q)) else q)"

definition buildUpdateMask ::
  "wkt \<Rightarrow> Memo \<Rightarrow> EditorState \<Rightarrow> Attachment list \<Rightarrow> string list \<times> Memo" where
  "buildUpdateMask w prev s allAttachments =
     (let q0 = ([], default_memo\<lparr>memo_name := memo_name prev, memo_content := content s\<rparr>);
          q1 = mark_if (content s \<noteq> memo_content prev) ''content'' (\<lambda>p. p\<lparr>memo_content := content s\<rparr>) q0;
          q2 = mark_if (visibility (metadata s) \<noteq> memo_visibility prev) ''visibility''
                 (\<lambda>p. p\<lparr>memo_visibility := visibility (metadata s)\<rparr>) q1;
          q3 = mark_if (allAttachments \<noteq> memo_attachments prev) ''attachments''
                 (\<lambda>p. p\<lparr>memo_attachments := toAttachmentReferences allAttachments\<rparr>) q2;
          q4 = mark_if (relations (metadata s) \<noteq> memo_relations prev) ''relations''
                 (\<lambda>p. p\<lparr>memo_relations := relations (metadata s)\<rparr>) q3;
          q5 = mark_if (location (metadata s) \<noteq> memo_location prev) ''location''
                 (\<lambda>p. p\<lparr>memo_location := location (metadata s)\<rparr>) q4;
          q6 = mark_if (list_ex (\<lambda>k. k \<in> set (fst q5)) [''content'', ''attachments'', ''relations'', ''location''])
                 ''update_time'' (\<lambda>p. p) q5;
          q7 = (case createTime (timestamps s) of
                  None \<Rightarrow> q6
                | Some d \<Rightarrow> mark_if (Some d \<noteq> map_option (timestampDate w) (memo_createTime prev)) ''create_time''
                             (\<lambda>p. p\<lparr>memo_createTime := Some (timestampFromDate w d)\<rparr>) q6);
          q8 = (case updateTime (timestamps s) of
                  None \<Rightarrow> q7
                | Some d \<Rightarrow> mark_if (Some d \<noteq> map_option (timestampDate w) (memo_updateTime prev)) ''update_time''
                             (\<lambda>p. p\<lparr>memo_updateTime := Some (timestampFromDate w d)\<rparr>) q7)
      in q8)"

definition matchesPersistedEditorState ::
  "wkt \<Rightarrow> Memo \<Rightarrow> EditorState \<Rightarrow> Attachment list \<Rightarrow> string option \<Rightarrow> bool" where
  "matchesPersistedEditorState w memo s allAttachments baseUpdateTime =
     (if content s \<noteq> memo_content memo \<or> visibility (metadata s) \<noteq> memo_visibility memo
         \<or> allAttachments \<noteq> memo_attachments memo \<or> relations (metadata s) \<noteq> memo_relations memo
         \<or> location (metadata s) \<noteq> memo_location memo then False
      else if (case createTime (timestamps s) of
                 None \<Rightarrow> False
               | Some d \<Rightarrow> Some (to_iso d) \<noteq> map_option (\<lambda>t. to_iso (timestampDate w t)) (memo_createTime memo)) then False
      else if (case updateTime (timestamps s) of
                 None \<Rightarrow> False
               | Some d \<Rightarrow>
                   (baseUpdateTime = None \<or> Some (to_iso d) \<noteq> baseUpdateTime)
                   \<and> Some (to_iso d) \<noteq> map_option (\<lambda>t. to_iso (timestampDate w t)) (memo_updateTime memo)) then False
      else True)"

section \<open>save\<close>

record save_result =
  r_memoName :: string
  r_hasChanges :: bool
  r_confirmedExisting :: bool

definition saveExistingMemo ::
  "wkt \<Rightarrow> backend \<Rightarrow> Memo \<Rightarrow> EditorState \<Rightarrow> Attachment list \<Rightarrow> bool \<Rightarrow> string option \<Rightarrow> rpc_call list
     \<Rightarrow> (js_error + save_result) \<times> rpc_call list" where
  "saveExistingMemo w b prev s allAttachments retrying baseUpdateTime log =
     (if retrying \<and> matchesPersistedEditorState w prev s allAttachments baseUpdateTime
      then (Inr \<lparr>r_memoName = memo_name prev, r_hasChanges = False, r_confirmedExisting = True\<rparr>, log)
      else case buildUpdateMask w prev s allAttachments of (paths, patch) \<Rightarrow>
        if paths = [] then (Inr \<lparr>r_memoName = memo_name prev, r_hasChanges = False, r_confirmedExisting = False\<rparr>, log)
        else (case b_updateMemo b log patch paths of
                Inl e \<Rightarrow> (Inl e, log @ [UpdateMemo patch paths])
              | Inr memo \<Rightarrow> (Inr \<lparr>r_memoName = memo_name memo, r_hasChanges = True, r_confirmedExisting = False\<rparr>,
                            log @ [UpdateMemo patch paths])))"

record save_options =
  o_memoName :: "string option"
  o_parentMemoName :: "string option"
  o_requestId :: "string option"
  o_retrying :: bool
  o_baseUpdateTime :: "string option"

definition memo_data :: "wkt \<Rightarrow> EditorState \<Rightarrow> Attachment list \<Rightarrow> Memo" where
  "memo_data w s allAttachments = default_memo\<lparr>memo_content := content s, memo_visibility := visibility (metadata s),
     memo_attachments := toAttachmentReferences allAttachments, memo_relations := relations (metadata s),
     memo_location := location (metadata s),
     memo_createTime := map_option (timestampFromDate w) (createTime (timestamps s)),
     memo_updateTime := map_option (timestampFromDate w) (updateTime (timestamps s))\<rparr>"

text \<open>The answer \<open>AlreadyExists\<close> to a create that carried a request id.\<close>

definition already_exists :: "js_error \<Rightarrow> bool" where
  "already_exists e = (case e of ConnectError c m cs \<Rightarrow> c = AlreadyExists | _ \<Rightarrow> False)"

definition memo_save ::
  "wkt \<Rightarrow> backend \<Rightarrow> EditorState \<Rightarrow> save_options \<Rightarrow> rpc_call list \<Rightarrow> (js_error + save_result) \<times> rpc_call list" where
  "memo_save w b s opts log0 =
     (case uploadFiles b (localFiles s) log0 of
        (Inl e, log) \<Rightarrow> (Inl e, log)
      | (Inr new, log) \<Rightarrow>
          let allAttachments = attachments (metadata s) @ new in
          if truthy (o_memoName opts) then
            (let n = the (o_memoName opts) in
             case b_getMemo b log n of
               Inl e \<Rightarrow> (Inl e, log @ [GetMemo n])
             | Inr prev \<Rightarrow> saveExistingMemo w b prev s allAttachments (o_retrying opts) (o_baseUpdateTime opts) (log @ [GetMemo n]))
          else let d = memo_data w s allAttachments in
          if truthy (o_parentMemoName opts) then
            (let n = the (o_parentMemoName opts); log' = log @ [CreateMemoComment n d (o_requestId opts)] in
             case b_createMemoComment b log n d (o_requestId opts) of
               Inl e \<Rightarrow> (Inl e, log')
             | Inr memo \<Rightarrow> (Inr \<lparr>r_memoName = memo_name memo, r_hasChanges = True, r_confirmedExisting = False\<rparr>, log'))
          else
            (let log' = log @ [CreateMemo d (o_requestId opts)] in
             case b_createMemo b log d (o_requestId opts) of
               Inr memo \<Rightarrow> (Inr \<lparr>r_memoName = memo_name memo, r_hasChanges = True, r_confirmedExisting = False\<rparr>, log')
             | Inl e \<Rightarrow>
                 if \<not> (truthy (o_requestId opts) \<and> already_exists e) then (Inl e, log')
                 else (let n = ''memos/'' @ the (o_requestId opts) in
                       case b_getMemo b log' n of
                         Inl e2 \<Rightarrow> (Inl e2, log' @ [GetMemo n])
                       | Inr existing \<Rightarrow>
                           saveExistingMemo w b existing s allAttachments True (o_baseUpdateTime opts) (log' @ [GetMemo n]))))"

definition fromMemo :: "wkt \<Rightarrow> Memo \<Rightarrow> EditorState" where
  "fromMemo w memo = \<lparr>content = memo_content memo,
     metadata = \<lparr>visibility = memo_visibility memo, attachments = memo_attachments memo,
       relations = memo_relations memo, location = memo_location memo\<rparr>,
     ui = \<lparr>isFocusMode = False, isLoading = \<lparr>saving = False, uploading = False, loading = False\<rparr>, isComposing = False\<rparr>,
     timestamps = \<lparr>createTime = map_option (timestampDate w) (memo_createTime memo),
       updateTime = map_option (timestampDate w) (memo_updateTime memo)\<rparr>,
     localFiles = [],
     audioRecorder = \<lparr>isSupported = True, permission = perm_unknown, status = st_idle, elapsedSeconds = 0,
       recorder_error = None\<rparr>\<rparr>"

section \<open>The update mask is complete\<close>

text \<open>What an update with a field mask does to the stored memo (\<open>google.protobuf.FieldMask\<close>): the named fields are
  replaced, the others stay. An \<open>update_time\<close> path without a value asks the server for the current time, so the
  update time is left out here.\<close>

definition apply_update :: "string list \<Rightarrow> Memo \<Rightarrow> Memo \<Rightarrow> Memo" where
  "apply_update paths patch m = m\<lparr>
     memo_content := if ''content'' \<in> set paths then memo_content patch else memo_content m,
     memo_visibility := if ''visibility'' \<in> set paths then memo_visibility patch else memo_visibility m,
     memo_attachments := if ''attachments'' \<in> set paths then memo_attachments patch else memo_attachments m,
     memo_relations := if ''relations'' \<in> set paths then memo_relations patch else memo_relations m,
     memo_location := if ''location'' \<in> set paths then memo_location patch else memo_location m,
     memo_createTime := if ''create_time'' \<in> set paths then memo_createTime patch else memo_createTime m\<rparr>"

lemma set_set_add [simp]: "set (set_add x xs) = insert x (set xs)"
  by (auto simp: set_add_def)

lemma mark_if_simps:
  "x \<in> set (fst (mark_if b k f q)) \<longleftrightarrow> (b \<and> x = k) \<or> x \<in> set (fst q)"
  "snd (mark_if b k f q) = (if b then f (snd q) else snd q)"
  by (simp_all add: mark_if_def)

lemma case_mark_if:
  "(case d of None \<Rightarrow> q | Some x \<Rightarrow> mark_if (Some x \<noteq> e) k (f x) q) = mark_if (d \<notin> {None, e}) k (f (the d)) q"
  by (auto simp: mark_if_def split: option.split)

lemma mask_iff:
  "x \<in> set (fst (buildUpdateMask w prev s as)) \<longleftrightarrow>
     (x = ''content'' \<and> content s \<noteq> memo_content prev)
     \<or> (x = ''visibility'' \<and> visibility (metadata s) \<noteq> memo_visibility prev)
     \<or> (x = ''attachments'' \<and> as \<noteq> memo_attachments prev)
     \<or> (x = ''relations'' \<and> relations (metadata s) \<noteq> memo_relations prev)
     \<or> (x = ''location'' \<and> location (metadata s) \<noteq> memo_location prev)
     \<or> (x = ''update_time'' \<and> (content s \<noteq> memo_content prev \<or> as \<noteq> memo_attachments prev
          \<or> relations (metadata s) \<noteq> memo_relations prev \<or> location (metadata s) \<noteq> memo_location prev
          \<or> updateTime (timestamps s) \<notin> {None, map_option (timestampDate w) (memo_updateTime prev)}))
     \<or> (x = ''create_time'' \<and> createTime (timestamps s) \<notin> {None, map_option (timestampDate w) (memo_createTime prev)})"
  unfolding buildUpdateMask_def Let_def case_mark_if mark_if_simps list_ex_iff by simp argo

lemma patch_fields:
  assumes q: "q = buildUpdateMask w prev s as"
  shows "memo_name (snd q) = memo_name prev" "memo_content (snd q) = content s"
    "visibility (metadata s) \<noteq> memo_visibility prev \<Longrightarrow> memo_visibility (snd q) = visibility (metadata s)"
    "as \<noteq> memo_attachments prev \<Longrightarrow> memo_attachments (snd q) = toAttachmentReferences as"
    "relations (metadata s) \<noteq> memo_relations prev \<Longrightarrow> memo_relations (snd q) = relations (metadata s)"
    "location (metadata s) \<noteq> memo_location prev \<Longrightarrow> memo_location (snd q) = location (metadata s)"
    "createTime (timestamps s) \<notin> {None, map_option (timestampDate w) (memo_createTime prev)} \<Longrightarrow>
       memo_createTime (snd q) = map_option (timestampFromDate w) (createTime (timestamps s))"
  unfolding q buildUpdateMask_def Let_def case_mark_if mark_if_simps
  by (auto simp: if_distrib [of memo_name] if_distrib [of memo_content] if_distrib [of memo_visibility]
      if_distrib [of memo_attachments] if_distrib [of memo_relations] if_distrib [of memo_location]
      if_distrib [of memo_createTime] cong: if_cong)


lemma mask_empty:
  "fst (buildUpdateMask w prev s as) = [] \<longleftrightarrow>
     content s = memo_content prev \<and> visibility (metadata s) = memo_visibility prev \<and> as = memo_attachments prev
     \<and> relations (metadata s) = memo_relations prev \<and> location (metadata s) = memo_location prev
     \<and> updateTime (timestamps s) \<in> {None, map_option (timestampDate w) (memo_updateTime prev)}
     \<and> createTime (timestamps s) \<in> {None, map_option (timestampDate w) (memo_createTime prev)}"
proof -
  have "fst (buildUpdateMask w prev s as) = [] \<longleftrightarrow> (\<forall>x. x \<notin> set (fst (buildUpdateMask w prev s as)))"
    by (cases "fst (buildUpdateMask w prev s as)") auto
  then show ?thesis unfolding mask_iff by (auto simp: all_conj_distrib)
qed

section \<open>The calls of a save\<close>

lemma uploadFiles_log:
  "uploadFiles b fs log = (r, log') \<Longrightarrow>
     (\<exists>k \<le> length fs. log' = log @ map (CreateAttachment \<circ> upload_request) (take k fs)
        \<and> (case r of Inl e \<Rightarrow> 0 < k | Inr as \<Rightarrow> k = length fs \<and> length as = length fs))"
proof (induction fs arbitrary: log r log')
  case (Cons f fs)
  show ?case
  proof (cases "b_createAttachment b log (upload_request f)")
    case (Inl e)
    with Cons.prems show ?thesis by (intro exI [of _ 1]) auto
  next
    case (Inr a)
    obtain r2 l2 where u: "uploadFiles b fs (log @ [CreateAttachment (upload_request f)]) = (r2, l2)" by fastforce
    from Cons.IH [OF u] obtain k where "k \<le> length fs"
      "l2 = (log @ [CreateAttachment (upload_request f)]) @ map (CreateAttachment \<circ> upload_request) (take k fs)"
      "case r2 of Inl e \<Rightarrow> 0 < k | Inr as \<Rightarrow> k = length fs \<and> length as = length fs" by blast
    with Inr Cons.prems u show ?thesis by (intro exI [of _ "Suc k"]) (auto split: sum.splits)
  qed
qed auto

fun is_create :: "rpc_call \<Rightarrow> bool" where
  "is_create (CreateMemo m i) = True"
| "is_create (CreateMemoComment n m i) = True"
| "is_create _ = False"


text \<open>The calls after the uploads: at most one create, and an update only right after the read it is based on.\<close>

definition save_tail :: "wkt \<Rightarrow> backend \<Rightarrow> EditorState \<Rightarrow> save_options \<Rightarrow> rpc_call list \<Rightarrow> bool" where
  "save_tail w b s opts tail \<longleftrightarrow>
     length (filter is_create tail) \<le> (if truthy (o_memoName opts) then 0 else 1)
     \<and> (\<forall>i p ks. i < length tail \<and> tail ! i = UpdateMemo p ks \<longrightarrow>
          (\<exists>n m as h. 0 < i \<and> tail ! (i - 1) = GetMemo n \<and> b_getMemo b h n = Inr m
             \<and> buildUpdateMask w m s as = (ks, p) \<and> ks \<noteq> []))"

lemma saveExistingMemo_tail:
  assumes "saveExistingMemo w b prev s as retrying base log = (r, log')"
  obtains "log' = log"
  | ks p where "log' = log @ [UpdateMemo p ks]" "buildUpdateMask w prev s as = (ks, p)" "ks \<noteq> []"
  using assms by (auto simp: saveExistingMemo_def split: if_splits prod.splits sum.splits)

lemma save_tail_short:
  "save_tail w b s opts [GetMemo n]" "save_tail w b s opts []"
  "\<not> truthy (o_memoName opts) \<Longrightarrow> is_create c \<Longrightarrow> save_tail w b s opts [c]"
  "\<not> truthy (o_memoName opts) \<Longrightarrow> is_create c \<Longrightarrow> save_tail w b s opts [c, GetMemo n]"
  by (auto simp: save_tail_def less_Suc_eq nth_Cons')

lemma save_tail_update:
  assumes "b_getMemo b h n = Inr m" "buildUpdateMask w m s as = (ks, p)" "ks \<noteq> []"
  shows "save_tail w b s opts [GetMemo n, UpdateMemo p ks]"
    and "\<not> truthy (o_memoName opts) \<Longrightarrow> is_create c \<Longrightarrow> save_tail w b s opts [c, GetMemo n, UpdateMemo p ks]"
  using assms by (auto simp: save_tail_def less_Suc_eq nth_Cons' split: if_splits)

lemma memo_save_tail:
  assumes "memo_save w b s opts log0 = (r, log')" "uploadFiles b (localFiles s) log0 = (Inr new, log)"
  shows "\<exists>tail. log' = log @ tail \<and> save_tail w b s opts tail"
proof -
  let ?as = "attachments (metadata s) @ new"
  consider (existing) "truthy (o_memoName opts)"
    | (comment) "\<not> truthy (o_memoName opts)" "truthy (o_parentMemoName opts)"
    | (create) "\<not> truthy (o_memoName opts)" "\<not> truthy (o_parentMemoName opts)" by blast
  then show ?thesis
  proof cases
    case existing
    let ?n = "the (o_memoName opts)"
    show ?thesis
    proof (cases "b_getMemo b log ?n")
      case (Inl e)
      with assms existing have "log' = log @ [GetMemo ?n]" by (simp add: memo_save_def)
      then show ?thesis using save_tail_short(1) by blast
    next
      case (Inr m)
      with assms existing have "saveExistingMemo w b m s ?as (o_retrying opts) (o_baseUpdateTime opts) (log @ [GetMemo ?n]) = (r, log')"
        by (simp add: memo_save_def)
      then show ?thesis
        by (cases rule: saveExistingMemo_tail) (use Inr save_tail_short save_tail_update(1) in auto)
    qed
  next
    case comment
    with assms show ?thesis by (auto simp: memo_save_def Let_def save_tail_short split: sum.splits)
  next
    case create
    let ?c = "CreateMemo (memo_data w s ?as) (o_requestId opts)"
    let ?n = "''memos/'' @ the (o_requestId opts)"
    show ?thesis
    proof (cases "log' = log @ [?c] \<or> log' = log @ [?c, GetMemo ?n]")
      case True
      with create show ?thesis using save_tail_short(3,4) [of opts ?c] by auto
    next
      case False
      with assms create obtain m where m: "b_getMemo b (log @ [?c]) ?n = Inr m"
        "saveExistingMemo w b m s ?as True (o_baseUpdateTime opts) (log @ [?c, GetMemo ?n]) = (r, log')"
        by (auto simp: memo_save_def Let_def split: sum.splits if_splits)
      from m(2) show ?thesis
        by (cases rule: saveExistingMemo_tail) (use False m(1) create save_tail_update(2) in auto)
    qed
  qed
qed

lemma to_iso_inj: "valid_date a \<Longrightarrow> valid_date b \<Longrightarrow> to_iso a = to_iso b \<longleftrightarrow> a = b"
  by (metis option.inject parse_to_iso)

lemma fromMemo_matches: "matchesPersistedEditorState w m (fromMemo w m) (memo_attachments m) base"
  by (auto simp: matchesPersistedEditorState_def fromMemo_def split: option.split)

lemma fromMemo_mask: "fst (buildUpdateMask w m (fromMemo w m) (memo_attachments m)) = []"
  unfolding mask_empty by (auto simp: fromMemo_def)

section \<open>Properties\<close>

definition demo_attachment :: Attachment where
  "demo_attachment = default_attachment\<lparr>att_name := ''attachments/a'', att_filename := ''a.png''\<rparr>"

definition demo_memo :: Memo where
  "demo_memo = default_memo\<lparr>memo_name := ''memos/r1'', memo_content := ''old'', memo_visibility := PRIVATE,
     memo_updateTime := Some \<lparr>seconds = 5, nanos = 0\<rparr>\<rparr>"

definition demo_state :: EditorState where
  "demo_state = (fromMemo ms_wkt demo_memo)\<lparr>content := ''new''\<rparr>"



text \<open>Saving an untouched memo writes nothing. When the editor was filled by \<open>fromMemo\<close> and nothing was
  changed, \<open>save\<close> reads the memo once, sends no update and reports no changes, whatever the backend is.\<close>

theorem save_unchanged:
  assumes "o_memoName opts = Some n" "n \<noteq> []" "b_getMemo b log n = Inr m"
  shows "memo_save w b (fromMemo w m) opts log =
     (Inr \<lparr>r_memoName = memo_name m, r_hasChanges = False, r_confirmedExisting = o_retrying opts\<rparr>, log @ [GetMemo n])"
proof -
  have p: "localFiles (fromMemo w m) = []" "attachments (metadata (fromMemo w m)) = memo_attachments m"
    by (simp_all add: fromMemo_def)
  show ?thesis
    using assms fromMemo_matches fromMemo_mask
    by (simp add: memo_save_def p truthy_def saveExistingMemo_def split_def)
qed

definition demo_backend :: backend where
  "demo_backend = \<lparr>b_createAttachment = (\<lambda>log a. Inr (a\<lparr>att_name := ''attachments/n''\<rparr>)),
     b_getMemo = (\<lambda>log n. Inr demo_memo),
     b_updateMemo = (\<lambda>log p k. Inr (apply_update k p demo_memo)),
     b_createMemo = (\<lambda>log m i. if CreateMemo m i \<in> set log then Inl (ConnectError AlreadyExists ''exists'' None)
        else Inl (ConnectError Unavailable ''lost answer'' None)),
     b_createMemoComment = (\<lambda>log n m i. Inr m)\<rparr>"

definition demo_options :: save_options where
  "demo_options = \<lparr>o_memoName = None, o_parentMemoName = None, o_requestId = Some ''r1'', o_retrying = True,
     o_baseUpdateTime = None\<rparr>"

theorem save_unchanged_witness:
  "memo_save ms_wkt demo_backend (fromMemo ms_wkt demo_memo) (demo_options\<lparr>o_memoName := Some ''memos/r1''\<rparr>) [] =
     (Inr \<lparr>r_memoName = ''memos/r1'', r_hasChanges = False, r_confirmedExisting = True\<rparr>, [GetMemo ''memos/r1''])"
  using save_unchanged [of "demo_options\<lparr>o_memoName := Some ''memos/r1''\<rparr>" "''memos/r1''" demo_backend "[]" demo_memo]
  by (simp add: demo_options_def demo_backend_def demo_memo_def)

text \<open>C17. A repeated create does not make a second memo. If the first answer to a create was lost and the server
  reports \<open>AlreadyExists\<close> for the request id, \<open>save\<close> reads \<open>memos/<request id>\<close>; when that memo carries what the
  editor holds, it is confirmed, and the only calls are the refused create and the read: no update, no second
  create.\<close>

theorem save_retry_idempotent:
  assumes "\<not> truthy (o_memoName opts)" "\<not> truthy (o_parentMemoName opts)" "o_requestId opts = Some rid" "rid \<noteq> []"
    and "uploadFiles b (localFiles s) log0 = (Inr new, log)"
    and "b_createMemo b log (memo_data w s (attachments (metadata s) @ new)) (Some rid) = Inl e" "already_exists e"
    and "b_getMemo b (log @ [CreateMemo (memo_data w s (attachments (metadata s) @ new)) (Some rid)]) (''memos/'' @ rid) = Inr m"
    and "matchesPersistedEditorState w m s (attachments (metadata s) @ new) (o_baseUpdateTime opts)"
  shows "memo_save w b s opts log0 =
     (Inr \<lparr>r_memoName = memo_name m, r_hasChanges = False, r_confirmedExisting = True\<rparr>,
      log @ [CreateMemo (memo_data w s (attachments (metadata s) @ new)) (Some rid), GetMemo (''memos/'' @ rid)])"
  using assms by (simp add: memo_save_def truthy_def saveExistingMemo_def Let_def)

theorem save_retry_idempotent_witness:
  "let s = fromMemo ms_wkt demo_memo; first = memo_save ms_wkt demo_backend s demo_options []
   in fst first = Inl (ConnectError Unavailable ''lost answer'' None)
      \<and> memo_save ms_wkt demo_backend s demo_options (snd first) =
        (Inr \<lparr>r_memoName = ''memos/r1'', r_hasChanges = False, r_confirmedExisting = True\<rparr>,
         [CreateMemo (memo_data ms_wkt s []) (Some ''r1''), CreateMemo (memo_data ms_wkt s []) (Some ''r1''),
          GetMemo ''memos/r1''])"
proof -
  let ?s = "fromMemo ms_wkt demo_memo"
  let ?d = "memo_data ms_wkt ?s []"
  have s: "localFiles ?s = []" "attachments (metadata ?s) = []" by (simp_all add: fromMemo_def demo_memo_def default_memo_def)
  have o: "o_memoName demo_options = None" "o_parentMemoName demo_options = None" "o_requestId demo_options = Some ''r1''"
    "o_baseUpdateTime demo_options = None" by (simp_all add: demo_options_def)
  have first: "memo_save ms_wkt demo_backend ?s demo_options [] =
      (Inl (ConnectError Unavailable ''lost answer'' None), [CreateMemo ?d (Some ''r1'')])"
    by (simp add: memo_save_def s o truthy_def demo_backend_def already_exists_def)
  have m: "matchesPersistedEditorState ms_wkt demo_memo ?s [] None"
    using fromMemo_matches [of ms_wkt demo_memo None] by (simp add: demo_memo_def default_memo_def)
  have "memo_save ms_wkt demo_backend ?s demo_options [CreateMemo ?d (Some ''r1'')] =
      (Inr \<lparr>r_memoName = memo_name demo_memo, r_hasChanges = False, r_confirmedExisting = True\<rparr>,
       [CreateMemo ?d (Some ''r1'')] @ [CreateMemo (memo_data ms_wkt ?s (attachments (metadata ?s) @ [])) (Some ''r1''),
        GetMemo (''memos/'' @ ''r1'')])"
    by (rule save_retry_idempotent [where e = "ConnectError AlreadyExists ''exists'' None"]) (simp_all add: s o truthy_def demo_backend_def already_exists_def m)
  with first show ?thesis by (simp add: Let_def s) (simp add: demo_memo_def)
qed

text \<open>Confirming an existing memo loses no edit. When \<open>matchesPersistedEditorState\<close> accepts a memo, the update
  that is skipped would have changed at most the update time, and that only if the editor's update time is the
  one the draft started from, not one the user chose.\<close>

theorem matches_loses_nothing:
  assumes "matchesPersistedEditorState w m s as base"
    and "\<And>d. createTime (timestamps s) = Some d \<Longrightarrow> valid_date d"
    and "\<And>d. updateTime (timestamps s) = Some d \<Longrightarrow> valid_date d"
    and "\<And>t. memo_createTime m = Some t \<or> memo_updateTime m = Some t \<Longrightarrow> valid_date (timestampDate w t)"
  shows "set (fst (buildUpdateMask w m s as)) \<subseteq> {''update_time''}
    \<and> (''update_time'' \<in> set (fst (buildUpdateMask w m s as)) \<longrightarrow>
         map_option to_iso (updateTime (timestamps s)) = base \<and> base \<noteq> None)"
proof -
  have inj: "valid_date d \<Longrightarrow> Some (to_iso d) = map_option (\<lambda>t. to_iso (timestampDate w t)) x \<longleftrightarrow>
      Some d = map_option (timestampDate w) x" if "x = memo_createTime m \<or> x = memo_updateTime m" for d x
    using that assms(4) to_iso_inj by (cases x) auto
  have eq: "content s = memo_content m" "visibility (metadata s) = memo_visibility m" "as = memo_attachments m"
    "relations (metadata s) = memo_relations m" "location (metadata s) = memo_location m"
    using assms(1) unfolding matchesPersistedEditorState_def by (metis)+
  have ct: "createTime (timestamps s) \<in> {None, map_option (timestampDate w) (memo_createTime m)}"
    using assms(1,2) inj unfolding matchesPersistedEditorState_def
    by (cases "createTime (timestamps s)") (auto split: if_splits)
  have ut: "updateTime (timestamps s) \<in> {None, map_option (timestampDate w) (memo_updateTime m)}
      \<or> (map_option to_iso (updateTime (timestamps s)) = base \<and> base \<noteq> None)"
    using assms(1,3) inj unfolding matchesPersistedEditorState_def
    by (cases "updateTime (timestamps s)") (auto split: if_splits)
  show ?thesis unfolding subset_iff mask_iff using eq ct ut by auto
qed


theorem matches_loses_nothing_witness:
  "let s = (fromMemo ms_wkt demo_memo)\<lparr>timestamps := \<lparr>createTime = None, updateTime = Some 7000\<rparr>\<rparr>
   in matchesPersistedEditorState ms_wkt demo_memo s [] (Some (to_iso 7000))
      \<and> set (fst (buildUpdateMask ms_wkt demo_memo s [])) \<subseteq> {''update_time''}"
proof -
  let ?s = "(fromMemo ms_wkt demo_memo)\<lparr>timestamps := \<lparr>createTime = None, updateTime = Some 7000\<rparr>\<rparr>"
  have m: "matchesPersistedEditorState ms_wkt demo_memo ?s [] (Some (to_iso 7000))"
    by (simp add: matchesPersistedEditorState_def fromMemo_def demo_memo_def default_memo_def)
  have "valid_date (timestampDate ms_wkt t)" if "memo_createTime demo_memo = Some t \<or> memo_updateTime demo_memo = Some t" for t
    using that by (auto simp: demo_memo_def default_memo_def ms_wkt_def valid_date_def)
  then have "set (fst (buildUpdateMask ms_wkt demo_memo ?s [])) \<subseteq> {''update_time''}"
    using matches_loses_nothing [OF m] by (simp add: valid_date_def)
  with m show ?thesis by (simp add: Let_def)
qed

text \<open>What a save sends. A save uploads the local files in order and stops at the first failure; only when all
  are up does it go on, with at most one create, none at all for an existing memo, and it updates a memo only
  after reading it, with the mask computed from what it read.\<close>

theorem save_calls:
  assumes "memo_save w b s opts log = (r, log')"
  shows "\<exists>k tail. log' = log @ map (CreateAttachment \<circ> upload_request) (take k (localFiles s)) @ tail
     \<and> k \<le> length (localFiles s) \<and> (tail \<noteq> [] \<longrightarrow> k = length (localFiles s))
     \<and> length (filter is_create tail) \<le> (if truthy (o_memoName opts) then 0 else 1)
     \<and> (\<forall>i p ks. i < length tail \<and> tail ! i = UpdateMemo p ks \<longrightarrow>
          (\<exists>n m as h. 0 < i \<and> tail ! (i - 1) = GetMemo n \<and> b_getMemo b h n = Inr m
             \<and> buildUpdateMask w m s as = (ks, p) \<and> ks \<noteq> []))"
proof -
  obtain u log1 where u: "uploadFiles b (localFiles s) log = (u, log1)" by fastforce
  obtain k where k: "k \<le> length (localFiles s)"
    "log1 = log @ map (CreateAttachment \<circ> upload_request) (take k (localFiles s))"
    "case u of Inl e \<Rightarrow> 0 < k | Inr as \<Rightarrow> k = length (localFiles s) \<and> length as = length (localFiles s)"
    using uploadFiles_log [OF u] by blast
  show ?thesis
  proof (cases u)
    case (Inl e)
    with assms u k show ?thesis by (intro exI [of _ k] exI [of _ "[]"]) (simp add: memo_save_def)
  next
    case (Inr new)
    with assms u obtain tail where "log' = log1 @ tail" "save_tail w b s opts tail"
      using memo_save_tail by blast
    with k Inr show ?thesis by (intro exI [of _ k] exI [of _ tail]) (simp add: save_tail_def)
  qed
qed

theorem save_calls_witness:
  "\<exists>k tail. snd (memo_save ms_wkt demo_backend demo_state (demo_options\<lparr>o_memoName := Some ''memos/r1''\<rparr>) []) =
      map (CreateAttachment \<circ> upload_request) (take k (localFiles demo_state)) @ tail
      \<and> length (filter is_create tail) \<le> 0"
proof -
  let ?o = "demo_options\<lparr>o_memoName := Some ''memos/r1''\<rparr>"
  have t: "truthy (o_memoName ?o)" by (simp add: truthy_def)
  obtain r l where e: "memo_save ms_wkt demo_backend demo_state ?o [] = (r, l)" by fastforce
  from save_calls [OF e] t show ?thesis unfolding e snd_conv append_Nil if_P [OF t] by blast
qed

end
