(* ===== verification/SaveFlow.thy ===== *)
theory SaveFlow
  imports AutoSave SaveMemo
begin

text \<open>
  The editor component around the services: opening an editor (\<open>hooks/useMemoInit.ts\<close>) and saving
  (\<open>handleSave\<close> of \<open>components/MemoEditor/index.tsx\<close>). A save has a synchronous part up to the first \<open>await\<close> and
  a part that runs with the answer, so that renders and timers may come in between.
\<close>

section \<open>Opening an editor\<close>

record RecoveredPendingSave =
  rp_requestId :: "string option"
  rp_savedAt :: string

record PendingMemoDraft =
  pd_content :: string
  pd_savedAt :: "string option"
  pd_baseUpdateTime :: "string option"
  pd_hasServerChanges :: bool
  pd_pendingSave :: "RecoveredPendingSave option"

record init_options =
  i_memo :: "Memo option"
  i_cacheKey :: "string option"
  i_username :: string
  i_defaultVisibility :: "Visibility option"
  i_defaultCreateTime :: "date option"

record memo_init =
  initializedIdentity :: "string option"
  pendingDraft :: "PendingMemoDraft option"
  draftBaseUpdateTime :: "string option"
  draftRequestId :: "string option"
  recoveredPendingSave :: "RecoveredPendingSave option"

definition or_empty :: "string option \<Rightarrow> string" where
  "or_empty x = (case x of None \<Rightarrow> '''' | Some s \<Rightarrow> s)"

definition nul :: string where "nul = [char_of (0::nat)]"

definition identity :: "init_options \<Rightarrow> string" where
  "identity opt = i_username opt @ nul @ or_empty (i_cacheKey opt) @ nul
     @ (case i_memo opt of None \<Rightarrow> ''create'' | Some m \<Rightarrow> memo_name m)"

definition currentServerUpdateTime :: "wkt \<Rightarrow> init_options \<Rightarrow> string option" where
  "currentServerUpdateTime w opt =
     (case i_memo opt of None \<Rightarrow> None | Some m \<Rightarrow> map_option (\<lambda>t. to_iso (timestampDate w t)) (memo_updateTime m))"

definition isInitialized :: "init_options \<Rightarrow> memo_init \<Rightarrow> bool" where
  "isInitialized opt i \<longleftrightarrow> i_username opt \<noteq> [] \<and> initializedIdentity i = Some (identity opt)"

text \<open>\<open>draft.pending && (draft.attemptedAt || draft.savedAt)\<close> and the value built from it.\<close>

definition recover_pending :: "MemoEditorDraft \<Rightarrow> RecoveredPendingSave option" where
  "recover_pending d =
     (if is_pending (d_pending d) \<and> (truthy (d_attemptedAt d) \<or> truthy (d_savedAt d))
      then Some \<lparr>rp_requestId = d_requestId d,
        rp_savedAt = (case d_attemptedAt d of Some a \<Rightarrow> a | None \<Rightarrow> or_empty (d_savedAt d))\<rparr>
      else None)"

definition init_edit :: "wkt \<Rightarrow> init_options \<Rightarrow> Memo \<Rightarrow> memo_init \<Rightarrow> EditorState \<Rightarrow> draft_cache
    \<Rightarrow> memo_init \<times> EditorState \<times> draft_cache" where
  "init_edit w opt memo i s c =
     (let k = cache_key (i_username opt) (i_cacheKey opt);
          fm = fromMemo w memo;
          s1 = editorReducer s (initMemo (content fm) (metadata fm) (timestamps fm));
          i1 = i\<lparr>draftBaseUpdateTime := currentServerUpdateTime w opt\<rparr>
      in case loadDraft c k of
           None \<Rightarrow> (i1, s1, c)
         | Some d \<Rightarrow>
             if d_mode d = EditMode \<and> d_memoName d = Some (memo_name memo) \<and> d_content d \<noteq> content fm
             then (i1\<lparr>draftBaseUpdateTime := d_baseUpdateTime d, draftRequestId := d_requestId d,
                    pendingDraft := Some \<lparr>pd_content = d_content d, pd_savedAt = d_savedAt d,
                      pd_baseUpdateTime = d_baseUpdateTime d,
                      pd_hasServerChanges = (d_baseUpdateTime d \<noteq> currentServerUpdateTime w opt),
                      pd_pendingSave = recover_pending d\<rparr>\<rparr>, s1, c)
             else (i1, s1, cache_clear k c))"

definition visibility_patch :: "Visibility \<Rightarrow> PartialMetadata" where
  "visibility_patch v = \<lparr>pm_visibility = Some v, pm_attachments = None, pm_relations = None, pm_location = None\<rparr>"

definition times_patch :: "date option \<Rightarrow> PartialTimestamps" where
  "times_patch d = \<lparr>pt_createTime = Some d, pt_updateTime = Some d\<rparr>"

definition init_create :: "init_options \<Rightarrow> memo_init \<Rightarrow> EditorState \<Rightarrow> draft_cache
    \<Rightarrow> memo_init \<times> EditorState \<times> draft_cache" where
  "init_create opt i s c =
     (let k = cache_key (i_username opt) (i_cacheKey opt);
          s1 = editorReducer s reset;
          cached = loadDraft c k;
          s2 = (case cached of Some d \<Rightarrow> if d_content d \<noteq> [] then editorReducer s1 (updateContent (d_content d)) else s1
                | None \<Rightarrow> s1);
          i2 = (case cached of Some d \<Rightarrow> i\<lparr>draftRequestId := d_requestId d, recoveredPendingSave := recover_pending d\<rparr>
                | None \<Rightarrow> i);
          s3 = (case i_defaultVisibility opt of Some v \<Rightarrow> editorReducer s2 (setMetadata (visibility_patch v)) | None \<Rightarrow> s2);
          s4 = (case i_defaultCreateTime opt of
                  Some d \<Rightarrow> editorReducer s3 (setTimestamps (times_patch (Some d))) | None \<Rightarrow> s3)
      in (i2, s4, c))"

definition memoInit_effect :: "wkt \<Rightarrow> init_options \<Rightarrow> memo_init \<Rightarrow> EditorState \<Rightarrow> draft_cache
    \<Rightarrow> memo_init \<times> EditorState \<times> draft_cache" where
  "memoInit_effect w opt i s c =
     (if i_username opt = [] \<or> initializedIdentity i = Some (identity opt) then (i, s, c)
      else let i0 = i\<lparr>pendingDraft := None, draftBaseUpdateTime := None, draftRequestId := None,
                      recoveredPendingSave := None\<rparr>;
               (i1, s1, c1) = (case i_memo opt of Some m \<Rightarrow> init_edit w opt m i0 s c | None \<Rightarrow> init_create opt i0 s c)
           in (i1\<lparr>initializedIdentity := Some (identity opt)\<rparr>, s1, c1))"

definition restorePendingDraft :: "memo_init \<Rightarrow> EditorState \<Rightarrow> memo_init \<times> EditorState" where
  "restorePendingDraft i s =
     (case pendingDraft i of
        None \<Rightarrow> (i, s)
      | Some d \<Rightarrow> (i\<lparr>recoveredPendingSave := pd_pendingSave d, pendingDraft := None\<rparr>,
                    editorReducer s (updateContent (pd_content d))))"

definition discardPendingDraft :: "wkt \<Rightarrow> init_options \<Rightarrow> memo_init \<Rightarrow> draft_cache \<Rightarrow> memo_init \<times> draft_cache" where
  "discardPendingDraft w opt i c =
     (i\<lparr>draftBaseUpdateTime := currentServerUpdateTime w opt, draftRequestId := None, recoveredPendingSave := None,
        pendingDraft := None\<rparr>,
      cache_clear (cache_key (i_username opt) (i_cacheKey opt)) c)"

section \<open>Saving\<close>

datatype SaveDeliveryState =
  Idle
| Sending "string option" string bool bool
| Unsent "string option" string

datatype ui_effect = ToastError | Confirmed string | Cancelled | Invalidate "string list"

record editor_props =
  e_memo :: "Memo option"
  e_cacheKey :: "string option"
  e_parentMemoName :: "string option"
  e_username :: string
  e_defaultVisibility :: "Visibility option"
  e_defaultCreateTime :: "date option"
  e_onLine :: bool

record editor =
  ed_state :: EditorState
  ed_init :: memo_init
  ed_auto :: autosave
  ed_requestId :: "string option"
  ed_delivery :: SaveDeliveryState
  ed_saveInFlight :: bool
  ed_completedEdit :: "string option"
  ed_effects :: "ui_effect list"

text \<open>What \<open>handleSave\<close> closes over: the properties and state of the render it was created in, and its own
  variables.\<close>

record save_attempt =
  sa_state :: EditorState
  sa_savedAt :: string
  sa_key :: string
  sa_requestId :: "string option"
  sa_retrying :: bool
  sa_persisted :: bool
  sa_base :: "string option"

definition prop_memoName :: "editor_props \<Rightarrow> string option" where
  "prop_memoName p = map_option memo_name (e_memo p)"

definition draftCacheKey :: "editor_props \<Rightarrow> string option" where
  "draftCacheKey p = (if truthy (prop_memoName p) then Some (''edit-'' @ the (prop_memoName p)) else e_cacheKey p)"

definition editorIdentity :: "editor_props \<Rightarrow> string" where
  "editorIdentity p = e_username p @ nul @ or_empty (draftCacheKey p) @ nul
     @ (case prop_memoName p of None \<Rightarrow> ''create'' | Some n \<Rightarrow> n)"

definition draft_mode :: "editor_props \<Rightarrow> MemoEditorDraftMode" where
  "draft_mode p = (if e_memo p \<noteq> None then EditMode else CreateMode)"

definition isEditorLocked :: "editor \<Rightarrow> bool" where
  "isEditorLocked e \<longleftrightarrow> pendingDraft (ed_init e) \<noteq> None \<or> saving (isLoading (ui (ed_state e)))"

definition ed_dispatch :: "EditorAction \<Rightarrow> editor \<Rightarrow> editor" where
  "ed_dispatch a e = e\<lparr>ed_state := editorReducer (ed_state e) a\<rparr>"

definition ed_cache :: "editor \<Rightarrow> draft_cache" where
  "ed_cache e = a_cache (ed_auto e)"

definition with_cache :: "draft_cache \<Rightarrow> editor \<Rightarrow> editor" where
  "with_cache c e = e\<lparr>ed_auto := (ed_auto e)\<lparr>a_cache := c\<rparr>\<rparr>"

definition attempt_meta :: "editor_props \<Rightarrow> save_attempt \<Rightarrow> bool \<Rightarrow> MemoEditorDraftMetadata" where
  "attempt_meta p a pend = \<lparr>m_mode = Some (draft_mode p), m_memoName = prop_memoName p, m_baseUpdateTime = sa_base a,
     m_savedAt = Some (sa_savedAt a), m_requestId = sa_requestId a, m_pending = Some pend,
     m_attemptedAt = if pend then Some (sa_savedAt a) else None\<rparr>"

text \<open>The \<open>catch\<close> and \<open>finally\<close> clauses.\<close>

definition save_failed :: "editor_props \<Rightarrow> save_attempt \<Rightarrow> js_error \<Rightarrow> editor \<Rightarrow> editor" where
  "save_failed p a err e =
     (let e1 = (if classifySaveError (e_onLine p) err = Network \<and> sa_persisted a
                then e\<lparr>ed_delivery := Unsent (sa_requestId a) (sa_savedAt a)\<rparr>
                else with_cache (snd (saveNow (sa_key a) (content (sa_state a)) (attempt_meta p a False) (ed_cache e)))
                       (e\<lparr>ed_delivery := Idle, ed_effects := ed_effects e @ [ToastError]\<rparr>))
      in ed_dispatch (setLoading saving_key False) (e1\<lparr>ed_saveInFlight := False\<rparr>))"

text \<open>Up to the \<open>await\<close> of \<open>memoService.save\<close>. \<open>Inl\<close> is an editor in which no request is under way. The uuid
  generator may throw.\<close>

definition handleSave_start ::
  "editor_props \<Rightarrow> js_error + string \<Rightarrow> editor \<Rightarrow> editor + editor \<times> save_attempt" where
  "handleSave_start p uuid e =
     (if ed_saveInFlight e \<or> isEditorLocked e then Inl e
      else if canSave (ed_state e) \<noteq> None then Inl (e\<lparr>ed_effects := ed_effects e @ [ToastError]\<rparr>)
      else
        let a0 = \<lparr>sa_state = ed_state e, sa_savedAt = to_iso (clock (ed_cache e)),
                  sa_key = cache_key (e_username p) (draftCacheKey p), sa_requestId = ed_requestId e,
                  sa_retrying = (case ed_delivery e of Unsent r t \<Rightarrow> True | _ \<Rightarrow> False), sa_persisted = False,
                  sa_base = draftBaseUpdateTime (ed_init e)\<rparr>;
            e1 = ed_dispatch (setLoading saving_key True) (e\<lparr>ed_saveInFlight := True\<rparr>)
        in case (if e_memo p \<noteq> None \<or> ed_requestId e \<noteq> None then Inr (ed_requestId e) else map_sum id Some uuid) of
             Inl err \<Rightarrow> Inl (save_failed p a0 err e1)
           | Inr rid \<Rightarrow>
               let a1 = a0\<lparr>sa_requestId := rid\<rparr>;
                   (ok, c) = saveNow (sa_key a1) (content (sa_state a1)) (attempt_meta p a1 True) (ed_cache e1);
                   a2 = a1\<lparr>sa_persisted := ok\<rparr>
               in Inr ((with_cache c e1)\<lparr>ed_requestId := rid,
                         ed_delivery := Sending rid (sa_savedAt a2) (sa_retrying a2) ok\<rparr>, a2))"

definition attempt_options :: "editor_props \<Rightarrow> save_attempt \<Rightarrow> save_options" where
  "attempt_options p a = \<lparr>o_memoName = prop_memoName p, o_parentMemoName = e_parentMemoName p,
     o_requestId = sa_requestId a, o_retrying = sa_retrying a, o_baseUpdateTime = sa_base a\<rparr>"

definition invalidations :: "editor_props \<Rightarrow> ui_effect list" where
  "invalidations p = [Invalidate [''memos'', ''list''], Invalidate [''users'', ''stats'']]
     @ (if truthy (prop_memoName p) then [Invalidate [''memos'', ''detail'', the (prop_memoName p)]] else [])
     @ (if truthy (e_parentMemoName p) then [Invalidate [''memos'', ''comments'', the (e_parentMemoName p)]] else [])"

text \<open>After the answer.\<close>

definition handleSave_finish :: "editor_props \<Rightarrow> save_attempt \<Rightarrow> js_error + save_result \<Rightarrow> editor \<Rightarrow> editor" where
  "handleSave_finish p a r e =
     (case r of
        Inl err \<Rightarrow> save_failed p a err e
      | Inr res \<Rightarrow>
          let e1 = e\<lparr>ed_auto := discardDraft (ed_auto e), ed_requestId := None, ed_delivery := Idle\<rparr> in
          if \<not> r_hasChanges res \<and> \<not> r_confirmedExisting res \<and> \<not> sa_retrying a
          then ed_dispatch (setLoading saving_key False)
                 (e1\<lparr>ed_effects := ed_effects e @ [ToastError, Cancelled], ed_saveInFlight := False\<rparr>)
          else
            let e2 = e1\<lparr>ed_completedEdit := if e_memo p \<noteq> None then Some (editorIdentity p) else ed_completedEdit e,
                        ed_effects := ed_effects e @ invalidations p\<rparr>;
                e3 = ed_dispatch reset e2;
                e4 = (case e_defaultVisibility p of
                        Some v \<Rightarrow> if \<not> truthy (prop_memoName p) \<and> v \<noteq> VISIBILITY_UNSPECIFIED
                                  then ed_dispatch (setMetadata (visibility_patch v)) e3 else e3
                      | None \<Rightarrow> e3);
                e5 = (case e_defaultCreateTime p of
                        Some d \<Rightarrow> if \<not> truthy (prop_memoName p) then ed_dispatch (setTimestamps (times_patch (Some d))) e4 else e4
                      | None \<Rightarrow> e4)
            in ed_dispatch (setLoading saving_key False)
                 (e5\<lparr>ed_effects := ed_effects e5 @ [Confirmed (r_memoName res)], ed_saveInFlight := False\<rparr>))"

text \<open>A whole save against a backend, with nothing in between.\<close>

definition handleSave ::
  "wkt \<Rightarrow> backend \<Rightarrow> editor_props \<Rightarrow> js_error + string \<Rightarrow> editor \<Rightarrow> rpc_call list \<Rightarrow> editor \<times> rpc_call list" where
  "handleSave w b p uuid e log =
     (case handleSave_start p uuid e of
        Inl e' \<Rightarrow> (e', log)
      | Inr (e', a) \<Rightarrow>
          (case memo_save w b (sa_state a) (attempt_options p a) log of
             (r, log') \<Rightarrow> (handleSave_finish p a r e', log')))"

section \<open>Frame lemmas\<close>

lemma ed_dispatch_simps [simp]:
  "ed_cache (ed_dispatch a e) = ed_cache e" "ed_auto (ed_dispatch a e) = ed_auto e" "ed_init (ed_dispatch a e) = ed_init e"
  "ed_requestId (ed_dispatch a e) = ed_requestId e" "ed_delivery (ed_dispatch a e) = ed_delivery e"
  "ed_saveInFlight (ed_dispatch a e) = ed_saveInFlight e" "ed_effects (ed_dispatch a e) = ed_effects e"
  "ed_state (ed_dispatch a e) = editorReducer (ed_state e) a"
  by (simp_all add: ed_dispatch_def ed_cache_def)

lemma with_cache_simps [simp]:
  "ed_cache (with_cache c e) = c" "ed_state (with_cache c e) = ed_state e" "ed_init (with_cache c e) = ed_init e"
  "ed_requestId (with_cache c e) = ed_requestId e" "ed_delivery (with_cache c e) = ed_delivery e"
  "ed_saveInFlight (with_cache c e) = ed_saveInFlight e" "ed_effects (with_cache c e) = ed_effects e"
  by (simp_all add: with_cache_def ed_cache_def)

lemma ed_cache_upd [simp]:
  "ed_cache (e\<lparr>ed_delivery := x\<rparr>) = ed_cache e" "ed_cache (e\<lparr>ed_requestId := r\<rparr>) = ed_cache e"
  "ed_cache (e\<lparr>ed_saveInFlight := b\<rparr>) = ed_cache e" "ed_cache (e\<lparr>ed_effects := f\<rparr>) = ed_cache e"
  by (simp_all add: ed_cache_def)

text \<open>What a started save has done: its attempt holds the state and request id, and the cache is the one
  \<open>saveNow\<close> left.\<close>

lemma map_sum_Some: "map_sum id Some u = Inr x \<Longrightarrow> x \<noteq> None"
  by (cases u) auto

lemma handleSave_startD:
  assumes "handleSave_start p uuid e = Inr (e', a)"
  shows "sa_state a = ed_state e" "sa_key a = cache_key (e_username p) (draftCacheKey p)"
    "sa_savedAt a = to_iso (clock (ed_cache e))" "ed_requestId e' = sa_requestId a"
    "saveNow (sa_key a) (content (ed_state e)) (attempt_meta p a True) (ed_cache e) = (sa_persisted a, ed_cache e')"
    "ed_state e' = editorReducer (ed_state e) (setLoading saving_key True)"
    "e_memo p = None \<Longrightarrow> sa_requestId a \<noteq> None"
    "ed_requestId e \<noteq> None \<Longrightarrow> sa_requestId a = ed_requestId e" "ed_saveInFlight e' = True" "ed_saveInFlight e = False"
    "sa_base a = draftBaseUpdateTime (ed_init e)"
  using assms
  by (auto simp: handleSave_start_def Let_def attempt_meta_def dest: map_sum_Some split: if_splits sum.splits prod.splits)

definition recoverable :: "editor_props \<Rightarrow> editor \<Rightarrow> bool" where
  "recoverable p e \<longleftrightarrow> accessible (c_store (ed_cache e)) \<and> has_room (c_store (ed_cache e))
     \<and> (e_memo p \<noteq> None \<or> trim (content (ed_state e)) \<noteq> [])"

lemma attempt_meta_simps [simp]:
  "m_pending (attempt_meta p a b) = Some b" "m_requestId (attempt_meta p a b) = sa_requestId a"
  "m_attemptedAt (attempt_meta p a b) = (if b then Some (sa_savedAt a) else None)"
  "metadata_mode (attempt_meta p a b) = draft_mode p" "m_savedAt (attempt_meta p a b) = Some (sa_savedAt a)"
  "m_memoName (attempt_meta p a b) = prop_memoName p"
  by (simp_all add: attempt_meta_def metadata_mode_def)

lemma saveNow_storage_env:
  "accessible (c_store (snd (saveNow k c m s))) = accessible (c_store s)"
  "has_room (c_store (snd (saveNow k c m s))) = has_room (c_store s)"
  by (simp_all add: service_store writeEntry_env)

lemma saveNow_attempt:
  assumes "accessible (c_store c)" "has_room (c_store c)" "e_memo p \<noteq> None \<or> trim t \<noteq> []"
  shows "saveNow k t (attempt_meta p a b) c = (True, snd (saveNow k t (attempt_meta p a b) c))"
    and "loadDraft (snd (saveNow k t (attempt_meta p a b) c)) k = Some (draft_entry (clock c) t (attempt_meta p a b))"
proof -
  have nb: "\<not> (draft_mode p = CreateMode \<and> trim t = [])" using assms(3) by (auto simp: draft_mode_def)
  show "saveNow k t (attempt_meta p a b) c = (True, snd (saveNow k t (attempt_meta p a b) c))"
    using assms(1,2) nb by (auto simp: saveNow_def writeEntry_def set_item_def)
  show "loadDraft (snd (saveNow k t (attempt_meta p a b) c)) k = Some (draft_entry (clock c) t (attempt_meta p a b))"
    using loadDraft_written [OF assms(1,2)] nb by (auto simp: loadDraft_def service_store)
qed

lemma started_draft:
  assumes "handleSave_start p uuid e = Inr (e', a)" "recoverable p e"
  shows "sa_persisted a" "loadDraft (ed_cache e') (sa_key a) =
     Some (draft_entry (clock (ed_cache e)) (content (ed_state e)) (attempt_meta p a True))"
proof -
  note d = handleSave_startD [OF assms(1)]
  note r = saveNow_attempt [of "ed_cache e" p "content (ed_state e)" "sa_key a" a True]
  show "sa_persisted a" "loadDraft (ed_cache e') (sa_key a) =
     Some (draft_entry (clock (ed_cache e)) (content (ed_state e)) (attempt_meta p a True))"
    using r assms(2) d(5) unfolding recoverable_def by simp_all
qed

lemma set_loading_frame [simp]:
  "content (editorReducer s (setLoading k v)) = content s" "metadata (editorReducer s (setLoading k v)) = metadata s"
  "localFiles (editorReducer s (setLoading k v)) = localFiles s"
  by simp_all

section \<open>Properties\<close>

definition demo_editor_props :: editor_props where
  "demo_editor_props = \<lparr>e_memo = None, e_cacheKey = Some ''home'', e_parentMemoName = None, e_username = ''users/u'',
     e_defaultVisibility = None, e_defaultCreateTime = None, e_onLine = True\<rparr>"

definition demo_auto :: autosave where
  "demo_auto = autosave_mount (demo_props\<lparr>a_cacheKey := Some ''home'', a_requestId := None, a_pending := None\<rparr>) empty_cache"

definition demo_editor :: editor where
  "demo_editor = \<lparr>ed_state = initialState\<lparr>content := ''hi''\<rparr>,
     ed_init = \<lparr>initializedIdentity = None, pendingDraft = None, draftBaseUpdateTime = None, draftRequestId = None,
       recoveredPendingSave = None\<rparr>,
     ed_auto = demo_auto, ed_requestId = None, ed_delivery = Idle, ed_saveInFlight = False, ed_completedEdit = None,
     ed_effects = []\<rparr>"

text \<open>The text is safe before the first request. When \<open>handleSave\<close> gets as far as sending, and the storage
  works and there is text (or a memo is edited), the local cache already holds the text marked as pending with the
  request id that is about to be sent; a new memo always has a request id, and a retry keeps the old one.\<close>

theorem save_persists_first:
  assumes "handleSave_start p uuid e = Inr (e', a)" "recoverable p e"
  shows "loadDraft (ed_cache e') (cache_key (e_username p) (draftCacheKey p)) =
       Some (draft_entry (clock (ed_cache e)) (content (ed_state e)) (attempt_meta p a True))
    \<and> sa_persisted a \<and> o_requestId (attempt_options p a) = sa_requestId a \<and> ed_requestId e' = sa_requestId a
    \<and> (e_memo p = None \<longrightarrow> sa_requestId a \<noteq> None) \<and> (ed_requestId e \<noteq> None \<longrightarrow> sa_requestId a = ed_requestId e)"
  using started_draft [OF assms] handleSave_startD [OF assms(1)] by (simp add: attempt_options_def)



text \<open>Success cleans up. After an answer that confirms the memo, no draft of the editor is left under the key it
  renders with, and none is flushed back by the unmount that follows; the request id and delivery state are reset,
  the editor is empty again and can save, and the caller is told the name of the memo.\<close>

theorem successful_save_clears:
  assumes "autosave_inv (ed_auto e)" "r_hasChanges res \<or> r_confirmedExisting res \<or> sa_retrying a"
    and "e2 = handleSave_finish p a (Inr res) e"
  shows "loadDraft (ed_cache e2) (props_key (rendered (ed_auto e))) = None
    \<and> loadDraft (a_cache (autosave_unmount (ed_auto e2))) (props_key (rendered (ed_auto e))) = None
    \<and> ed_requestId e2 = None \<and> ed_delivery e2 = Idle \<and> \<not> ed_saveInFlight e2
    \<and> content (ed_state e2) = [] \<and> localFiles (ed_state e2) = [] \<and> \<not> saving (isLoading (ui (ed_state e2)))
    \<and> last (ed_effects e2) = Confirmed (r_memoName res)"
proof -
  have auto: "ed_auto e2 = discardDraft (ed_auto e)"
    using assms(2) by (auto simp: assms(3) handleSave_finish_def Let_def split: option.split)
  have disc: "discarded (props_key (rendered (ed_auto e))) (discardDraft (ed_auto e))"
    using assms(1) by (rule discard_discarded)
  have draft: "loadDraft (ed_cache e2) (props_key (rendered (ed_auto e))) = None"
    "loadDraft (a_cache (autosave_unmount (ed_auto e2))) (props_key (rendered (ed_auto e))) = None"
    using disc by (simp_all add: ed_cache_def auto autosave_unmount_def discarded_def flush_discarded)
  have rest: "ed_requestId e2 = None" "ed_delivery e2 = Idle" "\<not> ed_saveInFlight e2" "content (ed_state e2) = []"
    "localFiles (ed_state e2) = []" "\<not> saving (isLoading (ui (ed_state e2)))"
    "last (ed_effects e2) = Confirmed (r_memoName res)"
    using assms(2) by (auto simp: assms(3) handleSave_finish_def Let_def initialState_def set_loading_def split: option.split)
  from draft rest show ?thesis by blast
qed

text \<open>Opening a memo for editing never replaces the server's text by a draft, and never drops a draft that
  differs from it. The editor shows the stored memo; a cached draft of that memo with other text is kept and
  offered, with a warning exactly when the memo has changed since the draft was started, and restoring it puts its
  text into the editor; any other cached draft under the key is removed.\<close>

theorem open_edit_draft:
  assumes "i_memo opt = Some m" "i_username opt \<noteq> []" "initializedIdentity i \<noteq> Some (identity opt)"
    and "k = cache_key (i_username opt) (i_cacheKey opt)" "memoInit_effect w opt i s c = (i', s', c')"
  shows "content s' = memo_content m \<and> metadata s' = metadata (fromMemo w m)
    \<and> (case loadDraft c k of
         None \<Rightarrow> pendingDraft i' = None \<and> c' = c
       | Some d \<Rightarrow>
           if d_mode d = EditMode \<and> d_memoName d = Some (memo_name m) \<and> d_content d \<noteq> memo_content m
           then c' = c \<and> map_option pd_content (pendingDraft i') = Some (d_content d)
             \<and> map_option pd_hasServerChanges (pendingDraft i') = Some (d_baseUpdateTime d \<noteq> currentServerUpdateTime w opt)
             \<and> content (snd (restorePendingDraft i' s')) = d_content d \<and> draftRequestId i' = d_requestId d
           else pendingDraft i' = None \<and> loadDraft c' k = None)"
proof -
  have f: "content (fromMemo w m) = memo_content m" by (simp add: fromMemo_def)
  have cl: "loadDraft (cache_clear k c) k = None"
    by (simp add: loadDraft_def service_store loadDraftEntry_removed)
  show ?thesis
    using assms(1-3,5) cl unfolding assms(4)
    by (auto simp: memoInit_effect_def init_edit_def Let_def f restorePendingDraft_def split: option.splits if_splits)
qed

section \<open>Witnesses\<close>

lemma demo_state_env:
  "accessible (c_store (ed_cache demo_editor))" "has_room (c_store (ed_cache demo_editor))"
  "trim (content (ed_state demo_editor)) \<noteq> []" "content (ed_state demo_editor) = ''hi''"
proof -
  show "accessible (c_store (ed_cache demo_editor))" "has_room (c_store (ed_cache demo_editor))"
    by (simp_all add: ed_cache_def demo_editor_def demo_auto_def autosave_mount_def effect_register_def effect_content_def
        effect_save_def demo_props_def) (simp_all add: empty_cache_def empty_storage_def)
  show "content (ed_state demo_editor) = ''hi''" by (simp add: demo_editor_def)
  then show "trim (content (ed_state demo_editor)) \<noteq> []" by code_simp
qed

lemma demo_recoverable: "recoverable demo_editor_props demo_editor"
  using demo_state_env by (simp add: recoverable_def)

lemma demo_start:
  obtains e' a where "handleSave_start demo_editor_props (Inr ''r1'') demo_editor = Inr (e', a)"
    "sa_requestId a = Some ''r1''"
proof -
  have "canSave (ed_state demo_editor) = None"
    using demo_state_env(3) by (simp add: canSave_def demo_editor_def initialState_def)
  moreover have "\<not> isEditorLocked demo_editor" "\<not> ed_saveInFlight demo_editor" "ed_requestId demo_editor = None"
    by (simp_all add: isEditorLocked_def demo_editor_def initialState_def)
  moreover have "e_memo demo_editor_props = None" by (simp add: demo_editor_props_def)
  ultimately have "\<exists>e' a. handleSave_start demo_editor_props (Inr ''r1'') demo_editor = Inr (e', a) \<and> sa_requestId a = Some ''r1''"
    by (simp add: handleSave_start_def Let_def split_def)
  then show ?thesis using that by blast
qed

theorem save_persists_first_witness:
  "\<exists>e' a. handleSave_start demo_editor_props (Inr ''r1'') demo_editor = Inr (e', a) \<and> sa_persisted a
     \<and> map_option d_content (loadDraft (ed_cache e') ''users/u-home'') = Some ''hi''"
proof -
  obtain e' a where s: "handleSave_start demo_editor_props (Inr ''r1'') demo_editor = Inr (e', a)" by (rule demo_start)
  have "cache_key (e_username demo_editor_props) (draftCacheKey demo_editor_props) = ''users/u-home''"
    by (simp add: demo_editor_props_def draftCacheKey_def prop_memoName_def truthy_def cache_key_def)
  with s save_persists_first [OF s demo_recoverable] demo_state_env(4) show ?thesis
    by (auto simp: draft_entry_def)
qed


definition demo_open :: init_options where
  "demo_open = \<lparr>i_memo = None, i_cacheKey = Some ''home'', i_username = ''users/u'', i_defaultVisibility = None,
     i_defaultCreateTime = None\<rparr>"

definition demo_init :: memo_init where
  "demo_init = \<lparr>initializedIdentity = None, pendingDraft = None, draftBaseUpdateTime = None, draftRequestId = None,
     recoveredPendingSave = None\<rparr>"


theorem successful_save_clears_witness:
  "loadDraft (ed_cache (handleSave_finish demo_editor_props
      \<lparr>sa_state = ed_state demo_editor, sa_savedAt = [], sa_key = [], sa_requestId = Some ''r1'', sa_retrying = False,
       sa_persisted = True, sa_base = None\<rparr>
      (Inr \<lparr>r_memoName = ''memos/r1'', r_hasChanges = True, r_confirmedExisting = False\<rparr>) demo_editor)) ''users/u-home'' = None"
proof -
  have "autosave_inv (ed_auto demo_editor)"
    using autosave_inv_mount [OF cache_inv_empty] by (simp add: demo_editor_def demo_auto_def)
  from successful_save_clears [OF this _ refl, of "\<lparr>r_memoName = ''memos/r1'', r_hasChanges = True, r_confirmedExisting = False\<rparr>"]
  have "loadDraft (ed_cache (handleSave_finish p a (Inr \<lparr>r_memoName = ''memos/r1'', r_hasChanges = True,
      r_confirmedExisting = False\<rparr>) demo_editor)) (props_key (rendered (ed_auto demo_editor))) = None" for p a
    by simp
  moreover have "props_key (rendered (ed_auto demo_editor)) = ''users/u-home''"
    by (simp add: demo_editor_def demo_auto_def autosave_mount_def effect_register_def effect_content_def props_key_def
        demo_props_def cache_key_def)
  ultimately show ?thesis by simp
qed

theorem open_edit_draft_witness:
  "let opt = demo_open\<lparr>i_memo := Some demo_memo\<rparr>
   in case memoInit_effect ms_wkt opt demo_init initialState empty_cache of (i', s', c') \<Rightarrow> content s' = ''old''"
proof -
  let ?opt = "demo_open\<lparr>i_memo := Some demo_memo\<rparr>"
  obtain i' s' c' where m: "memoInit_effect ms_wkt ?opt demo_init initialState empty_cache = (i', s', c')"
    by (metis prod_cases3)
  have "i_username ?opt \<noteq> []" "initializedIdentity demo_init \<noteq> Some (identity ?opt)"
    by (simp_all add: demo_open_def demo_init_def)
  with open_edit_draft [OF _ _ _ refl m, of demo_memo] have "content s' = memo_content demo_memo" by simp
  with m show ?thesis by (simp add: demo_memo_def)
qed

end
