(* ===== verification/Media.thy ===== *)
theory Media
  imports EditorState Json "HOL-Library.Multiset"
begin

text \<open>
  Attachments as the client shows them: media types and URLs (\<open>utils/attachment.ts\<close>), the grouping of
  live photos and motion photos into visual items (\<open>utils/media-item.ts\<close>), the items of the editor's attachment
  list (\<open>components/MemoEditor/types/attachment.ts\<close>), and the split and layout of a memo's attachments
  (\<open>attachmentHelpers.ts\<close>, \<open>visualGalleryLayout.ts\<close>). \<open>window.location.origin\<close> is an argument.
\<close>

section \<open>utils/attachment.ts\<close>

definition getAttachmentUrl :: "string \<Rightarrow> Attachment \<Rightarrow> string" where
  "getAttachmentUrl origin a =
     (if att_externalLink a \<noteq> [] then att_externalLink a
      else origin @ ''/file/'' @ att_name a @ ''/'' @ att_filename a)"

definition getAttachmentThumbnailUrl :: "string \<Rightarrow> Attachment \<Rightarrow> string" where
  "getAttachmentThumbnailUrl origin a = origin @ ''/file/'' @ att_name a @ ''/'' @ att_filename a @ ''?thumbnail=true''"

definition getAttachmentMotionClipUrl :: "string \<Rightarrow> Attachment \<Rightarrow> string" where
  "getAttachmentMotionClipUrl origin a = origin @ ''/file/'' @ att_name a @ ''/'' @ att_filename a @ ''?motion=true''"

definition isPSD :: "string \<Rightarrow> bool" where
  "isPSD t \<longleftrightarrow> t = ''image/vnd.adobe.photoshop'' \<or> t = ''image/x-photoshop'' \<or> t = ''image/photoshop''"

definition isImage :: "string \<Rightarrow> bool" where
  "isImage t \<longleftrightarrow> starts_with t ''image/'' \<and> \<not> isPSD t"

definition isMidiFile :: "string \<Rightarrow> bool" where
  "isMidiFile t \<longleftrightarrow> t = ''audio/midi'' \<or> t = ''audio/mid'' \<or> t = ''audio/x-midi'' \<or> t = ''application/x-midi''"

definition getAttachmentType :: "Attachment \<Rightarrow> string" where
  "getAttachmentType a =
     (let t = att_type a in
      if isImage t then ''image/*''
      else if starts_with t ''video'' then ''video/*''
      else if starts_with t ''audio'' \<and> \<not> isMidiFile t then ''audio/*''
      else if starts_with t ''text'' then ''text/*''
      else if starts_with t ''application/epub+zip'' then ''application/epub+zip''
      else if starts_with t ''application/pdf'' then ''application/pdf''
      else if str_includes t ''word'' then ''application/msword''
      else if str_includes t ''excel'' then ''application/msexcel''
      else if starts_with t ''application/zip'' then ''application/zip''
      else if starts_with t ''application/x-java-archive'' then ''application/x-java-archive''
      else ''application/octet-stream'')"

text \<open>\<open>motionMedia?.groupId || undefined\<close>\<close>

definition motion_group :: "MotionMedia option \<Rightarrow> string option" where
  "motion_group mm = (case mm of None \<Rightarrow> None | Some m \<Rightarrow> if groupId m = [] then None else Some (groupId m))"

definition getAttachmentMotionGroupId :: "Attachment \<Rightarrow> string option" where
  "getAttachmentMotionGroupId a = motion_group (att_motionMedia a)"

definition apple_role :: "MotionMediaRole \<Rightarrow> MotionMedia option \<Rightarrow> bool" where
  "apple_role r mm = (case mm of None \<Rightarrow> False | Some m \<Rightarrow> family m = APPLE_LIVE_PHOTO \<and> role m = r)"

definition isAppleLivePhotoStill :: "Attachment \<Rightarrow> bool" where
  "isAppleLivePhotoStill a = apple_role STILL (att_motionMedia a)"

definition isAppleLivePhotoVideo :: "Attachment \<Rightarrow> bool" where
  "isAppleLivePhotoVideo a = apple_role VIDEO (att_motionMedia a)"

definition isAndroidMotionContainer :: "Attachment \<Rightarrow> bool" where
  "isAndroidMotionContainer a =
     (case att_motionMedia a of None \<Rightarrow> False
      | Some m \<Rightarrow> family m = ANDROID_MOTION_PHOTO \<and> role m = CONTAINER \<and> hasEmbeddedVideo m)"

definition isMotionAttachment :: "Attachment \<Rightarrow> bool" where
  "isMotionAttachment a \<longleftrightarrow> isAppleLivePhotoStill a \<or> isAppleLivePhotoVideo a \<or> isAndroidMotionContainer a"

section \<open>utils/media-item.ts\<close>

datatype visual_kind = KImage | KVideo | KMotion

datatype PreviewMediaItem =
  ImagePreview string string string "string option"
| VideoPreview string string string "string option"
| MotionPreview string string string string "int option"

record AttachmentVisualItem =
  v_id :: string
  v_kind :: visual_kind
  v_filename :: string
  v_posterUrl :: string
  v_sourceUrl :: string
  v_attachmentNames :: "string list"
  v_attachments :: "Attachment list"
  v_previewItem :: PreviewMediaItem
  v_mimeType :: string

definition buildSingleAttachmentItem :: "string \<Rightarrow> Attachment \<Rightarrow> AttachmentVisualItem" where
  "buildSingleAttachmentItem origin a =
     (let ty = getAttachmentType a; src = getAttachmentUrl origin a;
          poster = (if ty = ''image/*'' then getAttachmentThumbnailUrl origin a else src)
      in \<lparr>v_id = att_name a, v_kind = (if ty = ''video/*'' then KVideo else KImage), v_filename = att_filename a,
          v_posterUrl = poster, v_sourceUrl = src, v_attachmentNames = [att_name a], v_attachments = [a],
          v_previewItem = (if ty = ''video/*'' then VideoPreview else ImagePreview) (att_name a) (att_filename a) src (Some poster),
          v_mimeType = att_type a\<rparr>)"

definition buildAppleMotionItem :: "string \<Rightarrow> Attachment \<Rightarrow> Attachment \<Rightarrow> AttachmentVisualItem" where
  "buildAppleMotionItem origin still video =
     (let src = getAttachmentUrl origin video; poster = getAttachmentThumbnailUrl origin still;
          i = (case getAttachmentMotionGroupId still of None \<Rightarrow> att_name still | Some g \<Rightarrow> g)
      in \<lparr>v_id = i, v_kind = KMotion, v_filename = att_filename still, v_posterUrl = poster, v_sourceUrl = src,
          v_attachmentNames = [att_name still, att_name video], v_attachments = [still, video],
          v_previewItem = MotionPreview i (att_filename still) poster src None, v_mimeType = att_type still\<rparr>)"

definition buildAndroidMotionItem :: "string \<Rightarrow> Attachment \<Rightarrow> AttachmentVisualItem" where
  "buildAndroidMotionItem origin a =
     \<lparr>v_id = att_name a, v_kind = KMotion, v_filename = att_filename a, v_posterUrl = getAttachmentThumbnailUrl origin a,
      v_sourceUrl = getAttachmentMotionClipUrl origin a, v_attachmentNames = [att_name a], v_attachments = [a],
      v_previewItem = MotionPreview (att_name a) (att_filename a) (getAttachmentThumbnailUrl origin a)
        (getAttachmentMotionClipUrl origin a) (map_option presentationTimestampUs (att_motionMedia a)),
      v_mimeType = att_type a\<rparr>"

text \<open>The loop that fills \<open>attachmentsByGroup\<close>: it serves attachments and local files.\<close>

definition group_add :: "('a \<Rightarrow> string option) \<Rightarrow> 'a \<Rightarrow> (string, 'a list) jsmap \<Rightarrow> (string, 'a list) jsmap" where
  "group_add gid a m =
     (case gid a of
        None \<Rightarrow> m
      | Some g \<Rightarrow> map_set g ((case map_get m g of None \<Rightarrow> [] | Some xs \<Rightarrow> xs) @ [a]) m)"

definition group_by :: "('a \<Rightarrow> string option) \<Rightarrow> 'a list \<Rightarrow> (string, 'a list) jsmap" where
  "group_by gid as = fold (group_add gid) as []"

text \<open>The main loop over the attachments, with \<open>consumedGroups\<close> and \<open>items\<close> as its state.\<close>

definition visual_step ::
  "string \<Rightarrow> (string, Attachment list) jsmap \<Rightarrow> Attachment \<Rightarrow> string list \<times> AttachmentVisualItem list
     \<Rightarrow> string list \<times> AttachmentVisualItem list" where
  "visual_step origin groups a st =
     (case st of (consumed, items) \<Rightarrow>
      if isAndroidMotionContainer a then (consumed, items @ [buildAndroidMotionItem origin a])
      else case getAttachmentMotionGroupId a of
        None \<Rightarrow> (consumed, items @ [buildSingleAttachmentItem origin a])
      | Some g \<Rightarrow>
          if g \<in> set consumed then (consumed, items)
          else let grp = (case map_get groups g of None \<Rightarrow> [] | Some xs \<Rightarrow> xs) in
            (case (find isAppleLivePhotoStill grp, find isAppleLivePhotoVideo grp) of
               (Some still, Some video) \<Rightarrow>
                 if length grp = 2 then (g # consumed, items @ [buildAppleMotionItem origin still video])
                 else (g # consumed, items @ [buildSingleAttachmentItem origin a]
                        @ map (buildSingleAttachmentItem origin) (filter (\<lambda>m. att_name m \<noteq> att_name a) grp))
             | _ \<Rightarrow> (g # consumed, items @ [buildSingleAttachmentItem origin a]
                        @ map (buildSingleAttachmentItem origin) (filter (\<lambda>m. att_name m \<noteq> att_name a) grp))))"

definition dedupeVisualItems :: "AttachmentVisualItem list \<Rightarrow> AttachmentVisualItem list" where
  "dedupeVisualItems items = uniq_by v_id [] items"

definition buildAttachmentVisualItems :: "string \<Rightarrow> Attachment list \<Rightarrow> AttachmentVisualItem list" where
  "buildAttachmentVisualItems origin as =
     (let groups = group_by getAttachmentMotionGroupId as
      in dedupeVisualItems (snd (fold (visual_step origin groups) as ([], []))))"

definition countLogicalAttachmentItems :: "string \<Rightarrow> Attachment list \<Rightarrow> nat" where
  "countLogicalAttachmentItems origin as =
     (let vs = filter (\<lambda>a. getAttachmentType a = ''image/*'' \<or> getAttachmentType a = ''video/*'' \<or> isMotionAttachment a) as;
          names = map att_name vs
      in length (buildAttachmentVisualItems origin vs) + length (filter (\<lambda>a. att_name a \<notin> set names) as))"

section \<open>types/attachment.ts\<close>

datatype FileCategory = image_cat | video_cat | motion_cat | audio_cat | document_cat

record AttachmentItem =
  i_id :: string
  i_memberIds :: "string list"
  i_filename :: string
  i_category :: FileCategory
  i_mimeType :: string
  i_thumbnailUrl :: string
  i_sourceUrl :: string
  i_size :: "int option"
  i_isLocal :: bool
  i_isVoiceNote :: bool
  i_audioMeta :: "nat option"

text \<open>\<open>AUDIO_RECORDING_FILENAME_RE\<close>; the result is the second capture, four to six digits taken greedily.\<close>

definition strip_prefix_ci :: "string \<Rightarrow> string \<Rightarrow> string option" where
  "strip_prefix_ci p s = (if to_lower (take (length p) s) = p then Some (drop (length p) s) else None)"

definition recording_rest :: "string \<Rightarrow> string option" where
  "recording_rest s =
     (case strip_prefix_ci ''voice-recording-'' s of
        Some r \<Rightarrow> Some r
      | None \<Rightarrow> (case strip_prefix_ci ''voice-note-'' s of
                   Some r \<Rightarrow> Some r
                 | None \<Rightarrow> strip_prefix_ci ''audio-recording-'' s))"

definition audio_recording_match :: "string \<Rightarrow> string option" where
  "audio_recording_match s =
     (case recording_rest s of
        None \<Rightarrow> None
      | Some r \<Rightarrow>
          if length r \<ge> 9 \<and> list_all is_digit (take 8 r) \<and> r ! 8 = CHR ''-''
          then (let ds = take 6 (takeWhile is_digit (drop 9 r)) in if length ds \<ge> 4 then Some ds else None)
          else None)"

definition isAudioRecordingFilename :: "string \<Rightarrow> bool" where
  "isAudioRecordingFilename s \<longleftrightarrow> audio_recording_match s \<noteq> None"

definition getAudioRecordingTimeLabel :: "string \<Rightarrow> string option" where
  "getAudioRecordingTimeLabel s =
     (case audio_recording_match s of
        None \<Rightarrow> None
      | Some t \<Rightarrow>
          if length t = 4 then Some (slice 0 2 t @ '':'' @ slice 2 4 t)
          else if length t = 6 then Some (slice 0 2 t @ '':'' @ slice 2 4 t @ '':'' @ slice 4 6 t)
          else None)"

definition categorizeFile :: "string \<Rightarrow> MotionMedia option \<Rightarrow> FileCategory" where
  "categorizeFile t mm =
     (if mm \<noteq> None then motion_cat
      else if starts_with t ''image/'' then image_cat
      else if starts_with t ''video/'' then video_cat
      else if starts_with t ''audio/'' then audio_cat
      else document_cat)"

definition attachmentGroupToItem :: "string \<Rightarrow> Attachment \<Rightarrow> AttachmentItem" where
  "attachmentGroupToItem origin a =
     (let src = getAttachmentUrl origin a in
      \<lparr>i_id = att_name a, i_memberIds = [att_name a], i_filename = att_filename a,
       i_category = categorizeFile (att_type a) None, i_mimeType = att_type a,
       i_thumbnailUrl = (if getAttachmentType a = ''image/*'' then getAttachmentThumbnailUrl origin a else src),
       i_sourceUrl = src, i_size = Some (att_size a), i_isLocal = False,
       i_isVoiceNote = (categorizeFile (att_type a) None = audio_cat \<and> isAudioRecordingFilename (att_filename a)),
       i_audioMeta = None\<rparr>)"

definition visualItemToAttachmentItem :: "AttachmentVisualItem \<Rightarrow> AttachmentItem" where
  "visualItemToAttachmentItem it =
     \<lparr>i_id = v_id it, i_memberIds = v_attachmentNames it, i_filename = v_filename it,
      i_category = (case v_kind it of KMotion \<Rightarrow> motion_cat | KImage \<Rightarrow> image_cat | KVideo \<Rightarrow> video_cat),
      i_mimeType = v_mimeType it, i_thumbnailUrl = v_posterUrl it, i_sourceUrl = v_sourceUrl it,
      i_size = Some (sum_list (map att_size (v_attachments it))), i_isLocal = False, i_isVoiceNote = False,
      i_audioMeta = None\<rparr>"

definition fileToItem :: "LocalFile \<Rightarrow> AttachmentItem" where
  "fileToItem f =
     (let cat = categorizeFile (file_type (lf_file f)) (lf_motionMedia f) in
      \<lparr>i_id = (case motion_group (lf_motionMedia f) of Some g \<Rightarrow> g | None \<Rightarrow> lf_previewUrl f),
       i_memberIds = [lf_previewUrl f], i_filename = file_name (lf_file f), i_category = cat,
       i_mimeType = file_type (lf_file f), i_thumbnailUrl = lf_previewUrl f, i_sourceUrl = lf_previewUrl f,
       i_size = Some (file_size (lf_file f)), i_isLocal = True,
       i_isVoiceNote = (cat = audio_cat \<and> (lf_origin f = Some audio_recording \<or> isAudioRecordingFilename (file_name (lf_file f)))),
       i_audioMeta = lf_durationSeconds f\<rparr>)"

definition local_group_items :: "string \<times> LocalFile list \<Rightarrow> AttachmentItem list" where
  "local_group_items gf =
     (case gf of (g, files) \<Rightarrow>
      case (find (\<lambda>f. apple_role STILL (lf_motionMedia f)) files, find (\<lambda>f. apple_role VIDEO (lf_motionMedia f)) files) of
        (Some still, Some video) \<Rightarrow>
          if length files = 2 then
            [\<lparr>i_id = g, i_memberIds = [lf_previewUrl still, lf_previewUrl video], i_filename = file_name (lf_file still),
              i_category = motion_cat, i_mimeType = file_type (lf_file still), i_thumbnailUrl = lf_previewUrl still,
              i_sourceUrl = lf_previewUrl video, i_size = Some (file_size (lf_file still) + file_size (lf_file video)),
              i_isLocal = True, i_isVoiceNote = False, i_audioMeta = None\<rparr>]
          else map fileToItem files
      | _ \<Rightarrow> map fileToItem files)"

definition toLocalMotionItems :: "LocalFile list \<Rightarrow> AttachmentItem list" where
  "toLocalMotionItems fs =
     concat (map local_group_items (group_by (\<lambda>f. motion_group (lf_motionMedia f)) fs))
     @ map fileToItem (filter (\<lambda>f. motion_group (lf_motionMedia f) = None) fs)"

definition toAttachmentItems :: "string \<Rightarrow> Attachment list \<Rightarrow> LocalFile list \<Rightarrow> AttachmentItem list" where
  "toAttachmentItems origin as fs =
     (let vs = filter (\<lambda>a. getAttachmentType a = ''image/*'' \<or> getAttachmentType a = ''video/*'' \<or> att_motionMedia a \<noteq> None) as;
          items = buildAttachmentVisualItems origin vs;
          ids = concat (map v_attachmentNames items)
      in map visualItemToAttachmentItem items
         @ filter (\<lambda>i. i_category i = audio_cat \<or> i_category i = document_cat)
             (map (attachmentGroupToItem origin) (filter (\<lambda>a. att_name a \<notin> set ids) as))
         @ toLocalMotionItems fs)"

definition filterByCategory :: "AttachmentItem list \<Rightarrow> FileCategory list \<Rightarrow> AttachmentItem list" where
  "filterByCategory items cats = filter (\<lambda>i. i_category i \<in> set cats) items"

definition separateMediaAndDocs :: "AttachmentItem list \<Rightarrow> AttachmentItem list \<times> AttachmentItem list" where
  "separateMediaAndDocs items =
     fold (\<lambda>i (media, docs). if i_category i \<in> {image_cat, video_cat, motion_cat} then (media @ [i], docs) else (media, docs @ [i]))
       items ([], [])"

section \<open>attachmentHelpers.ts and visualGalleryLayout.ts\<close>

record AttachmentGroups =
  g_visual :: "Attachment list"
  g_audio :: "Attachment list"
  g_docs :: "Attachment list"

definition isImageAttachment :: "Attachment \<Rightarrow> bool" where
  "isImageAttachment a \<longleftrightarrow> getAttachmentType a = ''image/*''"

definition isVideoAttachment :: "Attachment \<Rightarrow> bool" where
  "isVideoAttachment a \<longleftrightarrow> getAttachmentType a = ''video/*''"

definition isAudioAttachment :: "Attachment \<Rightarrow> bool" where
  "isAudioAttachment a \<longleftrightarrow> getAttachmentType a = ''audio/*''"

definition separateAttachments :: "Attachment list \<Rightarrow> AttachmentGroups" where
  "separateAttachments as =
     fold (\<lambda>a g. if isImageAttachment a \<or> isVideoAttachment a then g\<lparr>g_visual := g_visual g @ [a]\<rparr>
                 else if isAudioAttachment a then g\<lparr>g_audio := g_audio g @ [a]\<rparr>
                 else g\<lparr>g_docs := g_docs g @ [a]\<rparr>)
       as \<lparr>g_visual = [], g_audio = [], g_docs = []\<rparr>"

text \<open>\<open>padStart(2, "0")\<close> on the decimal digits of a number.\<close>

definition pad2 :: "nat \<Rightarrow> string" where
  "pad2 n = replicate (2 - length (show_nat n)) (CHR ''0'') @ show_nat n"

text \<open>A number of seconds is a decimal \<open>m / 10^k\<close>; \<open>None\<close> is \<open>NaN\<close> or an infinity.\<close>

definition formatAudioTime :: "(int \<times> nat) option \<Rightarrow> string" where
  "formatAudioTime s =
     (case s of
        None \<Rightarrow> ''0:00''
      | Some (m, k) \<Rightarrow>
          if m < 0 then ''0:00''
          else let rounded = nat (m div 10 ^ k); hours = rounded div 3600; minutes = rounded mod 3600 div 60;
                   secs = rounded mod 60
               in if hours > 0 then show_nat hours @ '':'' @ pad2 minutes @ '':'' @ pad2 secs
                  else show_nat minutes @ '':'' @ pad2 secs)"

record VisualGalleryCell =
  cell_item :: AttachmentVisualItem
  cell_className :: "string option"
  cell_overlayLabel :: "string option"

datatype VisualGalleryLayout = SingleLayout AttachmentVisualItem | CollageLayout string "VisualGalleryCell list"

definition COLLAGE_MAX_VISIBLE_CELLS :: nat where "COLLAGE_MAX_VISIBLE_CELLS = 6"

definition plain_cell :: "AttachmentVisualItem \<Rightarrow> VisualGalleryCell" where
  "plain_cell it = \<lparr>cell_item = it, cell_className = None, cell_overlayLabel = None\<rparr>"

text \<open>The class-name merge \<open>cn\<close> is a library call; of these disjoint class lists it makes one string.\<close>

definition resolveVisualGalleryLayout :: "AttachmentVisualItem list \<Rightarrow> VisualGalleryLayout option" where
  "resolveVisualGalleryLayout items =
     (let n = length items in
      if n = 0 then None
      else if n = 1 then Some (SingleLayout (items ! 0))
      else if n = 2 then
        Some (CollageLayout ''grid grid-cols-2 gap-2 h-[11rem] sm:h-[13rem] md:h-[15rem]'' (map plain_cell items))
      else if n = 3 then
        Some (CollageLayout ''grid grid-cols-2 grid-rows-2 gap-2 h-[13rem] sm:h-[16rem] md:h-[18rem]''
          [(plain_cell (items ! 0))\<lparr>cell_className := Some ''row-span-2''\<rparr>, plain_cell (items ! 1), plain_cell (items ! 2)])
      else if n = 4 then
        Some (CollageLayout ''grid grid-cols-2 grid-rows-2 gap-2 h-[13rem] sm:h-[16rem] md:h-[18rem]'' (map plain_cell items))
      else let vis = take COLLAGE_MAX_VISIBLE_CELLS items; overflow = n - length vis in
        Some (CollageLayout ''grid grid-cols-3 grid-rows-2 gap-2 h-[14rem] sm:h-[17rem] md:h-[20rem]''
          (map (\<lambda>(it, i). (plain_cell it)\<lparr>cell_overlayLabel :=
              if i = length vis - 1 \<and> overflow > 0 then Some (''+'' @ show_nat overflow) else None\<rparr>)
            (zip vis [0..<length vis]))))"

section \<open>Grouping\<close>

lemma group_by_get:
  "map_get (group_by gid as) g =
     (if filter (\<lambda>a. gid a = Some g) as = [] then None else Some (filter (\<lambda>a. gid a = Some g) as))"
proof (induction as rule: rev_induct)
  case (snoc a as)
  have "group_by gid (as @ [a]) = group_add gid a (group_by gid as)" by (simp add: group_by_def)
  with snoc show ?case by (auto simp: group_add_def split: option.splits)
qed (simp add: group_by_def)

lemma mset_groups: "mset (concat (map snd (group_by k xs))) = mset (filter (\<lambda>x. k x \<noteq> None) xs)"
proof (induction xs rule: rev_induct)
  case (snoc x xs)
  have new: "map_get m g = None \<Longrightarrow> mset (concat (map snd (map_set g v m))) = mset (concat (map snd m)) + mset v" for m :: "(string, 'a list) jsmap" and g v
    by (induction m) (auto simp: map_get_def split: if_splits)
  have old: "map_get m g = Some v \<Longrightarrow> mset (concat (map snd (map_set g (v @ [x]) m))) = mset (concat (map snd m)) + {#x#}" for m :: "(string, 'a list) jsmap" and g v
    by (induction m) (auto simp: map_get_def split: if_splits)
  have "group_by k (xs @ [x]) = group_add k x (group_by k xs)" by (simp add: group_by_def)
  then show ?case using snoc new old by (auto simp: group_add_def split: option.splits)
qed (simp add: group_by_def)

text \<open>A list of two elements, one with each of two exclusive properties.\<close>

lemma find_pair:
  assumes "length xs = 2" "find P xs = Some s" "find Q xs = Some v" "\<And>x. P x \<Longrightarrow> \<not> Q x"
  shows "set xs = {s, v}" "P s" "Q v" "s \<noteq> v"
proof -
  obtain x y where xs: "xs = [x, y]" using assms(1) by (auto simp: length_Suc_conv numeral_2_eq_2)
  show "set xs = {s, v}" "P s" "Q v" "s \<noteq> v"
    using assms(2-4) by (auto simp: xs split: if_splits)
qed

section \<open>Every attachment is shown once\<close>

definition members :: "Attachment list \<Rightarrow> string \<Rightarrow> Attachment list" where
  "members as g = filter (\<lambda>a. getAttachmentMotionGroupId a = Some g) as"

definition live_photo :: "Attachment list \<Rightarrow> string \<Rightarrow> Attachment \<Rightarrow> Attachment \<Rightarrow> bool" where
  "live_photo as g s v \<longleftrightarrow> length (members as g) = 2 \<and> find isAppleLivePhotoStill (members as g) = Some s
     \<and> find isAppleLivePhotoVideo (members as g) = Some v"

lemma live_photo_members:
  assumes "live_photo as g s v"
  shows "set (members as g) = {s, v}" "isAppleLivePhotoStill s" "isAppleLivePhotoVideo v" "s \<noteq> v"
    "s \<in> set as" "v \<in> set as" "getAttachmentMotionGroupId s = Some g" "getAttachmentMotionGroupId v = Some g"
proof -
  have ex: "isAppleLivePhotoStill x \<Longrightarrow> \<not> isAppleLivePhotoVideo x" for x
    by (auto simp: isAppleLivePhotoStill_def isAppleLivePhotoVideo_def apple_role_def split: option.splits)
  note p = find_pair [of "members as g" isAppleLivePhotoStill s isAppleLivePhotoVideo v, OF _ _ _ ex]
  show m: "set (members as g) = {s, v}" "isAppleLivePhotoStill s" "isAppleLivePhotoVideo v" "s \<noteq> v"
    using p assms unfolding live_photo_def by blast+
  then show "s \<in> set as" "v \<in> set as" "getAttachmentMotionGroupId s = Some g" "getAttachmentMotionGroupId v = Some g"
    unfolding members_def by auto
qed

text \<open>What an item of the list stands for.\<close>

definition shows_one :: "Attachment list \<Rightarrow> AttachmentVisualItem \<Rightarrow> Attachment \<Rightarrow> bool" where
  "shows_one as it a \<longleftrightarrow> a \<in> set as \<and> v_id it = att_name a \<and> v_attachmentNames it = [att_name a]
     \<and> (\<forall>g s v. live_photo as g s v \<longrightarrow> getAttachmentMotionGroupId a \<noteq> Some g)"

definition shows_pair :: "Attachment list \<Rightarrow> AttachmentVisualItem \<Rightarrow> string \<Rightarrow> bool" where
  "shows_pair as it g \<longleftrightarrow> (\<exists>s v. live_photo as g s v \<and> v_id it = g \<and> v_attachmentNames it = [att_name s, att_name v])"

definition item_ok :: "Attachment list \<Rightarrow> AttachmentVisualItem \<Rightarrow> bool" where
  "item_ok as it \<longleftrightarrow> (\<exists>a. shows_one as it a) \<or> (\<exists>g. shows_pair as it g)"

definition shown :: "AttachmentVisualItem list \<Rightarrow> string set" where
  "shown items = set (concat (map v_attachmentNames items))"

definition visual_inv :: "Attachment list \<Rightarrow> Attachment list \<Rightarrow> string list \<times> AttachmentVisualItem list \<Rightarrow> bool" where
  "visual_inv as done st \<longleftrightarrow> list_all (item_ok as) (snd st) \<and> att_name ` set done \<subseteq> shown (snd st)
     \<and> (\<forall>g \<in> set (fst st). att_name ` set (members as g) \<subseteq> shown (snd st))"

lemma shown_append [simp]: "shown (xs @ ys) = shown xs \<union> shown ys" "shown [] = {}"
  "shown (x # xs) = set (v_attachmentNames x) \<union> shown xs"
  by (auto simp: shown_def)

lemma shows_one_single:
  assumes "a \<in> set as" "\<And>g s v. live_photo as g s v \<Longrightarrow> getAttachmentMotionGroupId a \<noteq> Some g"
  shows "item_ok as (buildSingleAttachmentItem o' a)" "item_ok as (buildAndroidMotionItem o' a)"
  using assms unfolding item_ok_def shows_one_def
  by (auto simp: buildSingleAttachmentItem_def buildAndroidMotionItem_def Let_def)

lemma build_names [simp]:
  "v_attachmentNames (buildSingleAttachmentItem o' a) = [att_name a]"
  "v_attachmentNames (buildAndroidMotionItem o' a) = [att_name a]"
  "v_attachmentNames (buildAppleMotionItem o' s v) = [att_name s, att_name v]"
  by (simp_all add: buildSingleAttachmentItem_def buildAndroidMotionItem_def buildAppleMotionItem_def Let_def)

lemma android_not_live:
  assumes "isAndroidMotionContainer a" "a \<in> set as" "live_photo as g s v"
  shows "getAttachmentMotionGroupId a \<noteq> Some g"
proof
  assume "getAttachmentMotionGroupId a = Some g"
  then have "a \<in> set (members as g)" using assms(2) by (simp add: members_def)
  then have "a = s \<or> a = v" using live_photo_members(1) [OF assms(3)] by blast
  then show False
    using live_photo_members(2,3) [OF assms(3)] assms(1)
    by (auto simp: isAndroidMotionContainer_def isAppleLivePhotoStill_def isAppleLivePhotoVideo_def apple_role_def
        split: option.splits)
qed

text \<open>The two outcomes for the first attachment of a group that is not consumed.\<close>

lemma visual_step_group:
  assumes "\<not> isAndroidMotionContainer a" "getAttachmentMotionGroupId a = Some g" "g \<notin> set c" "a \<in> set as"
  obtains (pair) s v where "live_photo as g s v"
      "visual_step o' (group_by getAttachmentMotionGroupId as) a (c, items) = (g # c, items @ [buildAppleMotionItem o' s v])"
  | (each) "\<And>s v. \<not> live_photo as g s v"
      "visual_step o' (group_by getAttachmentMotionGroupId as) a (c, items) =
         (g # c, items @ [buildSingleAttachmentItem o' a]
            @ map (buildSingleAttachmentItem o') (filter (\<lambda>m. att_name m \<noteq> att_name a) (members as g)))"
proof -
  have mg: "map_get (group_by getAttachmentMotionGroupId as) g = Some (members as g)"
    using assms(2,4) by (auto simp: group_by_get members_def filter_empty_conv)
  show ?thesis
  proof (cases "\<exists>s v. live_photo as g s v")
    case True
    then obtain s v where sv: "live_photo as g s v" by blast
    then show ?thesis
      using pair [OF sv] assms(1-3) by (simp add: visual_step_def mg Let_def live_photo_def)
  next
    case False
    then have "visual_step o' (group_by getAttachmentMotionGroupId as) a (c, items) =
         (g # c, items @ [buildSingleAttachmentItem o' a]
            @ map (buildSingleAttachmentItem o') (filter (\<lambda>m. att_name m \<noteq> att_name a) (members as g)))"
      using assms(1-3) by (auto simp: visual_step_def mg live_photo_def Let_def split: option.split)
    with False each show ?thesis by blast
  qed
qed

lemma visual_inv_extend:
  assumes "visual_inv as done (c, items)" "list_all (item_ok as) new" "att_name a \<in> shown (items @ new)"
    and "\<And>g. g \<in> set c' \<Longrightarrow> g \<in> set c \<or> att_name ` set (members as g) \<subseteq> shown (items @ new)"
  shows "visual_inv as (done @ [a]) (c', items @ new)"
proof -
  have "att_name ` set (members as g) \<subseteq> shown (items @ new)" if "g \<in> set c'" for g
    using that assms(1,4) unfolding visual_inv_def fst_conv snd_conv shown_append by blast
  with assms show ?thesis by (auto simp: visual_inv_def)
qed

lemma visual_step_inv:
  assumes "visual_inv as done (c, items)" "a \<in> set as"
  shows "visual_inv as (done @ [a]) (visual_step o' (group_by getAttachmentMotionGroupId as) a (c, items))"
proof (cases "isAndroidMotionContainer a")
  case True
  with assms shows_one_single(2) [OF assms(2), of o'] android_not_live [OF True assms(2)] show ?thesis
    by (fastforce simp: visual_step_def visual_inv_def)
next
  case False
  show ?thesis
  proof (cases "getAttachmentMotionGroupId a")
    case None
    with False assms shows_one_single(1) [OF assms(2), of o'] show ?thesis
      by (fastforce simp: visual_step_def visual_inv_def)
  next
    case (Some g)
    show ?thesis
    proof (cases "g \<in> set c")
      case True
      moreover have "a \<in> set (members as g)" using Some assms(2) by (simp add: members_def)
      moreover have "att_name ` set (members as g) \<subseteq> shown items" using True assms(1) by (simp add: visual_inv_def)
      ultimately have "att_name a \<in> shown items" by blast
      with True show ?thesis using Some False assms(1) by (auto simp: visual_step_def visual_inv_def)
    next
      case nc: False
      from False Some nc assms(2) show ?thesis
      proof (cases rule: visual_step_group [of _ _ _ _ o' items])
        case (pair s v)
        note m = live_photo_members [OF pair(1)]
        have "item_ok as (buildAppleMotionItem o' s v)"
          using pair(1) m(7) unfolding item_ok_def shows_pair_def by (auto simp: buildAppleMotionItem_def Let_def)
        moreover have "a = s \<or> a = v" using Some assms(2) m(1) by (auto simp: members_def)
        ultimately show ?thesis using m(1) unfolding pair(2) by (intro visual_inv_extend [OF assms(1)]) auto
      next
        case each
        have ok: "item_ok as (buildSingleAttachmentItem o' b)" if "b = a \<or> b \<in> set (members as g)" for b
          using that assms(2) Some each(1) by (intro shows_one_single(1)) (auto simp: members_def)
        have names: "shown (map (buildSingleAttachmentItem o') ms) = att_name ` set ms" for ms
          by (induction ms) auto
        show ?thesis
          using ok unfolding each(2) by (intro visual_inv_extend [OF assms(1)]) (auto simp: names list_all_iff)
      qed
    qed
  qed
qed

lemma visual_fold_inv:
  assumes "visual_inv as done st" "set rest \<subseteq> set as"
  shows "visual_inv as (done @ rest) (fold (visual_step o' (group_by getAttachmentMotionGroupId as)) rest st)"
  using assms
proof (induction rest arbitrary: "done" st)
  case (Cons a rest)
  obtain c items where st: "st = (c, items)" by (cases st)
  have "visual_inv as (done @ [a]) (visual_step o' (group_by getAttachmentMotionGroupId as) a st)"
    using Cons.prems visual_step_inv unfolding st by auto
  from Cons.IH [OF this] Cons.prems(2) show ?case by simp
qed simp


text \<open>Items of different ids show disjoint attachments, provided that names are unique and no group id is a name.\<close>

definition names_ok :: "Attachment list \<Rightarrow> bool" where
  "names_ok as \<longleftrightarrow> distinct (map att_name as)
     \<and> (\<forall>a \<in> set as. \<forall>b \<in> set as. getAttachmentMotionGroupId a \<noteq> Some (att_name b))"

lemma names_okD:
  "names_ok as \<Longrightarrow> a \<in> set as \<Longrightarrow> b \<in> set as \<Longrightarrow> att_name a = att_name b \<Longrightarrow> a = b"
  "names_ok as \<Longrightarrow> a \<in> set as \<Longrightarrow> b \<in> set as \<Longrightarrow> getAttachmentMotionGroupId a \<noteq> Some (att_name b)"
  by (auto simp: names_ok_def distinct_map inj_on_def)

lemma item_names:
  assumes "names_ok as" "item_ok as it" "item_ok as it'"
  shows "v_id it = v_id it' \<Longrightarrow> v_attachmentNames it = v_attachmentNames it'"
    and "v_id it \<noteq> v_id it' \<Longrightarrow> set (v_attachmentNames it) \<inter> set (v_attachmentNames it') = {}"
    and "distinct (v_attachmentNames it)"
proof -
  have one_pair: "v_id x \<noteq> v_id y \<and> set (v_attachmentNames x) \<inter> set (v_attachmentNames y) = {}"
    if "shows_one as x a" "shows_pair as y g" for x y a g
  proof -
    from that(2) obtain s v where l: "live_photo as g s v" and y: "v_id y = g" "v_attachmentNames y = [att_name s, att_name v]"
      by (auto simp: shows_pair_def)
    note m = live_photo_members [OF l]
    have a: "a \<in> set as" "v_id x = att_name a" "v_attachmentNames x = [att_name a]" "getAttachmentMotionGroupId a \<noteq> Some g"
      using that(1) l by (auto simp: shows_one_def)
    then have "att_name a \<noteq> att_name s" "att_name a \<noteq> att_name v" "att_name a \<noteq> g"
      using names_okD(1) [OF assms(1), of a s] names_okD(1) [OF assms(1), of a v] names_okD(2) [OF assms(1), of s a] m by auto
    with a y show ?thesis by simp
  qed
  have pair_pair: "(v_id x = v_id y \<longrightarrow> v_attachmentNames x = v_attachmentNames y)
      \<and> (v_id x \<noteq> v_id y \<longrightarrow> set (v_attachmentNames x) \<inter> set (v_attachmentNames y) = {})"
    if "shows_pair as x g" "shows_pair as y h" for x y g h
  proof -
    from that obtain s v s' v' where l: "live_photo as g s v" "live_photo as h s' v'"
      and x: "v_id x = g" "v_attachmentNames x = [att_name s, att_name v]"
      and y: "v_id y = h" "v_attachmentNames y = [att_name s', att_name v']"
      by (auto simp: shows_pair_def)
    note m = live_photo_members [OF l(1)] and m' = live_photo_members [OF l(2)]
    have same: "g = h \<Longrightarrow> s = s' \<and> v = v'" using l by (auto simp: live_photo_def)
    have diff: "att_name b \<noteq> att_name c" if "g \<noteq> h" "b \<in> {s, v}" "c \<in> {s', v'}" for b c
    proof -
      have "b \<in> set as" "c \<in> set as" "getAttachmentMotionGroupId b \<noteq> getAttachmentMotionGroupId c"
        using that m(5-8) m'(5-8) by auto
      then show ?thesis using names_okD(1) [OF assms(1), of b c] by blast
    qed
    show ?thesis
    proof (cases "g = h")
      case True
      with same x y show ?thesis by simp
    next
      case False
      then have "att_name s \<noteq> att_name s'" "att_name s \<noteq> att_name v'" "att_name v \<noteq> att_name s'" "att_name v \<noteq> att_name v'"
        by (intro diff; simp)+
      with False x y show ?thesis by simp
    qed
  qed
  from assms(2,3) consider (oo) a b where "shows_one as it a" "shows_one as it' b"
    | (op) a g where "shows_one as it a" "shows_pair as it' g"
    | (po) a g where "shows_pair as it g" "shows_one as it' a"
    | (pp) g h where "shows_pair as it g" "shows_pair as it' h"
    by (auto simp: item_ok_def)
  then have all: "(v_id it = v_id it' \<longrightarrow> v_attachmentNames it = v_attachmentNames it')
      \<and> (v_id it \<noteq> v_id it' \<longrightarrow> set (v_attachmentNames it) \<inter> set (v_attachmentNames it') = {})"
  proof cases
    case oo
    then show ?thesis by (auto simp: shows_one_def)
  next
    case op
    then show ?thesis using one_pair by blast
  next
    case po
    then have "v_id it' \<noteq> v_id it \<and> set (v_attachmentNames it') \<inter> set (v_attachmentNames it) = {}" using one_pair by blast
    then show ?thesis by (auto simp: Int_commute)
  next
    case pp
    then show ?thesis using pair_pair by blast
  qed
  then show "v_id it = v_id it' \<Longrightarrow> v_attachmentNames it = v_attachmentNames it'"
    and "v_id it \<noteq> v_id it' \<Longrightarrow> set (v_attachmentNames it) \<inter> set (v_attachmentNames it') = {}" by blast+
  have pair_distinct: "distinct (v_attachmentNames it)" if "shows_pair as it g" for g
  proof -
    from that obtain s v where l: "live_photo as g s v" "v_attachmentNames it = [att_name s, att_name v]"
      by (auto simp: shows_pair_def)
    with names_okD(1) [OF assms(1), of s v] live_photo_members(4-6) [OF l(1)] show ?thesis by auto
  qed
  show "distinct (v_attachmentNames it)"
    using assms(2) pair_distinct by (auto simp: item_ok_def shows_one_def)
qed

lemma distinct_concat_names:
  assumes "names_ok as" "list_all (item_ok as) items" "distinct (map v_id items)"
  shows "distinct (concat (map v_attachmentNames items))"
  using assms(2,3)
proof (induction items)
  case (Cons it items)
  have "set (v_attachmentNames it) \<inter> set (v_attachmentNames x) = {}" if "x \<in> set items" for x
    using that Cons.prems by (intro item_names(2) [OF assms(1)]) (auto simp: list_all_iff)
  then have "set (v_attachmentNames it) \<inter> set (concat (map v_attachmentNames items)) = {}" by auto
  moreover have "distinct (v_attachmentNames it)" using item_names(3) [OF assms(1)] Cons.prems(1) by auto
  ultimately show ?case using Cons by simp
qed simp

section \<open>Properties\<close>

text \<open>Every attachment is shown exactly once. When attachment names are unique and no motion group id is the
  name of an attachment, the visual items have different ids, and the attachment names they list are the names of
  the given attachments, each once: the two halves of a live photo are in one item, and no attachment is lost or
  shown twice, whatever mixture of photos, live photos, motion photos and incomplete groups there is.\<close>

theorem visual_items_exact:
  assumes "names_ok as"
  shows "distinct (map v_id (buildAttachmentVisualItems origin as))
    \<and> distinct (concat (map v_attachmentNames (buildAttachmentVisualItems origin as)))
    \<and> set (concat (map v_attachmentNames (buildAttachmentVisualItems origin as))) = att_name ` set as"
proof -
  define items where "items = snd (fold (visual_step origin (group_by getAttachmentMotionGroupId as)) as ([], []))"
  define res where "res = uniq_by v_id [] items"
  have r: "buildAttachmentVisualItems origin as = res"
    by (simp add: buildAttachmentVisualItems_def dedupeVisualItems_def res_def items_def Let_def)
  have inv: "visual_inv as as (fold (visual_step origin (group_by getAttachmentMotionGroupId as)) as ([], []))"
    using visual_fold_inv [of as "[]" "([], [])" as origin] by (simp add: visual_inv_def)
  then have ok: "list_all (item_ok as) items" and cov: "att_name ` set as \<subseteq> shown items"
    by (simp_all add: visual_inv_def items_def)
  note d = uniq_by_props [of v_id "[]" items, folded res_def]
  have ok': "list_all (item_ok as) res" using ok d(2) by (auto simp: list_all_iff)
  have "shown items \<subseteq> shown res"
  proof -
    have "\<exists>y \<in> set res. v_attachmentNames y = v_attachmentNames x" if "x \<in> set items" for x
    proof -
      from that d(3) have "v_id x \<in> v_id ` set res" by simp
      then obtain y where "y \<in> set res" "v_id y = v_id x" by force
      with that d(2) ok item_names(1) [OF assms] show ?thesis by (metis list_all_iff subsetD)
    qed
    then have "set (v_attachmentNames x) \<subseteq> shown res" if "x \<in> set items" for x
      using that unfolding shown_def by (metis Union_upper image_eqI list.set_map set_concat)
    then show ?thesis by (auto simp: shown_def)
  qed
  moreover have "shown res \<subseteq> att_name ` set as"
    using ok' live_photo_members(5,6)
    by (fastforce simp: shown_def list_all_iff item_ok_def shows_one_def shows_pair_def)
  ultimately show ?thesis
    using cov d(1) distinct_concat_names [OF assms ok' d(1)] unfolding r shown_def by blast
qed

definition demo_live :: "Attachment list" where
  "demo_live = (let mm = \<lambda>r. Some \<lparr>family = APPLE_LIVE_PHOTO, role = r, groupId = ''g'', presentationTimestampUs = 0,
       hasEmbeddedVideo = False\<rparr> in
     [default_attachment\<lparr>att_name := ''attachments/s'', att_type := ''image/heic'', att_motionMedia := mm STILL\<rparr>,
      default_attachment\<lparr>att_name := ''attachments/p'', att_type := ''image/png''\<rparr>,
      default_attachment\<lparr>att_name := ''attachments/v'', att_type := ''video/quicktime'', att_motionMedia := mm VIDEO\<rparr>])"

theorem visual_items_exact_witness:
  "map v_attachmentNames (buildAttachmentVisualItems ''http://h'' demo_live)
     = [[''attachments/s'', ''attachments/v''], [''attachments/p'']]
   \<and> set (concat (map v_attachmentNames (buildAttachmentVisualItems ''http://h'' demo_live))) = att_name ` set demo_live"
proof -
  have "names_ok demo_live"
    by (simp add: names_ok_def demo_live_def default_attachment_def getAttachmentMotionGroupId_def motion_group_def Let_def)
  moreover have "map v_attachmentNames (buildAttachmentVisualItems ''http://h'' demo_live)
     = [[''attachments/s'', ''attachments/v''], [''attachments/p'']]"
    by code_simp
  ultimately show ?thesis using visual_items_exact by blast
qed

end
