(* ===== verification/OAuth.thy ===== *)
theory OAuth
  imports Json Storage Errors
begin

text \<open>
  The client side of the OAuth sign-in, \<open>utils/oauth.ts\<close>: the state and PKCE parameters that are put into
  \<open>sessionStorage\<close> before the redirect and checked, once, in the callback. Random bytes, the clock and the
  SHA-256 digest of the browser are arguments.
\<close>

section \<open>Encodings\<close>

definition hex_byte :: "nat \<Rightarrow> string" where
  "hex_byte b = [hex_lower (b div 16), hex_lower (b mod 16)]"

definition generateSecureState :: "nat list \<Rightarrow> string" where
  "generateSecureState bytes = concat (map hex_byte bytes)"

definition b64_char :: "nat \<Rightarrow> char" where
  "b64_char n = ''ABCDEFGHIJKLMNOPQRSTUVWXYZabcdefghijklmnopqrstuvwxyz0123456789+/'' ! n"

text \<open>\<open>btoa\<close> on a string of byte values.\<close>

fun btoa :: "nat list \<Rightarrow> string" where
  "btoa [] = []"
| "btoa [a] = [b64_char (a div 4), b64_char (a mod 4 * 16)] @ ''==''"
| "btoa [a, b] = [b64_char (a div 4), b64_char (a mod 4 * 16 + b div 16), b64_char (b mod 16 * 4)] @ ''=''"
| "btoa (a # b # c # r) =
     [b64_char (a div 4), b64_char (a mod 4 * 16 + b div 16), b64_char (b mod 16 * 4 + c div 64), b64_char (c mod 64)] @ btoa r"

definition url_safe :: "char \<Rightarrow> char" where
  "url_safe c = (if c = CHR ''+'' then CHR ''-'' else if c = CHR ''/'' then CHR ''_'' else c)"

definition base64UrlEncode :: "nat list \<Rightarrow> string" where
  "base64UrlEncode bytes = rev (dropWhile (\<lambda>c. c = CHR ''='') (rev (map url_safe (btoa bytes))))"

definition generateCodeVerifier :: "nat list \<Rightarrow> string" where
  "generateCodeVerifier bytes = base64UrlEncode bytes"

text \<open>\<open>TextEncoder\<close> and \<open>crypto.subtle.digest\<close>; \<open>None\<close> is a rejected promise.\<close>

definition generateCodeChallenge :: "(nat list \<Rightarrow> nat list option) \<Rightarrow> string \<Rightarrow> string option" where
  "generateCodeChallenge digest v = map_option base64UrlEncode (digest (concat (map utf8 v)))"

section \<open>The stored state\<close>

definition STATE_STORAGE_KEY :: string where "STATE_STORAGE_KEY = ''oauth_state''"
definition STATE_EXPIRY_MS :: int where "STATE_EXPIRY_MS = 10 * 60 * 1000"

datatype OAuthFlowMode = signin | link

definition flow_string :: "OAuthFlowMode \<Rightarrow> string" where
  "flow_string m = (case m of signin \<Rightarrow> ''signin'' | link \<Rightarrow> ''link'')"

record OAuthState =
  os_state :: string
  os_identityProviderName :: string
  os_flowMode :: OAuthFlowMode
  os_timestamp :: date
  os_returnUrl :: "string option"
  os_linkingUserName :: "string option"
  os_codeVerifier :: "string option"

definition str_field :: "string \<Rightarrow> string option \<Rightarrow> (string \<times> json) list" where
  "str_field k v = (case v of None \<Rightarrow> [] | Some x \<Rightarrow> [(k, JStr x)])"

definition oauth_json :: "OAuthState \<Rightarrow> json" where
  "oauth_json s = JObj
     ([(''state'', JStr (os_state s)), (''identityProviderName'', JStr (os_identityProviderName s)),
       (''flowMode'', JStr (flow_string (os_flowMode s))), (''timestamp'', JNum (os_timestamp s))]
      @ str_field ''returnUrl'' (os_returnUrl s) @ str_field ''linkingUserName'' (os_linkingUserName s)
      @ str_field ''codeVerifier'' (os_codeVerifier s))"

text \<open>The two draws of random bytes and the digest, where the browser has \<open>crypto.subtle\<close>.\<close>

record browser_crypto =
  state_bytes :: "nat list"
  verifier_bytes :: "nat list"
  subtle :: "(nat list \<Rightarrow> nat list option) option"

definition pkce :: "browser_crypto \<Rightarrow> (string \<times> string) option" where
  "pkce c =
     (case subtle c of
        None \<Rightarrow> None
      | Some digest \<Rightarrow>
          let v = generateCodeVerifier (verifier_bytes c)
          in map_option (\<lambda>ch. (v, ch)) (generateCodeChallenge digest v))"

definition storeOAuthState ::
  "browser_crypto \<Rightarrow> date \<Rightarrow> string \<Rightarrow> OAuthFlowMode \<Rightarrow> string option \<Rightarrow> string option \<Rightarrow> storage
     \<Rightarrow> (js_error + string \<times> string option) \<times> storage" where
  "storeOAuthState c now idp mode returnUrl linkingUserName st =
     (let state = generateSecureState (state_bytes c); p = pkce c;
          d = \<lparr>os_state = state, os_identityProviderName = idp, os_flowMode = mode, os_timestamp = now,
               os_returnUrl = returnUrl, os_linkingUserName = linkingUserName, os_codeVerifier = map_option fst p\<rparr>
      in case set_item STATE_STORAGE_KEY (json_print (oauth_json d)) st of
           None \<Rightarrow> (Inl (PlainError ''Error'' ''Failed to initialize OAuth flow''), st)
         | Some st' \<Rightarrow> (Inr (state, map_option snd p), st'))"

section \<open>Validation\<close>

text \<open>Properties of the parsed value; \<open>None\<close> is \<open>undefined\<close>. Only objects have any of the properties.\<close>

definition prop_of :: "json \<Rightarrow> string \<Rightarrow> json option" where
  "prop_of v k = (case v of JObj m \<Rightarrow> map_get m k | _ \<Rightarrow> None)"

text \<open>\<open>ToNumber\<close> of a JSON value as a decimal \<open>m / 10^k\<close>; \<open>None\<close> is \<open>NaN\<close>. A string is read as a decimal literal.
  Arrays and objects, which the client never stores here, count as \<open>NaN\<close>.\<close>

definition to_number :: "json option \<Rightarrow> (int \<times> nat) option" where
  "to_number v =
     (case v of
        Some (JNum i) \<Rightarrow> Some (i, 0)
      | Some (JFrac m k) \<Rightarrow> Some (m, k)
      | Some JNull \<Rightarrow> Some (0, 0)
      | Some (JBool b) \<Rightarrow> Some (if b then 1 else 0, 0)
      | Some (JStr s) \<Rightarrow>
          if trim s = [] then Some (0, 0)
          else (case parse_num (trim s) of
                  Some (JNum i, []) \<Rightarrow> Some (i, 0) | Some (JFrac m k, []) \<Rightarrow> Some (m, k) | _ \<Rightarrow> None)
      | _ \<Rightarrow> None)"

text \<open>\<open>Date.now() - timestamp > STATE_EXPIRY_MS\<close>; a comparison with \<open>NaN\<close> is false.\<close>

definition oauth_expired :: "date \<Rightarrow> json \<Rightarrow> bool" where
  "oauth_expired now d =
     (case to_number (prop_of d ''timestamp'') of
        None \<Rightarrow> False
      | Some (m, k) \<Rightarrow> now * 10 ^ k - m > STATE_EXPIRY_MS * 10 ^ k)"

text \<open>\<open>v || "signin"\<close>\<close>

definition falsy_json :: "json option \<Rightarrow> bool" where
  "falsy_json v \<longleftrightarrow> v \<in> {None, Some JNull, Some (JBool False), Some (JNum 0), Some (JStr [])}"

record oauth_result =
  ok_identityProviderName :: "json option"
  ok_flowMode :: json
  ok_returnUrl :: "json option"
  ok_linkingUserName :: "json option"
  ok_codeVerifier :: "json option"

definition oauth_result_of :: "json \<Rightarrow> oauth_result" where
  "oauth_result_of d =
     \<lparr>ok_identityProviderName = prop_of d ''identityProviderName'',
      ok_flowMode = (if falsy_json (prop_of d ''flowMode'') then JStr ''signin'' else the (prop_of d ''flowMode'')),
      ok_returnUrl = prop_of d ''returnUrl'', ok_linkingUserName = prop_of d ''linkingUserName'',
      ok_codeVerifier = prop_of d ''codeVerifier''\<rparr>"

text \<open>A removal outside of the \<open>try\<close> block that throws is thrown to the caller.\<close>

definition drop_state :: "storage \<Rightarrow> (js_error + 'a option) \<times> storage" where
  "drop_state st =
     (case remove_item STATE_STORAGE_KEY st of
        None \<Rightarrow> (Inl (PlainError ''SecurityError'' ''''), st)
      | Some st' \<Rightarrow> (Inr None, st'))"

text \<open>A removal inside of the \<open>try\<close> block that throws leads to the \<open>catch\<close> block, which removes again.\<close>

definition validateOAuthState :: "string \<Rightarrow> date \<Rightarrow> storage \<Rightarrow> (js_error + oauth_result option) \<times> storage" where
  "validateOAuthState param now st =
     (case get_item st STATE_STORAGE_KEY of
        None \<Rightarrow> drop_state st
      | Some stored \<Rightarrow>
          if \<not> truthy stored then (Inr None, st)
          else (case json_parse (the stored) of
                  None \<Rightarrow> drop_state st
                | Some d \<Rightarrow>
                    if d = JNull then drop_state st
                    else if oauth_expired now d then drop_state st
                    else if prop_of d ''state'' \<noteq> Some (JStr param) then drop_state st
                    else (case remove_item STATE_STORAGE_KEY st of
                            None \<Rightarrow> drop_state st
                          | Some st' \<Rightarrow> (Inr (Some (oauth_result_of d)), st'))))"

definition cleanupExpiredOAuthState :: "date \<Rightarrow> storage \<Rightarrow> (js_error + unit) \<times> storage" where
  "cleanupExpiredOAuthState now st =
     (let forget = (case remove_item STATE_STORAGE_KEY st of
            None \<Rightarrow> (Inl (PlainError ''SecurityError'' ''''), st) | Some st' \<Rightarrow> (Inr (), st'))
      in case get_item st STATE_STORAGE_KEY of
           None \<Rightarrow> forget
         | Some stored \<Rightarrow>
             if \<not> truthy stored then (Inr (), st)
             else (case json_parse (the stored) of
                     None \<Rightarrow> forget
                   | Some d \<Rightarrow> if d = JNull then forget
                              else if oauth_expired now d then forget else (Inr (), st)))"

section \<open>Reading back the stored state\<close>

lemma oauth_json_ok: "json_ok (oauth_json s)"
  by (auto simp: oauth_json_def str_field_def split: option.splits)

lemma oauth_props:
  "prop_of (oauth_json s) ''state'' = Some (JStr (os_state s))"
  "prop_of (oauth_json s) ''identityProviderName'' = Some (JStr (os_identityProviderName s))"
  "prop_of (oauth_json s) ''flowMode'' = Some (JStr (flow_string (os_flowMode s)))"
  "prop_of (oauth_json s) ''timestamp'' = Some (JNum (os_timestamp s))"
  "prop_of (oauth_json s) ''returnUrl'' = map_option JStr (os_returnUrl s)"
  "prop_of (oauth_json s) ''linkingUserName'' = map_option JStr (os_linkingUserName s)"
  "prop_of (oauth_json s) ''codeVerifier'' = map_option JStr (os_codeVerifier s)"
  "oauth_json s \<noteq> JNull"
  by (simp_all add: prop_of_def oauth_json_def str_field_def map_get_def split: option.splits)

lemma oauth_expired_json: "oauth_expired now (oauth_json s) \<longleftrightarrow> now - os_timestamp s > STATE_EXPIRY_MS"
  by (simp add: oauth_expired_def oauth_props to_number_def)

lemma flow_not_falsy: "\<not> falsy_json (Some (JStr (flow_string m)))"
  by (cases m) (simp_all add: falsy_json_def flow_string_def)

lemma json_print_not_Nil: "json_print v \<noteq> []"
  by (rule json_print_head [of v]) simp

lemma validate_empty:
  "get_item st STATE_STORAGE_KEY = Some None \<Longrightarrow> validateOAuthState p t st = (Inr None, st)"
  by (simp add: validateOAuthState_def truthy_def)

section \<open>The alphabet of the random values\<close>

fun b64_core :: "nat list \<Rightarrow> string" where
  "b64_core [] = []"
| "b64_core [a] = [b64_char (a div 4), b64_char (a mod 4 * 16)]"
| "b64_core [a, b] = [b64_char (a div 4), b64_char (a mod 4 * 16 + b div 16), b64_char (b mod 16 * 4)]"
| "b64_core (a # b # c # r) =
     [b64_char (a div 4), b64_char (a mod 4 * 16 + b div 16), b64_char (b mod 16 * 4 + c div 64), b64_char (c mod 64)] @ b64_core r"

lemma btoa_core: "\<exists>n. btoa bs = b64_core bs @ replicate n (CHR ''='')"
proof (induction bs rule: btoa.induct)
  case 1
  then show ?case by simp
next
  case (2 a)
  have "btoa [a] = b64_core [a] @ replicate 2 (CHR ''='')" by (simp add: numeral_2_eq_2)
  then show ?case by blast
next
  case (3 a b)
  have "btoa [a, b] = b64_core [a, b] @ replicate 1 (CHR ''='')" by simp
  then show ?case by blast
next
  case (4 a b c r)
  then show ?case by auto
qed

lemma length_b64_core: "length (b64_core bs) = (4 * length bs + 2) div 3"
  by (induction bs rule: b64_core.induct) auto

definition url_char :: "char \<Rightarrow> bool" where
  "url_char c \<longleftrightarrow> is_alpha c \<or> is_digit c \<or> c = CHR ''-'' \<or> c = CHR ''_''"

lemma b64_alphabet_safe:
  "list_all (\<lambda>c. url_char (url_safe c) \<and> c \<noteq> CHR ''='')
     ''ABCDEFGHIJKLMNOPQRSTUVWXYZabcdefghijklmnopqrstuvwxyz0123456789+/''"
  by code_simp

lemma b64_char_safe: "n < 64 \<Longrightarrow> url_char (url_safe (b64_char n)) \<and> b64_char n \<noteq> CHR ''=''"
  using b64_alphabet_safe unfolding list_all_length b64_char_def by simp

lemma b64_core_safe:
  "\<forall>b \<in> set bs. b < 256 \<Longrightarrow> \<forall>c \<in> set (b64_core bs). url_char (url_safe c) \<and> c \<noteq> CHR ''=''"
proof (induction bs rule: b64_core.induct)
  case (4 a b c r)
  have "a div 4 < 64" "a mod 4 * 16 + b div 16 < 64" "b mod 16 * 4 + c div 64 < 64" "c mod 64 < 64"
    using "4.prems" by auto
  with 4 b64_char_safe show ?case by auto
next
  case (3 a b)
  then have "a div 4 < 64" "a mod 4 * 16 + b div 16 < 64" "b mod 16 * 4 < 64" by auto
  with b64_char_safe show ?case by auto
next
  case (2 a)
  then have "a div 4 < 64" "a mod 4 * 16 < 64" by auto
  with b64_char_safe show ?case by auto
qed simp

lemma base64Url_core:
  assumes "\<forall>b \<in> set bs. b < 256"
  shows "base64UrlEncode bs = map url_safe (b64_core bs)"
proof -
  obtain n where n: "btoa bs = b64_core bs @ replicate n (CHR ''='')" using btoa_core by blast
  have "url_safe (CHR ''='') = CHR ''=''" by (simp add: url_safe_def)
  then have "rev (map url_safe (btoa bs)) = replicate n (CHR ''='') @ rev (map url_safe (b64_core bs))"
    by (simp add: n map_replicate_const)
  moreover have "dropWhile (\<lambda>c. c = CHR ''='') (replicate n (CHR ''='') @ xs) = dropWhile (\<lambda>c. c = CHR ''='') xs" for xs
    by (induction n) auto
  moreover have "dropWhile (\<lambda>c. c = CHR ''='') (rev (map url_safe (b64_core bs))) = rev (map url_safe (b64_core bs))"
  proof -
    have "url_safe c \<noteq> CHR ''=''" if "c \<in> set (b64_core bs)" for c
      using b64_core_safe [OF assms] that by (auto simp: url_safe_def)
    then have "\<forall>c \<in> set (rev (map url_safe (b64_core bs))). c \<noteq> CHR ''=''" by auto
    moreover have "\<forall>c \<in> set xs. c \<noteq> CHR ''='' \<Longrightarrow> dropWhile (\<lambda>c. c = CHR ''='') xs = xs" for xs
      by (cases xs) auto
    ultimately show ?thesis by blast
  qed
  ultimately show ?thesis by (simp add: base64UrlEncode_def)
qed

lemma hex_lower_inj: "a < 16 \<Longrightarrow> b < 16 \<Longrightarrow> hex_lower a = hex_lower b \<Longrightarrow> a = b"
  by (metis unhex_hex_lower option.inject)

lemma hex_byte_inj:
  assumes "a < 256" "b < 256" "hex_byte a = hex_byte b"
  shows "a = b"
proof -
  from assms(3) have "hex_lower (a div 16) = hex_lower (b div 16)" "hex_lower (a mod 16) = hex_lower (b mod 16)"
    by (simp_all add: hex_byte_def)
  then have "a div 16 = b div 16" "a mod 16 = b mod 16"
    using assms(1,2) by (auto intro: hex_lower_inj)
  then show ?thesis by (metis div_mult_mod_eq)
qed

lemma generateSecureState_simps [simp]:
  "generateSecureState [] = []" "generateSecureState (b # bs) = hex_byte b @ generateSecureState bs"
  by (simp_all add: generateSecureState_def)

lemma length_hex_byte [simp]: "length (hex_byte b) = 2"
  by (simp add: hex_byte_def)

lemma generateSecureState_inj:
  "\<forall>b \<in> set xs \<union> set ys. b < 256 \<Longrightarrow> generateSecureState xs = generateSecureState ys \<Longrightarrow> xs = ys"
proof (induction xs arbitrary: ys)
  case Nil
  then have "length (generateSecureState ys) = 0" by simp
  then show ?case by (cases ys) simp_all
next
  case (Cons x xs)
  have "length (generateSecureState ys) \<noteq> 0" using Cons.prems(2) [symmetric] by simp
  then obtain y zs where y: "ys = y # zs" by (cases ys) simp_all
  with Cons.prems(2) have "hex_byte x = hex_byte y" "generateSecureState xs = generateSecureState zs" by simp_all
  with Cons.IH [of zs] Cons.prems(1) y hex_byte_inj [of x y] show ?case by simp
qed

lemma length_generateSecureState: "length (generateSecureState bs) = 2 * length bs"
  by (induction bs) simp_all

section \<open>Properties\<close>

lemma validate_stored:
  assumes "storeOAuthState c now idp mode ret usr st = (Inr (state, chal), st')"
    and "validateOAuthState param later st' = (r, st'')"
  shows "r = Inr (if param = state \<and> later - now \<le> STATE_EXPIRY_MS
           then Some \<lparr>ok_identityProviderName = Some (JStr idp), ok_flowMode = JStr (flow_string mode),
                  ok_returnUrl = map_option JStr ret, ok_linkingUserName = map_option JStr usr,
                  ok_codeVerifier = map_option (JStr \<circ> fst) (pkce c)\<rparr>
           else None)
    \<and> validateOAuthState p t st'' = (Inr None, st'')"
proof -
  define d where "d = \<lparr>os_state = generateSecureState (state_bytes c), os_identityProviderName = idp, os_flowMode = mode,
      os_timestamp = now, os_returnUrl = ret, os_linkingUserName = usr, os_codeVerifier = map_option fst (pkce c)\<rparr>"
  have s: "set_item STATE_STORAGE_KEY (json_print (oauth_json d)) st = Some st'" "state = os_state d"
    using assms(1) by (auto simp: storeOAuthState_def d_def Let_def split: option.splits)
  then have acc: "accessible st'" and g: "get_item st' STATE_STORAGE_KEY = Some (Some (json_print (oauth_json d)))"
    by (auto simp: set_item_def get_item_def split: if_splits)
  obtain st2 where rm: "remove_item STATE_STORAGE_KEY st' = Some st2" using acc by (simp add: remove_item_def)
  have g2: "get_item st2 STATE_STORAGE_KEY = Some None" using ws.get_del [OF rm] by simp
  have p: "json_parse (json_print (oauth_json d)) = Some (oauth_json d)" by (intro js.parse_print oauth_json_ok)
  have res: "oauth_result_of (oauth_json d) = \<lparr>ok_identityProviderName = Some (JStr idp), ok_flowMode = JStr (flow_string mode),
      ok_returnUrl = map_option JStr ret, ok_linkingUserName = map_option JStr usr,
      ok_codeVerifier = map_option (JStr \<circ> fst) (pkce c)\<rparr>"
    by (simp add: oauth_result_of_def oauth_props flow_not_falsy d_def option.map_comp)
  have ts: "os_timestamp d = now" by (simp add: d_def)
  have "(r, st'') = (Inr (if param = state \<and> later - now \<le> STATE_EXPIRY_MS
      then Some (oauth_result_of (oauth_json d)) else None), st2)"
    using assms(2) s(2) ts
    by (auto simp: validateOAuthState_def g p rm truthy_def json_print_not_Nil oauth_expired_json oauth_props drop_state_def
        split: if_splits)
  then show ?thesis using validate_empty [OF g2] by (simp add: res)
qed

text \<open>The OAuth state is checked and used up once. After a state has been stored, the callback gets the stored
  data back (provider, mode, return URL, user, code verifier) if it presents exactly that state within ten
  minutes; with any other state, or later, it gets nothing. In every case the stored state is gone afterwards, so
  that every further callback gets nothing.\<close>

theorem oauth_state_once:
  assumes "storeOAuthState c now idp mode ret usr st = (Inr (state, chal), st')"
    and "validateOAuthState param later st' = (r, st'')"
  shows "r = Inr (if param = state \<and> later - now \<le> STATE_EXPIRY_MS
           then Some \<lparr>ok_identityProviderName = Some (JStr idp), ok_flowMode = JStr (flow_string mode),
                  ok_returnUrl = map_option JStr ret, ok_linkingUserName = map_option JStr usr,
                  ok_codeVerifier = map_option (JStr \<circ> fst) (pkce c)\<rparr>
           else None)
    \<and> validateOAuthState p t st'' = (Inr None, st'')"
  using validate_stored[OF assms] .

definition demo_crypto :: browser_crypto where
  "demo_crypto = \<lparr>state_bytes = [1, 255], verifier_bytes = [0, 16, 131], subtle = None\<rparr>"

theorem oauth_state_once_witness:
  "\<exists>st'. storeOAuthState demo_crypto 0 ''google'' signin None None empty_storage = (Inr (''01ff'', None), st')
     \<and> fst (validateOAuthState ''01fe'' 5 st') = Inr None \<and> fst (validateOAuthState ''01ff'' 5 st') \<noteq> Inr None"
proof -
  have "generateSecureState [1, 255] = ''01ff''" by code_simp
  then obtain st' where s: "storeOAuthState demo_crypto 0 ''google'' signin None None empty_storage = (Inr (''01ff'', None), st')"
    by (simp add: storeOAuthState_def demo_crypto_def pkce_def set_item_def empty_storage_def Let_def)
  from oauth_state_once [OF s prod.collapse [symmetric], of "''01fe''" 5]
    oauth_state_once [OF s prod.collapse [symmetric], of "''01ff''" 5] s
  show ?thesis by (auto simp: STATE_EXPIRY_MS_def)
qed

text \<open>The random values have the form the protocol asks for. From 32 random bytes the PKCE code verifier has 43
  characters, all of them letters, digits, hyphen or underscore (RFC 7636 asks for 43 to 128 of these), the state
  has 64 characters, and different random bytes give different states.\<close>

theorem oauth_random_values:
  assumes "length bs = 32" "\<forall>b \<in> set bs \<union> set cs. b < 256"
  shows "length (generateCodeVerifier bs) = 43 \<and> list_all url_char (generateCodeVerifier bs)
    \<and> length (generateSecureState bs) = 64 \<and> (generateSecureState bs = generateSecureState cs \<longleftrightarrow> bs = cs)"
proof -
  have b: "\<forall>b \<in> set bs. b < 256" using assms(2) by simp
  have "length (generateCodeVerifier bs) = 43" "list_all url_char (generateCodeVerifier bs)"
    using base64Url_core [OF b] b64_core_safe [OF b] assms(1)
    by (auto simp: generateCodeVerifier_def length_b64_core list_all_iff)
  with generateSecureState_inj [OF assms(2)] length_generateSecureState [of bs] assms(1) show ?thesis by auto
qed

theorem oauth_random_values_witness:
  "generateCodeVerifier (replicate 32 255) = replicate 42 (CHR ''_'') @ ''8''
   \<and> length (generateCodeVerifier (replicate 32 255)) = 43
   \<and> generateSecureState (replicate 32 255) \<noteq> generateSecureState (replicate 32 254)"
proof -
  have "generateCodeVerifier (replicate 32 255) = replicate 42 (CHR ''_'') @ ''8''" by code_simp
  moreover have "\<forall>b \<in> set (replicate 32 (255::nat)) \<union> set (replicate 32 254). b < 256" by auto
  ultimately show ?thesis using oauth_random_values [of "replicate 32 255" "replicate 32 254"] by auto
qed

end
