(* ===== verification/Filters.thy ===== *)
theory Filters
  imports Json Proto
begin

text \<open>
  The memo filters: their URL form and provider (\<open>contexts/MemoFilterContext.tsx\<close>), the filter expression sent to
  the server (\<open>hooks/useMemoFilters.ts\<close>), resource names (\<open>helpers/resource-names.ts\<close>) and visibility names
  (\<open>utils/memo.ts\<close>).
\<close>

section \<open>Resource names\<close>

text \<open>\<open>s.split(sep)\<close> for a separator that is not empty.\<close>

fun split_str :: "nat \<Rightarrow> string \<Rightarrow> string \<Rightarrow> string list" where
  "split_str 0 sep s = [s]"
| "split_str (Suc n) sep s =
     (if prefix sep s then [] # split_str n sep (drop (length sep) s)
      else case s of
        [] \<Rightarrow> [[]]
      | c # r \<Rightarrow> (case split_str n sep r of [] \<Rightarrow> [[c]] | y # ys \<Rightarrow> (c # y) # ys))"

definition split_by :: "string \<Rightarrow> string \<Rightarrow> string list" where
  "split_by sep s = split_str (Suc (length s)) sep s"

definition userNamePrefix :: string where "userNamePrefix = ''users/''"
definition memoNamePrefix :: string where "memoNamePrefix = ''memos/''"
definition identityProviderNamePrefix :: string where "identityProviderNamePrefix = ''identity-providers/''"
definition instanceSettingNamePrefix :: string where "instanceSettingNamePrefix = ''instance/settings/''"

definition buildMemoCreatorFilter :: "string \<Rightarrow> string option" where
  "buildMemoCreatorFilter name =
     (if name = [] then None
      else let normalizedName = (if starts_with name userNamePrefix then name else userNamePrefix @ name)
           in Some (''creator == '' @ json_quote normalizedName))"

definition extractMemoIdFromName :: "string \<Rightarrow> string" where
  "extractMemoIdFromName name = last (split_by memoNamePrefix name)"

definition extractIdentityProviderUidFromName :: "string \<Rightarrow> string" where
  "extractIdentityProviderUidFromName name = last (split_by identityProviderNamePrefix name)"

text \<open>The reverse mapping of a TypeScript enum.\<close>

definition visibility_enum_name :: "Visibility \<Rightarrow> string" where
  "visibility_enum_name v = (case v of VISIBILITY_UNSPECIFIED \<Rightarrow> ''VISIBILITY_UNSPECIFIED'' | PRIVATE \<Rightarrow> ''PRIVATE''
     | PROTECTED \<Rightarrow> ''PROTECTED'' | PUBLIC \<Rightarrow> ''PUBLIC'')"

definition convertVisibilityFromString :: "string \<Rightarrow> Visibility" where
  "convertVisibilityFromString s =
     (if s = ''PUBLIC'' then PUBLIC else if s = ''PROTECTED'' then PROTECTED else if s = ''PRIVATE'' then PRIVATE else PUBLIC)"

definition convertVisibilityToString :: "Visibility \<Rightarrow> string" where
  "convertVisibilityToString v =
     (case v of PUBLIC \<Rightarrow> ''PUBLIC'' | PROTECTED \<Rightarrow> ''PROTECTED'' | PRIVATE \<Rightarrow> ''PRIVATE'' | _ \<Rightarrow> ''PRIVATE'')"

section \<open>Filters and their URL form\<close>

text \<open>A factor read from the URL may be any string: the source only casts it.\<close>

record MemoFilter =
  factor :: string
  f_value :: string

definition getMemoFilterKey :: "MemoFilter \<Rightarrow> string" where
  "getMemoFilterKey f = factor f @ '':'' @ f_value f"

text \<open>One element of the query; \<open>None\<close> is the \<open>URIError\<close> of a malformed escape. What follows a second colon is
  dropped by the destructuring.\<close>

definition parse_filter :: "string \<Rightarrow> MemoFilter option" where
  "parse_filter s =
     (let parts = split_on (CHR '':'') s; v = (if length parts > 1 then parts ! 1 else [])
      in map_option (\<lambda>d. \<lparr>factor = parts ! 0, f_value = d\<rparr>) (decode_uri_component v))"

fun all_some :: "'a option list \<Rightarrow> 'a list option" where
  "all_some [] = Some []"
| "all_some (x # xs) = (case (x, all_some xs) of (Some a, Some as) \<Rightarrow> Some (a # as) | _ \<Rightarrow> None)"

definition parseFilterQuery :: "string option \<Rightarrow> MemoFilter list" where
  "parseFilterQuery q =
     (if \<not> truthy q then []
      else case all_some (map parse_filter (split_on (CHR '','') (the q))) of None \<Rightarrow> [] | Some fs \<Rightarrow> fs)"

definition print_filter :: "MemoFilter \<Rightarrow> string" where
  "print_filter f = factor f @ '':'' @ encode_uri_component (f_value f)"

definition stringifyFilters :: "MemoFilter list \<Rightarrow> string" where
  "stringifyFilters fs = join '','' (map print_filter fs)"

section \<open>The provider\<close>

text \<open>\<open>fc_url\<close> is the value of the \<open>filter\<close> search parameter; \<open>fc_seen\<close> holds the dependencies with which the
  two effects last ran.\<close>

record filter_context =
  fc_filters :: "MemoFilter list"
  fc_shortcut :: "string option"
  fc_url :: "string option"
  lastSyncedUrl :: string
  lastSyncedStore :: string
  fc_seen :: "(MemoFilter list \<times> string option) option"

definition url_text :: "string option \<Rightarrow> string" where
  "url_text u = (case u of None \<Rightarrow> '''' | Some s \<Rightarrow> s)"

definition filter_provider :: "string option \<Rightarrow> filter_context" where
  "filter_provider url = \<lparr>fc_filters = parseFilterQuery url, fc_shortcut = None, fc_url = url, lastSyncedUrl = '''',
     lastSyncedStore = '''', fc_seen = None\<rparr>"

text \<open>The first effect. The new filters are the state of the next render; the refs change at once.\<close>

definition sync_from_url :: "filter_context \<Rightarrow> filter_context" where
  "sync_from_url s =
     (let filterParam = url_text (fc_url s) in
      if filterParam \<noteq> lastSyncedUrl s then
        (let new = parseFilterQuery (Some filterParam)
         in s\<lparr>lastSyncedUrl := filterParam, fc_filters := new, lastSyncedStore := stringifyFilters new\<rparr>)
      else s)"

text \<open>The second effect, with the filters of the render it belongs to.\<close>

definition sync_to_url :: "MemoFilter list \<Rightarrow> filter_context \<Rightarrow> filter_context" where
  "sync_to_url filters s =
     (let storeString = stringifyFilters filters in
      if storeString \<noteq> lastSyncedStore s \<and> storeString \<noteq> lastSyncedUrl s then
        s\<lparr>lastSyncedStore := storeString, fc_url := (if filters \<noteq> [] then Some storeString else None),
          lastSyncedUrl := (if filters \<noteq> [] then storeString else '''')\<rparr>
      else s)"

text \<open>A commit: the effects whose dependencies changed run in order.\<close>

definition filter_commit :: "filter_context \<Rightarrow> filter_context" where
  "filter_commit s =
     (let deps = (fc_filters s, fc_url s);
          s1 = (if map_option snd (fc_seen s) \<noteq> Some (fc_url s) then sync_from_url s else s);
          s2 = (if fc_seen s \<noteq> Some deps then sync_to_url (fc_filters s) s1 else s1)
      in s2\<lparr>fc_seen := Some deps\<rparr>)"

definition getFiltersByFactor :: "string \<Rightarrow> filter_context \<Rightarrow> MemoFilter list" where
  "getFiltersByFactor fa s = filter (\<lambda>f. factor f = fa) (fc_filters s)"

definition setFilters :: "MemoFilter list \<Rightarrow> filter_context \<Rightarrow> filter_context" where
  "setFilters fs s = s\<lparr>fc_filters := fs\<rparr>"

definition addFilter :: "MemoFilter \<Rightarrow> filter_context \<Rightarrow> filter_context" where
  "addFilter f s = s\<lparr>fc_filters := uniq_by getMemoFilterKey [] (fc_filters s @ [f])\<rparr>"

definition removeFilter :: "(MemoFilter \<Rightarrow> bool) \<Rightarrow> filter_context \<Rightarrow> filter_context" where
  "removeFilter p s = s\<lparr>fc_filters := filter (\<lambda>f. \<not> p f) (fc_filters s)\<rparr>"

definition removeFiltersByFactor :: "string \<Rightarrow> filter_context \<Rightarrow> filter_context" where
  "removeFiltersByFactor fa s = s\<lparr>fc_filters := filter (\<lambda>f. factor f \<noteq> fa) (fc_filters s)\<rparr>"

definition clearAllFilters :: "filter_context \<Rightarrow> filter_context" where
  "clearAllFilters s = s\<lparr>fc_filters := [], fc_shortcut := None\<rparr>"

definition setShortcut :: "string option \<Rightarrow> filter_context \<Rightarrow> filter_context" where
  "setShortcut new s =
     (let s1 = s\<lparr>fc_shortcut := new\<rparr>
      in if new \<noteq> None then s1\<lparr>fc_filters := filter (\<lambda>f. factor f \<noteq> ''contentSearch'') (fc_filters s1)\<rparr> else s1)"

definition hasFilter :: "MemoFilter \<Rightarrow> filter_context \<Rightarrow> bool" where
  "hasFilter f s \<longleftrightarrow> list_ex (\<lambda>g. getMemoFilterKey g = getMemoFilterKey f) (fc_filters s)"

definition hasActiveFilters :: "filter_context \<Rightarrow> bool" where
  "hasActiveFilters s \<longleftrightarrow> fc_filters s \<noteq> [] \<or> fc_shortcut s \<noteq> None"

section \<open>The filter expression\<close>

definition getVisibilityName :: "Visibility \<Rightarrow> string" where
  "getVisibilityName v = (case v of PUBLIC \<Rightarrow> ''PUBLIC'' | PROTECTED \<Rightarrow> ''PROTECTED'' | PRIVATE \<Rightarrow> ''PRIVATE'' | _ \<Rightarrow> ''PRIVATE'')"

definition getShortcutId :: "string \<Rightarrow> string" where
  "getShortcutId name = (let parts = split_on (CHR ''/'') name in if length parts = 4 then parts ! 3 else [])"

definition escapeFilterValue :: "string \<Rightarrow> string" where
  "escapeFilterValue v = json_quote v"

record memo_filter_options =
  mf_creatorName :: "string option"
  mf_includeShortcuts :: bool
  mf_includePinned :: bool
  mf_visibilities :: "Visibility list option"

text \<open>\<open>String(ms / 1000)\<close> for a number of milliseconds; \<open>None\<close> is \<open>NaN\<close>.\<close>

definition fraction_digits :: "nat \<Rightarrow> string" where
  "fraction_digits r = rev (dropWhile (\<lambda>c. c = CHR ''0'') (rev (padded 3 r)))"

definition show_seconds :: "int option \<Rightarrow> string" where
  "show_seconds ms =
     (case ms of
        None \<Rightarrow> ''NaN''
      | Some t \<Rightarrow>
          (if t < 0 then ''-'' else []) @ show_nat (nat (\<bar>t\<bar> div 1000))
          @ (if t mod 1000 = 0 then [] else ''.'' @ fraction_digits (nat (\<bar>t\<bar> mod 1000))))"

text \<open>\<open>new Date(value)\<close> in the local time zone is an argument: the time in milliseconds with the offset of the zone
  at that time in minutes, or \<open>None\<close> for an invalid date.\<close>

definition filter_condition :: "(string \<Rightarrow> (date \<times> int) option) \<Rightarrow> bool \<Rightarrow> MemoFilter \<Rightarrow> string option" where
  "filter_condition local_date includePinned f =
     (let fa = factor f; v = f_value f in
      if fa = ''contentSearch'' then Some (''content.contains('' @ escapeFilterValue v @ '')'')
      else if fa = ''tagSearch'' then Some (''tag in ['' @ escapeFilterValue v @ '']'')
      else if fa = ''pinned'' then (if includePinned then Some ''pinned'' else None)
      else if fa = ''property.hasLink'' then Some ''has_link''
      else if fa = ''property.hasTaskList'' then Some ''has_task_list''
      else if fa = ''property.hasCode'' then Some ''has_code''
      else if fa = ''displayTime'' then
        (let ms = map_option (\<lambda>(t, off). t + off * 60 * 1000) (local_date v)
         in Some (''created_ts >= '' @ show_seconds ms @ '' && created_ts < ''
              @ show_seconds (map_option (\<lambda>t. t + 60 * 60 * 24 * 1000) ms)))
      else None)"

definition list_of_option :: "'a option \<Rightarrow> 'a list" where
  "list_of_option x = (case x of None \<Rightarrow> [] | Some a \<Rightarrow> [a])"

definition memo_filter_conditions ::
  "(string \<Rightarrow> (date \<times> int) option) \<Rightarrow> memo_filter_options \<Rightarrow> Shortcut list \<Rightarrow> filter_context \<Rightarrow> string list" where
  "memo_filter_conditions local_date opt shortcuts ctx =
     (let selected = (if mf_includeShortcuts opt
            then find (\<lambda>sc. Some (getShortcutId (sc_name sc)) = fc_shortcut ctx) shortcuts else None)
      in (if truthy (mf_creatorName opt) then list_of_option (buildMemoCreatorFilter (the (mf_creatorName opt))) else [])
         @ (case selected of Some sc \<Rightarrow> if sc_filter sc \<noteq> [] then [sc_filter sc] else [] | None \<Rightarrow> [])
         @ concat (map (\<lambda>f. list_of_option (filter_condition local_date (mf_includePinned opt) f)) (fc_filters ctx))
         @ (case mf_visibilities opt of
              Some vs \<Rightarrow> if vs \<noteq> []
                then [''visibility in ['' @ join '', '' (map (\<lambda>v. [quote_char] @ getVisibilityName v @ [quote_char]) vs) @ '']'']
                else []
            | None \<Rightarrow> []))"

definition useMemoFilters ::
  "(string \<Rightarrow> (date \<times> int) option) \<Rightarrow> memo_filter_options \<Rightarrow> Shortcut list \<Rightarrow> filter_context \<Rightarrow> string option" where
  "useMemoFilters local_date opt shortcuts ctx =
     (let cs = memo_filter_conditions local_date opt shortcuts ctx in if cs \<noteq> [] then Some (join '' && '' cs) else None)"

section \<open>Reading back the URL form\<close>

lemma encode_no_sep: "CHR '','' \<notin> set (encode_uri_component v)" "CHR '':'' \<notin> set (encode_uri_component v)"
proof -
  have "\<not> uri_keep (CHR '','')" "\<not> uri_keep (CHR '':'')" by code_simp+
  then show "CHR '','' \<notin> set (encode_uri_component v)" "CHR '':'' \<notin> set (encode_uri_component v)"
    using uri.concat_safe [of _ v] unfolding encode_uri_component_def by auto
qed

lemma parse_print_filter:
  assumes "CHR '':'' \<notin> set (factor f)"
  shows "parse_filter (print_filter f) = Some f"
proof -
  have "split_on (CHR '':'') (print_filter f) = [factor f, encode_uri_component (f_value f)]"
    using assms encode_no_sep(2) by (simp add: print_filter_def split_on_append)
  then show ?thesis
    using uri.dec_concat [of "f_value f"] by (simp add: parse_filter_def encode_uri_component_def)
qed

lemma all_some_map: "(\<And>x. x \<in> set xs \<Longrightarrow> g (h x) = Some x) \<Longrightarrow> all_some (map g (map h xs)) = Some xs"
  by (induction xs) auto

lemma stringify_Nil_iff: "stringifyFilters fs = [] \<longleftrightarrow> fs = []"
proof (cases fs)
  case (Cons f fs')
  then show ?thesis by (cases fs') (auto simp: stringifyFilters_def print_filter_def)
qed (simp add: stringifyFilters_def)

definition plain_factor :: "MemoFilter \<Rightarrow> bool" where
  "plain_factor f \<longleftrightarrow> CHR '','' \<notin> set (factor f) \<and> CHR '':'' \<notin> set (factor f)"

lemma parse_stringify:
  assumes "list_all plain_factor fs"
  shows "parseFilterQuery (Some (stringifyFilters fs)) = fs"
proof (cases "fs = []")
  case True
  then show ?thesis by (simp add: parseFilterQuery_def truthy_def stringifyFilters_def)
next
  case False
  have "split_on (CHR '','') (stringifyFilters fs) = map print_filter fs"
    unfolding stringifyFilters_def
    using False assms encode_no_sep(1) by (intro split_on_join) (auto simp: print_filter_def list_all_iff plain_factor_def)
  moreover have "all_some (map parse_filter (map print_filter fs)) = Some fs"
    using assms by (intro all_some_map parse_print_filter) (auto simp: list_all_iff plain_factor_def)
  ultimately show ?thesis
    using False by (simp add: parseFilterQuery_def truthy_def stringify_Nil_iff)
qed

section \<open>The URL and the state agree\<close>

text \<open>Between commits with nothing left to do.\<close>

definition in_sync :: "filter_context \<Rightarrow> bool" where
  "in_sync s \<longleftrightarrow> fc_seen s = Some (fc_filters s, fc_url s) \<and> lastSyncedUrl s = url_text (fc_url s)
     \<and> stringifyFilters (fc_filters s) \<in> {lastSyncedStore s, lastSyncedUrl s}"

lemma in_sync_commit: "in_sync s \<Longrightarrow> filter_commit s = s"
  by (simp add: in_sync_def filter_commit_def Let_def)

lemma url_text_simps [simp]:
  "url_text (if fs \<noteq> [] then Some (stringifyFilters fs) else None) = stringifyFilters fs"
  "url_text (Some u) = u" "url_text None = []"
  by (simp_all add: url_text_def stringifyFilters_def)

definition stored_url :: "MemoFilter list \<Rightarrow> string option" where
  "stored_url fs = (if fs \<noteq> [] then Some (stringifyFilters fs) else None)"

lemma url_text_stored [simp]: "url_text (stored_url fs) = stringifyFilters fs"
  by (simp add: stored_url_def)

lemma if_stored: "(if fs \<noteq> [] then stringifyFilters fs else []) = stringifyFilters fs"
  by (simp add: stringifyFilters_def)

lemma sync_to_url_alt:
  "sync_to_url fs s =
     (if stringifyFilters fs \<notin> {lastSyncedStore s, lastSyncedUrl s}
      then s\<lparr>lastSyncedStore := stringifyFilters fs, fc_url := stored_url fs, lastSyncedUrl := stringifyFilters fs\<rparr> else s)"
  unfolding sync_to_url_def Let_def if_stored by (simp add: stored_url_def)

text \<open>A change of the URL, seen by the first commit.\<close>

lemma navigate_same:
  assumes "in_sync s" "url_text u = url_text (fc_url s)"
  shows "in_sync (filter_commit (s\<lparr>fc_url := u\<rparr>))" "fc_filters (filter_commit (s\<lparr>fc_url := u\<rparr>)) = fc_filters s"
proof -
  have i: "lastSyncedUrl s = url_text u" "stringifyFilters (fc_filters s) \<in> {lastSyncedStore s, url_text u}"
    using assms(1) unfolding assms(2) in_sync_def by auto
  then have "filter_commit (s\<lparr>fc_url := u\<rparr>) = s\<lparr>fc_url := u, fc_seen := Some (fc_filters s, u)\<rparr>"
    by (auto simp: filter_commit_def sync_from_url_def sync_to_url_alt Let_def)
  then show "in_sync (filter_commit (s\<lparr>fc_url := u\<rparr>))" "fc_filters (filter_commit (s\<lparr>fc_url := u\<rparr>)) = fc_filters s"
    using i by (simp_all add: in_sync_def)
qed

lemma navigate_kept:
  assumes "in_sync s" "url_text u \<noteq> url_text (fc_url s)" "new = parseFilterQuery (Some (url_text u))"
    and "stringifyFilters (fc_filters s) \<in> {stringifyFilters new, url_text u}"
  shows "in_sync (filter_commit (filter_commit (s\<lparr>fc_url := u\<rparr>)))"
    "fc_filters (filter_commit (filter_commit (s\<lparr>fc_url := u\<rparr>))) = new"
proof -
  have "filter_commit (s\<lparr>fc_url := u\<rparr>) = s\<lparr>fc_url := u, lastSyncedUrl := url_text u, fc_filters := new,
      lastSyncedStore := stringifyFilters new, fc_seen := Some (fc_filters s, u)\<rparr>"
    using assms by (auto simp: in_sync_def filter_commit_def sync_from_url_def sync_to_url_alt Let_def)
  then show "in_sync (filter_commit (filter_commit (s\<lparr>fc_url := u\<rparr>)))"
    "fc_filters (filter_commit (filter_commit (s\<lparr>fc_url := u\<rparr>))) = new"
    by (auto simp: in_sync_def filter_commit_def sync_to_url_alt Let_def)
qed

text \<open>Where the old filters differ from the new ones, the second effect of the same commit writes them to the URL
  once more, and the next commit puts the new ones there.\<close>

lemma navigate_rewritten:
  assumes "in_sync s" "url_text u \<noteq> url_text (fc_url s)" "new = parseFilterQuery (Some (url_text u))"
    and "stringifyFilters (fc_filters s) \<notin> {stringifyFilters new, url_text u}"
  shows "in_sync (filter_commit (filter_commit (filter_commit (s\<lparr>fc_url := u\<rparr>))))"
    "fc_filters (filter_commit (filter_commit (filter_commit (s\<lparr>fc_url := u\<rparr>)))) = new"
proof -
  let ?old = "fc_filters s"
  have 1: "filter_commit (s\<lparr>fc_url := u\<rparr>) = s\<lparr>fc_url := stored_url ?old, lastSyncedUrl := stringifyFilters ?old, fc_filters := new,
      lastSyncedStore := stringifyFilters ?old, fc_seen := Some (?old, u)\<rparr>"
    using assms by (auto simp: in_sync_def filter_commit_def sync_from_url_def sync_to_url_alt Let_def)
  have u: "u \<noteq> stored_url ?old" using assms(4) by auto
  have 2: "filter_commit (filter_commit (s\<lparr>fc_url := u\<rparr>)) = s\<lparr>fc_url := stored_url new, lastSyncedUrl := stringifyFilters new,
      fc_filters := new, lastSyncedStore := stringifyFilters new, fc_seen := Some (new, stored_url ?old)\<rparr>"
    using assms(4) u unfolding 1 by (auto simp: filter_commit_def sync_from_url_def sync_to_url_alt Let_def)
  show "in_sync (filter_commit (filter_commit (filter_commit (s\<lparr>fc_url := u\<rparr>))))"
    "fc_filters (filter_commit (filter_commit (filter_commit (s\<lparr>fc_url := u\<rparr>)))) = new"
    unfolding 2 by (auto simp: in_sync_def filter_commit_def sync_from_url_def sync_to_url_alt Let_def)
qed

lemma user_change:
  assumes "in_sync s"
  shows "in_sync (filter_commit (filter_commit (s\<lparr>fc_filters := fs\<rparr>)))"
    "fc_filters (filter_commit (filter_commit (s\<lparr>fc_filters := fs\<rparr>))) = fs"
proof -
  show "in_sync (filter_commit (filter_commit (s\<lparr>fc_filters := fs\<rparr>)))"
    "fc_filters (filter_commit (filter_commit (s\<lparr>fc_filters := fs\<rparr>))) = fs"
    using assms by (auto simp: in_sync_def filter_commit_def sync_from_url_def sync_to_url_alt Let_def)
qed

section \<open>Properties\<close>

text \<open>C31. Filters survive the URL. Any list of filters whose factors contain no comma and no colon, as all the
  factors of the application, is read back unchanged from its URL form, whatever characters the values contain.\<close>

theorem filters_roundtrip:
  assumes "list_all plain_factor fs"
  shows "parseFilterQuery (Some (stringifyFilters fs)) = fs"
  using assms by (rule parse_stringify)

theorem filters_roundtrip_witness:
  "let fs = [\<lparr>factor = ''tagSearch'', f_value = ''a,b:c''\<rparr>, \<lparr>factor = ''pinned'', f_value = []\<rparr>]
   in stringifyFilters fs = ''tagSearch:a%2Cb%3Ac,pinned:'' \<and> parseFilterQuery (Some (stringifyFilters fs)) = fs"
proof -
  let ?fs = "[\<lparr>factor = ''tagSearch'', f_value = ''a,b:c''\<rparr>, \<lparr>factor = ''pinned'', f_value = []\<rparr>]"
  have "stringifyFilters ?fs = ''tagSearch:a%2Cb%3Ac,pinned:''" by code_simp
  moreover have "list_all plain_factor ?fs" by (simp add: plain_factor_def)
  ultimately show ?thesis using filters_roundtrip [of ?fs] by (simp only: Let_def simp_thms)
qed

text \<open>C32. Navigation wins. When the filter parameter of the URL changes while the provider is in sync, three commits
  later the provider is in sync again and its filters are the ones of the new URL; after a change of the filters by
  the user it settles in two commits with these filters. In a synchronised provider a further commit changes nothing.\<close>

theorem filters_converge:
  assumes "in_sync s"
  shows "in_sync (filter_commit (filter_commit (filter_commit (s\<lparr>fc_url := u\<rparr>))))
    \<and> fc_filters (filter_commit (filter_commit (filter_commit (s\<lparr>fc_url := u\<rparr>)))) =
        (if url_text u = url_text (fc_url s) then fc_filters s else parseFilterQuery (Some (url_text u)))
    \<and> in_sync (filter_commit (filter_commit (s\<lparr>fc_filters := fs\<rparr>)))
    \<and> fc_filters (filter_commit (filter_commit (s\<lparr>fc_filters := fs\<rparr>))) = fs
    \<and> filter_commit s = s"
proof -
  let ?new = "parseFilterQuery (Some (url_text u))"
  consider "url_text u = url_text (fc_url s)"
    | "url_text u \<noteq> url_text (fc_url s)" "stringifyFilters (fc_filters s) \<in> {stringifyFilters ?new, url_text u}"
    | "url_text u \<noteq> url_text (fc_url s)" "stringifyFilters (fc_filters s) \<notin> {stringifyFilters ?new, url_text u}"
    by blast
  then show ?thesis
  proof cases
    case 1
    from navigate_same [OF assms 1] in_sync_commit user_change [OF assms] assms 1 show ?thesis by simp
  next
    case 2
    from navigate_kept [OF assms 2(1) refl 2(2)] in_sync_commit user_change [OF assms] assms 2 show ?thesis by simp
  next
    case 3
    from navigate_rewritten [OF assms 3(1) refl 3(2)] in_sync_commit user_change [OF assms] assms 3 show ?thesis by simp
  qed
qed

theorem filters_converge_witness:
  "in_sync (filter_commit (filter_provider None))
   \<and> fc_filters (filter_commit (filter_commit (filter_commit ((filter_commit (filter_provider None))\<lparr>fc_url := Some ''pinned:''\<rparr>))))
     = [\<lparr>factor = ''pinned'', f_value = []\<rparr>]"
proof -
  have s: "in_sync (filter_commit (filter_provider None))" "fc_url (filter_commit (filter_provider None)) = None"
    by (simp_all add: in_sync_def filter_commit_def filter_provider_def sync_from_url_def sync_to_url_alt parseFilterQuery_def
        truthy_def stringifyFilters_def Let_def)
  have "parseFilterQuery (Some ''pinned:'') = [\<lparr>factor = ''pinned'', f_value = []\<rparr>]" by code_simp
  with filters_converge [OF s(1), of "Some ''pinned:''"] s show ?thesis by simp
qed

text \<open>C33. Search text cannot leave its literal. In the expressions for a content or tag search, and in the creator
  filter, the text is inside one JSON string literal that a reader of the literal takes back to exactly the text,
  and stops where the rest of the expression begins, whatever quotes, backslashes or control characters it holds.\<close>

theorem filter_text_quoted:
  "filter_condition ld ip \<lparr>factor = ''contentSearch'', f_value = v\<rparr> = Some (''content.contains('' @ escapeFilterValue v @ '')'')
   \<and> filter_condition ld ip \<lparr>factor = ''tagSearch'', f_value = v\<rparr> = Some (''tag in ['' @ escapeFilterValue v @ '']'')
   \<and> buildMemoCreatorFilter (userNamePrefix @ v) = Some (''creator == '' @ escapeFilterValue (userNamePrefix @ v))
   \<and> json_parse (escapeFilterValue v) = Some (JStr v)
   \<and> hd (escapeFilterValue v) = quote_char \<and> parse_chars (tl (escapeFilterValue v) @ rest) = Some (v, rest)"
  using js.parse_print [of "JStr v"] json_quote_parse [of v rest]
  by (simp add: filter_condition_def escapeFilterValue_def buildMemoCreatorFilter_def userNamePrefix_def starts_with_def
      json_quote_def)

text \<open>The active filters are a set. Adding a filter to a list without duplicates keeps it free of duplicates and
  keeps the order; afterwards exactly the old filters and the new one are present. Removing the filters of a factor
  removes exactly those, and choosing a shortcut drops the content search and nothing else.\<close>

theorem filter_set_operations:
  assumes "distinct (map getMemoFilterKey (fc_filters s))"
  shows "distinct (map getMemoFilterKey (fc_filters (addFilter f s)))
    \<and> fc_filters (addFilter f s) = (if hasFilter f s then fc_filters s else fc_filters s @ [f])
    \<and> (hasFilter g (addFilter f s) \<longleftrightarrow> hasFilter g s \<or> getMemoFilterKey g = getMemoFilterKey f)
    \<and> getFiltersByFactor fa (removeFiltersByFactor fa s) = []
    \<and> (fa \<noteq> fb \<longrightarrow> getFiltersByFactor fb (removeFiltersByFactor fa s) = getFiltersByFactor fb s)
    \<and> getFiltersByFactor ''contentSearch'' (setShortcut (Some sc) s) = []
    \<and> setShortcut None s = s\<lparr>fc_shortcut := None\<rparr>"
proof -
  have add: "fc_filters (addFilter f s) = (if hasFilter f s then fc_filters s else fc_filters s @ [f])"
    using uniq_by_append_fresh [OF assms, of "[]" f]
    by (auto simp: addFilter_def hasFilter_def list_ex_iff image_iff)
  then have "distinct (map getMemoFilterKey (fc_filters (addFilter f s)))"
    using assms by (auto simp: hasFilter_def list_ex_iff)
  moreover have "hasFilter g (addFilter f s) \<longleftrightarrow> hasFilter g s \<or> getMemoFilterKey g = getMemoFilterKey f"
    unfolding hasFilter_def [of g] add by (auto simp: hasFilter_def list_ex_iff)
  ultimately show ?thesis
    using add by (auto simp: getFiltersByFactor_def removeFiltersByFactor_def setShortcut_def filter_empty_conv
        intro!: filter_cong)
qed

theorem filter_set_operations_witness:
  "fc_filters (addFilter \<lparr>factor = ''pinned'', f_value = []\<rparr> (filter_provider None)) = [\<lparr>factor = ''pinned'', f_value = []\<rparr>]"
proof -
  have "distinct (map getMemoFilterKey (fc_filters (filter_provider None)))"
    "\<not> hasFilter \<lparr>factor = ''pinned'', f_value = []\<rparr> (filter_provider None)" "fc_filters (filter_provider None) = []"
    by (simp_all add: filter_provider_def parseFilterQuery_def truthy_def hasFilter_def)
  with filter_set_operations [of "filter_provider None" "\<lparr>factor = ''pinned'', f_value = []\<rparr>"] show ?thesis by simp
qed

end
