(* ===== verification/MemoCache.thy ===== *)
theory MemoCache
  imports Filters Errors
begin

text \<open>
  The memo queries of \<open>hooks/useMemoQueries.ts\<close>: query keys, the patches of cached lists, and the
  create, update and delete mutations with their cache effects.

  The query client is a third-party package. It is the parameter \<open>qc\<close> of the definitions, a record of
  its documented operations on a cache of any type; \<open>client_laws\<close> states what the code relies on, and
  \<open>alist_client\<close> is a client that has these laws. The refetch that follows an invalidation is a later
  event and not part of these operations.

  A protobuf message is an object in which an unset optional field is an absent property (so a spread
  does not copy it) and every other field is present; a patch \<open>Partial<Memo>\<close> has an option per field.
\<close>

subsection \<open>Keys and cached data\<close>

record ListMemosRequest =
  lmr_pageSize :: int
  lmr_pageToken :: string
  lmr_state :: MemoState
  lmr_orderBy :: string
  lmr_filter :: string
  lmr_showDeleted :: bool

record PartialListMemosRequest =
  pl_pageSize :: "int option"
  pl_pageToken :: "string option"
  pl_state :: "MemoState option"
  pl_orderBy :: "string option"
  pl_filter :: "string option"
  pl_showDeleted :: "bool option"

record ListMemoCommentsRequest =
  lcr_name :: string
  lcr_pageSize :: int
  lcr_pageToken :: string
  lcr_orderBy :: string

definition or_default :: "'a \<Rightarrow> 'a option \<Rightarrow> 'a" where
  "or_default d x = (case x of None \<Rightarrow> d | Some v \<Rightarrow> v)"

text \<open>\<open>create(ListMemosRequestSchema, request)\<close>, with the proto3 defaults.\<close>

definition create_list_request :: "PartialListMemosRequest \<Rightarrow> ListMemosRequest" where
  "create_list_request r = \<lparr>lmr_pageSize = or_default 0 (pl_pageSize r), lmr_pageToken = or_default [] (pl_pageToken r),
     lmr_state = or_default STATE_UNSPECIFIED (pl_state r), lmr_orderBy = or_default [] (pl_orderBy r),
     lmr_filter = or_default [] (pl_filter r), lmr_showDeleted = or_default False (pl_showDeleted r)\<rparr>"

datatype key_part = KStr string | KRequest PartialListMemosRequest | KNum int | KOther "json option"

type_synonym query_key = "key_part list"

definition memoKeys_all :: query_key where "memoKeys_all = [KStr ''memos'']"

definition memoKeys_lists :: query_key where "memoKeys_lists = memoKeys_all @ [KStr ''list'']"

definition memoKeys_list :: "PartialListMemosRequest \<Rightarrow> query_key" where
  "memoKeys_list filters = memoKeys_lists @ [KRequest filters]"

definition memoKeys_details :: query_key where "memoKeys_details = memoKeys_all @ [KStr ''detail'']"

definition memoKeys_detail :: "string \<Rightarrow> query_key" where
  "memoKeys_detail name = memoKeys_details @ [KStr name]"

definition memoKeys_comments :: "string \<Rightarrow> query_key" where
  "memoKeys_comments name = memoKeys_all @ [KStr ''comments'', KStr name]"

definition memoKeys_linkMetadata :: "string \<Rightarrow> query_key" where
  "memoKeys_linkMetadata url = memoKeys_all @ [KStr ''linkMetadata'', KStr url]"

definition userKeys_all :: query_key where "userKeys_all = [KStr ''users'']"

definition userKeys_stats :: query_key where "userKeys_stats = userKeys_all @ [KStr ''stats'']"

lemmas key_defs = memoKeys_all_def memoKeys_lists_def memoKeys_list_def memoKeys_details_def memoKeys_detail_def
  memoKeys_comments_def memoKeys_linkMetadata_def userKeys_all_def userKeys_stats_def

text \<open>A response with a \<open>memos\<close> array: \<open>ListMemosResponse\<close>, and \<open>ListMemoCommentsResponse\<close>, which also
  has \<open>totalSize\<close>. Cached data is one of these, the pages of an infinite query, a memo, or other data,
  which has neither a \<open>memos\<close> nor a \<open>pages\<close> array.\<close>

record ListMemosResponse =
  lr_memos :: "Memo list"
  lr_nextPageToken :: string
  lr_totalSize :: "int option"

datatype query_data =
    MemoData Memo
  | UserData User
  | ListData ListMemosResponse
  | PagesData "ListMemosResponse list" "string list"
  | OtherData json

subsection \<open>The query client\<close>

record 'c query_client =
  getQueryData :: "query_key \<Rightarrow> 'c \<Rightarrow> query_data option"
  setQueryData :: "query_key \<Rightarrow> query_data \<Rightarrow> 'c \<Rightarrow> 'c"
  setQueriesData :: "query_key \<Rightarrow> (query_data option \<Rightarrow> query_data option) \<Rightarrow> 'c \<Rightarrow> 'c"
  getQueriesData :: "query_key \<Rightarrow> 'c \<Rightarrow> (query_key \<times> query_data option) list"
  invalidateQueries :: "query_key \<Rightarrow> 'c \<Rightarrow> 'c"
  cancelQueries :: "query_key \<Rightarrow> 'c \<Rightarrow> 'c"
  removeQueries :: "query_key \<Rightarrow> 'c \<Rightarrow> 'c"
  removeExactly :: "query_key \<Rightarrow> 'c \<Rightarrow> 'c"
  clearCache :: "'c \<Rightarrow> 'c"
  isInvalidated :: "query_key \<Rightarrow> 'c \<Rightarrow> bool"

text \<open>A key filter matches the keys it is a prefix of. An updater that returns \<open>undefined\<close> writes nothing.
  A write clears the invalidation of its query.\<close>

definition upd_data :: "(query_data option \<Rightarrow> query_data option) \<Rightarrow> query_data \<Rightarrow> query_data" where
  "upd_data f d = (case f (Some d) of None \<Rightarrow> d | Some e \<Rightarrow> e)"

definition client_laws :: "'c query_client \<Rightarrow> bool" where
  "client_laws qc \<longleftrightarrow>
     (\<forall>k v c j. getQueryData qc j (setQueryData qc k v c) = (if j = k then Some v else getQueryData qc j c)) \<and>
     (\<forall>p f c j. f None = None \<longrightarrow> getQueryData qc j (setQueriesData qc p f c) =
        map_option (\<lambda>d. if prefix p j then upd_data f d else d) (getQueryData qc j c)) \<and>
     (\<forall>p c j d. (j, Some d) \<in> set (getQueriesData qc p c) \<longleftrightarrow> prefix p j \<and> getQueryData qc j c = Some d) \<and>
     (\<forall>p c j. getQueryData qc j (invalidateQueries qc p c) = getQueryData qc j c) \<and>
     (\<forall>p c j. getQueryData qc j (cancelQueries qc p c) = getQueryData qc j c) \<and>
     (\<forall>p c j. getQueryData qc j (removeQueries qc p c) = (if prefix p j then None else getQueryData qc j c)) \<and>
     (\<forall>k c j. getQueryData qc j (removeExactly qc k c) = (if j = k then None else getQueryData qc j c)) \<and>
     (\<forall>c j. getQueryData qc j (clearCache qc c) = None) \<and>
     (\<forall>p c j. getQueryData qc j c \<noteq> None \<longrightarrow>
        isInvalidated qc j (invalidateQueries qc p c) = (prefix p j \<or> isInvalidated qc j c))"

subsection \<open>Patches of cached memos\<close>

record MemoPatch =
  p_name :: "string option"
  p_state :: "MemoState option"
  p_creator :: "string option"
  p_createTime :: "Timestamp option option"
  p_updateTime :: "Timestamp option option"
  p_content :: "string option"
  p_visibility :: "Visibility option"
  p_tags :: "string list option"
  p_pinned :: "bool option"
  p_attachments :: "Attachment list option"
  p_relations :: "MemoRelation list option"
  p_reactions :: "Reaction list option"
  p_property :: "Memo_Property option option"
  p_parent :: "string option option"
  p_snippet :: "string option"
  p_location :: "Location option option"

definition empty_patch :: MemoPatch where
  "empty_patch = \<lparr>p_name = None, p_state = None, p_creator = None, p_createTime = None, p_updateTime = None,
     p_content = None, p_visibility = None, p_tags = None, p_pinned = None, p_attachments = None, p_relations = None,
     p_reactions = None, p_property = None, p_parent = None, p_snippet = None, p_location = None\<rparr>"

text \<open>\<open>{ ...memo, ...update }\<close>.\<close>

definition spread :: "Memo \<Rightarrow> MemoPatch \<Rightarrow> Memo" where
  "spread m p = \<lparr>memo_name = or_default (memo_name m) (p_name p), memo_state = or_default (memo_state m) (p_state p),
     memo_creator = or_default (memo_creator m) (p_creator p),
     memo_createTime = or_default (memo_createTime m) (p_createTime p),
     memo_updateTime = or_default (memo_updateTime m) (p_updateTime p),
     memo_content = or_default (memo_content m) (p_content p),
     memo_visibility = or_default (memo_visibility m) (p_visibility p), memo_tags = or_default (memo_tags m) (p_tags p),
     memo_pinned = or_default (memo_pinned m) (p_pinned p),
     memo_attachments = or_default (memo_attachments m) (p_attachments p),
     memo_relations = or_default (memo_relations m) (p_relations p),
     memo_reactions = or_default (memo_reactions m) (p_reactions p),
     memo_property = or_default (memo_property m) (p_property p), memo_parent = or_default (memo_parent m) (p_parent p),
     memo_snippet = or_default (memo_snippet m) (p_snippet p), memo_location = or_default (memo_location m) (p_location p)\<rparr>"

text \<open>A whole memo used as a patch: its own properties.\<close>

definition own_field :: "'a option \<Rightarrow> 'a option option" where
  "own_field x = (case x of None \<Rightarrow> None | Some v \<Rightarrow> Some (Some v))"

definition memo_patch :: "Memo \<Rightarrow> MemoPatch" where
  "memo_patch m = \<lparr>p_name = Some (memo_name m), p_state = Some (memo_state m), p_creator = Some (memo_creator m),
     p_createTime = own_field (memo_createTime m), p_updateTime = own_field (memo_updateTime m),
     p_content = Some (memo_content m), p_visibility = Some (memo_visibility m), p_tags = Some (memo_tags m),
     p_pinned = Some (memo_pinned m), p_attachments = Some (memo_attachments m), p_relations = Some (memo_relations m),
     p_reactions = Some (memo_reactions m), p_property = own_field (memo_property m), p_parent = own_field (memo_parent m),
     p_snippet = Some (memo_snippet m), p_location = own_field (memo_location m)\<rparr>"

definition patchMemoListResponse :: "string \<Rightarrow> MemoPatch \<Rightarrow> ListMemosResponse \<Rightarrow> ListMemosResponse" where
  "patchMemoListResponse name update response =
     (if \<exists>m \<in> set (lr_memos response). memo_name m = name
      then response\<lparr>lr_memos := map (\<lambda>m. if memo_name m \<noteq> name then m else spread m update) (lr_memos response)\<rparr>
      else response)"

definition patchMemoListQueryData :: "string \<Rightarrow> MemoPatch \<Rightarrow> query_data option \<Rightarrow> query_data option" where
  "patchMemoListQueryData name update data = (case data of
     None \<Rightarrow> None
   | Some (ListData r) \<Rightarrow> Some (ListData (patchMemoListResponse name update r))
   | Some (PagesData pages params) \<Rightarrow> Some (PagesData (map (patchMemoListResponse name update) pages) params)
   | Some d \<Rightarrow> Some d)"

definition findMemoInListResponse :: "string \<Rightarrow> ListMemosResponse \<Rightarrow> Memo option" where
  "findMemoInListResponse name response = find (\<lambda>m. memo_name m = name) (lr_memos response)"

fun first_some :: "('a \<Rightarrow> 'b option) \<Rightarrow> 'a list \<Rightarrow> 'b option" where
  "first_some f [] = None"
| "first_some f (x # xs) = (case f x of Some y \<Rightarrow> Some y | None \<Rightarrow> first_some f xs)"

definition findMemoInQueryData :: "string \<Rightarrow> query_data option \<Rightarrow> Memo option" where
  "findMemoInQueryData name data = (case data of
     Some (ListData r) \<Rightarrow> findMemoInListResponse name r
   | Some (PagesData pages _) \<Rightarrow> first_some (findMemoInListResponse name) pages
   | _ \<Rightarrow> None)"

definition findMemoInCollectionQueries :: "'c query_client \<Rightarrow> string \<Rightarrow> 'c \<Rightarrow> Memo option" where
  "findMemoInCollectionQueries qc name c = first_some (\<lambda>(_, d). findMemoInQueryData name d) (getQueriesData qc memoKeys_all c)"

definition patchMemoInCollectionQueries :: "'c query_client \<Rightarrow> string \<Rightarrow> MemoPatch \<Rightarrow> 'c \<Rightarrow> 'c" where
  "patchMemoInCollectionQueries qc name update = setQueriesData qc memoKeys_all (patchMemoListQueryData name update)"

subsection \<open>Mutations\<close>

definition create_onSuccess :: "'c query_client \<Rightarrow> Memo \<Rightarrow> 'c \<Rightarrow> 'c" where
  "create_onSuccess qc newMemo =
     invalidateQueries qc userKeys_stats
     \<circ> setQueryData qc (memoKeys_detail (memo_name newMemo)) (MemoData newMemo)
     \<circ> invalidateQueries qc memoKeys_lists"

text \<open>\<open>getQueryData<Memo>(detail) || findMemoInCollectionQueries\<close>; a detail query holds a memo.\<close>

definition previous_memo :: "'c query_client \<Rightarrow> string \<Rightarrow> 'c \<Rightarrow> Memo option" where
  "previous_memo qc name c = (case getQueryData qc (memoKeys_detail name) c of
     Some (MemoData m) \<Rightarrow> Some m
   | _ \<Rightarrow> findMemoInCollectionQueries qc name c)"

definition update_onMutate :: "'c query_client \<Rightarrow> MemoPatch \<Rightarrow> 'c \<Rightarrow> Memo option \<times> 'c" where
  "update_onMutate qc update c =
     (if \<not> truthy (p_name update) then (None, c)
      else let name = the (p_name update);
               c1 = cancelQueries qc memoKeys_all c;
               prev = previous_memo qc name c1;
               c2 = (case prev of None \<Rightarrow> c1
                     | Some m \<Rightarrow> setQueryData qc (memoKeys_detail name) (MemoData (spread m update)) c1)
           in (prev, patchMemoInCollectionQueries qc name update c2))"

definition update_onError :: "'c query_client \<Rightarrow> MemoPatch \<Rightarrow> Memo option \<Rightarrow> 'c \<Rightarrow> 'c" where
  "update_onError qc update prev c = (case prev of
     Some m \<Rightarrow> (if truthy (p_name update)
       then patchMemoInCollectionQueries qc (memo_name m) (memo_patch m)
              (setQueryData qc (memoKeys_detail (the (p_name update))) (MemoData m) c)
       else invalidateQueries qc memoKeys_all c)
   | None \<Rightarrow> invalidateQueries qc memoKeys_all c)"

definition update_onSuccess :: "'c query_client \<Rightarrow> Memo \<Rightarrow> 'c \<Rightarrow> 'c" where
  "update_onSuccess qc m c =
     (let c1 = setQueryData qc (memoKeys_detail (memo_name m)) (MemoData m) c;
          c2 = patchMemoInCollectionQueries qc (memo_name m) (memo_patch m) c1;
          c3 = invalidateQueries qc memoKeys_lists c2;
          c4 = (if truthy (memo_parent m) then invalidateQueries qc (memoKeys_comments (the (memo_parent m))) c3 else c3)
      in invalidateQueries qc userKeys_stats c4)"

text \<open>The whole mutation, for an answer of the server.\<close>

definition updateMemo_mutation :: "'c query_client \<Rightarrow> (MemoPatch \<Rightarrow> string list \<Rightarrow> js_error + Memo) \<Rightarrow>
    MemoPatch \<Rightarrow> string list \<Rightarrow> 'c \<Rightarrow> (js_error + Memo) \<times> 'c" where
  "updateMemo_mutation qc server update msk c =
     (let (prev, c1) = update_onMutate qc update c
      in case server update msk of
           Inl e \<Rightarrow> (Inl e, update_onError qc update prev c1)
         | Inr m \<Rightarrow> (Inr m, update_onSuccess qc m c1))"

definition delete_onSuccess :: "'c query_client \<Rightarrow> string \<Rightarrow> 'c \<Rightarrow> 'c" where
  "delete_onSuccess qc name =
     invalidateQueries qc userKeys_stats \<circ> invalidateQueries qc memoKeys_lists
     \<circ> removeQueries qc (memoKeys_detail name)"

definition deleteMemo_mutation :: "'c query_client \<Rightarrow> (string \<Rightarrow> js_error + unit) \<Rightarrow> string \<Rightarrow> 'c \<Rightarrow> (js_error + string) \<times> 'c" where
  "deleteMemo_mutation qc server name c = (case server name of
     Inl e \<Rightarrow> (Inl e, c) | Inr _ \<Rightarrow> (Inr name, delete_onSuccess qc name c))"

definition createMemo_mutation :: "'c query_client \<Rightarrow> (Memo \<Rightarrow> js_error + Memo) \<Rightarrow> Memo \<Rightarrow> 'c \<Rightarrow> (js_error + Memo) \<times> 'c" where
  "createMemo_mutation qc server memo c = (case server memo of
     Inl e \<Rightarrow> (Inl e, c) | Inr m \<Rightarrow> (Inr m, create_onSuccess qc m c))"

subsection \<open>Laws of the client\<close>

text \<open>The interface the mutations rely on, and what they do with it.\<close>

locale query_cache =
  fixes qc :: "'c query_client"
  assumes laws: "client_laws qc"
begin

lemma get_set: "getQueryData qc j (setQueryData qc k v c) = (if j = k then Some v else getQueryData qc j c)"
  using laws by (simp add: client_laws_def)

lemma get_setQueries:
  "f None = None \<Longrightarrow> getQueryData qc j (setQueriesData qc p f c) =
     map_option (\<lambda>d. if prefix p j then upd_data f d else d) (getQueryData qc j c)"
  using laws by (simp add: client_laws_def)

lemma get_queries: "(j, Some d) \<in> set (getQueriesData qc p c) \<longleftrightarrow> prefix p j \<and> getQueryData qc j c = Some d"
  using laws by (simp add: client_laws_def)

lemma get_invalidate [simp]: "getQueryData qc j (invalidateQueries qc p c) = getQueryData qc j c"
  using laws by (simp add: client_laws_def)

lemma get_cancel [simp]: "getQueryData qc j (cancelQueries qc p c) = getQueryData qc j c"
  using laws by (simp add: client_laws_def)

lemma get_remove: "getQueryData qc j (removeQueries qc p c) = (if prefix p j then None else getQueryData qc j c)"
  using laws by (simp add: client_laws_def)

lemma get_removeExactly: "getQueryData qc j (removeExactly qc k c) = (if j = k then None else getQueryData qc j c)"
  using laws by (simp add: client_laws_def)

lemma get_clear [simp]: "getQueryData qc j (clearCache qc c) = None"
  using laws by (simp add: client_laws_def)

lemma invalidated: "getQueryData qc j c \<noteq> None \<Longrightarrow>
    isInvalidated qc j (invalidateQueries qc p c) = (prefix p j \<or> isInvalidated qc j c)"
  using laws by (simp add: client_laws_def)

end

text \<open>A client over an association list from keys to data and a mark.\<close>

type_synonym alist_cache = "(query_key, query_data \<times> bool) jsmap"

definition alist_client :: "alist_cache query_client" where
  "alist_client = \<lparr>
     getQueryData = (\<lambda>k c. map_option fst (map_get c k)),
     setQueryData = (\<lambda>k v c. map_set k (v, False) c),
     setQueriesData = (\<lambda>p f c. map (\<lambda>(k, d, i). if prefix p k then (k, upd_data f d, False) else (k, d, i)) c),
     getQueriesData = (\<lambda>p c. map (\<lambda>(k, d, i). (k, map_option fst (map_get c k))) (filter (\<lambda>(k, d, i). prefix p k) c)),
     invalidateQueries = (\<lambda>p c. map (\<lambda>(k, d, i). (k, d, prefix p k \<or> i)) c),
     cancelQueries = (\<lambda>p c. c),
     removeQueries = (\<lambda>p c. filter (\<lambda>(k, d, i). \<not> prefix p k) c),
     removeExactly = (\<lambda>e c. filter (\<lambda>(k, d, i). k \<noteq> e) c),
     clearCache = (\<lambda>c. []),
     isInvalidated = (\<lambda>k c. (case map_get c k of None \<Rightarrow> False | Some (d, i) \<Rightarrow> i))\<rparr>"

lemma map_get_map_val: "map_get (map (\<lambda>(k, v). (k, g k v)) c) j = map_option (g j) (map_get c j)"
  by (induction c) (auto simp: map_get_def)

lemma map_get_filter: "map_get (filter (\<lambda>(k, v). P k) c) j = (if P j then map_get c j else None)"
  by (induction c) (auto simp: map_get_def)

lemma map_get_entry: "map_get c k = Some v \<Longrightarrow> (k, v) \<in> set c"
  by (auto simp: map_get_def dest: map_of_SomeD)

lemma alist_set_queries:
  "map_get (map (\<lambda>(k, d, i). if prefix p k then (k, upd_data f d, False) else (k, d, i)) c) j =
   map_option (\<lambda>(d, i). if prefix p j then (upd_data f d, False) else (d, i)) (map_get c j)"
  by (induction c) (auto simp: map_get_def split: if_splits)

lemma alist_invalidate:
  "map_get (map (\<lambda>(k, d, i). (k, d, prefix p k \<or> i)) c) j = map_option (\<lambda>(d, i). (d, prefix p j \<or> i)) (map_get c j)"
  by (induction c) (auto simp: map_get_def)

lemma alist_remove:
  "map_get (filter (\<lambda>(k, d, i). \<not> prefix p k) c) j = (if prefix p j then None else map_get c j)"
  by (induction c) (auto simp: map_get_def)

lemma alist_remove_exactly:
  "map_get (filter (\<lambda>(k, d, i). k \<noteq> e) c) j = (if j = e then None else map_get c j)"
  by (induction c) (auto simp: map_get_def)

lemma alist_queries:
  "(j, Some d) \<in> set (map (\<lambda>(k, d, i). (k, map_option fst (map_get c k))) (filter (\<lambda>(k, d, i). prefix p k) c)) \<longleftrightarrow>
     prefix p j \<and> map_option fst (map_get c j) = Some d"
proof -
  have "(j, Some d) \<in> set (map (\<lambda>(k, d, i). (k, map_option fst (map_get c k))) (filter (\<lambda>(k, d, i). prefix p k) c))
      \<longleftrightarrow> (\<exists>v. (j, v) \<in> set c) \<and> prefix p j \<and> map_option fst (map_get c j) = Some d"
    by (auto simp: image_iff split_beta eq_commute[of "Some d"])
  then show ?thesis by (auto dest: map_get_entry)
qed

interpretation qa: query_cache alist_client
proof
  show "client_laws alist_client"
    unfolding client_laws_def alist_client_def
    by (intro conjI allI impI; simp only: query_client.simps alist_queries alist_set_queries alist_invalidate alist_remove alist_remove_exactly map_get_set map_get_Nil)
      (auto simp: option.map_comp comp_def split_beta intro!: option.map_cong split: option.splits)
qed

subsection \<open>Patching and restoring\<close>

definition collection_memos :: "query_data \<Rightarrow> Memo list" where
  "collection_memos d = (case d of ListData r \<Rightarrow> lr_memos r | PagesData ps _ \<Rightarrow> concat (map lr_memos ps) | _ \<Rightarrow> [])"

text \<open>A patch that adds no optional field the memo does not have.\<close>

definition adds_nothing :: "MemoPatch \<Rightarrow> Memo \<Rightarrow> bool" where
  "adds_nothing p m \<longleftrightarrow>
     (memo_createTime m = None \<longrightarrow> p_createTime p \<in> {None, Some None}) \<and>
     (memo_updateTime m = None \<longrightarrow> p_updateTime p \<in> {None, Some None}) \<and>
     (memo_property m = None \<longrightarrow> p_property p \<in> {None, Some None}) \<and>
     (memo_parent m = None \<longrightarrow> p_parent p \<in> {None, Some None}) \<and>
     (memo_location m = None \<longrightarrow> p_location p \<in> {None, Some None})"

lemma or_default_simps [simp]: "or_default d None = d" "or_default d (Some v) = v"
  by (simp_all add: or_default_def)

lemma own_restore: "(x = None \<longrightarrow> y \<in> {None, Some None}) \<Longrightarrow> or_default (or_default x y) (own_field x) = x"
  by (auto simp: own_field_def split: option.splits)

lemma spread_restore: "adds_nothing p m \<Longrightarrow> spread (spread m p) (memo_patch m) = m"
  unfolding adds_nothing_def by (simp add: spread_def memo_patch_def own_restore)

lemma spread_name [simp]: "p_name p = Some n \<Longrightarrow> memo_name (spread m p) = n"
  by (simp add: spread_def)

lemma patch_list_map:
  "lr_memos (patchMemoListResponse n p r) = map (\<lambda>m. if memo_name m \<noteq> n then m else spread m p) (lr_memos r)"
  by (auto simp: patchMemoListResponse_def intro!: map_idI[symmetric])

lemma patch_list_more:
  "lr_nextPageToken (patchMemoListResponse n p r) = lr_nextPageToken r"
  "lr_totalSize (patchMemoListResponse n p r) = lr_totalSize r"
  by (simp_all add: patchMemoListResponse_def)

lemma response_eqI: "lr_memos r = lr_memos s \<Longrightarrow> lr_nextPageToken r = lr_nextPageToken s \<Longrightarrow> lr_totalSize r = lr_totalSize s
    \<Longrightarrow> r = (s :: ListMemosResponse)"
  by simp

lemma restore_list:
  assumes "\<And>x. x \<in> set (lr_memos r) \<Longrightarrow> memo_name x = n \<Longrightarrow> x = m" "p_name p = Some n" "adds_nothing p m"
  shows "patchMemoListResponse n (memo_patch m) (patchMemoListResponse n p r) = r"
  by (rule response_eqI) (use assms in \<open>auto simp: patch_list_map patch_list_more spread_restore intro!: map_idI\<close>)

lemma patch_list_absent: "(\<And>x. x \<in> set (lr_memos r) \<Longrightarrow> memo_name x \<noteq> n) \<Longrightarrow> patchMemoListResponse n p r = r"
  by (auto simp: patchMemoListResponse_def)

lemma patch_None [simp]: "patchMemoListQueryData n p None = None"
  by (simp add: patchMemoListQueryData_def)

lemma restore_data:
  assumes "\<And>x. x \<in> set (collection_memos d) \<Longrightarrow> memo_name x = n \<Longrightarrow> x = m" "p_name p = Some n" "adds_nothing p m"
  shows "upd_data (patchMemoListQueryData n (memo_patch m)) (upd_data (patchMemoListQueryData n p) d) = d"
proof (cases d)
  case (PagesData ps params)
  then have "\<And>r. r \<in> set ps \<Longrightarrow> patchMemoListResponse n (memo_patch m) (patchMemoListResponse n p r) = r"
    using assms by (intro restore_list) (auto simp: collection_memos_def)
  then show ?thesis using PagesData by (auto simp: upd_data_def patchMemoListQueryData_def intro!: map_idI)
next
  case (ListData r)
  then have "patchMemoListResponse n (memo_patch m) (patchMemoListResponse n p r) = r"
    using assms by (intro restore_list) (auto simp: collection_memos_def)
  then show ?thesis using ListData by (simp add: upd_data_def patchMemoListQueryData_def)
qed (simp_all add: upd_data_def patchMemoListQueryData_def)

lemma patch_data_absent:
  assumes "\<And>x. x \<in> set (collection_memos d) \<Longrightarrow> memo_name x \<noteq> n"
  shows "upd_data (patchMemoListQueryData n p) d = d"
  using assms by (cases d)
    (auto simp: upd_data_def patchMemoListQueryData_def collection_memos_def intro!: map_idI patch_list_absent)

lemma patch_data_memos:
  "collection_memos (upd_data (patchMemoListQueryData n p) d) =
     map (\<lambda>m. if memo_name m \<noteq> n then m else spread m p) (collection_memos d)"
  by (cases d) (auto simp: upd_data_def patchMemoListQueryData_def collection_memos_def patch_list_map map_concat
    comp_def intro!: arg_cong[of _ _ concat])

lemma first_some_None: "first_some f xs = None \<longleftrightarrow> (\<forall>x \<in> set xs. f x = None)"
  by (induction xs) (auto split: option.splits)

lemma first_some_Some: "first_some f xs = Some y \<Longrightarrow> \<exists>x \<in> set xs. f x = Some y"
  by (induction xs) (auto split: option.splits)

lemma find_in_data_None:
  "findMemoInQueryData n (Some d) = None \<longleftrightarrow> (\<forall>x \<in> set (collection_memos d). memo_name x \<noteq> n)"
  by (cases d) (auto simp: findMemoInQueryData_def collection_memos_def findMemoInListResponse_def first_some_None find_None_iff)

lemma find_in_list_Some:
  "findMemoInListResponse n r = Some m \<Longrightarrow> m \<in> set (lr_memos r) \<and> memo_name m = n"
  by (auto simp: findMemoInListResponse_def find_Some_iff)

lemma find_in_data_Some:
  "findMemoInQueryData n (Some d) = Some m \<Longrightarrow> m \<in> set (collection_memos d) \<and> memo_name m = n"
  by (cases d) (auto simp: findMemoInQueryData_def collection_memos_def
    dest!: first_some_Some find_in_list_Some)

lemma find_in_data_undefined [simp]: "findMemoInQueryData n None = None"
  by (simp add: findMemoInQueryData_def)


context query_cache
begin

lemma get_patch:
  "getQueryData qc j (patchMemoInCollectionQueries qc n p c) =
     map_option (\<lambda>d. if prefix memoKeys_all j then upd_data (patchMemoListQueryData n p) d else d) (getQueryData qc j c)"
  by (simp add: patchMemoInCollectionQueries_def get_setQueries)

lemma find_collection_None:
  "findMemoInCollectionQueries qc n c = None \<longleftrightarrow>
     (\<forall>j d. prefix memoKeys_all j \<longrightarrow> getQueryData qc j c = Some d \<longrightarrow> (\<forall>x \<in> set (collection_memos d). memo_name x \<noteq> n))"
proof -
  have "findMemoInCollectionQueries qc n c = None \<longleftrightarrow>
      (\<forall>j d. (j, Some d) \<in> set (getQueriesData qc memoKeys_all c) \<longrightarrow> findMemoInQueryData n (Some d) = None)"
    unfolding findMemoInCollectionQueries_def first_some_None by (auto simp: split_beta) (metis find_in_data_undefined option.exhaust)
  then show ?thesis by (auto simp: get_queries find_in_data_None)
qed

lemma find_collection_Some:
  assumes "findMemoInCollectionQueries qc n c = Some m"
  shows "memo_name m = n \<and> (\<exists>j d. prefix memoKeys_all j \<and> getQueryData qc j c = Some d \<and> m \<in> set (collection_memos d))"
proof -
  obtain j d where "(j, d) \<in> set (getQueriesData qc memoKeys_all c)" "findMemoInQueryData n d = Some m"
    using first_some_Some[OF assms[unfolded findMemoInCollectionQueries_def]] by auto
  then show ?thesis by (cases d) (auto simp: get_queries dest: find_in_data_Some)
qed

end

text \<open>The copies of a memo in the cache: in its detail query and in the lists.\<close>

definition memo_copies :: "'c query_client \<Rightarrow> string \<Rightarrow> 'c \<Rightarrow> Memo set" where
  "memo_copies qc n c = {m. getQueryData qc (memoKeys_detail n) c = Some (MemoData m)} \<union>
     {x. memo_name x = n \<and> (\<exists>j d. prefix memoKeys_all j \<and> getQueryData qc j c = Some d \<and> x \<in> set (collection_memos d))}"

lemma collection_MemoData [simp]: "collection_memos (MemoData m) = []"
  by (simp add: collection_memos_def)

lemma detail_prefix [simp]: "prefix memoKeys_all (memoKeys_detail n)"
  by (simp add: key_defs)

lemma detail_not_list [simp]: "\<not> prefix memoKeys_lists (memoKeys_detail n)"
  by (simp add: key_defs)

lemma upd_MemoData [simp]: "upd_data (patchMemoListQueryData n p) (MemoData m) = MemoData m"
  by (simp add: upd_data_def patchMemoListQueryData_def)

context query_cache
begin

lemma previous_None: "previous_memo qc n c = None \<longleftrightarrow> memo_copies qc n c = {}"
  by (auto simp: previous_memo_def memo_copies_def find_collection_None split: option.splits query_data.splits)

lemma previous_Some: "previous_memo qc n c = Some m \<Longrightarrow> m \<in> memo_copies qc n c"
  using find_collection_Some[of n c m]
  by (simp add: previous_memo_def memo_copies_def split: option.splits query_data.splits)

lemma copies_cancel [simp]: "memo_copies qc n (cancelQueries qc p c) = memo_copies qc n c"
  by (simp add: memo_copies_def)

lemma copies_list: "prefix memoKeys_all j \<Longrightarrow> getQueryData qc j c = Some d \<Longrightarrow> x \<in> set (collection_memos d) \<Longrightarrow>
    memo_name x = n \<Longrightarrow> x \<in> memo_copies qc n c"
  by (auto simp: memo_copies_def)

lemma onMutate_unknown:
  assumes "memo_copies qc n c = {}" "p_name p = Some n" "n \<noteq> []"
  shows "fst (update_onMutate qc p c) = None" "getQueryData qc j (snd (update_onMutate qc p c)) = getQueryData qc j c"
proof -
  have a: "\<And>x d j. prefix memoKeys_all j \<Longrightarrow> getQueryData qc j c = Some d \<Longrightarrow> x \<in> set (collection_memos d) \<Longrightarrow> memo_name x \<noteq> n"
    using assms(1) by (auto simp: memo_copies_def)
  have prev: "previous_memo qc n (cancelQueries qc memoKeys_all c) = None"
    by (simp add: previous_None assms(1))
  show "fst (update_onMutate qc p c) = None"
    using assms by (simp add: update_onMutate_def prev Let_def truthy_def)
  show "getQueryData qc j (snd (update_onMutate qc p c)) = getQueryData qc j c"
    using assms a by (cases "getQueryData qc j c")
      (auto simp: update_onMutate_def prev Let_def truthy_def get_patch intro!: patch_data_absent)
qed

lemma onMutate_known:
  assumes "memo_copies qc n c = {m}" "p_name p = Some n" "n \<noteq> []"
  shows "fst (update_onMutate qc p c) = Some m"
    "getQueryData qc j (snd (update_onMutate qc p c)) =
       (if j = memoKeys_detail n then Some (MemoData (spread m p))
        else map_option (\<lambda>d. if prefix memoKeys_all j then upd_data (patchMemoListQueryData n p) d else d) (getQueryData qc j c))"
proof -
  have prev: "previous_memo qc n (cancelQueries qc memoKeys_all c) = Some m"
    using previous_None[of n "cancelQueries qc memoKeys_all c"] previous_Some[of n "cancelQueries qc memoKeys_all c"] assms(1)
    by (cases "previous_memo qc n (cancelQueries qc memoKeys_all c)") auto
  show "fst (update_onMutate qc p c) = Some m"
    using assms by (simp add: update_onMutate_def prev Let_def truthy_def)
  show "getQueryData qc j (snd (update_onMutate qc p c)) =
       (if j = memoKeys_detail n then Some (MemoData (spread m p))
        else map_option (\<lambda>d. if prefix memoKeys_all j then upd_data (patchMemoListQueryData n p) d else d) (getQueryData qc j c))"
    using assms by (simp add: update_onMutate_def prev Let_def truthy_def get_patch get_set)
qed

lemma onMutate_copies:
  assumes "memo_copies qc n c = {m}" "p_name p = Some n" "n \<noteq> []"
  shows "memo_copies qc n (snd (update_onMutate qc p c)) = {spread m p}"
proof -
  have "x = spread m p"
    if x: "memo_name x = n" "prefix memoKeys_all j" "getQueryData qc j (snd (update_onMutate qc p c)) = Some d" "x \<in> set (collection_memos d)" for x j d
  proof (cases "j = memoKeys_detail n")
    case False
    then obtain d' where d': "getQueryData qc j c = Some d'" "d = upd_data (patchMemoListQueryData n p) d'"
      using x(2,3) by (auto simp: onMutate_known[OF assms])
    then obtain y where y: "y \<in> set (collection_memos d')" "x = (if memo_name y \<noteq> n then y else spread y p)"
      using x(4) by (auto simp: patch_data_memos)
    then have "memo_name y = n" using x(1) by (auto split: if_splits)
    moreover have "y = m" using copies_list[OF x(2) d'(1) y(1) \<open>memo_name y = n\<close>] assms(1) by simp
    ultimately show ?thesis using y(2) by simp
  qed (use x in \<open>auto simp: onMutate_known[OF assms]\<close>)
  then show ?thesis
    unfolding memo_copies_def by (auto simp: onMutate_known[OF assms])
qed

lemma rollback_known:
  assumes "memo_copies qc n c = {m}" "memo_name m = n" "p_name p = Some n" "n \<noteq> []" "adds_nothing p m"
  shows "getQueryData qc j (update_onError qc p (Some m) (snd (update_onMutate qc p c))) =
    (if j = memoKeys_detail n then Some (MemoData m) else getQueryData qc j c)"
proof (cases "getQueryData qc j c")
  case (Some d)
  have "upd_data (patchMemoListQueryData n (memo_patch m)) (upd_data (patchMemoListQueryData n p) d) = d" if "prefix memoKeys_all j"
    using that assms Some copies_list[of j c d] by (intro restore_data) auto
  then show ?thesis
    using assms Some by (auto simp: update_onError_def truthy_def get_patch get_set onMutate_known[OF assms(1,3,4)])
qed (use assms in \<open>auto simp: update_onError_def truthy_def get_patch get_set onMutate_known[OF assms(1,3,4)]\<close>)

text \<open>After an answer of the server.\<close>

lemma onSuccess_get:
  "getQueryData qc j (update_onSuccess qc m c) =
     (if j = memoKeys_detail (memo_name m) then Some (MemoData m)
      else map_option (\<lambda>d. if prefix memoKeys_all j then upd_data (patchMemoListQueryData (memo_name m) (memo_patch m)) d else d)
             (getQueryData qc j c))"
  by (simp add: update_onSuccess_def Let_def get_patch get_set)

lemma onSuccess_invalidated:
  assumes "getQueryData qc j c \<noteq> None" "prefix memoKeys_lists j"
  shows "isInvalidated qc j (update_onSuccess qc m c)"
  using assms by (auto simp: update_onSuccess_def Let_def invalidated get_patch get_set)

end

text \<open>A memo that is not cached: the failed update changes no data and invalidates all memo queries.\<close>

lemma update_unknown_failed:
  assumes "client_laws qc" "p_name p = Some n" "n \<noteq> []" "memo_copies qc n c = {}" "server p msk = Inl e"
  shows "getQueryData qc j (snd (updateMemo_mutation qc server p msk c)) = getQueryData qc j c"
    "prefix memoKeys_all j \<Longrightarrow> getQueryData qc j c \<noteq> None \<Longrightarrow> isInvalidated qc j (snd (updateMemo_mutation qc server p msk c))"
proof -
  have q: "query_cache qc" using assms(1) by (simp add: query_cache_def)
  note u = query_cache.onMutate_unknown[OF q assms(4,2,3)]
  show "getQueryData qc j (snd (updateMemo_mutation qc server p msk c)) = getQueryData qc j c"
    using assms u(2)[of j] by (simp add: updateMemo_mutation_def split_beta u(1) update_onError_def query_cache.get_invalidate[OF q])
  show "isInvalidated qc j (snd (updateMemo_mutation qc server p msk c))" if "prefix memoKeys_all j" "getQueryData qc j c \<noteq> None"
    using assms that u(2)[of j] by (simp add: updateMemo_mutation_def split_beta u(1) update_onError_def query_cache.invalidated[OF q])
qed

text \<open>C35. Optimistic updates are transparent. Suppose every cached copy of the updated memo (in its detail
  query and in all cached lists) is the same memo \<open>m\<close> and the patch adds no optional field that \<open>m\<close> lacks.
  While the request runs, every copy is \<open>m\<close> with the patch. When the server rejects the update, the cached data of every
  query is what it was before the update, except that the detail query now holds \<open>m\<close>. When the
  server answers with the updated memo, the detail query holds that answer, and every cached list is
  marked for a refetch.\<close>

theorem update_optimistic_transparent:
  assumes "client_laws qc" "p_name p = Some n" "n \<noteq> []" "memo_copies qc n c = {m}" "memo_name m = n" "adds_nothing p m"
  shows "memo_copies qc n (snd (update_onMutate qc p c)) = {spread m p} \<and>
    (\<forall>e. server p msk = Inl e \<longrightarrow> (\<forall>j. getQueryData qc j (snd (updateMemo_mutation qc server p msk c)) =
       (if j = memoKeys_detail n then Some (MemoData m) else getQueryData qc j c))) \<and>
    (\<forall>m'. server p msk = Inr m' \<longrightarrow>
       getQueryData qc (memoKeys_detail (memo_name m')) (snd (updateMemo_mutation qc server p msk c)) = Some (MemoData m') \<and>
       (\<forall>j. prefix memoKeys_lists j \<and> getQueryData qc j c \<noteq> None \<longrightarrow>
          isInvalidated qc j (snd (updateMemo_mutation qc server p msk c))))"
proof -
  have q: "query_cache qc" using assms(1) by (simp add: query_cache_def)
  note k = query_cache.onMutate_known[OF q assms(4,2,3)]
  have "getQueryData qc j (snd (updateMemo_mutation qc server p msk c)) =
      (if j = memoKeys_detail n then Some (MemoData m) else getQueryData qc j c)" if "server p msk = Inl e" for e j
    using query_cache.rollback_known[OF q assms(4,5,2,3,6)] that
    by (simp add: updateMemo_mutation_def split_beta k(1))
  moreover have "getQueryData qc (memoKeys_detail (memo_name m')) (snd (updateMemo_mutation qc server p msk c)) = Some (MemoData m')"
    if "server p msk = Inr m'" for m'
    using that by (simp add: updateMemo_mutation_def split_beta query_cache.onSuccess_get[OF q])
  moreover have "isInvalidated qc j (snd (updateMemo_mutation qc server p msk c))"
    if "server p msk = Inr m'" "prefix memoKeys_lists j" "getQueryData qc j c \<noteq> None" for m' j
    using that query_cache.onSuccess_invalidated[OF q, of j "snd (update_onMutate qc p c)" m'] k(2)[of j]
    by (auto simp: updateMemo_mutation_def split_beta)
  ultimately show ?thesis
    using query_cache.onMutate_copies[OF q assms(4,2,3)] by blast
qed

definition demo_memo :: Memo where
  "demo_memo = default_memo\<lparr>memo_name := ''memos/a'', memo_content := ''text''\<rparr>"

definition demo_cache :: alist_cache where
  "demo_cache = [(memoKeys_list \<lparr>pl_pageSize = None, pl_pageToken = None, pl_state = None, pl_orderBy = None,
     pl_filter = None, pl_showDeleted = None\<rparr>,
     ListData \<lparr>lr_memos = [demo_memo, default_memo\<lparr>memo_name := ''memos/b''\<rparr>], lr_nextPageToken = [], lr_totalSize = None\<rparr>, False)]"

lemma demo_copies: "memo_copies alist_client ''memos/a'' demo_cache = {demo_memo}"
  by (auto simp: memo_copies_def alist_client_def demo_cache_def demo_memo_def collection_memos_def map_get_def key_defs
      split: if_splits)

theorem update_optimistic_transparent_witness:
  "memo_copies alist_client ''memos/a''
     (snd (update_onMutate alist_client (empty_patch\<lparr>p_name := Some ''memos/a'', p_pinned := Some True\<rparr>) demo_cache)) =
   {spread demo_memo (empty_patch\<lparr>p_name := Some ''memos/a'', p_pinned := Some True\<rparr>)}"
  using update_optimistic_transparent[of alist_client "empty_patch\<lparr>p_name := Some ''memos/a'', p_pinned := Some True\<rparr>"
      "''memos/a''" demo_cache demo_memo "\<lambda>p msk. Inl (Thrown [])" "[''pinned'']"]
  by (simp add: qa.laws demo_copies) (simp add: demo_memo_def adds_nothing_def empty_patch_def)

end
