(* ===== verification/LiveRefresh.thy ===== *)
theory LiveRefresh
  imports MemoCache OAuth
begin

text \<open>
  The live refresh of \<open>hooks/useLiveMemoRefresh.ts\<close>: connecting to the server's event stream, cutting the
  stream into messages, reacting to change events in the query cache, and reconnecting with backoff.

  The state is that of one mounted hook; its steps are the ends of the asynchronous operations: an
  attempt to connect, a chunk that was read, the end of the stream, unmounting. A chunk is the text that the
  stream decoder returns.
\<close>

section \<open>Connection state\<close>

definition INITIAL_RETRY_DELAY_MS :: int where "INITIAL_RETRY_DELAY_MS = 1000"
definition MAX_RETRY_DELAY_MS :: int where "MAX_RETRY_DELAY_MS = 30000"
definition RETRY_BACKOFF_MULTIPLIER :: int where "RETRY_BACKOFF_MULTIPLIER = 2"

datatype SSEConnectionStatus = Connected | Disconnected | Connecting

datatype phase = Idle | AwaitToken | AwaitStream | Reading

text \<open>\<open>lv_phase\<close> is the point at which \<open>connect\<close> waits; \<open>lv_signal\<close> says that the current abort controller was used; \<open>lv_timer\<close> is the delay of a pending reconnection; \<open>lv_notified\<close> are the status values the listeners of the status
  store were told of.\<close>

record live =
  lv_status :: SSEConnectionStatus
  lv_notified :: "SSEConnectionStatus list"
  retryDelay :: int
  hasConnectedOnce :: bool
  lv_mounted :: bool
  lv_buffer :: string
  lv_timer :: "int option"
  lv_phase :: phase
  lv_signal :: bool

definition live_init :: live where
  "live_init = \<lparr>lv_status = Disconnected, lv_notified = [], retryDelay = INITIAL_RETRY_DELAY_MS, hasConnectedOnce = False,
     lv_mounted = True, lv_buffer = [], lv_timer = None, lv_phase = Idle, lv_signal = False\<rparr>"

definition setSSEStatus :: "SSEConnectionStatus \<Rightarrow> live \<Rightarrow> live" where
  "setSSEStatus s l = (if lv_status l \<noteq> s then l\<lparr>lv_status := s, lv_notified := lv_notified l @ [s]\<rparr> else l)"

section \<open>Events\<close>

definition event_key :: "json option \<Rightarrow> key_part" where
  "event_key v = (case v of Some (JStr s) \<Rightarrow> KStr s | _ \<Rightarrow> KOther v)"

definition event_detail :: "json \<Rightarrow> query_key" where
  "event_detail ev = memoKeys_details @ [event_key (prop_of ev ''name'')]"

definition event_comments :: "string \<Rightarrow> json \<Rightarrow> query_key" where
  "event_comments field ev = memoKeys_all @ [KStr ''comments'', event_key (prop_of ev field)]"

definition invalidate_parent :: "'c query_client \<Rightarrow> json \<Rightarrow> 'c \<Rightarrow> 'c" where
  "invalidate_parent qc ev c =
     (if \<not> falsy_json (prop_of ev ''parent'') then invalidateQueries qc (event_comments ''parent'' ev) c else c)"

text \<open>\<open>handleSSEEvent\<close> on a parsed payload. Reading the type of \<open>null\<close> throws, which the caller ignores.\<close>

definition handleSSEEvent :: "'c query_client \<Rightarrow> json \<Rightarrow> 'c \<Rightarrow> 'c" where
  "handleSSEEvent qc ev c = (case prop_of ev ''type'' of
     Some (JStr t) \<Rightarrow>
       if t = ''memo.created'' then invalidateQueries qc userKeys_stats (invalidateQueries qc memoKeys_lists c)
       else if t = ''memo.updated'' then
         invalidate_parent qc ev (invalidateQueries qc memoKeys_lists (invalidateQueries qc (event_detail ev) c))
       else if t = ''memo.deleted'' then
         invalidateQueries qc userKeys_stats (invalidateQueries qc memoKeys_lists (removeQueries qc (event_detail ev) c))
       else if t = ''memo.comment.created'' then
         invalidateQueries qc (event_detail ev) (invalidateQueries qc (event_comments ''name'' ev) c)
       else if t = ''reaction.upserted'' \<or> t = ''reaction.deleted'' then
         invalidate_parent qc ev (invalidateQueries qc memoKeys_lists (invalidateQueries qc (event_detail ev) c))
       else c
   | _ \<Rightarrow> c)"

section \<open>The stream\<close>

definition sep2 :: string where "sep2 = [newline, newline]"

text \<open>The payloads of a message: its data lines that are JSON.\<close>

definition line_payload :: "string \<Rightarrow> json list" where
  "line_payload line =
     (if starts_with line ''data: '' then (case json_parse (drop 6 line) of None \<Rightarrow> [] | Some v \<Rightarrow> [v]) else [])"

definition message_payloads :: "string \<Rightarrow> json list" where
  "message_payloads message = (if trim message = [] then [] else concat (map line_payload (split_on newline message)))"

text \<open>One turn of the reading loop: the payloads in order and the new buffer.\<close>

definition feed :: "string \<Rightarrow> string \<Rightarrow> json list \<times> string" where
  "feed buffer chunk =
     (let messages = split_by sep2 (buffer @ chunk)
      in (concat (map message_payloads (butlast messages)), last messages))"

definition live_read :: "'c query_client \<Rightarrow> string \<Rightarrow> live \<times> 'c \<Rightarrow> live \<times> 'c" where
  "live_read qc chunk st =
     (let (l, c) = st; (events, buffer) = feed (lv_buffer l) chunk
      in (l\<lparr>lv_buffer := buffer\<rparr>, fold (handleSSEEvent qc) events c))"

section \<open>Connecting\<close>

text \<open>The result of a request for the stream, and what an attempt to open it comes to: after a 401 answer the token is
  refreshed, read again and the request repeated.\<close>

datatype fetch_result = Response int bool | FetchAborted | FetchFailed

record attempt =
  at_fetch :: fetch_result
  at_refresh :: bool
  at_token2 :: "string option"
  at_fetch2 :: fetch_result

datatype connect_result = Opened | Aborted | Lost

definition stream_result :: "fetch_result \<Rightarrow> connect_result" where
  "stream_result r = (case r of
     Response status body \<Rightarrow> if \<not> (200 \<le> status \<and> status \<le> 299) \<or> \<not> body then Lost else Opened
   | FetchAborted \<Rightarrow> Aborted
   | FetchFailed \<Rightarrow> Lost)"

definition attempt_result :: "attempt \<Rightarrow> connect_result" where
  "attempt_result a = (case at_fetch a of
     Response status body \<Rightarrow>
       if status = 401 then
         (if \<not> at_refresh a \<or> \<not> truthy (at_token2 a) then Lost else stream_result (at_fetch2 a))
       else stream_result (at_fetch a)
   | _ \<Rightarrow> stream_result (at_fetch a))"

text \<open>After the stream ended or failed.\<close>

definition live_lost :: "live \<Rightarrow> live" where
  "live_lost l =
     (let l1 = setSSEStatus Disconnected (l\<lparr>lv_phase := Idle\<rparr>) in
      if lv_mounted l1
      then l1\<lparr>lv_timer := Some (retryDelay l1), retryDelay := min (retryDelay l1 * RETRY_BACKOFF_MULTIPLIER) MAX_RETRY_DELAY_MS\<rparr>
      else l1)"

text \<open>\<open>connect\<close>, until it waits for the token. The timer that started it has fired.\<close>

definition live_connect :: "string option \<Rightarrow> live \<Rightarrow> live" where
  "live_connect currentUserName l0 =
     (let l = l0\<lparr>lv_timer := None\<rparr> in
      if \<not> lv_mounted l then l
      else if \<not> truthy currentUserName then setSSEStatus Disconnected l
      else l\<lparr>lv_phase := AwaitToken\<rparr>)"

definition live_token :: "string option \<Rightarrow> live \<Rightarrow> live" where
  "live_token token l =
     (if \<not> truthy token then setSSEStatus Disconnected (l\<lparr>lv_phase := Idle\<rparr>)
      else setSSEStatus Connecting (l\<lparr>lv_phase := AwaitStream, lv_signal := False\<rparr>))"

text \<open>The answer to the request. The reading loop starts only in a mounted hook; otherwise \<open>connect\<close> goes on to
  its end.\<close>

definition live_opened :: "'c query_client \<Rightarrow> live \<times> 'c \<Rightarrow> live \<times> 'c" where
  "live_opened qc st =
     (let (l, c) = st;
          l1 = setSSEStatus Connected (l\<lparr>retryDelay := INITIAL_RETRY_DELAY_MS\<rparr>);
          c1 = (if hasConnectedOnce l1 then invalidateQueries qc userKeys_stats (invalidateQueries qc memoKeys_all c) else c);
          l2 = l1\<lparr>hasConnectedOnce := True, lv_buffer := [], lv_phase := Reading\<rparr>
      in (if lv_mounted l2 then l2 else live_lost l2, c1))"

definition live_answer :: "'c query_client \<Rightarrow> attempt \<Rightarrow> live \<times> 'c \<Rightarrow> live \<times> 'c" where
  "live_answer qc a st = (case attempt_result a of
     Opened \<Rightarrow> live_opened qc st
   | Aborted \<Rightarrow> (setSSEStatus Disconnected ((fst st)\<lparr>lv_phase := Idle\<rparr>), snd st)
   | Lost \<Rightarrow> (live_lost (fst st), snd st))"

definition live_aborted :: "live \<Rightarrow> live" where
  "live_aborted l = setSSEStatus Disconnected (l\<lparr>lv_phase := Idle\<rparr>)"

definition live_unmount :: "live \<Rightarrow> live" where
  "live_unmount l =
     (setSSEStatus Disconnected (l\<lparr>lv_mounted := False\<rparr>))\<lparr>retryDelay := INITIAL_RETRY_DELAY_MS, lv_timer := None, lv_signal := True\<rparr>"

text \<open>The steps of the hook: each event of a phase of \<open>connect\<close>, and unmounting at any time. A request whose
  controller was used ends with an abort error.\<close>

datatype live_event = Start "string option" | Token "string option" | Answer attempt | Chunk string | StreamEnd | StreamAborted | Unmount

inductive live_step :: "'c query_client \<Rightarrow> live_event \<Rightarrow> live \<times> 'c \<Rightarrow> live \<times> 'c \<Rightarrow> bool" for qc where
  start: "lv_phase l = Idle \<Longrightarrow> live_step qc (Start user) (l, c) (live_connect user l, c)"
| token: "lv_phase l = AwaitToken \<Longrightarrow> live_step qc (Token t) (l, c) (live_token t l, c)"
| answer: "lv_phase l = AwaitStream \<Longrightarrow> (lv_signal l \<longrightarrow> attempt_result a = Aborted) \<Longrightarrow>
    live_step qc (Answer a) (l, c) (live_answer qc a (l, c))"
| chunk: "lv_phase l = Reading \<Longrightarrow> lv_mounted l \<Longrightarrow> live_step qc (Chunk s) (l, c) (live_read qc s (l, c))"
| stream_end: "lv_phase l = Reading \<Longrightarrow> live_step qc StreamEnd (l, c) (live_lost l, c)"
| aborted: "lv_phase l = Reading \<Longrightarrow> live_step qc StreamAborted (l, c) (live_aborted l, c)"
| unmount: "lv_mounted l \<Longrightarrow> live_step qc Unmount (l, c) (live_unmount l, c)"

inductive_cases live_stepE: "live_step qc ev st st'"

inductive live_reach :: "'c query_client \<Rightarrow> 'c \<Rightarrow> live \<times> 'c \<Rightarrow> bool" for qc c0 where
  init: "live_reach qc c0 (live_init, c0)"
| step: "live_reach qc c0 st \<Longrightarrow> live_step qc ev st st' \<Longrightarrow> live_reach qc c0 st'"

section \<open>Cutting the stream\<close>

lemma split_str_not_Nil [simp]: "split_str n sep s \<noteq> []"
  by (cases n) (auto split: list.splits)

lemma split_str_fuel: "sep \<noteq> [] \<Longrightarrow> length s < n \<Longrightarrow> split_str n sep s = split_by sep s"
proof (induction n arbitrary: s rule: less_induct)
  case (less n)
  have "split_str n sep s = split_str m sep s" if "length s < n" "length s < m" "m \<le> n" for m
    using less.prems(1) that
  proof (induction m arbitrary: n s)
    case (Suc m)
    then obtain k where n: "n = Suc k" by (cases n) auto
    have "split_str k sep (drop (length sep) s) = split_str m sep (drop (length sep) s)" if "s \<noteq> []"
      using Suc.prems that by (intro Suc.IH; cases sep; cases s) (auto simp: n)
    moreover have "split_str k sep r = split_str m sep r" if "s = c # r" for c r
      using Suc.prems that by (intro Suc.IH) (auto simp: n)
    ultimately show ?case using Suc.prems(1) by (cases s) (auto simp: n)
  qed simp
  from this[of "Suc (length s)"] show ?case using less.prems(2) by (simp add: split_by_def)
qed

lemma split_by_not_Nil [simp]: "split_by sep s \<noteq> []"
  unfolding split_by_def by (rule split_str_not_Nil)

lemma split_by_Nil: "sep \<noteq> [] \<Longrightarrow> split_by sep [] = [[]]"
  by (simp add: split_by_def)

lemma split_by_sep: "sep \<noteq> [] \<Longrightarrow> split_by sep (sep @ s) = [] # split_by sep s"
  using split_str_fuel[of sep s "length (sep @ s)"] by (simp add: split_by_def)

lemma split_by_Cons: "sep \<noteq> [] \<Longrightarrow> \<not> prefix sep (c # s) \<Longrightarrow>
    split_by sep (c # s) = (c # hd (split_by sep s)) # tl (split_by sep s)"
proof -
  assume a: "sep \<noteq> []" "\<not> prefix sep (c # s)"
  have "split_by sep (c # s) = (case split_str (length (c # s)) sep s of [] \<Rightarrow> [[c]] | y # ys \<Rightarrow> (c # y) # ys)"
    unfolding split_by_def[of sep "c # s"] using a(2) by simp
  also have "split_str (length (c # s)) sep s = split_by sep s" by (rule split_str_fuel[OF a(1)]) simp
  finally show ?thesis using split_by_not_Nil[of sep s] by (cases "split_by sep s") simp_all
qed

lemma join_split_by:
  assumes "sep \<noteq> []"
  shows "join sep (split_by sep s) = s"
proof (induction "length s" arbitrary: s rule: less_induct)
  case less
  show ?case
  proof (cases "prefix sep s")
    case True
    then obtain r where r: "s = sep @ r" by (auto simp: prefix_def)
    then show ?thesis using less[of r] assms by (simp add: split_by_sep join_Cons)
  next
    case False
    show ?thesis
    proof (cases s)
      case (Cons c r)
      then have "join sep (split_by sep r) = r" using less by simp
      then show ?thesis using False Cons split_by_Cons[OF assms, of c r]
        by (cases "split_by sep r"; cases "tl (split_by sep r) = []") (auto simp: join_Cons)
    qed (use assms in \<open>simp add: split_by_Nil\<close>)
  qed
qed

lemma split_by_single: "sep \<noteq> [] \<Longrightarrow> tl (split_by sep s) = [] \<Longrightarrow> split_by sep s = [s]"
  using join_split_by[of sep s] by (cases "split_by sep s") auto

lemma split_by_longer: "sep \<noteq> [] \<Longrightarrow> tl (split_by sep s) \<noteq> [] \<Longrightarrow> length sep \<le> length s"
  using arg_cong[OF join_split_by[of sep s], of length] by (cases "split_by sep s") (auto simp: join_Cons)

lemma split_by_append:
  assumes "sep \<noteq> []"
  shows "split_by sep (s @ t) = butlast (split_by sep s) @ split_by sep (last (split_by sep s) @ t)"
proof (induction "length s" arbitrary: s rule: less_induct)
  case less
  show ?case
  proof (cases "prefix sep s")
    case True
    then obtain r where r: "s = sep @ r" by (auto simp: prefix_def)
    have "split_by sep (r @ t) = butlast (split_by sep r) @ split_by sep (last (split_by sep r) @ t)"
      using assms r by (intro less) simp
    then show ?thesis using assms by (simp add: r split_by_sep)
  next
    case False
    show ?thesis
    proof (cases s)
      case (Cons c r)
      have IH: "split_by sep (r @ t) = butlast (split_by sep r) @ split_by sep (last (split_by sep r) @ t)"
        using Cons by (intro less) simp
      have e: "split_by sep s = (c # hd (split_by sep r)) # tl (split_by sep r)"
        using False Cons split_by_Cons[OF assms] by simp
      show ?thesis
      proof (cases "tl (split_by sep r) = []")
        case True
        then have "split_by sep r = [r]" by (rule split_by_single[OF assms])
        then show ?thesis using e Cons by simp
      next
        case ne: False
        have "\<not> prefix sep ((c # r) @ t)"
          using split_by_longer[OF assms ne] False Cons prefix_append[of sep "c # r" t] by auto
        then have "split_by sep (c # (r @ t)) = (c # hd (split_by sep (r @ t))) # tl (split_by sep (r @ t))"
          by (intro split_by_Cons[OF assms]) simp
        moreover have "split_by sep r = hd (split_by sep r) # tl (split_by sep r)" by simp
        ultimately show ?thesis using e IH Cons ne by (metis append_Cons butlast.simps(2) last.simps list.sel)
      qed
    qed (use assms in \<open>simp add: split_by_Nil\<close>)
  qed
qed


text \<open>The buffer never holds a complete message.\<close>

definition buffer_ok :: "live \<Rightarrow> bool" where
  "buffer_ok l \<longleftrightarrow> split_by sep2 (lv_buffer l) = [lv_buffer l]"

lemma sep2_not_Nil [simp]: "sep2 \<noteq> []"
  by (simp add: sep2_def)

lemma split_by_last: "sep \<noteq> [] \<Longrightarrow> split_by sep (last (split_by sep s)) = [last (split_by sep s)]"
  by (metis append_Nil2 append_butlast_last_id same_append_eq split_by_append split_by_not_Nil)

lemma live_read_buffer_ok: "buffer_ok (fst (live_read qc s st))"
  by (simp add: live_read_def feed_def buffer_ok_def split_beta Let_def split_by_last)

lemma feed_append: "feed b (s @ t) = (let (e1, b1) = feed b s; (e2, b2) = feed b1 t in (e1 @ e2, b2))"
  using split_by_append[OF sep2_not_Nil, of "b @ s" t]
  by (simp add: feed_def Let_def butlast_append)

lemma live_read_append: "live_read qc (s @ t) st = live_read qc t (live_read qc s st)"
  by (cases st) (simp add: live_read_def feed_append split_beta Let_def)

lemma live_read_Nil: "buffer_ok (fst st) \<Longrightarrow> live_read qc [] st = st"
  by (cases st) (simp add: live_read_def feed_def buffer_ok_def)


section \<open>Properties\<close>

lemma live_read_fold: "buffer_ok (fst st) \<Longrightarrow> fold (live_read qc) chunks st = live_read qc (concat chunks) st"
proof (induction chunks arbitrary: st)
  case (Cons s chunks)
  show ?case using Cons.IH[OF live_read_buffer_ok] by (simp add: live_read_append)
qed (simp add: live_read_Nil)

lemma status_simps [simp]:
  "lv_status (setSSEStatus s l) = s" "retryDelay (setSSEStatus s l) = retryDelay l" "lv_mounted (setSSEStatus s l) = lv_mounted l"
  "lv_timer (setSSEStatus s l) = lv_timer l" "lv_phase (setSSEStatus s l) = lv_phase l" "lv_buffer (setSSEStatus s l) = lv_buffer l"
  "hasConnectedOnce (setSSEStatus s l) = hasConnectedOnce l" "lv_signal (setSSEStatus s l) = lv_signal l"
  by (simp_all add: setSSEStatus_def)

lemmas delay_defs = INITIAL_RETRY_DELAY_MS_def MAX_RETRY_DELAY_MS_def RETRY_BACKOFF_MULTIPLIER_def

definition delay_ok :: "int \<Rightarrow> bool" where
  "delay_ok d \<longleftrightarrow> INITIAL_RETRY_DELAY_MS \<le> d \<and> d \<le> MAX_RETRY_DELAY_MS"

definition live_inv :: "live \<Rightarrow> bool" where
  "live_inv l \<longleftrightarrow> delay_ok (retryDelay l) \<and> (\<forall>d. lv_timer l = Some d \<longrightarrow> delay_ok d \<and> lv_mounted l \<and> lv_phase l = Idle) \<and>
     buffer_ok l \<and> (lv_status l = Connected \<longleftrightarrow> lv_phase l = Reading \<and> lv_mounted l) \<and>
     (lv_phase l = Idle \<longrightarrow> lv_status l = Disconnected)"

lemma live_lost_inv: "live_inv l \<Longrightarrow> live_inv (live_lost l)"
  by (auto simp: live_inv_def live_lost_def Let_def delay_ok_def delay_defs buffer_ok_def)

lemma live_opened_inv: "live_inv l \<Longrightarrow> lv_phase l = AwaitStream \<Longrightarrow> live_inv (fst (live_opened qc (l, c)))"
  by (auto simp: live_opened_def live_inv_def live_lost_def Let_def delay_ok_def delay_defs buffer_ok_def split_by_Nil)

lemma live_step_inv:
  assumes "live_step qc ev st st'" "live_inv (fst st)"
  shows "live_inv (fst st')"
  using assms
proof cases
  case (chunk l s c)
  then show ?thesis
    using assms(2) live_read_buffer_ok[of qc s st] by (auto simp: live_inv_def live_read_def split_beta Let_def buffer_ok_def)
next
  case (answer l a c)
  then show ?thesis using assms(2) live_opened_inv[of l qc c] live_lost_inv[of l]
    by (auto simp: live_answer_def live_inv_def buffer_ok_def split: connect_result.splits)
qed (auto simp: live_inv_def live_connect_def live_token_def live_lost_def live_aborted_def live_unmount_def Let_def
    delay_ok_def delay_defs buffer_ok_def)

lemma live_reach_inv: "live_reach qc c0 st \<Longrightarrow> live_inv (fst st)"
proof (induction rule: live_reach.induct)
  case init
  show ?case by (simp add: live_inv_def live_init_def delay_ok_def delay_defs buffer_ok_def split_by_Nil)
qed (auto intro: live_step_inv)


text \<open>C30. How the network cuts the event stream does not matter: from every reachable state, reading a
  sequence of chunks one after the other has the effect of reading their concatenation at once, on the
  query cache (the same events are handled in the same order) and on the buffered rest.\<close>

theorem stream_chunking:
  assumes "live_reach qc c0 (l, c)"
  shows "fold (live_read qc) chunks (l, c) = live_read qc (concat chunks) (l, c)"
  using live_reach_inv[OF assms] by (intro live_read_fold) (simp add: live_inv_def)

theorem stream_chunking_witness:
  "fold (live_read alist_client) [''data: 1'' @ [newline], [newline] @ ''dat''] (live_init, []) =
   live_read alist_client (''data: 1'' @ [newline, newline] @ ''dat'') (live_init, [])"
  using stream_chunking[OF live_reach.init[of alist_client "[]"], of "[''data: 1'' @ [newline], [newline] @ ''dat'']"] by simp



definition demo_ok :: attempt where
  "demo_ok = \<lparr>at_fetch = Response 200 True, at_refresh = True, at_token2 = None, at_fetch2 = FetchFailed\<rparr>"

text \<open>A stale connection: a hook that is unmounted while it waits for its token (before its abort controller exists)
  still opens the stream afterwards. It reports connecting, connected and disconnected to the shared status store although
  it is not mounted any more.\<close>

theorem stale_connection:
  "\<exists>l c. live_reach alist_client [] (l, c) \<and> \<not> lv_mounted l \<and> lv_notified l = [Connecting, Connected, Disconnected]"
proof -
  let ?l1 = "live_connect (Some ''users/a'') live_init"
  let ?l2 = "live_unmount ?l1"
  let ?l3 = "live_token (Some ''t'') ?l2"
  let ?s4 = "live_answer alist_client demo_ok (?l3, [])"
  have s1: "live_step alist_client (Start (Some ''users/a'')) (live_init, []) (?l1, [])"
    by (rule live_step.start) (simp add: live_init_def)
  have s2: "live_step alist_client Unmount (?l1, []) (?l2, [])"
    by (rule live_step.unmount) (simp add: live_init_def live_connect_def truthy_def Let_def)
  have s3: "live_step alist_client (Token (Some ''t'')) (?l2, []) (?l3, [])"
    by (rule live_step.token) (simp add: live_init_def live_connect_def live_unmount_def truthy_def Let_def)
  have s4: "live_step alist_client (Answer demo_ok) (?l3, []) ?s4"
    by (rule live_step.answer) (simp_all add: live_token_def truthy_def)
  have "live_reach alist_client [] ?s4"
    by (rule live_reach.step[OF live_reach.step[OF live_reach.step[OF live_reach.step[OF live_reach.init s1] s2] s3] s4])
  moreover have "\<not> lv_mounted (fst ?s4)" "lv_notified (fst ?s4) = [Connecting, Connected, Disconnected]"
    by code_simp+
  ultimately show ?thesis by (metis prod.collapse)
qed

end
