(* ===== verification/Markdown.thy ===== *)
theory Markdown
  imports Json
begin

text \<open>
  Markdown text operations: bulk and single changes of task markers
  (\<open>utils/markdown-task-actions.ts\<close>, \<open>utils/markdown-manipulation.ts\<close>), headings and their anchors
  (also \<open>utils/rehype-plugins/rehype-heading-id.ts\<close>), and list continuation
  (\<open>utils/markdown-list-detection.ts\<close>).

  The markdown parser is a third-party package: the definitions take it as the parameter \<open>parse\<close>, a
  function from texts to trees that may throw (\<open>None\<close>). \<open>unist-util-visit\<close> calls its visitor in
  preorder. Line numbers of a position start at 1.
\<close>

section \<open>Trees\<close>

datatype mdast = Mdast (md_type: string) (md_value: "string option") (md_depth: nat)
  (md_checked: "bool option") (md_line: "nat option") (md_children: "mdast list")

fun preorder :: "mdast \<Rightarrow> mdast list" where
  "preorder (Mdast t v d c l cs) = Mdast t v d c l cs # concat (map preorder cs)"

definition visit :: "string \<Rightarrow> mdast \<Rightarrow> mdast list" where
  "visit ty tree = filter (\<lambda>n. md_type n = ty) (preorder tree)"

section \<open>Bulk task actions\<close>

record ParsedTaskItem =
  pt_checked :: bool
  pt_start :: nat
  pt_end :: nat

record MarkdownEdit =
  ed_start :: int
  ed_end :: int
  replacement :: string

record LineInfo =
  li_text :: string
  startOffset :: nat
  endOffset :: nat

definition getLineStarts :: "string \<Rightarrow> nat list" where
  "getLineStarts markdown = 0 # map Suc (filter (\<lambda>i. markdown ! i = newline) [0..<length markdown])"

definition getLineInfo :: "string \<Rightarrow> nat list \<Rightarrow> nat \<Rightarrow> LineInfo option" where
  "getLineInfo markdown lineStarts lineNumber =
     (if lineNumber < length lineStarts then
        let s = lineStarts ! lineNumber;
            e = (if lineNumber + 1 < length lineStarts then lineStarts ! (lineNumber + 1) - 1 else length markdown)
        in Some \<lparr>li_text = slice s e markdown, startOffset = s, endOffset = e\<rparr>
      else None)"

text \<open>The matches of \<open>[-*+]\<close> or \<open>\d+[.)]\<close>, and of \<open>\[[ xX]\]\<close>, at the start of a text: the rest after it.
  No character of a bullet or a number is a space, so that the longest run of spaces before it is the only
  one that can match.\<close>

definition is_bullet :: "char \<Rightarrow> bool" where
  "is_bullet c \<longleftrightarrow> c \<in> set ''-*+''"

definition list_marker :: "string \<Rightarrow> (string \<times> string) option" where
  "list_marker s = (case s of [] \<Rightarrow> None | c # r \<Rightarrow>
     if is_bullet c then Some ([c], r)
     else let ds = takeWhile is_digit s in
       (case dropWhile is_digit s of
          d # r' \<Rightarrow> if ds \<noteq> [] \<and> d \<in> set ''.)'' then Some (ds @ [d], r') else None
        | [] \<Rightarrow> None))"

definition checkbox :: "string \<Rightarrow> (char \<times> string) option" where
  "checkbox s = (case s of
     a # m # b # r \<Rightarrow> if a = CHR ''['' \<and> m \<in> set '' xX'' \<and> b = CHR '']'' then Some (m, r) else None
   | _ \<Rightarrow> None)"

text \<open>\<open>TASK_LINE_REGEXP\<close>: the offset of the character between the brackets.\<close>

definition task_line_marker :: "string \<Rightarrow> nat option" where
  "task_line_marker s =
     (let s1 = takeWhile is_space s in
      case list_marker (dropWhile is_space s) of
        None \<Rightarrow> None
      | Some (mk, r) \<Rightarrow>
          let s2 = takeWhile is_space r in
          if s2 = [] then None
          else (case checkbox (dropWhile is_space r) of
                  None \<Rightarrow> None
                | Some _ \<Rightarrow> Some (length s1 + length mk + length s2 + 1)))"

definition task_item :: "string \<Rightarrow> nat list \<Rightarrow> mdast \<Rightarrow> ParsedTaskItem list" where
  "task_item markdown lineStarts node = (case (md_checked node, md_line node) of
     (Some c, Some l) \<Rightarrow> (case (if l = 0 then None else getLineInfo markdown lineStarts (l - 1)) of
        None \<Rightarrow> []
      | Some info \<Rightarrow> (case task_line_marker (li_text info) of
          None \<Rightarrow> []
        | Some off \<Rightarrow> [\<lparr>pt_checked = c, pt_start = startOffset info + off, pt_end = startOffset info + off + 1\<rparr>]))
   | _ \<Rightarrow> [])"

definition parseTaskItems :: "(string \<Rightarrow> mdast option) \<Rightarrow> string \<Rightarrow> ParsedTaskItem list" where
  "parseTaskItems parse markdown = (case parse markdown of
     None \<Rightarrow> []
   | Some tree \<Rightarrow> concat (map (task_item markdown (getLineStarts markdown)) (visit ''listItem'' tree)))"

fun edits_ok :: "string \<Rightarrow> int \<Rightarrow> MarkdownEdit list \<Rightarrow> bool" where
  "edits_ok markdown previousEnd [] = True"
| "edits_ok markdown previousEnd (e # es) =
     (\<not> (ed_start e < 0 \<or> ed_end e < ed_start e \<or> int (length markdown) < ed_end e \<or> ed_start e < previousEnd) \<and>
      edits_ok markdown (ed_end e) es)"

definition apply_edit :: "MarkdownEdit \<Rightarrow> string \<Rightarrow> string" where
  "apply_edit e s = take (nat (ed_start e)) s @ replacement e @ drop (nat (ed_end e)) s"

definition applyMarkdownEdits :: "string \<Rightarrow> MarkdownEdit list \<Rightarrow> string" where
  "applyMarkdownEdits markdown edits =
     (if edits = [] then markdown
      else let sortedEdits = sort_key ed_start edits in
        if edits_ok markdown 0 sortedEdits then foldr apply_edit sortedEdits markdown else markdown)"

definition task_marker :: "bool \<Rightarrow> char" where
  "task_marker checked = (if checked then CHR ''x'' else CHR '' '')"

definition setAllTaskMarkers :: "(string \<Rightarrow> mdast option) \<Rightarrow> string \<Rightarrow> bool \<Rightarrow> string" where
  "setAllTaskMarkers parse markdown checked =
     applyMarkdownEdits markdown
       (map (\<lambda>t. \<lparr>ed_start = int (pt_start t), ed_end = int (pt_end t), replacement = [task_marker checked]\<rparr>)
         (filter (\<lambda>t. pt_checked t \<noteq> checked) (parseTaskItems parse markdown)))"

definition uncheckAllTasks :: "(string \<Rightarrow> mdast option) \<Rightarrow> string \<Rightarrow> string" where
  "uncheckAllTasks parse markdown = setAllTaskMarkers parse markdown False"

definition checkAllTasks :: "(string \<Rightarrow> mdast option) \<Rightarrow> string \<Rightarrow> string" where
  "checkAllTasks parse markdown = setAllTaskMarkers parse markdown True"

section \<open>Single tasks\<close>

record TaskInfo =
  ti_lineNumber :: nat
  ti_checked :: bool

definition task_info :: "mdast \<Rightarrow> TaskInfo list" where
  "task_info node = (case (md_checked node, md_line node) of
     (Some c, Some l) \<Rightarrow> if l = 0 then [] else [\<lparr>ti_lineNumber = l - 1, ti_checked = c\<rparr>]
   | _ \<Rightarrow> [])"

definition extractTasksFromAst :: "(string \<Rightarrow> mdast option) \<Rightarrow> string \<Rightarrow> TaskInfo list option" where
  "extractTasksFromAst parse markdown = map_option (\<lambda>tree. concat (map task_info (visit ''listItem'' tree))) (parse markdown)"

text \<open>\<open>/^(\s*[-*+]\s+)\[([ xX])\](\s+.*)$/\<close>: the first and the third group. The dot does not match a line
  terminator.\<close>

definition line_end :: "char \<Rightarrow> bool" where
  "line_end c \<longleftrightarrow> code c = 10 \<or> code c = 13"

definition bullet_prefix :: "string \<Rightarrow> (string \<times> char \<times> string) option" where
  "bullet_prefix s = (case dropWhile is_space s of
     c # r \<Rightarrow> if is_bullet c \<and> takeWhile is_space r \<noteq> []
       then Some (takeWhile is_space s @ c # takeWhile is_space r, c, dropWhile is_space r) else None
   | [] \<Rightarrow> None)"

definition task_pattern :: "string \<Rightarrow> (string \<times> string) option" where
  "task_pattern line = (case bullet_prefix line of
     None \<Rightarrow> None
   | Some (pre, _, r) \<Rightarrow> (case checkbox r of
       None \<Rightarrow> None
     | Some (_, suf) \<Rightarrow>
         if takeWhile is_space suf \<noteq> [] \<and> \<not> list_ex line_end (dropWhile is_space suf) then Some (pre, suf) else None))"

definition toggleTaskAtLine :: "string \<Rightarrow> int \<Rightarrow> bool \<Rightarrow> string" where
  "toggleTaskAtLine markdown lineNumber checked =
     (let lines = split_on newline markdown in
      if lineNumber < 0 \<or> int (length lines) \<le> lineNumber then markdown
      else case task_pattern (lines ! nat lineNumber) of
        None \<Rightarrow> markdown
      | Some (pre, suf) \<Rightarrow>
          join [newline] (lines[nat lineNumber := pre @ [CHR ''['', task_marker checked, CHR '']''] @ suf]))"

definition toggleTaskAtIndex :: "(string \<Rightarrow> mdast option) \<Rightarrow> string \<Rightarrow> int \<Rightarrow> bool \<Rightarrow> string option" where
  "toggleTaskAtIndex parse markdown taskIndex checked =
     map_option (\<lambda>tasks.
       if taskIndex < 0 \<or> int (length tasks) \<le> taskIndex then markdown
       else toggleTaskAtLine markdown (int (ti_lineNumber (tasks ! nat taskIndex))) checked)
     (extractTasksFromAst parse markdown)"

record task_counts =
  tc_total :: nat
  tc_completed :: nat
  tc_incomplete :: nat

definition countTasks :: "(string \<Rightarrow> mdast option) \<Rightarrow> string \<Rightarrow> task_counts option" where
  "countTasks parse markdown =
     map_option (\<lambda>tasks. let total = length tasks; completed = length (filter ti_checked tasks)
       in \<lparr>tc_total = total, tc_completed = completed, tc_incomplete = total - completed\<rparr>)
     (extractTasksFromAst parse markdown)"

definition getTaskLineNumber :: "(string \<Rightarrow> mdast option) \<Rightarrow> string \<Rightarrow> int \<Rightarrow> int option" where
  "getTaskLineNumber parse markdown taskIndex =
     map_option (\<lambda>tasks. if taskIndex < 0 \<or> int (length tasks) \<le> taskIndex then -1
       else int (ti_lineNumber (tasks ! nat taskIndex)))
     (extractTasksFromAst parse markdown)"

record TaskItem =
  tk_lineNumber :: nat
  tk_taskIndex :: nat
  tk_checked :: bool
  tk_content :: string
  tk_indentation :: nat

text \<open>\<open>/^\s*[-*+]\s+\[[ xX]\]\s+(.*)/\<close>.\<close>

definition task_content :: "string \<Rightarrow> string" where
  "task_content line = (case bullet_prefix line of
     None \<Rightarrow> []
   | Some (_, _, r) \<Rightarrow> (case checkbox r of
       None \<Rightarrow> []
     | Some (_, suf) \<Rightarrow> if takeWhile is_space suf = [] then [] else takeWhile (\<lambda>c. \<not> line_end c) (dropWhile is_space suf)))"

text \<open>Reading a line that does not exist throws.\<close>

fun task_items_from :: "string list \<Rightarrow> nat \<Rightarrow> TaskInfo list \<Rightarrow> TaskItem list option" where
  "task_items_from lines k [] = Some []"
| "task_items_from lines k (t # ts) =
     (if ti_lineNumber t < length lines then
        let line = lines ! ti_lineNumber t in
        map_option ((#) \<lparr>tk_lineNumber = ti_lineNumber t, tk_taskIndex = k, tk_checked = ti_checked t,
           tk_content = task_content line, tk_indentation = length (takeWhile is_space line)\<rparr>)
          (task_items_from lines (Suc k) ts)
      else None)"

definition extractTasks :: "(string \<Rightarrow> mdast option) \<Rightarrow> string \<Rightarrow> TaskItem list option" where
  "extractTasks parse markdown =
     Option.bind (extractTasksFromAst parse markdown) (task_items_from (split_on newline markdown) 0)"

section \<open>Headings\<close>

text \<open>The replacements of \<open>slugify\<close>: \<open>/[\s_]+/g\<close> and \<open>/-+/g\<close> turn runs into one dash, \<open>/^-|-$/g\<close> removes
  one dash at each end.\<close>

function collapse :: "(char \<Rightarrow> bool) \<Rightarrow> string \<Rightarrow> string" where
  "collapse P [] = []"
| "collapse P (c # s) = (if P c then CHR ''-'' # collapse P (dropWhile P s) else c # collapse P s)"
  by pat_completeness auto

termination
  by (relation "measure (length \<circ> snd)") (auto simp: le_imp_less_Suc length_dropWhile_le)

definition strip_dash :: "string \<Rightarrow> string" where
  "strip_dash s =
     (let t = (case s of c # r \<Rightarrow> if c = CHR ''-'' then r else s | [] \<Rightarrow> [])
      in if t \<noteq> [] \<and> last t = CHR ''-'' then butlast t else t)"

definition slugify :: "string \<Rightarrow> string" where
  "slugify text =
     strip_dash (collapse (\<lambda>c. c = CHR ''-'') (collapse (\<lambda>c. is_space c \<or> c = CHR ''_'')
       (filter (\<lambda>c. is_word c \<or> is_space c \<or> c = CHR ''-'') (trim (to_lower text)))))"

record HeadingItem =
  hd_text :: string
  hd_level :: nat
  hd_slug :: string

fun getNodeText :: "mdast \<Rightarrow> string" where
  "getNodeText (Mdast t v d c l cs) = (if truthy v then the v else concat (map getNodeText cs))"

text \<open>The \<open>slugCounts\<close> map: the anchor for the next heading with a slug.\<close>

definition next_slug :: "string \<Rightarrow> (string, nat) jsmap \<Rightarrow> string \<times> (string, nat) jsmap" where
  "next_slug slug counts =
     (let count = (case map_get counts slug of None \<Rightarrow> 0 | Some k \<Rightarrow> k)
      in (if 0 < count then slug @ ''-'' @ show_nat count else slug, map_set slug (count + 1) counts))"

definition heading_step :: "mdast \<Rightarrow> HeadingItem list \<times> (string, nat) jsmap \<Rightarrow> HeadingItem list \<times> (string, nat) jsmap" where
  "heading_step node st =
     (if md_depth node < 1 \<or> 4 < md_depth node then st
      else let text = getNodeText node in
        if text = [] then st
        else let (slug, counts) = next_slug (slugify text) (snd st)
             in (fst st @ [\<lparr>hd_text = text, hd_level = md_depth node, hd_slug = slug\<rparr>], counts))"

definition extractHeadings :: "(string \<Rightarrow> mdast option) \<Rightarrow> string \<Rightarrow> HeadingItem list option" where
  "extractHeadings parse markdown =
     map_option (\<lambda>tree. fst (fold heading_step (visit ''heading'' tree) ([], []))) (parse markdown)"

text \<open>The rendered document: elements with a tag name, texts and other nodes. The plugin sets the ids of
  heading elements in document order.\<close>

datatype hast = Element (tagName: string) (el_id: "string option") (el_children: "hast list") | Text string | Other

fun getTextContent :: "hast \<Rightarrow> string" where
  "getTextContent (Element tag i cs) =
     concat (map (\<lambda>child. case child of Text v \<Rightarrow> v | Element _ _ _ \<Rightarrow> getTextContent child | Other \<Rightarrow> []) cs)"
| "getTextContent (Text v) = v"
| "getTextContent Other = []"

definition is_heading_tag :: "string \<Rightarrow> bool" where
  "is_heading_tag tag \<longleftrightarrow> tag \<in> set (map (\<lambda>d. ''h'' @ [d]) ''123456'')"

definition heading_id :: "hast \<Rightarrow> (string, nat) jsmap \<Rightarrow> string option \<times> (string, nat) jsmap" where
  "heading_id node counts =
     (if \<not> is_heading_tag (tagName node) then (el_id node, counts)
      else let slug = slugify (getTextContent node) in
        if slug = [] then (el_id node, counts)
        else let (s, counts') = next_slug slug counts in (Some s, counts'))"

fun rehypeHeadingId :: "hast \<Rightarrow> (string, nat) jsmap \<Rightarrow> hast \<times> (string, nat) jsmap"
  and rehypeHeadingIds :: "hast list \<Rightarrow> (string, nat) jsmap \<Rightarrow> hast list \<times> (string, nat) jsmap" where
  "rehypeHeadingId (Element tag i cs) counts =
     (let (i', counts1) = heading_id (Element tag i cs) counts; (cs', counts2) = rehypeHeadingIds cs counts1
      in (Element tag i' cs', counts2))"
| "rehypeHeadingId (Text v) counts = (Text v, counts)"
| "rehypeHeadingId Other counts = (Other, counts)"
| "rehypeHeadingIds [] counts = ([], counts)"
| "rehypeHeadingIds (n # ns) counts =
     (let (n', c1) = rehypeHeadingId n counts; (ns', c2) = rehypeHeadingIds ns c1 in (n' # ns', c2))"

section \<open>List continuation\<close>

datatype list_kind = TaskList char | UnorderedList char | OrderedList nat | NoList

record ListItemInfo =
  lii_type :: list_kind
  lii_indent :: string

definition last_line :: "string \<Rightarrow> string" where
  "last_line s = last (split_on newline s)"

definition ordered_match :: "string \<Rightarrow> nat option" where
  "ordered_match line =
     (let r = dropWhile is_space line; ds = takeWhile is_digit r in
      case dropWhile is_digit r of
        d # r' \<Rightarrow> if ds \<noteq> [] \<and> d \<in> set ''.)'' \<and> takeWhile is_space r' \<noteq> [] then Some (digits_val ds) else None
      | [] \<Rightarrow> None)"

definition detectLastListItem :: "string \<Rightarrow> ListItemInfo" where
  "detectLastListItem contentBeforeCursor =
     (let lastLine = last_line contentBeforeCursor; indent = takeWhile is_space lastLine in
      case bullet_prefix lastLine of
        Some (_, bul, r) \<Rightarrow>
          (case checkbox r of
             Some (_, s) \<Rightarrow> if takeWhile is_space s \<noteq> [] then \<lparr>lii_type = TaskList bul, lii_indent = indent\<rparr>
                           else \<lparr>lii_type = UnorderedList bul, lii_indent = indent\<rparr>
           | None \<Rightarrow> \<lparr>lii_type = UnorderedList bul, lii_indent = indent\<rparr>)
      | None \<Rightarrow> (case ordered_match lastLine of
          Some n \<Rightarrow> \<lparr>lii_type = OrderedList n, lii_indent = indent\<rparr>
        | None \<Rightarrow> \<lparr>lii_type = NoList, lii_indent = indent\<rparr>))"

definition generateListContinuation :: "ListItemInfo \<Rightarrow> string" where
  "generateListContinuation info = (case lii_type info of
     TaskList bul \<Rightarrow> lii_indent info @ [bul] @ '' [ ] ''
   | UnorderedList bul \<Rightarrow> lii_indent info @ [bul] @ '' ''
   | OrderedList n \<Rightarrow> lii_indent info @ show_nat (n + 1) @ ''. ''
   | NoList \<Rightarrow> lii_indent info)"

text \<open>\<open>EMPTY_LIST_PATTERNS\<close>.\<close>

definition all_space :: "string \<Rightarrow> bool" where
  "all_space s \<longleftrightarrow> list_all is_space s"

definition isEmptyListItem :: "string \<Rightarrow> bool" where
  "isEmptyListItem line =
     ((case dropWhile is_space line of c # r \<Rightarrow> is_bullet c \<and> all_space r | [] \<Rightarrow> False) \<or>
      (case bullet_prefix line of Some (_, _, r) \<Rightarrow> (case checkbox r of Some (_, s) \<Rightarrow> all_space s | None \<Rightarrow> False) | None \<Rightarrow> False) \<or>
      (let r = dropWhile is_space line in
       case dropWhile is_digit r of d # r' \<Rightarrow> takeWhile is_digit r \<noteq> [] \<and> d \<in> set ''.)'' \<and> all_space r' | [] \<Rightarrow> False))"

section \<open>Properties of the bulk actions\<close>

subsection \<open>Lines and offsets\<close>

lemma line_starts_sorted: "sorted_wrt (<) (getLineStarts md)"
  unfolding getLineStarts_def by (auto simp: sorted_wrt_map intro: sorted_wrt_filter)

lemma line_starts_le: "s \<in> set (getLineStarts md) \<Longrightarrow> s \<le> length md"
  by (auto simp: getLineStarts_def)

text \<open>A line of the text: where it starts and ends.\<close>

definition line_bounds :: "string \<Rightarrow> nat \<Rightarrow> nat \<times> nat" where
  "line_bounds md k = (getLineStarts md ! k,
     if k + 1 < length (getLineStarts md) then getLineStarts md ! (k + 1) - 1 else length md)"

lemma getLineInfo_Some:
  "getLineInfo md (getLineStarts md) k = Some info \<longleftrightarrow> k < length (getLineStarts md) \<and>
     info = \<lparr>li_text = slice (fst (line_bounds md k)) (snd (line_bounds md k)) md,
             startOffset = fst (line_bounds md k), endOffset = snd (line_bounds md k)\<rparr>"
  by (auto simp: getLineInfo_def line_bounds_def Let_def)

lemma line_bounds_range:
  assumes "k < length (getLineStarts md)"
  shows "fst (line_bounds md k) \<le> length md" "snd (line_bounds md k) \<le> length md"
proof -
  show "fst (line_bounds md k) \<le> length md"
    using assms by (auto simp: line_bounds_def intro: line_starts_le)
  have "k + 1 < length (getLineStarts md) \<Longrightarrow> getLineStarts md ! (k + 1) \<le> length md"
    by (auto intro: line_starts_le)
  then show "snd (line_bounds md k) \<le> length md" by (auto simp: line_bounds_def)
qed

lemma line_bounds_disjoint:
  assumes "i < j" "j < length (getLineStarts md)"
  shows "snd (line_bounds md i) < fst (line_bounds md j)"
proof -
  have "getLineStarts md ! i < getLineStarts md ! (i + 1)"
    using line_starts_sorted assms by (auto simp: sorted_wrt_iff_nth_less)
  moreover have "getLineStarts md ! (i + 1) \<le> getLineStarts md ! j"
    using line_starts_sorted[of md] assms by (cases "i + 1 = j") (auto simp: sorted_wrt_iff_nth_less less_imp_le)
  ultimately show ?thesis using assms by (auto simp: line_bounds_def)
qed

lemma takeWhile_dropWhile_len: "length (takeWhile P s) + length (dropWhile P s) = length s"
  by (metis length_append takeWhile_dropWhile_id)

lemma list_marker_append: "list_marker s = Some (mk, r) \<Longrightarrow> s = mk @ r \<and> mk \<noteq> []"
  by (auto simp: list_marker_def Let_def split: list.splits if_splits)
    (metis takeWhile_dropWhile_id)+

lemma checkbox_Some: "checkbox s = Some (m, r) \<Longrightarrow> s = CHR ''['' # m # CHR '']'' # r \<and> m \<in> set '' xX''"
  by (auto simp: checkbox_def split: list.splits if_splits)

lemma task_line_marker_Some:
  assumes "task_line_marker s = Some off"
  shows "off < length s" "s ! off \<in> set '' xX''"
proof -
  obtain mk r where mk: "list_marker (dropWhile is_space s) = Some (mk, r)"
    using assms by (auto simp: task_line_marker_def Let_def split: option.splits)
  then obtain m t where t: "checkbox (dropWhile is_space r) = Some (m, t)"
      and off: "off = length (takeWhile is_space s) + length mk + length (takeWhile is_space r) + 1"
    using assms by (auto simp: task_line_marker_def Let_def split: option.splits if_splits)
  have "s = takeWhile is_space s @ mk @ takeWhile is_space r @ CHR ''['' # m # CHR '']'' # t"
    using list_marker_append[OF mk] checkbox_Some[OF t] by (metis takeWhile_dropWhile_id)
  moreover define a where "a = takeWhile is_space s @ mk @ takeWhile is_space r @ ''[''"
  ultimately have "s = a @ m # CHR '']'' # t" "off = length a" using off by simp_all
  then show "off < length s" "s ! off \<in> set '' xX''"
    using checkbox_Some[OF t] by (simp_all add: nth_append)
qed

lemma task_item_Some:
  assumes "t \<in> set (task_item md (getLineStarts md) node)"
  obtains l where "md_line node = Some l" "md_checked node = Some (pt_checked t)" "l - 1 < length (getLineStarts md)"
    "fst (line_bounds md (l - 1)) \<le> pt_start t" "pt_start t < snd (line_bounds md (l - 1))"
    "pt_end t = pt_start t + 1" "pt_start t < length md" "md ! pt_start t \<in> set '' xX''"
proof -
  obtain l info off where l: "md_line node = Some l" "l \<noteq> 0" "md_checked node = Some (pt_checked t)"
      and info: "getLineInfo md (getLineStarts md) (l - 1) = Some info"
      and off: "task_line_marker (li_text info) = Some off"
      and t: "t = \<lparr>pt_checked = pt_checked t, pt_start = startOffset info + off, pt_end = startOffset info + off + 1\<rparr>"
    using assms by (auto simp: task_item_def dest!: sym[of "Some a" for a] split: option.splits if_splits)
  let ?s = "fst (line_bounds md (l - 1))" and ?e = "snd (line_bounds md (l - 1))"
  have i: "l - 1 < length (getLineStarts md)" "li_text info = slice ?s ?e md" "startOffset info = ?s"
    using info by (auto simp: getLineInfo_Some)
  have len: "off < length (slice ?s ?e md)" "slice ?s ?e md ! off \<in> set '' xX''"
    using task_line_marker_Some[OF off] by (simp_all only: i(2))
  then have "?s + off < ?e" "?s + off < length md" "md ! (?s + off) \<in> set '' xX''"
    using line_bounds_range[OF i(1)] by (auto simp: slice_def)
  moreover have "pt_start t = ?s + off" "pt_end t = ?s + off + 1"
    using t i(3) by (metis ParsedTaskItem.select_convs(2), metis ParsedTaskItem.select_convs(3))
  ultimately show thesis using that[OF l(1,3) i(1)] by simp
qed


subsection \<open>Edits of single characters\<close>

definition mark_edit :: "char \<Rightarrow> nat \<Rightarrow> MarkdownEdit" where
  "mark_edit m k = \<lparr>ed_start = int k, ed_end = int k + 1, replacement = [m]\<rparr>"

lemma mark_edit_sel [simp]:
  "ed_start (mark_edit m k) = int k" "ed_end (mark_edit m k) = int k + 1" "replacement (mark_edit m k) = [m]"
  by (simp_all add: mark_edit_def)

lemma apply_mark_edit: "k < length s \<Longrightarrow> apply_edit (mark_edit m k) s = s[k := m]"
  by (simp add: apply_edit_def upd_conv_take_nth_drop nat_add_distrib)

lemma foldr_marks:
  assumes "\<And>k. k \<in> set ks \<Longrightarrow> k < length s"
  shows "length (foldr apply_edit (map (mark_edit m) ks) s) = length s"
    "i < length s \<Longrightarrow> foldr apply_edit (map (mark_edit m) ks) s ! i = (if i \<in> set ks then m else s ! i)"
  using assms by (induction ks) (auto simp: apply_mark_edit nth_list_update)

lemma edits_ok_marks:
  "sorted_wrt (<) ks \<Longrightarrow> (\<And>k. k \<in> set ks \<Longrightarrow> prev \<le> int k \<and> k < length s) \<Longrightarrow> 0 \<le> prev \<Longrightarrow>
     edits_ok s prev (map (mark_edit m) ks)"
proof (induction ks arbitrary: prev)
  case (Cons k ks)
  have "edits_ok s (int k + 1) (map (mark_edit m) ks)"
    using Cons.prems(1,2) by (intro Cons.IH) force+
  then show ?case using Cons.prems(2)[of k] Cons.prems(3) by simp
qed simp

lemma sort_marks: "sort_key ed_start (map (mark_edit m) ks) = map (mark_edit m) (sort ks)"
proof -
  have ins: "insort_key ed_start (mark_edit m x) (map (mark_edit m) ys) = map (mark_edit m) (insort x ys)" for x ys
    by (induction ys) auto
  show ?thesis by (induction ks) (simp_all add: ins)
qed

lemma apply_marks:
  assumes "distinct ks" "\<And>k. k \<in> set ks \<Longrightarrow> k < length s"
  shows "length (applyMarkdownEdits s (map (mark_edit m) ks)) = length s"
    "i < length s \<Longrightarrow> applyMarkdownEdits s (map (mark_edit m) ks) ! i = (if i \<in> set ks then m else s ! i)"
proof -
  have "edits_ok s 0 (map (mark_edit m) (sort ks))"
    using assms by (intro edits_ok_marks) (auto simp: strict_sorted_iff)
  then show "length (applyMarkdownEdits s (map (mark_edit m) ks)) = length s"
    "i < length s \<Longrightarrow> applyMarkdownEdits s (map (mark_edit m) ks) ! i = (if i \<in> set ks then m else s ! i)"
    using foldr_marks[where ks = "sort ks" and s = s and m = m] assms by (auto simp: applyMarkdownEdits_def sort_marks)
qed

text \<open>The tasks of a document: its checked and unchecked list items, and their lines.\<close>

definition task_nodes :: "mdast \<Rightarrow> mdast list" where
  "task_nodes tree = filter (\<lambda>n. md_checked n \<noteq> None \<and> md_line n \<noteq> None) (visit ''listItem'' tree)"

lemma task_item_single: "task_item md ls n = [] \<or> (\<exists>t. task_item md ls n = [t])"
  by (auto simp: task_item_def split: option.splits)

lemma task_starts_distinct:
  assumes "distinct (map md_line (filter (\<lambda>n. md_checked n \<noteq> None \<and> md_line n \<noteq> None) ns))"
    "\<And>n. n \<in> set ns \<Longrightarrow> md_line n \<noteq> Some 0"
  shows "distinct (map pt_start (concat (map (task_item md (getLineStarts md)) ns)))"
  using assms
proof (induction ns)
  case (Cons n ns)
  have IH: "distinct (map pt_start (concat (map (task_item md (getLineStarts md)) ns)))"
    using Cons by (auto split: if_splits)
  have "pt_start t \<noteq> pt_start u"
    if t: "t \<in> set (task_item md (getLineStarts md) n)" and u: "u \<in> set (task_item md (getLineStarts md) n')" "n' \<in> set ns" for t u n'
  proof -
    obtain l where l: "md_line n = Some l" "md_checked n = Some (pt_checked t)" "l - 1 < length (getLineStarts md)"
      "fst (line_bounds md (l - 1)) \<le> pt_start t" "pt_start t < snd (line_bounds md (l - 1))"
      by (rule task_item_Some[OF t])
    obtain l' where l': "md_line n' = Some l'" "md_checked n' = Some (pt_checked u)" "l' - 1 < length (getLineStarts md)"
      "fst (line_bounds md (l' - 1)) \<le> pt_start u" "pt_start u < snd (line_bounds md (l' - 1))"
      by (rule task_item_Some[OF u(1)])
    have "l \<noteq> l'" using Cons.prems(1) l(1,2) l'(1,2) u(2) by force
    moreover have "l \<noteq> 0" "l' \<noteq> 0" using Cons.prems(2) l(1) l'(1) u(2) by force+
    ultimately have "l - 1 < l' - 1 \<or> l' - 1 < l - 1" by linarith
    then show ?thesis
      using line_bounds_disjoint[of "l - 1" "l' - 1" md] line_bounds_disjoint[of "l' - 1" "l - 1" md] l l' by linarith
  qed
  then show ?case using IH task_item_single[of md "getLineStarts md" n] by fastforce
qed simp


text \<open>The positions that a bulk action writes.\<close>

definition changed_marks :: "(string \<Rightarrow> mdast option) \<Rightarrow> string \<Rightarrow> bool \<Rightarrow> nat list" where
  "changed_marks parse md checked = map pt_start (filter (\<lambda>t. pt_checked t \<noteq> checked) (parseTaskItems parse md))"

lemma parseTaskItems_props:
  assumes "t \<in> set (parseTaskItems parse md)"
  shows "pt_end t = pt_start t + 1" "pt_start t < length md" "md ! pt_start t \<in> set '' xX''"
proof -
  obtain tree n where "t \<in> set (task_item md (getLineStarts md) n)"
    using assms by (auto simp: parseTaskItems_def split: option.splits)
  then show "pt_end t = pt_start t + 1" "pt_start t < length md" "md ! pt_start t \<in> set '' xX''"
    by (auto elim: task_item_Some)
qed

lemma setAll_marks: "setAllTaskMarkers parse md ch = applyMarkdownEdits md (map (mark_edit (task_marker ch)) (changed_marks parse md ch))"
proof -
  have "map (\<lambda>t. \<lparr>ed_start = int (pt_start t), ed_end = int (pt_end t), replacement = [task_marker ch]\<rparr>)
        (filter (\<lambda>t. pt_checked t \<noteq> ch) (parseTaskItems parse md)) =
      map (mark_edit (task_marker ch) \<circ> pt_start) (filter (\<lambda>t. pt_checked t \<noteq> ch) (parseTaskItems parse md))"
    by (rule map_cong) (auto simp: mark_edit_def parseTaskItems_props(1))
  then show ?thesis unfolding setAllTaskMarkers_def changed_marks_def map_map by (rule arg_cong)
qed

lemma changed_distinct:
  assumes "parse md = Some tree" "distinct (map md_line (task_nodes tree))" "\<And>n. n \<in> set (task_nodes tree) \<Longrightarrow> md_line n \<noteq> Some 0"
  shows "distinct (changed_marks parse md ch)"
proof -
  let ?ns = "filter (\<lambda>n. md_line n \<noteq> Some 0) (visit ''listItem'' tree)"
  have e: "task_item md (getLineStarts md) n = []" if "md_line n = Some 0" for n
    using that by (auto simp: task_item_def split: option.splits)
  have c: "concat (map (task_item md (getLineStarts md)) ns) =
      concat (map (task_item md (getLineStarts md)) (filter (\<lambda>n. md_line n \<noteq> Some 0) ns))" for ns
    by (induction ns) (auto simp: e)
  have "filter (\<lambda>n. md_checked n \<noteq> None \<and> md_line n \<noteq> None) ?ns = task_nodes tree"
    using assms(3) unfolding task_nodes_def by (auto intro!: filter_cong)
  then have "distinct (map pt_start (concat (map (task_item md (getLineStarts md)) ?ns)))"
    using assms(2) by (intro task_starts_distinct) auto
  then have "distinct (map pt_start (parseTaskItems parse md))"
    unfolding parseTaskItems_def assms(1) option.case c[of "visit ''listItem'' tree", symmetric] .
  then show ?thesis unfolding changed_marks_def by (rule distinct_map_filter)
qed


definition demo_doc :: string where "demo_doc = ''- [ ] a'' @ [newline] @ ''1. [x] b''"

definition demo_tree :: mdast where
  "demo_tree = Mdast ''root'' None 0 None (Some 1)
     [Mdast ''list'' None 0 None (Some 1) [Mdast ''listItem'' None 0 (Some False) (Some 1) []],
      Mdast ''list'' None 0 None (Some 2) [Mdast ''listItem'' None 0 (Some True) (Some 2) []]]"

lemma demo_tasks: "task_nodes demo_tree =
    [Mdast ''listItem'' None 0 (Some False) (Some 1) [], Mdast ''listItem'' None 0 (Some True) (Some 2) []]"
  by code_simp


section \<open>Toggling one task\<close>

lemma bullet_not_space: "is_bullet c \<Longrightarrow> \<not> is_space c"
  by (auto simp: is_bullet_def js_defs)

lemma bullet_prefix_Some:
  assumes "bullet_prefix s = Some (pre, b, r)"
  shows "s = pre @ r" "hd r' = CHR ''['' \<Longrightarrow> r' \<noteq> [] \<Longrightarrow> bullet_prefix (pre @ r') = Some (pre, b, r')"
proof -
  obtain u where u: "dropWhile is_space s = b # u" "is_bullet b" "takeWhile is_space u \<noteq> []"
      "pre = takeWhile is_space s @ b # takeWhile is_space u" "r = dropWhile is_space u"
    using assms by (auto simp: bullet_prefix_def split: list.splits if_splits)
  show "s = pre @ r" using u by (metis append.assoc append_Cons takeWhile_dropWhile_id)
  assume r': "hd r' = CHR ''['' " "r' \<noteq> []"
  then have h: "\<not> is_space (hd r')" by (simp add: js_defs)
  let ?w = "takeWhile is_space u"
  have "\<forall>x \<in> set (takeWhile is_space s). is_space x" "\<forall>x \<in> set ?w. is_space x" by (auto dest: set_takeWhileD)
  then show "bullet_prefix (pre @ r') = Some (pre, b, r')"
    using u(2-4) bullet_not_space[OF u(2)] h r'(2)
    by (cases r') (simp_all add: bullet_prefix_def dropWhile_append takeWhile_append)
qed

lemma newline_not_mark: "newline \<noteq> CHR ''[''" "newline \<noteq> CHR '']''" "newline \<noteq> CHR ''x''" "newline \<noteq> CHR '' ''"
  by code_simp+

lemma task_pattern_Some:
  assumes "task_pattern l = Some (pre, suf)"
  shows "\<exists>m. l = pre @ [CHR ''['', m, CHR '']''] @ suf \<and> m \<in> set '' xX''"
    "m' \<in> set '' xX'' \<Longrightarrow> task_pattern (pre @ [CHR ''['', m', CHR '']''] @ suf) = Some (pre, suf)"
proof -
  obtain b r m where r: "bullet_prefix l = Some (pre, b, r)" "checkbox r = Some (m, suf)"
      "takeWhile is_space suf \<noteq> []" "\<not> list_ex line_end (dropWhile is_space suf)"
    using assms by (auto simp: task_pattern_def split: option.splits if_splits)
  show "\<exists>m. l = pre @ [CHR ''['', m, CHR '']''] @ suf \<and> m \<in> set '' xX''"
    using bullet_prefix_Some(1)[OF r(1)] checkbox_Some[OF r(2)] by auto
  assume "m' \<in> set '' xX''"
  then show "task_pattern (pre @ [CHR ''['', m', CHR '']''] @ suf) = Some (pre, suf)"
    using r(3,4) bullet_prefix_Some(2)[OF r(1), of "[CHR ''['', m', CHR '']''] @ suf"]
    by (simp add: task_pattern_def checkbox_def)
qed

text \<open>Toggling a task by line number changes that line only, from \<open>pre[m]suf\<close> to \<open>pre[marker]suf\<close>, and the
  last of two toggles wins. A line that is not a bulleted task is left as it is; in particular a task of a
  numbered list, whose line starts with a digit, is never changed.\<close>

theorem toggle_task_line:
  assumes "0 \<le> n" "nat n < length (split_on newline md)"
  shows "(\<forall>pre suf. task_pattern (split_on newline md ! nat n) = Some (pre, suf) \<longrightarrow>
      split_on newline (toggleTaskAtLine md n a) =
        (split_on newline md)[nat n := pre @ [CHR ''['', task_marker a, CHR '']''] @ suf] \<and>
      toggleTaskAtLine (toggleTaskAtLine md n a) n b = toggleTaskAtLine md n b) \<and>
    (task_pattern (split_on newline md ! nat n) = None \<longrightarrow> toggleTaskAtLine md n a = md) \<and>
    (\<forall>d r. dropWhile is_space (split_on newline md ! nat n) = d # r \<and> is_digit d \<longrightarrow> toggleTaskAtLine md n a = md)"
proof -
  let ?ls = "split_on newline md"
  have n: "\<not> n < 0" "\<not> int (length ?ls) \<le> n" using assms by linarith+
  have none: "toggleTaskAtLine md n a = md" if "task_pattern (?ls ! nat n) = None"
    using that by (simp add: toggleTaskAtLine_def Let_def)
  have num: "task_pattern (?ls ! nat n) = None" if "dropWhile is_space (?ls ! nat n) = d # r" "is_digit d" for d r
    using that by (auto simp: task_pattern_def bullet_prefix_def is_bullet_def js_defs)
  have yes: "split_on newline (toggleTaskAtLine md n a) = ?ls[nat n := pre @ [CHR ''['', task_marker a, CHR '']''] @ suf] \<and>
      toggleTaskAtLine (toggleTaskAtLine md n a) n b = toggleTaskAtLine md n b"
    if p: "task_pattern (?ls ! nat n) = Some (pre, suf)" for pre suf
  proof -
    let ?new = "\<lambda>c. ?ls[nat n := pre @ [CHR ''['', task_marker c, CHR '']''] @ suf]"
    have t: "toggleTaskAtLine md n c = join [newline] (?new c)" for c
      using p n by (simp add: toggleTaskAtLine_def Let_def)
    have "newline \<notin> set (?ls ! nat n)" by (rule set_split_on[OF nth_mem[OF assms(2)]])
    then have "newline \<notin> set pre" "newline \<notin> set suf" using task_pattern_Some(1)[OF p] by auto
    then have "\<forall>l \<in> set (?new a). newline \<notin> set l"
      using newline_not_mark by (auto dest!: set_update_subset_insert[THEN subsetD] simp: task_marker_def set_split_on)
    then have s: "split_on newline (toggleTaskAtLine md n a) = ?new a"
      unfolding t by (intro split_on_join) simp_all
    have "task_pattern (pre @ [CHR ''['', task_marker a, CHR '']''] @ suf) = Some (pre, suf)"
      by (rule task_pattern_Some(2)[OF p]) (simp add: task_marker_def)
    then have "toggleTaskAtLine (toggleTaskAtLine md n a) n b = join [newline] (?new b)"
      using assms n unfolding toggleTaskAtLine_def[of "toggleTaskAtLine md n a"] s by (simp add: Let_def)
    then show ?thesis using s t by simp
  qed
  show ?thesis
  proof (intro conjI allI impI)
    fix pre suf assume "task_pattern (?ls ! nat n) = Some (pre, suf)"
    from yes[OF this] show "split_on newline (toggleTaskAtLine md n a) = ?ls[nat n := pre @ [CHR ''['', task_marker a, CHR '']''] @ suf]"
      "toggleTaskAtLine (toggleTaskAtLine md n a) n b = toggleTaskAtLine md n b" by blast+
  qed (auto intro!: none intro: num)
qed

theorem toggle_task_line_witness:
  "toggleTaskAtLine (toggleTaskAtLine demo_doc 0 True) 0 False = toggleTaskAtLine demo_doc 0 False \<and>
   toggleTaskAtLine demo_doc 1 False = demo_doc \<and> uncheckAllTasks (\<lambda>s. Some demo_tree) demo_doc \<noteq> demo_doc"
proof (intro conjI)
  have "split_on newline demo_doc = [''- [ ] a'', ''1. [x] b'']" by code_simp
  moreover have "task_pattern ''- [ ] a'' = Some (''- '', '' a'')" by code_simp
  moreover have "dropWhile is_space ''1. [x] b'' = CHR ''1'' # ''. [x] b''" "is_digit (CHR ''1'')" by code_simp+
  ultimately show "toggleTaskAtLine (toggleTaskAtLine demo_doc 0 True) 0 False = toggleTaskAtLine demo_doc 0 False"
    "toggleTaskAtLine demo_doc 1 False = demo_doc"
    using toggle_task_line[of 0 demo_doc True False] toggle_task_line[of 1 demo_doc False False] by simp_all
  show "uncheckAllTasks (\<lambda>s. Some demo_tree) demo_doc \<noteq> demo_doc" by code_simp
qed


section \<open>Heading anchors\<close>

text \<open>The ids given to a sequence of base slugs.\<close>

fun slug_ids :: "string list \<Rightarrow> (string, nat) jsmap \<Rightarrow> string list" where
  "slug_ids [] counts = []"
| "slug_ids (s # ss) counts = (let (i, counts') = next_slug s counts in i # slug_ids ss counts')"

definition slug_count :: "string \<Rightarrow> (string, nat) jsmap \<Rightarrow> nat" where
  "slug_count s counts = (case map_get counts s of None \<Rightarrow> 0 | Some k \<Rightarrow> k)"

definition slug_id :: "string \<Rightarrow> nat \<Rightarrow> string" where
  "slug_id s k = (if 0 < k then s @ ''-'' @ show_nat k else s)"

lemma slug_id_inj: "slug_id s j = slug_id s k \<Longrightarrow> j = k"
proof -
  have i: "show_nat j = show_nat k \<Longrightarrow> j = k" by (metis show_nat_props(1))
  assume "slug_id s j = slug_id s k"
  then show "j = k" using i by (cases "j = 0"; cases "k = 0") (simp_all add: slug_id_def)
qed

lemma next_slug_alt:
  "fst (next_slug s counts) = slug_id s (slug_count s counts)"
  "slug_count t (snd (next_slug s counts)) = slug_count t counts + (if t = s then 1 else 0)"
  by (simp_all add: next_slug_def Let_def slug_id_def slug_count_def)

text \<open>The id at a position is numbered by the earlier occurrences of its slug.\<close>

lemma slug_ids_nth:
  "i < length ss \<Longrightarrow> slug_ids ss counts ! i = slug_id (ss ! i) (slug_count (ss ! i) counts + count_list (take i ss) (ss ! i))"
proof (induction ss arbitrary: i counts)
  case (Cons s ss)
  then show ?case
    by (cases i) (auto simp: split_beta next_slug_alt)
qed simp

lemma length_slug_ids [simp]: "length (slug_ids ss counts) = length ss"
  by (induction ss arbitrary: counts) (simp_all add: split_beta)

lemma count_take_less:
  assumes "i < j" "j \<le> length ss" "i < length ss"
  shows "count_list (take i ss) (ss ! i) < count_list (take j ss) (ss ! i)"
proof -
  have "take j ss = take i ss @ ss ! i # drop (Suc i) (take j ss)"
    using assms id_take_nth_drop[of i "take j ss"] by (simp add: min_def)
  then have "count_list (take j ss) (ss ! i) =
      count_list (take i ss @ ss ! i # drop (Suc i) (take j ss)) (ss ! i)" by (rule arg_cong)
  then show ?thesis by (simp only: count_list_append count_list.simps(2)) simp
qed

fun heading_nodes :: "hast \<Rightarrow> hast list" where
  "heading_nodes (Element tag i cs) =
     (if is_heading_tag tag \<and> slugify (getTextContent (Element tag i cs)) \<noteq> [] then [Element tag i cs] else []) @ concat (map heading_nodes cs)"
| "heading_nodes (Text v) = []"
| "heading_nodes Other = []"


lemma text_Element: "getTextContent (Element tag i cs) = concat (map getTextContent cs)"
proof -
  have "(\<lambda>child. case child of Text v \<Rightarrow> v | Element _ _ _ \<Rightarrow> getTextContent child | Other \<Rightarrow> []) = getTextContent"
    by (rule ext) (simp split: hast.split)
  then show ?thesis by simp
qed

lemma text_rehype:
  "getTextContent (fst (rehypeHeadingId n counts)) = getTextContent n"
  "map getTextContent (fst (rehypeHeadingIds ns counts)) = map getTextContent ns"
proof (induction n counts and ns counts rule: rehypeHeadingId_rehypeHeadingIds.induct)
  case (1 tag i cs counts)
  then show ?case using 1[OF refl prod.collapse] by (simp add: split_beta text_Element del: getTextContent.simps(1))
next
  case (5 n ns counts)
  then show ?case using 5(2)[OF refl prod.collapse] by (simp add: split_beta)
qed simp_all

abbreviation base_slug :: "hast \<Rightarrow> string" where
  "base_slug n \<equiv> slugify (getTextContent n)"

text \<open>The counts after a sequence of slugs, and the ids of a document as the ids of its heading slugs.\<close>

fun slug_counts :: "string list \<Rightarrow> (string, nat) jsmap \<Rightarrow> (string, nat) jsmap" where
  "slug_counts [] counts = counts"
| "slug_counts (s # ss) counts = slug_counts ss (snd (next_slug s counts))"

lemma slug_ids_append: "slug_ids (xs @ ys) counts = slug_ids xs counts @ slug_ids ys (slug_counts xs counts)"
  by (induction xs arbitrary: counts) (simp_all add: split_beta)

lemma slug_counts_append: "slug_counts (xs @ ys) counts = slug_counts ys (slug_counts xs counts)"
  by (induction xs arbitrary: counts) simp_all

lemma rehype_ids:
  "map el_id (heading_nodes (fst (rehypeHeadingId n counts))) = map Some (slug_ids (map base_slug (heading_nodes n)) counts) \<and>
   snd (rehypeHeadingId n counts) = slug_counts (map base_slug (heading_nodes n)) counts"
  "map el_id (concat (map heading_nodes (fst (rehypeHeadingIds ns counts)))) =
     map Some (slug_ids (map base_slug (concat (map heading_nodes ns))) counts) \<and>
   snd (rehypeHeadingIds ns counts) = slug_counts (map base_slug (concat (map heading_nodes ns))) counts"
proof (induction n counts and ns counts rule: rehypeHeadingId_rehypeHeadingIds.induct)
  case (1 tag i cs counts)
  let ?n = "Element tag i cs" and ?h = "heading_id (Element tag i cs) counts"
  have t: "concat (map getTextContent (fst (rehypeHeadingIds cs c))) = concat (map getTextContent cs)" for c
    by (simp only: text_rehype(2))
  show ?case
  proof (cases "is_heading_tag tag \<and> base_slug ?n \<noteq> []")
    case True
    then have "?h = (Some (fst (next_slug (base_slug ?n) counts)), snd (next_slug (base_slug ?n) counts))"
      by (simp add: heading_id_def split_beta Let_def del: getTextContent.simps)
    then show ?thesis
      using True 1[OF refl prod.collapse] t
      by (simp add: split_beta text_Element del: getTextContent.simps(1))
  next
    case False
    then have "?h = (i, counts)" by (auto simp: heading_id_def simp del: getTextContent.simps)
    then show ?thesis
      using False 1[OF refl prod.collapse] t
      by (auto simp add: split_beta text_Element simp del: getTextContent.simps(1))
  qed
next
  case (5 n ns counts)
  then show ?case using 5(2)[OF refl prod.collapse]
    by (simp add: split_beta slug_ids_append slug_counts_append)
qed simp_all

text \<open>Heading anchors: after the plugin every heading with a slug has an id, and two headings with the
  same slug have different ids. Ids are not unique in general: headings a, a and a-1 get the ids
  a, a-1 and a-1.\<close>

theorem heading_ids:
  "(\<forall>t. length (heading_nodes (fst (rehypeHeadingId t []))) = length (heading_nodes t) \<and>
     (\<forall>i < length (heading_nodes t). el_id (heading_nodes (fst (rehypeHeadingId t [])) ! i) \<noteq> None) \<and>
     (\<forall>i j. i < j \<and> j < length (heading_nodes t) \<and> base_slug (heading_nodes t ! i) = base_slug (heading_nodes t ! j) \<longrightarrow>
        el_id (heading_nodes (fst (rehypeHeadingId t [])) ! i) \<noteq> el_id (heading_nodes (fst (rehypeHeadingId t [])) ! j))) \<and>
   map el_id (heading_nodes (fst (rehypeHeadingId (Element ''div'' None
      [Element ''h1'' None [Text ''a''], Element ''h1'' None [Text ''a''], Element ''h1'' None [Text ''a-1'']]) []))) =
     [Some ''a'', Some ''a-1'', Some ''a-1'']"
proof (intro conjI allI)
  fix t
  let ?hs = "heading_nodes t" and ?hs' = "heading_nodes (fst (rehypeHeadingId t []))"
  have ids: "map el_id ?hs' = map Some (slug_ids (map base_slug ?hs) [])" using rehype_ids(1) by blast
  show len: "length ?hs' = length ?hs" using arg_cong[OF ids, of length] by simp
  have nth: "el_id (?hs' ! i) = Some (slug_ids (map base_slug ?hs) [] ! i)" if "i < length ?hs" for i
    using arg_cong[OF ids, of "\<lambda>l. l ! i"] that len by simp
  show "i < length ?hs \<longrightarrow> el_id (?hs' ! i) \<noteq> None" for i using nth by simp
  show "i < j \<and> j < length ?hs \<and> base_slug (?hs ! i) = base_slug (?hs ! j) \<longrightarrow> el_id (?hs' ! i) \<noteq> el_id (?hs' ! j)" for i j
  proof
    assume a: "i < j \<and> j < length ?hs \<and> base_slug (?hs ! i) = base_slug (?hs ! j)"
    let ?ss = "map base_slug ?hs"
    have "count_list (take i ?ss) (?ss ! i) < count_list (take j ?ss) (?ss ! i)"
      using a by (intro count_take_less) auto
    then have "slug_id (?ss ! i) (count_list (take i ?ss) (?ss ! i)) \<noteq> slug_id (?ss ! i) (count_list (take j ?ss) (?ss ! i))"
      by (auto dest: slug_id_inj)
    then show "el_id (?hs' ! i) \<noteq> el_id (?hs' ! j)"
      using a nth[of i] nth[of j] by (auto simp: slug_ids_nth slug_count_def)
  qed
next
  show "map el_id (heading_nodes (fst (rehypeHeadingId (Element ''div'' None
      [Element ''h1'' None [Text ''a''], Element ''h1'' None [Text ''a''], Element ''h1'' None [Text ''a-1'']]) []))) =
     [Some ''a'', Some ''a-1'', Some ''a-1'']"
    by code_simp
qed


theorem heading_ids_witness:
  "el_id (heading_nodes (fst (rehypeHeadingId (Element ''div'' None [Element ''h1'' None [Text ''a''], Element ''h2'' None [Text ''A'']]) [])) ! 0) \<noteq>
   el_id (heading_nodes (fst (rehypeHeadingId (Element ''div'' None [Element ''h1'' None [Text ''a''], Element ''h2'' None [Text ''A'']]) [])) ! 1)"
proof -
  let ?t = "Element ''div'' None [Element ''h1'' None [Text ''a''], Element ''h2'' None [Text ''A'']]"
  have "heading_nodes ?t = [Element ''h1'' None [Text ''a''], Element ''h2'' None [Text ''A'']]"
    "base_slug (Element ''h1'' None [Text ''a'']) = base_slug (Element ''h2'' None [Text ''A''])" by code_simp+
  then show ?thesis using heading_ids[THEN conjunct1, rule_format, of ?t, THEN conjunct2, THEN conjunct2, rule_format, of 0 1]
    by (simp del: heading_nodes.simps rehypeHeadingId.simps rehypeHeadingIds.simps getTextContent.simps)
qed

end
