(* ===== verification/TextEditor.thy ===== *)
theory TextEditor
  imports Markdown
begin

text \<open>
  The text area of the editor (\<open>components/MemoEditor/Editor\<close>): the actions on its value and selection
  (\<open>index.tsx\<close>), list completion on Enter (\<open>useListCompletion.ts\<close>), markdown shortcuts
  (\<open>shortcuts.ts\<close>), and the suggestion popups of tags and slash commands (\<open>useSuggestions.ts\<close>,
  \<open>TagSuggestions.tsx\<close>, \<open>SlashCommands.tsx\<close>, \<open>commands.ts\<close>).

  The text area element is a value with a selection. Assigning its value normalises line ends to line
  feeds and, when the value changes, moves the cursor to the end; \<open>setSelectionRange\<close> clamps its
  arguments. The callback that reports the new value to the editor state, heights and scrolling are
  not part of the state.
\<close>

section \<open>The text area\<close>

record textarea =
  ta_value :: string
  selectionStart :: nat
  selectionEnd :: nat

definition cr :: char where
  "cr = char_of (13::nat)"

fun norm_nl :: "string \<Rightarrow> string" where
  "norm_nl [] = []"
| "norm_nl [c] = [if c = cr then newline else c]"
| "norm_nl (c # d # s) =
     (if c = cr then (if d = newline then newline # norm_nl s else newline # norm_nl (d # s)) else c # norm_nl (d # s))"

definition set_value :: "string \<Rightarrow> textarea \<Rightarrow> textarea" where
  "set_value v ta =
     (let w = norm_nl v in
      if w = ta_value ta then ta else \<lparr>ta_value = w, selectionStart = length w, selectionEnd = length w\<rparr>)"

definition setSelectionRange :: "nat \<Rightarrow> nat \<Rightarrow> textarea \<Rightarrow> textarea" where
  "setSelectionRange a b ta =
     (let e = min b (length (ta_value ta)) in ta\<lparr>selectionStart := min a e, selectionEnd := e\<rparr>)"

section \<open>Editor actions\<close>

definition getSelectedContent :: "textarea \<Rightarrow> string" where
  "getSelectedContent ta = slice (selectionStart ta) (selectionEnd ta) (ta_value ta)"

definition getCursorPosition :: "textarea \<Rightarrow> nat" where
  "getCursorPosition ta = selectionStart ta"

definition insertText :: "string \<Rightarrow> string \<Rightarrow> string \<Rightarrow> textarea \<Rightarrow> textarea" where
  "insertText content pre suf ta =
     (let cursorPos = selectionStart ta; endPos = selectionEnd ta; prev = ta_value ta;
          actual = (if content \<noteq> [] then content else slice cursorPos endPos prev);
          pos = cursorPos + length pre + length actual
      in setSelectionRange pos pos (set_value (take cursorPos prev @ pre @ actual @ suf @ drop endPos prev) ta))"

definition removeText :: "nat \<Rightarrow> nat \<Rightarrow> textarea \<Rightarrow> textarea" where
  "removeText start len ta =
     setSelectionRange start start (set_value (take start (ta_value ta) @ drop (start + len) (ta_value ta)) ta)"

definition setContent :: "string \<Rightarrow> textarea \<Rightarrow> textarea" where
  "setContent text ta = set_value text ta"

text \<open>A missing end or one that is not a number stands for the start.\<close>

definition setCursorPosition :: "nat \<Rightarrow> nat option \<Rightarrow> textarea \<Rightarrow> textarea" where
  "setCursorPosition startPos endPos ta = setSelectionRange startPos (case endPos of None \<Rightarrow> startPos | Some e \<Rightarrow> e) ta"

definition getCursorLineNumber :: "textarea \<Rightarrow> nat" where
  "getCursorLineNumber ta = length (split_on newline (take (selectionStart ta) (ta_value ta))) - 1"

definition getLine :: "nat \<Rightarrow> textarea \<Rightarrow> string" where
  "getLine n ta = (let ls = split_on newline (ta_value ta) in if n < length ls then ls ! n else [])"

text \<open>Writing a line beyond the last one extends the array with holes, which are joined as empty lines.\<close>

definition setLine :: "nat \<Rightarrow> string \<Rightarrow> textarea \<Rightarrow> textarea" where
  "setLine n text ta =
     (let ls = split_on newline (ta_value ta);
          ls' = (if n < length ls then ls[n := text] else ls @ replicate (n - length ls) [] @ [text])
      in set_value (join [newline] ls') ta)"

section \<open>List completion\<close>

record key_event =
  ev_key :: string
  shiftKey :: bool
  ctrlKey :: bool
  metaKey :: bool
  altKey :: bool

text \<open>The handler of a key: whether the default action is prevented, and the new text area. \<open>now\<close> is the
  time of the event and \<open>lastEnd\<close> that of the last end of a composition.\<close>

definition list_keydown :: "int \<Rightarrow> int \<Rightarrow> bool \<Rightarrow> key_event \<Rightarrow> textarea \<Rightarrow> bool \<times> textarea" where
  "list_keydown now lastEnd isInIME ev ta =
     (if ev_key ev \<noteq> ''Enter'' \<or> isInIME \<or> shiftKey ev \<or> ctrlKey ev \<or> metaKey ev \<or> altKey ev then (False, ta)
      else if now - lastEnd < 100 then (False, ta)
      else let cursorPosition = getCursorPosition ta;
               before = take cursorPosition (ta_value ta);
               info = detectLastListItem before
           in if lii_type info = NoList then (False, ta)
              else let currentLine = last_line before
                   in if isEmptyListItem currentLine
                      then (True, removeText (cursorPosition - length currentLine) (length currentLine) ta)
                      else (True, insertText (newline # generateListContinuation info) [] [] ta))"

section \<open>Shortcuts\<close>

definition ends_with :: "string \<Rightarrow> string \<Rightarrow> bool" where
  "ends_with s t \<longleftrightarrow> suffix t s"

definition countConsecutive :: "string \<Rightarrow> char \<Rightarrow> bool \<Rightarrow> nat" where
  "countConsecutive text c at_start =
     length (takeWhile (\<lambda>d. d = c) (if at_start then text else rev text))"

definition isTextStyled :: "string \<Rightarrow> string \<Rightarrow> bool" where
  "isTextStyled text delim =
     (if \<not> starts_with text delim \<or> \<not> ends_with text delim then False
      else if delim \<noteq> ''*'' then True
      else odd (countConsecutive text (CHR ''*'') True) \<and> odd (countConsecutive text (CHR ''*'') False))"

text \<open>\<open>s.slice(k, -k)\<close>.\<close>

definition inner :: "nat \<Rightarrow> string \<Rightarrow> string" where
  "inner k s = slice k (length s - k) s"

definition toggleTextStyle :: "string \<Rightarrow> textarea \<Rightarrow> textarea" where
  "toggleTextStyle delim ta =
     (let c = getCursorPosition ta; sel = getSelectedContent ta in
      if isTextStyled sel delim
      then let unstyled = inner (length delim) sel
           in setCursorPosition c (Some (c + length unstyled)) (insertText unstyled [] [] ta)
      else setCursorPosition (c + length delim) (Some (c + length delim + length sel))
             (insertText (delim @ sel @ delim) [] [] ta))"

definition handleMarkdownShortcuts :: "string \<Rightarrow> textarea \<Rightarrow> bool \<times> textarea" where
  "handleMarkdownShortcuts key ta =
     (if to_lower key = ''b'' then (True, toggleTextStyle ''**'' ta)
      else if to_lower key = ''i'' then (True, toggleTextStyle ''*'' ta)
      else (False, ta))"

text \<open>\<open>handleKeyDown\<close> of the editor: control or meta key, an editor that can be written, no composition.\<close>

definition editor_keydown :: "bool \<Rightarrow> bool \<Rightarrow> key_event \<Rightarrow> textarea \<Rightarrow> bool \<times> textarea" where
  "editor_keydown readOnly isInIME ev ta =
     (if \<not> readOnly \<and> (ctrlKey ev \<or> metaKey ev) \<and> \<not> isInIME then handleMarkdownShortcuts (ev_key ev) ta else (False, ta))"

text \<open>\<open>URL_REGEX\<close>: \<open>/^https?:\/\/[^\s]+$/\<close>.\<close>

definition url_like :: "string \<Rightarrow> bool" where
  "url_like s \<longleftrightarrow> (\<exists>p \<in> {''http://'', ''https://''}. starts_with s p \<and> drop (length p) s \<noteq> [] \<and>
     list_all (\<lambda>c. \<not> is_space c) (drop (length p) s))"

definition insertHyperlink :: "string option \<Rightarrow> textarea \<Rightarrow> textarea" where
  "insertHyperlink url ta =
     (let c = getCursorPosition ta; sel = getSelectedContent ta in
      if \<not> truthy url \<and> url_like (trim sel)
      then setCursorPosition (c + 1) (Some (c + 1)) (insertText (''[]('' @ sel @ '')'') [] [] ta)
      else let href = (case url of None \<Rightarrow> ''url'' | Some u \<Rightarrow> u);
               ta' = insertText (''['' @ sel @ '']('' @ href @ '')'') [] [] ta
           in if href = ''url''
              then let urlStart = c + length sel + 3 in setCursorPosition urlStart (Some (urlStart + length href)) ta'
              else ta')"

definition hyperlinkHighlightedText :: "string \<Rightarrow> textarea \<Rightarrow> textarea" where
  "hyperlinkHighlightedText url ta =
     (let sel = getSelectedContent ta; c = getCursorPosition ta; p = c + length sel + length url + 4
      in setCursorPosition p (Some p) (insertText (''['' @ sel @ '']('' @ url @ '')'') [] [] ta))"

definition getMarkdownLinkForPastedUrl :: "string \<Rightarrow> string \<Rightarrow> string option" where
  "getMarkdownLinkForPastedUrl sel pastedText =
     (let url = trim pastedText in
      if sel = [] \<or> \<not> url_like url \<or> url_like (trim sel) then None
      else Some (''['' @ sel @ '']('' @ url @ '')''))"

text \<open>A paste: the text area after a link was made of the selection, or \<open>None\<close> where the paste goes on to
  the editor's own handler. \<open>pasted\<close> is the plain text of the clipboard.\<close>

definition handleEditorPaste :: "string \<Rightarrow> textarea \<Rightarrow> textarea option" where
  "handleEditorPaste pasted ta =
     map_option (\<lambda>l. insertText l [] [] ta) (getMarkdownLinkForPastedUrl (getSelectedContent ta) pasted)"

section \<open>Suggestions\<close>

text \<open>\<open>/\S*$/\<close> before the cursor and \<open>/^\S*/\<close> after it.\<close>

definition getCurrentWord :: "textarea \<Rightarrow> string \<times> nat" where
  "getCurrentWord ta =
     (let before = take (selectionEnd ta) (ta_value ta);
          w = rev (takeWhile (\<lambda>c. \<not> is_space c) (rev before))
      in (w @ takeWhile (\<lambda>c. \<not> is_space c) (drop (selectionEnd ta) (ta_value ta)), length before - length w))"

text \<open>The state of the popup: whether it has a position, and the selected entry.\<close>

record suggestions =
  sg_position :: bool
  sg_selected :: nat

definition current_suggestions :: "char \<Rightarrow> ('a list \<Rightarrow> string \<Rightarrow> 'a list) \<Rightarrow> 'a list \<Rightarrow> textarea \<Rightarrow> 'a list" where
  "current_suggestions trigger filterItems items ta =
     (let (word, _) = getCurrentWord ta in
      if \<not> starts_with word [trigger] then [] else filterItems items (to_lower (tl word)))"

definition searchQuery :: "char \<Rightarrow> textarea \<Rightarrow> string" where
  "searchQuery trigger ta =
     (let (word, _) = getCurrentWord ta in if starts_with word [trigger] then to_lower (tl word) else [])"

definition handleNavigation :: "string \<Rightarrow> nat \<Rightarrow> nat \<Rightarrow> nat" where
  "handleNavigation kc selected count =
     (if kc = ''ArrowDown'' then (selected + 1) mod count
      else if kc = ''ArrowUp'' then (selected + count - 1) mod count else selected)"

text \<open>A key while the popup is open: the popup, the text area and whether the key was taken.\<close>

definition suggestions_keydown ::
  "('a \<Rightarrow> string \<Rightarrow> nat \<Rightarrow> textarea \<Rightarrow> textarea) \<Rightarrow> 'a list \<Rightarrow> string \<Rightarrow> suggestions \<times> textarea \<Rightarrow> (suggestions \<times> textarea) \<times> bool" where
  "suggestions_keydown onAutocomplete sugs kc st =
     (let (sg, ta) = st in
      if \<not> (sg_position sg \<and> sugs \<noteq> []) then (st, False)
      else if kc \<in> {''Escape'', ''ArrowLeft'', ''ArrowRight''} then ((sg\<lparr>sg_position := False\<rparr>, ta), False)
      else if kc \<in> {''ArrowDown'', ''ArrowUp''}
      then ((sg\<lparr>sg_selected := handleNavigation kc (sg_selected sg) (length sugs)\<rparr>, ta), True)
      else if kc \<in> {''Enter'', ''Tab''}
      then let (word, index) = getCurrentWord ta
           in ((sg\<lparr>sg_position := False\<rparr>, onAutocomplete (sugs ! sg_selected sg) word index ta), True)
      else (st, False))"

definition suggestions_input :: "char \<Rightarrow> textarea \<Rightarrow> suggestions \<Rightarrow> suggestions" where
  "suggestions_input trigger ta sg =
     (let (word, _) = getCurrentWord ta;
          next_is_trigger = (selectionEnd ta < length (ta_value ta) \<and> ta_value ta ! selectionEnd ta = trigger)
      in \<lparr>sg_position = (starts_with word [trigger] \<and> \<not> next_is_trigger), sg_selected = 0\<rparr>)"

definition filter_tags :: "string list \<Rightarrow> string \<Rightarrow> string list" where
  "filter_tags items query = (if query = [] then items else filter (\<lambda>tag. str_includes (to_lower tag) query) items)"

definition tag_autocomplete :: "string \<Rightarrow> string \<Rightarrow> nat \<Rightarrow> textarea \<Rightarrow> textarea" where
  "tag_autocomplete tag word index ta = insertText (''#'' @ tag @ '' '') [] [] (removeText index (length word) ta)"

record Command =
  cmd_name :: string
  cmd_run :: string
  cursorOffset :: "nat option"

definition editorCommands :: "Command list" where
  "editorCommands = [
     \<lparr>cmd_name = ''todo'', cmd_run = ''- [ ] '', cursorOffset = Some 6\<rparr>,
     \<lparr>cmd_name = ''code'', cmd_run = ''```'' @ [newline, newline] @ ''```'', cursorOffset = Some 4\<rparr>,
     \<lparr>cmd_name = ''link'', cmd_run = ''[text](url)'', cursorOffset = Some 1\<rparr>,
     \<lparr>cmd_name = ''table'', cmd_run = ''| Header | Header |'' @ [newline] @ ''| ------ | ------ |'' @ [newline] @ ''| Cell   | Cell |'',
      cursorOffset = Some 1\<rparr>]"

definition filter_commands :: "Command list \<Rightarrow> string \<Rightarrow> Command list" where
  "filter_commands items query = (if query = [] then items else filter (\<lambda>c. starts_with (to_lower (cmd_name c)) query) items)"

definition handleCommandAutocomplete :: "Command \<Rightarrow> string \<Rightarrow> nat \<Rightarrow> textarea \<Rightarrow> textarea" where
  "handleCommandAutocomplete cmd word index ta =
     (let ta' = insertText (cmd_run cmd) [] [] (removeText index (length word) ta)
      in case cursorOffset cmd of
           None \<Rightarrow> ta'
         | Some k \<Rightarrow> if k = 0 then ta' else setCursorPosition (index + k) None ta')"

section \<open>Properties\<close>

subsection \<open>Values without carriage returns\<close>

lemma norm_nl_id: "cr \<notin> set s \<Longrightarrow> norm_nl s = s"
  by (induction s rule: norm_nl.induct) auto

lemma norm_nl_no_cr: "cr \<notin> set (norm_nl s)"
proof -
  have "cr \<noteq> newline" by code_simp
  then show ?thesis by (induction s rule: norm_nl.induct) auto
qed

definition ta_ok :: "textarea \<Rightarrow> bool" where
  "ta_ok ta \<longleftrightarrow> cr \<notin> set (ta_value ta) \<and> selectionStart ta \<le> selectionEnd ta \<and> selectionEnd ta \<le> length (ta_value ta)"

lemma set_value_ok: "ta_ok ta \<Longrightarrow> ta_ok (set_value v ta)"
  by (simp add: ta_ok_def set_value_def Let_def norm_nl_no_cr)

lemma setSelectionRange_ok: "ta_ok ta \<Longrightarrow> ta_ok (setSelectionRange a b ta)"
  by (simp add: ta_ok_def setSelectionRange_def Let_def min_def)

lemma editor_actions_ok:
  "ta_ok ta \<Longrightarrow> ta_ok (insertText c p s ta)" "ta_ok ta \<Longrightarrow> ta_ok (removeText a l ta)" "ta_ok ta \<Longrightarrow> ta_ok (setContent t ta)"
  "ta_ok ta \<Longrightarrow> ta_ok (setCursorPosition a e ta)" "ta_ok ta \<Longrightarrow> ta_ok (setLine n t ta)"
  by (simp_all add: insertText_def removeText_def setContent_def setCursorPosition_def setLine_def Let_def
      set_value_ok setSelectionRange_ok)

lemma ta_value_set [simp]: "ta_value (set_value v ta) = norm_nl v"
  by (simp add: set_value_def Let_def)

lemma set_value_select: "selectionStart (setSelectionRange a b (set_value v ta)) = min a (min b (length (norm_nl v)))"
  "selectionEnd (setSelectionRange a b (set_value v ta)) = min b (length (norm_nl v))"
  "ta_value (setSelectionRange a b ta') = ta_value ta'"
  by (simp_all add: setSelectionRange_def Let_def)

lemma insertText_plain:
  assumes "ta_ok ta" "c \<noteq> []" "cr \<notin> set c"
  shows "ta_value (insertText c [] [] ta) = take (selectionStart ta) (ta_value ta) @ c @ drop (selectionEnd ta) (ta_value ta)"
    "selectionStart (insertText c [] [] ta) = selectionStart ta + length c"
    "selectionEnd (insertText c [] [] ta) = selectionStart ta + length c"
proof -
  have n: "norm_nl (take (selectionStart ta) (ta_value ta) @ c @ drop (selectionEnd ta) (ta_value ta)) =
      take (selectionStart ta) (ta_value ta) @ c @ drop (selectionEnd ta) (ta_value ta)"
    using assms by (intro norm_nl_id) (auto simp: ta_ok_def dest: in_set_takeD in_set_dropD)
  show "ta_value (insertText c [] [] ta) = take (selectionStart ta) (ta_value ta) @ c @ drop (selectionEnd ta) (ta_value ta)"
    "selectionStart (insertText c [] [] ta) = selectionStart ta + length c"
    "selectionEnd (insertText c [] [] ta) = selectionStart ta + length c"
    using assms n by (auto simp: insertText_def Let_def set_value_select ta_ok_def)
qed

lemma removeText_plain:
  assumes "ta_ok ta" "a + l \<le> length (ta_value ta)"
  shows "ta_value (removeText a l ta) = take a (ta_value ta) @ drop (a + l) (ta_value ta)"
    "selectionStart (removeText a l ta) = a" "selectionEnd (removeText a l ta) = a"
proof -
  have n: "norm_nl (take a (ta_value ta) @ drop (a + l) (ta_value ta)) = take a (ta_value ta) @ drop (a + l) (ta_value ta)"
    using assms by (intro norm_nl_id) (auto simp: ta_ok_def dest: in_set_takeD in_set_dropD)
  show "ta_value (removeText a l ta) = take a (ta_value ta) @ drop (a + l) (ta_value ta)"
    "selectionStart (removeText a l ta) = a" "selectionEnd (removeText a l ta) = a"
    using assms n by (simp_all add: removeText_def Let_def set_value_select ta_ok_def)
qed

subsection \<open>Continuing a list\<close>

text \<open>The item that follows.\<close>

definition next_kind :: "list_kind \<Rightarrow> list_kind" where
  "next_kind k = (case k of OrderedList n \<Rightarrow> OrderedList (n + 1) | _ \<Rightarrow> k)"

lemma last_line_append: "newline \<notin> set t \<Longrightarrow> last_line (s @ newline # t) = t"
proof -
  assume t: "newline \<notin> set t"
  have "split_on newline (s @ newline # t) = split_on newline s @ split_on newline t"
    by (induction s) (auto split: list.splits)
  then show ?thesis using t by (simp add: last_line_def)
qed

lemma last_line_suffix: "\<exists>p. s = p @ last_line s \<and> newline \<notin> set (last_line s)"
proof -
  have "join [newline] (split_on newline s) = s" by simp
  moreover have "xs \<noteq> [] \<Longrightarrow> \<exists>p. join [newline] xs = p @ last xs" for xs
  proof (induction xs)
    case (Cons x xs)
    then show ?case by (cases "xs = []") (auto simp: join_Cons intro: exI[of _ "x @ newline # p" for p])
  qed simp
  ultimately show ?thesis
    unfolding last_line_def by (metis last_in_set set_split_on split_on_not_Nil)
qed

lemma spaces_bullet:
  assumes "list_all is_space w" "\<not> is_space c"
  shows "dropWhile is_space (w @ c # r) = c # r" "takeWhile is_space (w @ c # r) = w"
  using assms by (induction w) auto

lemma show_nat_head: "\<exists>d ds. show_nat n = d # ds \<and> is_digit d \<and> \<not> is_space d \<and> \<not> is_bullet d"
proof -
  obtain d ds where "show_nat n = d # ds" using show_nat_props(2)[of n] by (cases "show_nat n") auto
  moreover from this have "is_digit d" using show_nat_props(3)[of n] by simp
  moreover from this have "\<not> is_space d" "\<not> is_bullet d" by (auto simp: js_defs is_bullet_def)
  ultimately show ?thesis by blast
qed

lemma digits_span:
  assumes "list_all is_digit ds"
  shows "dropWhile is_digit (ds @ ''. '') = ''. ''" "takeWhile is_digit (ds @ ''. '') = ds"
  using assms by (induction ds) (auto simp: js_defs)

lemma detect_last: "detectLastListItem (s @ newline # t) = detectLastListItem t" if "newline \<notin> set t"
  using that last_line_append[of t s] last_line_append[of t "[]"]
  by (simp add: detectLastListItem_def last_line_def)

lemma detect_indent: "lii_indent (detectLastListItem s) = takeWhile is_space (last_line s)"
  by (auto simp: detectLastListItem_def Let_def split: option.splits)

lemma indent_subset: "set (lii_indent (detectLastListItem s)) \<subseteq> set s"
proof
  fix x assume "x \<in> set (lii_indent (detectLastListItem s))"
  then have "x \<in> set (last_line s)" unfolding detect_indent by (blast dest: set_takeWhileD)
  then show "x \<in> set s" using last_line_suffix[of s] by (metis Un_iff set_append)
qed

lemma detect_shape:
  assumes "lii_type (detectLastListItem s) = k" "k \<noteq> NoList"
  shows "list_all is_space (lii_indent (detectLastListItem s))" "newline \<notin> set (lii_indent (detectLastListItem s))"
    "k = TaskList b \<or> k = UnorderedList b \<Longrightarrow> is_bullet b"
proof -
  have "newline \<notin> set (last_line s)" using last_line_suffix by blast
  then show "list_all is_space (lii_indent (detectLastListItem s))" "newline \<notin> set (lii_indent (detectLastListItem s))"
    unfolding detect_indent by (auto simp: list_all_iff dest: set_takeWhileD)
  have "\<And>pre b r l. bullet_prefix l = Some (pre, b, r) \<Longrightarrow> is_bullet b"
    by (auto simp: bullet_prefix_def split: list.splits if_splits)
  then show "k = TaskList b \<or> k = UnorderedList b \<Longrightarrow> is_bullet b"
    using assms by (auto simp: detectLastListItem_def Let_def split: option.splits if_splits)
qed


lemma last_line_plain: "newline \<notin> set t \<Longrightarrow> last_line t = t"
  by (simp add: last_line_def)

text \<open>The continuation is an empty item of the next kind.\<close>

lemma continuation_item:
  assumes "list_all is_space w" "newline \<notin> set w" "k \<noteq> NoList" "\<And>b. k = TaskList b \<or> k = UnorderedList b \<Longrightarrow> is_bullet b"
    and g: "item = generateListContinuation \<lparr>lii_type = k, lii_indent = w\<rparr>"
  shows "newline \<notin> set item"
    "detectLastListItem item = \<lparr>lii_type = next_kind k, lii_indent = w\<rparr>" "isEmptyListItem item"
proof -
  have "\<not> is_bullet newline" "\<not> is_digit newline" by code_simp+
  then have bn: "is_bullet b \<Longrightarrow> b \<noteq> newline" and dn: "is_digit b \<Longrightarrow> b \<noteq> newline" for b by auto
  have sn: "newline \<notin> set '' [ ] .''" by code_simp
  show n: "newline \<notin> set item"
    using assms bn dn sn show_nat_props(3) by (cases k) (auto simp: g generateListContinuation_def)
  have sp: "is_space (CHR '' '')" "\<not> is_space (CHR ''['')" "takeWhile is_space '' '' \<noteq> []" by code_simp+
  have bp: "bullet_prefix (w @ b # CHR '' '' # r) = Some (w @ [b, CHR '' ''], b, r)"
    if "is_bullet b" "r = [] \<or> hd r = CHR ''[''" for b r
    using that spaces_bullet[OF assms(1) bullet_not_space[OF that(1)]] sp by (cases r) (auto simp: bullet_prefix_def)
  have cb: "checkbox ''[ ] '' = Some (CHR '' '', '' '')" "checkbox [] = None" by code_simp+
  have "detectLastListItem item = \<lparr>lii_type = next_kind k, lii_indent = w\<rparr> \<and> isEmptyListItem item"
  proof (cases k)
    case (TaskList b)
    then have b: "is_bullet b" using assms(4) by blast
    have c: "item = w @ b # CHR '' '' # ''[ ] ''" using TaskList by (simp add: g generateListContinuation_def)
    show ?thesis using bp[OF b, of "''[ ] ''"] cb sp n[unfolded c] spaces_bullet[OF assms(1) bullet_not_space[OF b]] TaskList
      unfolding c by (simp add: detectLastListItem_def last_line_plain isEmptyListItem_def all_space_def next_kind_def)
  next
    case (UnorderedList b)
    then have b: "is_bullet b" using assms(4) by blast
    have c: "item = w @ b # CHR '' '' # []" using UnorderedList by (simp add: g generateListContinuation_def)
    show ?thesis using bp[OF b, of "[]"] cb sp n[unfolded c] spaces_bullet[OF assms(1) bullet_not_space[OF b]] UnorderedList b
      unfolding c by (simp add: detectLastListItem_def last_line_plain isEmptyListItem_def all_space_def next_kind_def)
  next
    case (OrderedList m)
    obtain d ds where d: "show_nat (m + 1) = d # ds" "is_digit d" "\<not> is_space d" "\<not> is_bullet d" using show_nat_head by blast
    have c: "item = w @ d # ds @ ''. ''" using OrderedList d(1) by (simp add: g generateListContinuation_def)
    have ds: "list_all is_digit (d # ds)" using show_nat_props(3)[of "m + 1"] d(1) by (simp add: list_all_iff)
    have v: "digits_val (d # ds) = m + 1" using show_nat_props(1)[of "m + 1"] d(1) by simp
    have sd: "dropWhile is_space item = (d # ds) @ ''. ''" "takeWhile is_space item = w"
      unfolding c using spaces_bullet[OF assms(1) d(3)] by simp_all
    have "bullet_prefix item = None" using sd(1) d(4) by (simp add: bullet_prefix_def)
    moreover have "ordered_match item = Some (m + 1)"
      unfolding ordered_match_def Let_def sd(1) digits_span[OF ds] using sp v by simp
    moreover have "isEmptyListItem item"
      unfolding isEmptyListItem_def Let_def sd(1) digits_span[OF ds] using sp d by (simp add: all_space_def)
    ultimately show ?thesis
      using n OrderedList sd(2) by (simp add: detectLastListItem_def last_line_plain next_kind_def)
  qed (use assms in simp)
  then show "detectLastListItem item = \<lparr>lii_type = next_kind k, lii_indent = w\<rparr>" "isEmptyListItem item" by blast+
qed


text \<open>C39. Enter in a list. On a list item with text, Enter (outside a composition) inserts a line break and the marker of
  the next item, with the same indentation and bullet, or the next number, and an unchecked box for a
  task: the text before the cursor then ends with an item of that kind. A second Enter on
  that empty item removes the marker again and leaves the cursor on the empty new line.\<close>

theorem list_enter:
  assumes "ta_ok ta" "ev = \<lparr>ev_key = ''Enter'', shiftKey = False, ctrlKey = False, metaKey = False, altKey = False\<rparr>"
    and "100 \<le> now - lastEnd" "100 \<le> now' - lastEnd"
    and "before = take (selectionStart ta) (ta_value ta)" "info = detectLastListItem before"
    and "lii_type info \<noteq> NoList" "\<not> isEmptyListItem (last_line before)"
    and "ta1 = snd (list_keydown now lastEnd False ev ta)" "ta2 = snd (list_keydown now' lastEnd False ev ta1)"
  shows "ta_value ta1 = before @ newline # generateListContinuation info @ drop (selectionEnd ta) (ta_value ta) \<and>
    detectLastListItem (take (selectionStart ta1) (ta_value ta1)) =
      \<lparr>lii_type = next_kind (lii_type info), lii_indent = lii_indent info\<rparr> \<and>
    ta_value ta2 = before @ newline # drop (selectionEnd ta) (ta_value ta) \<and>
    selectionStart ta2 = length before + 1 \<and> selectionEnd ta2 = length before + 1"
proof -
  let ?k = "lii_type info" and ?w = "lii_indent info" and ?c = "generateListContinuation info"
  have w: "list_all is_space ?w" "newline \<notin> set ?w" "\<And>b. ?k = TaskList b \<or> ?k = UnorderedList b \<Longrightarrow> is_bullet b"
    using detect_shape[of before ?k] assms(6,7) by blast+
  have g: "?c = generateListContinuation \<lparr>lii_type = ?k, lii_indent = ?w\<rparr>" by (cases info) simp
  note item = continuation_item[OF w(1,2) assms(7) w(3) g]
  have len: "length before = selectionStart ta" using assms(1,5) by (simp add: ta_ok_def)
  have cr: "cr \<notin> set (newline # ?c)"
  proof -
    have "cr \<noteq> newline" by code_simp
    moreover have "cr \<notin> set ?w"
      using indent_subset[of before] assms(1,5,6) by (auto simp: ta_ok_def dest: in_set_takeD)
    moreover have "\<not> is_bullet cr" "\<not> is_digit cr" "cr \<notin> set '' [ ] .''" by code_simp+
    ultimately show ?thesis using w(3) show_nat_props(3) by (cases ?k) (auto simp: generateListContinuation_def)
  qed
  have ta1: "ta1 = insertText (newline # ?c) [] [] ta"
    using assms(2,3,5-9) by (simp add: list_keydown_def getCursorPosition_def Let_def)
  have v1: "ta_value ta1 = before @ newline # ?c @ drop (selectionEnd ta) (ta_value ta)"
    "selectionStart ta1 = length before + (1 + length ?c)"
    unfolding ta1 using insertText_plain[OF assms(1) _ cr] assms(5) len by simp_all
  have t1: "take (selectionStart ta1) (ta_value ta1) = before @ newline # ?c"
    unfolding v1 by (simp add: take_Cons')
  have d1: "detectLastListItem (before @ newline # ?c) = \<lparr>lii_type = next_kind ?k, lii_indent = ?w\<rparr>"
    using detect_last[OF item(1)] item(2) by simp
  have nk: "next_kind ?k \<noteq> NoList" using assms(7) by (cases ?k) (auto simp: next_kind_def)
  have ok1: "ta_ok ta1" unfolding ta1 by (rule editor_actions_ok(1)[OF assms(1)])
  have ta2: "ta2 = removeText (length before + 1) (length ?c) ta1"
    using assms(2,4,10) nk d1 t1 item(3) last_line_append[OF item(1), of before]
    by (simp add: list_keydown_def getCursorPosition_def Let_def v1(2))
  have "ta_value ta2 = before @ newline # drop (selectionEnd ta) (ta_value ta)"
    "selectionStart ta2 = length before + 1" "selectionEnd ta2 = length before + 1"
    unfolding ta2 by (subst removeText_plain[OF ok1]; simp add: v1(1))+
  then show ?thesis using v1(1) t1 d1 by simp
qed

theorem list_enter_witness:
  "ta_value (snd (list_keydown 1000 0 False \<lparr>ev_key = ''Enter'', shiftKey = False, ctrlKey = False, metaKey = False, altKey = False\<rparr>
     \<lparr>ta_value = ''9. nine'', selectionStart = 7, selectionEnd = 7\<rparr>)) = ''9. nine'' @ newline # ''10. ''"
proof -
  let ?ta = "\<lparr>ta_value = ''9. nine'', selectionStart = 7, selectionEnd = 7\<rparr>"
  have "ta_ok ?ta" by code_simp
  moreover have "lii_type (detectLastListItem ''9. nine'') \<noteq> NoList" "\<not> isEmptyListItem (last_line ''9. nine'')"
    "generateListContinuation (detectLastListItem ''9. nine'') = ''10. ''" by code_simp+
  ultimately show ?thesis
    using list_enter[of ?ta _ 1000 0 1000 "''9. nine''" _ _ _, OF _ refl _ _ _ refl _ _ refl refl] by simp
qed


subsection \<open>Shortcuts and suggestions\<close>

lemma inner_styled: "inner (length d) (d @ s @ d) = s"
  by (simp add: inner_def slice_def)

lemma toggle_styled:
  "isTextStyled (getSelectedContent ta) d \<Longrightarrow>
     ta_value (toggleTextStyle d ta) = ta_value (insertText (inner (length d) (getSelectedContent ta)) [] [] ta)"
  by (simp add: toggleTextStyle_def Let_def setCursorPosition_def setSelectionRange_def)

text \<open>Applying a style to a selection that does not have it, selecting the result with its delimiters and applying the
  style again restores the text, for a selection that is not empty and that the delimiters
  turn into styled text.\<close>

lemma style_twice:
  assumes "ta_ok ta" "getSelectedContent ta = s" "s \<noteq> []" "d \<noteq> []" "cr \<notin> set d" "\<not> isTextStyled s d" "isTextStyled (d @ s @ d) d"
  shows "ta_value (toggleTextStyle d (setSelectionRange (selectionStart ta) (selectionStart ta + length (d @ s @ d)) (toggleTextStyle d ta))) = ta_value ta"
proof -
  let ?a = "selectionStart ta" and ?v = "ta_value ta"
  let ?t1 = "insertText (d @ s @ d) [] [] ta"
  let ?t2 = "setSelectionRange ?a (?a + length (d @ s @ d)) (toggleTextStyle d ta)"
  have le: "?a \<le> selectionEnd ta" "selectionEnd ta \<le> length ?v" "cr \<notin> set ?v" using assms(1) by (auto simp: ta_ok_def)
  have s: "s = take (selectionEnd ta - ?a) (drop ?a ?v)" using assms(2) by (simp add: getSelectedContent_def slice_def)
  then have v: "?v = take ?a ?v @ s @ drop (selectionEnd ta) ?v"
  proof -
    have "drop ?a ?v = s @ drop (selectionEnd ta) ?v"
      using le(1) unfolding s by (metis add.commute append_take_drop_id drop_drop le_add_diff_inverse)
    then show ?thesis by (metis append_take_drop_id)
  qed
  have crs: "cr \<notin> set s" using le(3) s by (metis in_set_dropD in_set_takeD)
  have v1: "ta_value ?t1 = take ?a ?v @ (d @ s @ d) @ drop (selectionEnd ta) ?v"
    using insertText_plain(1)[OF assms(1), of "d @ s @ d"] assms(4,5) crs by simp
  have t1: "toggleTextStyle d ta = setCursorPosition (?a + length d) (Some (?a + length d + length s)) ?t1"
    using assms(2,6) by (simp add: toggleTextStyle_def Let_def getCursorPosition_def)
  have v2: "ta_value ?t2 = ta_value ?t1" "selectionStart ?t2 = ?a" "selectionEnd ?t2 = ?a + length (d @ s @ d)"
    using v1 le by (simp_all add: t1 setCursorPosition_def setSelectionRange_def Let_def)
  have ok2: "ta_ok ?t2" unfolding t1 by (intro setSelectionRange_ok editor_actions_ok assms(1))
  have sel: "getSelectedContent ?t2 = d @ s @ d"
    unfolding getSelectedContent_def v2 v1 using le by (simp add: slice_def)
  have "ta_value (toggleTextStyle d ?t2) = ta_value (insertText s [] [] ?t2)"
    using toggle_styled[of ?t2 d] assms(7) unfolding sel inner_styled by blast
  also have "\<dots> = take ?a ?v @ s @ drop (selectionEnd ta) ?v"
    using insertText_plain(1)[OF ok2 assms(3) crs] le unfolding v2 v1 by simp
  finally show ?thesis using v by simp
qed

text \<open>The selected entry of an open popup stays in range.\<close>

lemma navigation_in_range: "0 < n \<Longrightarrow> i < n \<Longrightarrow> handleNavigation kc i n < n"
  by (simp add: handleNavigation_def)

lemma navigation_inverse:
  assumes "i < n"
  shows "handleNavigation ''ArrowUp'' (handleNavigation ''ArrowDown'' i n) n = i"
proof (cases "i + 1 = n")
  case True
  then show ?thesis using assms by (auto simp: handleNavigation_def)
next
  case False
  then have "(i + 1) mod n = i + 1" using assms by simp
  then show ?thesis using assms by (simp add: handleNavigation_def)
qed

text \<open>The current word is the text at its start index.\<close>

lemma current_word_at:
  assumes "ta_ok ta" "getCurrentWord ta = (w, i)"
  shows "\<exists>r. ta_value ta = take i (ta_value ta) @ w @ r" "list_all (\<lambda>c. \<not> is_space c) w"
proof -
  let ?b = "take (selectionEnd ta) (ta_value ta)" and ?a = "drop (selectionEnd ta) (ta_value ta)"
  let ?w1 = "rev (takeWhile (\<lambda>c. \<not> is_space c) (rev ?b))" and ?w2 = "takeWhile (\<lambda>c. \<not> is_space c) ?a"
  have w: "w = ?w1 @ ?w2" "i = length ?b - length ?w1" using assms(2) by (auto simp: getCurrentWord_def Let_def)
  have "?b = rev (dropWhile (\<lambda>c. \<not> is_space c) (rev ?b)) @ ?w1"
    by (metis rev_append rev_rev_ident takeWhile_dropWhile_id)
  then have "take i ?b = rev (dropWhile (\<lambda>c. \<not> is_space c) (rev ?b))"
    using w(2) by (metis append_eq_conv_conj diff_add_inverse2 length_append)
  with \<open>?b = rev (dropWhile (\<lambda>c. \<not> is_space c) (rev ?b)) @ ?w1\<close> have "?b = take i ?b @ ?w1" by simp
  moreover have "take i ?b = take i (ta_value ta)" using w(2) by (simp add: min_def)
  moreover have "?a = ?w2 @ dropWhile (\<lambda>c. \<not> is_space c) ?a" by simp
  ultimately show "\<exists>r. ta_value ta = take i (ta_value ta) @ w @ r"
    using w(1) by (metis append.assoc append_take_drop_id)
  show "list_all (\<lambda>c. \<not> is_space c) w" using w(1) by (auto simp: list_all_iff dest: set_takeWhileD)
qed

end
