(* ===== verification/Tags.thy ===== *)
theory Tags
  imports Prelude
begin

text \<open>
  Tags and mentions in memo text: the remark plugins \<open>utils/remark-plugins/remark-tag.ts\<close> and
  \<open>remark-mention.ts\<close>, and the lookup of tag metadata (\<open>lib/tag.ts\<close>).

  Markdown trees are those of the parser package; the plugins read their types, values, children and
  source offsets. \<open>unist-util-visit\<close> goes on with the next index of the (possibly changed) list of children
  after a visitor that returns nothing.
\<close>

section \<open>Tag parsing\<close>

definition MAX_TAG_LENGTH :: nat where "MAX_TAG_LENGTH = 100"

datatype segment = TextSeg string | TagSeg string

text \<open>The Unicode categories L, N and S below U+0100; there are no marks (M) in that range.\<close>

definition is_letter :: "char \<Rightarrow> bool" where
  "is_letter c \<longleftrightarrow> is_alpha c \<or> code c \<in> {170, 181, 186} \<or> (192 \<le> code c \<and> code c \<noteq> 215 \<and> code c \<noteq> 247)"

definition is_number :: "char \<Rightarrow> bool" where
  "is_number c \<longleftrightarrow> is_digit c \<or> code c \<in> {178, 179, 185, 188, 189, 190}"

definition is_symbol :: "char \<Rightarrow> bool" where
  "is_symbol c \<longleftrightarrow> code c \<in> {36, 43, 60, 61, 62, 94, 96, 124, 126, 162, 163, 164, 165, 166, 168, 169, 172, 174, 175,
     176, 177, 180, 184, 215, 247}"

definition isTagChar :: "char \<Rightarrow> bool" where
  "isTagChar c \<longleftrightarrow> is_letter c \<or> is_number c \<or> is_symbol c \<or> c \<in> set ''_-/&''"

definition isAsciiPunctuation :: "char \<Rightarrow> bool" where
  "isAsciiPunctuation c \<longleftrightarrow> (0x21 \<le> code c \<and> code c \<le> 0x2f) \<or> (0x3a \<le> code c \<and> code c \<le> 0x40) \<or>
     (0x5b \<le> code c \<and> code c \<le> 0x60) \<or> (0x7b \<le> code c \<and> code c \<le> 0x7e)"

definition bslash :: char where "bslash = char_of (92::nat)"

text \<open>The characters with their escape marks: the arrays \<open>chars\<close> and \<open>escaped\<close> as a list of pairs.\<close>

fun unescapeBackslashes :: "string \<Rightarrow> (char \<times> bool) list" where
  "unescapeBackslashes [] = []"
| "unescapeBackslashes [c] = [(c, False)]"
| "unescapeBackslashes (c # d # s) =
     (if c = bslash \<and> isAsciiPunctuation d then (d, True) # unescapeBackslashes s
      else (c, False) # unescapeBackslashes (d # s))"

definition tag_start :: "char \<times> bool \<Rightarrow> bool" where
  "tag_start x \<longleftrightarrow> x = (CHR ''#'', False)"

text \<open>The loop of \<open>parseSegments\<close> on the rest of the characters; \<open>prev\<close> is the character before it.\<close>

function parse_from :: "char option \<Rightarrow> (char \<times> bool) list \<Rightarrow> segment list" where
  "parse_from prev [] = []"
| "parse_from prev (x # xs) =
     (let text = (let t = x # takeWhile (\<lambda>y. \<not> tag_start y) xs
                  in TextSeg (map fst t) # parse_from (Some (fst (last t))) (dropWhile (\<lambda>y. \<not> tag_start y) xs))
      in if tag_start x \<and> xs \<noteq> [] \<and> isTagChar (fst (hd xs)) then
           if prev = Some (CHR ''#'') \<or> fst (hd xs) = CHR ''#'' \<or> fst (hd xs) = CHR '' ''
           then TextSeg [fst x] # parse_from (Some (fst x)) xs
           else let tag = map fst (takeWhile (\<lambda>y. isTagChar (fst y)) xs)
                in if 0 < length tag \<and> length tag \<le> MAX_TAG_LENGTH
                   then TagSeg tag # parse_from (Some (last tag)) (dropWhile (\<lambda>y. isTagChar (fst y)) xs)
                   else text
         else text)"
  by pat_completeness auto

termination
  by (relation "measure (length \<circ> snd)") (auto simp: le_imp_less_Suc length_dropWhile_le)

definition parseSegments :: "(char \<times> bool) list \<Rightarrow> segment list" where
  "parseSegments cs = parse_from None cs"

text \<open>A text node has its value and the offsets of its source text, if any.\<close>

definition segmentsForTextNode :: "string \<Rightarrow> (nat \<times> nat) option \<Rightarrow> string \<Rightarrow> segment list" where
  "segmentsForTextNode val position source =
     (let plain = parseSegments (map (\<lambda>c. (c, False)) val) in
      case position of
        None \<Rightarrow> plain
      | Some (a, b) \<Rightarrow>
          if source \<noteq> [] then
            (let cs = unescapeBackslashes (slice a b source)
             in if map fst cs = val then parseSegments cs else plain)
          else plain)"

text \<open>Nodes: texts, tag and mention nodes made by the plugins, and other nodes with their children.\<close>

datatype mnode =
    MText string "(nat \<times> nat) option"
  | MTag string
  | MMention string
  | MNode string "mnode list"

definition isLinkNode :: "string \<Rightarrow> bool" where
  "isLinkNode ty \<longleftrightarrow> ty = ''link'' \<or> ty = ''linkReference''"

definition tag_nodes :: "segment list \<Rightarrow> mnode list" where
  "tag_nodes segs = map (\<lambda>s. case s of TagSeg v \<Rightarrow> MTag v | TextSeg v \<Rightarrow> MText v None) segs"

definition is_text_seg :: "segment \<Rightarrow> bool" where
  "is_text_seg s = (case s of TextSeg _ \<Rightarrow> True | _ \<Rightarrow> False)"

fun transformTagTextNodes :: "bool \<Rightarrow> string \<Rightarrow> mnode list \<Rightarrow> mnode list" where
  "transformTagTextNodes insideLink source [] = []"
| "transformTagTextNodes insideLink source (MText v p # ns) =
     (if insideLink then [MText v p]
      else let segs = segmentsForTextNode v p source
           in if list_all is_text_seg segs then [MText v p] else tag_nodes segs)
     @ transformTagTextNodes insideLink source ns"
| "transformTagTextNodes insideLink source (MNode ty cs # ns) =
     MNode ty (transformTagTextNodes (insideLink \<or> isLinkNode ty) source cs) # transformTagTextNodes insideLink source ns"
| "transformTagTextNodes insideLink source (MTag v # ns) = MTag v # transformTagTextNodes insideLink source ns"
| "transformTagTextNodes insideLink source (MMention v # ns) = MMention v # transformTagTextNodes insideLink source ns"

definition remarkTag :: "string \<Rightarrow> mnode list \<Rightarrow> mnode list" where
  "remarkTag source children = transformTagTextNodes False source children"

section \<open>Mentions\<close>

definition MAX_MENTION_LENGTH :: nat where "MAX_MENTION_LENGTH = 32"

datatype mention_segment = MTextSeg string | MentionSeg string

definition isMentionChar :: "char \<Rightarrow> bool" where
  "isMentionChar c \<longleftrightarrow> is_alpha c \<or> is_digit c \<or> c = CHR ''-''"

definition isMentionBoundary :: "char option \<Rightarrow> bool" where
  "isMentionBoundary c = (case c of None \<Rightarrow> True | Some d \<Rightarrow> \<not> isMentionChar d)"

function mention_from :: "char option \<Rightarrow> string \<Rightarrow> mention_segment list" where
  "mention_from prev [] = []"
| "mention_from prev (c # s) =
     (let text = (let t = c # takeWhile (\<lambda>d. d \<noteq> CHR ''@'') s
                  in MTextSeg t # mention_from (Some (last t)) (dropWhile (\<lambda>d. d \<noteq> CHR ''@'') s))
      in if c = CHR ''@'' \<and> isMentionBoundary prev \<and> s \<noteq> [] \<and> isMentionChar (hd s) then
           let username = take MAX_MENTION_LENGTH (takeWhile isMentionChar s)
           in if username \<noteq> [] \<and> list_ex (\<lambda>d. is_alpha d \<or> is_digit d) username
              then MentionSeg (to_lower username) # mention_from (Some (last username)) (drop (length username) s)
              else text
         else text)"
  by pat_completeness auto

termination
  by (relation "measure (length \<circ> snd)") (auto simp: le_imp_less_Suc length_dropWhile_le)

definition parseMentionsFromText :: "string \<Rightarrow> mention_segment list" where
  "parseMentionsFromText text = mention_from None text"

definition mention_value :: "mention_segment \<Rightarrow> string option" where
  "mention_value s = (case s of MentionSeg u \<Rightarrow> Some u | MTextSeg _ \<Rightarrow> None)"

definition extractMentionUsernames :: "string \<Rightarrow> string list" where
  "extractMentionUsernames text = uniq_by (\<lambda>u. u) [] (List.map_filter mention_value (parseMentionsFromText text))"

definition mention_nodes :: "mention_segment list \<Rightarrow> mnode list" where
  "mention_nodes segs = map (\<lambda>s. case s of MentionSeg u \<Rightarrow> MMention u | MTextSeg v \<Rightarrow> MText v None) segs"

text \<open>The visitor of \<open>remarkMention\<close> replaces a text node by its segments and returns nothing, so that the visit goes
  on with the second of the new nodes. It ends because every step
  leaves less text or fewer nodes to visit.\<close>

fun text_size :: "mnode \<Rightarrow> nat" where
  "text_size (MText v p) = length v"
| "text_size (MNode ty cs) = sum_list (map text_size cs)"
| "text_size (MTag v) = 0"
| "text_size (MMention v) = 0"

definition seg_src :: "mention_segment \<Rightarrow> nat" where
  "seg_src s = (case s of MTextSeg t \<Rightarrow> length t | MentionSeg u \<Rightarrow> length u + 1)"

lemma mention_from_length: "sum_list (map seg_src (mention_from prev s)) = length s"
proof (induction prev s rule: mention_from.induct)
  case (2 prev c s)
  have t: "length (takeWhile (\<lambda>d. d \<noteq> CHR ''@'') s) + length (dropWhile (\<lambda>d. d \<noteq> CHR ''@'') s) = length s"
    by (metis length_append takeWhile_dropWhile_id)
  let ?u = "take MAX_MENTION_LENGTH (takeWhile isMentionChar s)"
  have u: "length ?u \<le> length s" using length_takeWhile_le[of isMentionChar s] by simp
  show ?case
  proof (cases "c = CHR ''@'' \<and> isMentionBoundary prev \<and> s \<noteq> [] \<and> isMentionChar (hd s) \<and> ?u \<noteq> [] \<and>
      list_ex (\<lambda>d. is_alpha d \<or> is_digit d) ?u")
    case True
    then have "sum_list (map seg_src (mention_from (Some (last ?u)) (drop (length ?u) s))) = length (drop (length ?u) s)"
      using 2 by blast
    then show ?thesis using True u by (subst mention_from.simps) (simp add: Let_def seg_src_def to_lower_def)
  next
    case False
    have "sum_list (map seg_src (mention_from (Some (last (c # takeWhile (\<lambda>d. d \<noteq> CHR ''@'') s))) (dropWhile (\<lambda>d. d \<noteq> CHR ''@'') s))) =
        length (dropWhile (\<lambda>d. d \<noteq> CHR ''@'') s)"
      using 2 by blast
    then show ?thesis using False t by (subst mention_from.simps) (auto simp: Let_def seg_src_def)
  qed
qed simp

lemma mention_nodes_size: "sum_list (map text_size (mention_nodes segs)) \<le> sum_list (map seg_src segs)"
  by (induction segs) (auto simp: mention_nodes_def seg_src_def split: mention_segment.splits)

lemma mention_from_pos: "s \<in> set (mention_from prev t) \<Longrightarrow> 0 < seg_src s"
  by (induction prev t rule: mention_from.induct) (auto simp: seg_src_def Let_def split: if_splits)

lemma mention_rest_smaller:
  assumes "mention_nodes (parseMentionsFromText v) = n # new"
  shows "sum_list (map text_size new) < length v"
proof -
  obtain s segs where s: "parseMentionsFromText v = s # segs" "new = mention_nodes segs"
    using assms by (auto simp: mention_nodes_def)
  have "seg_src s + sum_list (map seg_src segs) = length v"
    using mention_from_length[of None v] s(1) by (simp add: parseMentionsFromText_def)
  moreover have "0 < seg_src s" using mention_from_pos[of s None v] s(1) by (simp add: parseMentionsFromText_def)
  ultimately show ?thesis using mention_nodes_size[of segs] unfolding s(2) by linarith
qed

function visit_mentions :: "mnode list \<Rightarrow> mnode list" where
  "visit_mentions [] = []"
| "visit_mentions (MText v p # ns) =
     (let segs = parseMentionsFromText v in
      if list_all (\<lambda>s. mention_value s = None) segs then MText v p # visit_mentions ns
      else case mention_nodes segs of
             [] \<Rightarrow> visit_mentions ns
           | n # new \<Rightarrow> n # visit_mentions (new @ ns))"
| "visit_mentions (MNode ty cs # ns) = MNode ty (visit_mentions cs) # visit_mentions ns"
| "visit_mentions (MTag v # ns) = MTag v # visit_mentions ns"
| "visit_mentions (MMention v # ns) = MMention v # visit_mentions ns"
  by pat_completeness auto


termination
  by (relation "measures [\<lambda>ns. sum_list (map text_size ns), size_list size]")
    (auto dest: mention_rest_smaller)

definition remarkMention :: "mnode list \<Rightarrow> mnode list" where
  "remarkMention children = visit_mentions children"


section \<open>Tag metadata\<close>

text \<open>\<open>lib/tag.ts\<close>: the regular expression engine is the argument \<open>regex\<close>, which gives for a pattern the test of a whole
  string, or \<open>None\<close> where the pattern does not compile. The cache holds compiled patterns. The settings are an object: its own
  properties in their order, and those that every object inherits.\<close>

definition inherited_props :: "string list" where
  "inherited_props = [''constructor'', ''__defineGetter__'', ''__defineSetter__'', ''hasOwnProperty'', ''__lookupGetter__'',
     ''__lookupSetter__'', ''isPrototypeOf'', ''propertyIsEnumerable'', ''toString'', ''valueOf'', ''__proto__'', ''toLocaleString'']"

datatype 'm js_prop = OwnProp 'm | InheritedProp string

definition js_get :: "(string, 'm) jsmap \<Rightarrow> string \<Rightarrow> 'm js_prop option" where
  "js_get obj k = (case map_get obj k of
     Some v \<Rightarrow> Some (OwnProp v)
   | None \<Rightarrow> if k \<in> set inherited_props then Some (InheritedProp k) else None)"

type_synonym 'm compile = "string \<Rightarrow> (string \<Rightarrow> bool) option"

definition getCompiledPattern :: "'m compile \<Rightarrow> string \<Rightarrow> (string, (string \<Rightarrow> bool) option) jsmap \<Rightarrow>
    (string \<Rightarrow> bool) option \<times> (string, (string \<Rightarrow> bool) option) jsmap" where
  "getCompiledPattern regex pattern cache = (case map_get cache pattern of
     Some re \<Rightarrow> (re, cache)
   | None \<Rightarrow> (regex pattern, map_set pattern (regex pattern) cache))"

fun match_patterns :: "'a compile \<Rightarrow> string \<Rightarrow> (string \<times> 'm) list \<Rightarrow> (string, (string \<Rightarrow> bool) option) jsmap \<Rightarrow>
    'm option \<times> (string, (string \<Rightarrow> bool) option) jsmap" where
  "match_patterns regex tag [] cache = (None, cache)"
| "match_patterns regex tag ((pattern, metadata) # rest) cache =
     (let (re, cache') = getCompiledPattern regex pattern cache
      in case re of
           Some test \<Rightarrow> if test tag then (Some metadata, cache') else match_patterns regex tag rest cache'
         | None \<Rightarrow> match_patterns regex tag rest cache')"

definition findTagMetadata :: "'a compile \<Rightarrow> string \<Rightarrow> (string, 'm) jsmap \<Rightarrow> (string, (string \<Rightarrow> bool) option) jsmap \<Rightarrow>
    'm js_prop option \<times> (string, (string \<Rightarrow> bool) option) jsmap" where
  "findTagMetadata regex tag tags cache = (case js_get tags tag of
     Some m \<Rightarrow> (Some m, cache)
   | None \<Rightarrow> (let (m, cache') = match_patterns regex tag tags cache in (map_option OwnProp m, cache')))"

text \<open>The cache is transparent: with a cache that holds what the engine gives, the result is that of a search
  without it.\<close>

definition cache_true :: "'a compile \<Rightarrow> (string, (string \<Rightarrow> bool) option) jsmap \<Rightarrow> bool" where
  "cache_true regex cache \<longleftrightarrow> (\<forall>p re. map_get cache p = Some re \<longrightarrow> re = regex p)"

lemma getCompiledPattern_true:
  assumes "cache_true regex cache"
  shows "fst (getCompiledPattern regex p cache) = regex p" "cache_true regex (snd (getCompiledPattern regex p cache))"
  using assms by (auto simp: getCompiledPattern_def cache_true_def split: option.splits)

definition matches_tag :: "'a compile \<Rightarrow> string \<Rightarrow> string \<Rightarrow> bool" where
  "matches_tag regex tag p = (case regex p of Some test \<Rightarrow> test tag | None \<Rightarrow> False)"

lemma match_patterns_find:
  "cache_true regex cache \<Longrightarrow>
     fst (match_patterns regex tag tags cache) = map_option snd (find (\<lambda>(p, m). matches_tag regex tag p) tags) \<and>
     cache_true regex (snd (match_patterns regex tag tags cache))"
proof (induction tags arbitrary: cache)
  case (Cons t tags)
  obtain p m where t: "t = (p, m)" by (cases t)
  note g = getCompiledPattern_true[OF Cons.prems, of p]
  then show ?case using Cons.IH[OF g(2)] by (auto simp: t split_beta matches_tag_def split: option.splits)
qed simp

lemma findTagMetadata_spec:
  assumes "cache_true regex cache"
  shows "fst (findTagMetadata regex tag tags cache) =
    (if js_get tags tag \<noteq> None then js_get tags tag
     else map_option (OwnProp \<circ> snd) (find (\<lambda>(p, m). matches_tag regex tag p) tags))"
  using match_patterns_find[OF assms, of tag tags]
  by (auto simp: findTagMetadata_def split_beta option.map_comp split: option.splits)

text \<open>\<open>isValidTagPattern\<close>: \<open>/\((?:[^()]*[*+?{][^()]*)\)[*+?{]/\<close> finds a group without inner parentheses that has a
  quantifier in its body and one after it.\<close>

definition is_quant :: "char \<Rightarrow> bool" where "is_quant c \<longleftrightarrow> c \<in> set ''*+?{''"

definition not_paren :: "char \<Rightarrow> bool" where "not_paren c \<longleftrightarrow> c \<notin> set ''()''"

definition quant_group :: "string \<Rightarrow> bool" where
  "quant_group s = (case s of
     c # r \<Rightarrow> c = CHR ''('' \<and> list_ex is_quant (takeWhile not_paren r) \<and>
       (case dropWhile not_paren r of d # q # _ \<Rightarrow> d = CHR '')'' \<and> is_quant q | _ \<Rightarrow> False)
   | [] \<Rightarrow> False)"

definition isValidTagPattern :: "(string \<Rightarrow> bool) \<Rightarrow> string \<Rightarrow> bool" where
  "isValidTagPattern compiles pattern =
     (if pattern = [] then False else if \<not> compiles pattern then False
      else \<not> list_ex quant_group (suffixes pattern))"


section \<open>Properties\<close>

definition seg_text :: "segment \<Rightarrow> string" where
  "seg_text s = (case s of TextSeg v \<Rightarrow> v | TagSeg v \<Rightarrow> CHR ''#'' # v)"

definition seg_wf :: "segment \<Rightarrow> bool" where
  "seg_wf s = (case s of TextSeg v \<Rightarrow> v \<noteq> []
     | TagSeg v \<Rightarrow> v \<noteq> [] \<and> length v \<le> MAX_TAG_LENGTH \<and> list_all isTagChar v)"

lemma map_fst_split: "map fst (takeWhile P xs) @ map fst (dropWhile P xs) = map fst xs"
  by (metis map_append takeWhile_dropWhile_id)

lemma parse_from_props:
  "concat (map seg_text (parse_from prev xs)) = map fst xs \<and> list_all seg_wf (parse_from prev xs)"
proof (induction prev xs rule: parse_from.induct)
  case (2 prev x xs)
  let ?tag = "map fst (takeWhile (\<lambda>y. isTagChar (fst y)) xs)"
  let ?text = "x # takeWhile (\<lambda>y. \<not> tag_start y) xs"
  have tseg: "concat (map seg_text (TextSeg (map fst ?text) # parse_from p (dropWhile (\<lambda>y. \<not> tag_start y) xs))) = map fst (x # xs) \<and>
      list_all seg_wf (TextSeg (map fst ?text) # parse_from p (dropWhile (\<lambda>y. \<not> tag_start y) xs))"
    if "concat (map seg_text (parse_from p (dropWhile (\<lambda>y. \<not> tag_start y) xs))) = map fst (dropWhile (\<lambda>y. \<not> tag_start y) xs) \<and>
      list_all seg_wf (parse_from p (dropWhile (\<lambda>y. \<not> tag_start y) xs))" for p
    using that map_fst_split[of "\<lambda>y. \<not> tag_start y" xs] by (simp add: seg_text_def seg_wf_def)
  show ?case
  proof (cases "tag_start x \<and> xs \<noteq> [] \<and> isTagChar (fst (hd xs))")
    case True
    then have x: "fst x = CHR ''#''" by (simp add: tag_start_def)
    show ?thesis
    proof (cases "prev = Some (CHR ''#'') \<or> fst (hd xs) = CHR ''#'' \<or> fst (hd xs) = CHR '' ''")
      case skip: True
      from skip True 2(2) have "concat (map seg_text (parse_from (Some (fst x)) xs)) = map fst xs \<and> list_all seg_wf (parse_from (Some (fst x)) xs)"
        by blast
      then show ?thesis using True skip by (subst (1 2) parse_from.simps) (simp add: seg_text_def seg_wf_def)
    next
      case go: False
      show ?thesis
      proof (cases "0 < length ?tag \<and> length ?tag \<le> MAX_TAG_LENGTH")
        case tag: True
        from True go tag 2(3) have "concat (map seg_text (parse_from (Some (last ?tag)) (dropWhile (\<lambda>y. isTagChar (fst y)) xs))) =
            map fst (dropWhile (\<lambda>y. isTagChar (fst y)) xs) \<and> list_all seg_wf (parse_from (Some (last ?tag)) (dropWhile (\<lambda>y. isTagChar (fst y)) xs))"
          by blast
        moreover have "list_all isTagChar ?tag" by (auto simp: list_all_iff dest: set_takeWhileD)
        ultimately show ?thesis
          using True go tag x map_fst_split[of "\<lambda>y. isTagChar (fst y)" xs]
          by (subst (1 2) parse_from.simps) (auto simp: seg_text_def seg_wf_def Let_def)
      next
        case long: False
        then show ?thesis using True go tseg[OF 2(1)[OF refl]] by (subst (1 2) parse_from.simps) (auto simp: Let_def)
      qed
    qed
  next
    case False
    then show ?thesis using tseg[OF 2(1)[OF refl]] by (subst (1 2) parse_from.simps) (auto simp: Let_def)
  qed
qed simp


text \<open>C6. Tags in text: cutting a text node into segments loses nothing (the texts and the tags with their hash signs make up the
  characters again), every tag has between 1 and 100 characters, all of them tag characters, and no text segment is
  empty, whatever is escaped.\<close>

theorem tag_segments_wf:
  "concat (map seg_text (parseSegments cs)) = map fst cs \<and>
   (\<forall>v. TagSeg v \<in> set (parseSegments cs) \<longrightarrow> 1 \<le> length v \<and> length v \<le> 100 \<and> (\<forall>c \<in> set v. isTagChar c)) \<and>
   TextSeg [] \<notin> set (parseSegments cs)"
  using parse_from_props[of None cs]
  by (auto simp: parseSegments_def list_all_iff seg_wf_def MAX_TAG_LENGTH_def Suc_le_eq)

theorem tag_segments_wf_witness:
  "TagSeg ''ab'' \<in> set (parseSegments (map (\<lambda>c. (c, False)) ''x #ab!'')) \<and> 1 \<le> length ''ab''"
proof -
  have "TagSeg ''ab'' \<in> set (parseSegments (map (\<lambda>c. (c, False)) ''x #ab!''))" by code_simp
  then show ?thesis using tag_segments_wf[of "map (\<lambda>c. (c, False)) ''x #ab!''"] by blast
qed

text \<open>Mentions: parsing a text gives only the mentions that start at a boundary. The plugin, however, visits the
  text nodes it has made: in a text that has a mention, the rest of an address becomes a mention too, although
  its at sign follows a letter and the parser does not see a mention there.\<close>

theorem mention_revisited:
  "extractMentionUsernames ''bob@example and @alice'' = [''alice''] \<and>
   remarkMention [MText ''bob@example and @alice'' None] =
     [MText ''bob'' None, MMention ''example'', MText '' and '' None, MMention ''alice''] \<and>
   remarkMention [MText ''bob@example and alice'' None] = [MText ''bob@example and alice'' None]"
  by code_simp

end
