(* ===== verification/Export.thy ===== *)
theory Export
  imports MemoCache Dates
begin

text \<open>
  Memo export and import: \<open>services/memoExportService.ts\<close> (paging through all memos of a user, the export
  document and its file) and \<open>services/memoImportService.ts\<close> (checks of the import file).

  The server is an argument: the answer to the n-th request of a listing, which may be anything. A listing that goes on
  forever is \<open>None\<close>. The JSON form of a memo is made by the protobuf runtime and is the parameter \<open>memo_json\<close>.
\<close>

section \<open>Listing all memos\<close>

definition MEMO_EXPORT_FORMAT :: string where "MEMO_EXPORT_FORMAT = ''memoark.memo-export''"
definition MEMO_EXPORT_VERSION :: nat where "MEMO_EXPORT_VERSION = 1"
definition MEMO_EXPORT_PAGE_SIZE :: int where "MEMO_EXPORT_PAGE_SIZE = 1000"
definition MEMO_EXPORT_ORDER :: string where "MEMO_EXPORT_ORDER = ''create_time asc, name asc''"

type_synonym list_server = "nat \<Rightarrow> ListMemosRequest \<Rightarrow> js_error + ListMemosResponse"

definition export_request :: "string \<Rightarrow> MemoState \<Rightarrow> string \<Rightarrow> ListMemosRequest" where
  "export_request creatorFilter st pageToken =
     \<lparr>lmr_pageSize = MEMO_EXPORT_PAGE_SIZE, lmr_pageToken = pageToken, lmr_state = st, lmr_orderBy = MEMO_EXPORT_ORDER,
      lmr_filter = creatorFilter, lmr_showDeleted = False\<rparr>"

definition repeated_token :: js_error where
  "repeated_token = PlainError ''Error'' ''Memo export stopped because the server returned a repeated page token.''"

partial_function (option) list_pages ::
  "list_server \<Rightarrow> string \<Rightarrow> MemoState \<Rightarrow> nat \<Rightarrow> string list \<Rightarrow> string \<Rightarrow> Memo list \<Rightarrow> (js_error + Memo list) option" where
  [code]: "list_pages client flt st n seen pageToken memos =
     (case client n (export_request flt st pageToken) of
        Inl e \<Rightarrow> Some (Inl e)
      | Inr response \<Rightarrow>
          let memos' = memos @ lr_memos response; nxt = lr_nextPageToken response
          in if nxt = [] then Some (Inr memos')
             else if nxt \<in> set seen then Some (Inl repeated_token)
             else list_pages client flt st (Suc n) (seen @ [nxt]) nxt memos')"

definition listAllMemosForState :: "list_server \<Rightarrow> string \<Rightarrow> MemoState \<Rightarrow> (js_error + Memo list) option" where
  "listAllMemosForState client creatorFilter st = list_pages client creatorFilter st 0 [] [] []"

section \<open>The export file\<close>

text \<open>\<open>JSON.stringify(document, null, 2)\<close>.\<close>

definition json_indent :: "nat \<Rightarrow> string" where
  "json_indent d = newline # replicate (2 * d) (CHR '' '')"

fun json_pretty :: "nat \<Rightarrow> json \<Rightarrow> string" where
  "json_pretty d (JArr vs) =
     (if vs = [] then ''[]''
      else ''['' @ join '','' (map (\<lambda>v. json_indent (Suc d) @ json_pretty (Suc d) v) vs) @ json_indent d @ '']'')"
| "json_pretty d (JObj kvs) =
     (if kvs = [] then ''{}''
      else ''{'' @ join '','' (map (\<lambda>(k, v). json_indent (Suc d) @ json_quote k @ '': '' @ json_pretty (Suc d) v) kvs)
             @ json_indent d @ ''}'')"
| "json_pretty d v = json_print v"

record MemoExportUser =
  eu_name :: string
  eu_username :: string
  eu_displayName :: string

record MemoExportFile =
  ef_document :: json
  ef_filename :: string
  ef_content :: string

definition export_document :: "(Memo \<Rightarrow> json) \<Rightarrow> MemoExportUser \<Rightarrow> date \<Rightarrow> Memo list \<Rightarrow> Memo list \<Rightarrow> json" where
  "export_document memo_json user now normalMemos archivedMemos =
     JObj [(''format'', JStr MEMO_EXPORT_FORMAT),
       (''formatVersion'', JNum (int MEMO_EXPORT_VERSION)),
       (''exportedAt'', JStr (to_iso now)),
       (''user'', JObj [(''name'', JStr (eu_name user)), (''username'', JStr (eu_username user)),
                        (''displayName'', JStr (eu_displayName user))]),
       (''counts'', JObj [(''total'', JNum (int (length (normalMemos @ archivedMemos)))),
                          (''normal'', JNum (int (length normalMemos))), (''archived'', JNum (int (length archivedMemos)))]),
       (''includedContent'', JObj [(''memoData'', JBool True), (''attachmentMetadata'', JBool True),
          (''attachmentFiles'', JBool False), (''comments'', JBool False), (''instanceSettings'', JBool False)]),
       (''memos'', JArr (map memo_json (normalMemos @ archivedMemos)))]"

text \<open>\<open>Promise.all\<close> of two listings: it fails with the first failure; \<open>first\<close> says that the first one failed earlier where both fail.\<close>

definition promise_all :: "bool \<Rightarrow> ('e + 'a) option \<Rightarrow> ('e + 'b) option \<Rightarrow> ('e + 'a \<times> 'b) option" where
  "promise_all first a b = (case (a, b) of
     (Some (Inl e), Some (Inl f)) \<Rightarrow> Some (Inl (if first then e else f))
   | (Some (Inl e), _) \<Rightarrow> Some (Inl e)
   | (_, Some (Inl f)) \<Rightarrow> Some (Inl f)
   | (Some (Inr x), Some (Inr y)) \<Rightarrow> Some (Inr (x, y))
   | _ \<Rightarrow> None)"

definition createMemoExportFile :: "(Memo \<Rightarrow> json) \<Rightarrow> (MemoState \<Rightarrow> list_server) \<Rightarrow> bool \<Rightarrow> MemoExportUser \<Rightarrow> date \<Rightarrow>
    (js_error + MemoExportFile) option" where
  "createMemoExportFile memo_json client first user now = (case buildMemoCreatorFilter (eu_name user) of
     None \<Rightarrow> Some (Inl (PlainError ''Error'' ''A signed-in user is required to export memos.''))
   | Some flt \<Rightarrow>
       (case promise_all first (listAllMemosForState (client NORMAL) flt NORMAL) (listAllMemosForState (client ARCHIVED) flt ARCHIVED) of
          None \<Rightarrow> None
        | Some (Inl e) \<Rightarrow> Some (Inl e)
        | Some (Inr (normalMemos, archivedMemos)) \<Rightarrow>
            let document = export_document memo_json user now normalMemos archivedMemos
            in Some (Inr \<lparr>ef_document = document,
                 ef_filename = ''memoark-export-v'' @ show_nat MEMO_EXPORT_VERSION @ ''-'' @ take 10 (to_iso now) @ ''.json'',
                 ef_content = json_pretty 0 document @ [newline]\<rparr>)))"

section \<open>Import\<close>

definition MAX_MEMO_IMPORT_FILE_BYTES :: int where "MAX_MEMO_IMPORT_FILE_BYTES = 64 * 1024 * 1024"

datatype MemoImportFileErrorCode = EmptyFile | NotJson | TooLarge

text \<open>A failure of the import: of the file, or of a call (reading the file, the server).\<close>

datatype import_error = MemoImportFileError MemoImportFileErrorCode | ImportCallError js_error

record import_file =
  if_name :: string
  if_size :: int
  if_read :: "js_error + nat list"

definition validateImportSize :: "int \<Rightarrow> import_error + unit" where
  "validateImportSize sz =
     (if sz \<le> 0 then Inl (MemoImportFileError EmptyFile)
      else if MAX_MEMO_IMPORT_FILE_BYTES < sz then Inl (MemoImportFileError TooLarge) else Inr ())"

definition readMemoImportFile :: "import_file \<Rightarrow> import_error + nat list" where
  "readMemoImportFile file =
     (if \<not> suffix ''.json'' (to_lower (if_name file)) then Inl (MemoImportFileError NotJson)
      else case validateImportSize (if_size file) of
        Inl e \<Rightarrow> Inl e
      | Inr _ \<Rightarrow> (case if_read file of
          Inl e \<Rightarrow> Inl (ImportCallError e)
        | Inr data \<Rightarrow> (case validateImportSize (int (length data)) of Inl e \<Rightarrow> Inl e | Inr _ \<Rightarrow> Inr data)))"

definition previewMemoImportFile :: "(nat list \<Rightarrow> js_error + 'p) \<Rightarrow> import_file \<Rightarrow> import_error + nat list \<times> 'p" where
  "previewMemoImportFile preview file = (case readMemoImportFile file of
     Inl e \<Rightarrow> Inl e
   | Inr data \<Rightarrow> (case preview data of Inl e \<Rightarrow> Inl (ImportCallError e) | Inr p \<Rightarrow> Inr (data, p)))"

definition importPreparedMemoExport :: "(nat list \<Rightarrow> js_error + 'r) \<Rightarrow> nat list \<Rightarrow> import_error + 'r" where
  "importPreparedMemoExport import_call data = (case validateImportSize (int (length data)) of
     Inl e \<Rightarrow> Inl e
   | Inr _ \<Rightarrow> (case import_call data of Inl e \<Rightarrow> Inl (ImportCallError e) | Inr r \<Rightarrow> Inr r))"

section \<open>Listing: termination and completeness\<close>

text \<open>The pages a listing reads: each request carries the token of the page before, and the last page has no token.\<close>

fun pages_from :: "list_server \<Rightarrow> string \<Rightarrow> MemoState \<Rightarrow> nat \<Rightarrow> string \<Rightarrow> ListMemosResponse list \<Rightarrow> bool" where
  "pages_from client flt st n tok [] = False"
| "pages_from client flt st n tok (p # ps) =
     (client n (export_request flt st tok) = Inr p \<and>
      (if lr_nextPageToken p = [] then ps = [] else pages_from client flt st (Suc n) (lr_nextPageToken p) ps))"

text \<open>The page tokens of a server come from a set.\<close>

definition tokens_in :: "list_server \<Rightarrow> string set \<Rightarrow> bool" where
  "tokens_in client T \<longleftrightarrow> (\<forall>k r p. client k r = Inr p \<longrightarrow> lr_nextPageToken p \<in> insert [] T)"

definition page_tokens :: "ListMemosResponse list \<Rightarrow> string list" where
  "page_tokens ps = map lr_nextPageToken (butlast ps)"

lemma list_pages_complete:
  assumes "list_pages client flt st n seen tok memos = Some (Inr ms)" "distinct seen"
  shows "\<exists>ps. pages_from client flt st n tok ps \<and> ms = memos @ concat (map lr_memos ps) \<and> distinct (seen @ page_tokens ps)"
proof -
  define P where "P = (\<lambda>client flt st n seen tok memos (y :: js_error + Memo list). y = Inr ms \<longrightarrow> distinct seen \<longrightarrow>
      (\<exists>ps. pages_from client flt st n tok ps \<and> ms = memos @ concat (map lr_memos ps) \<and> distinct (seen @ page_tokens ps)))"
  have "P client flt st n seen tok memos (Inr ms)"
  proof (rule list_pages.raw_induct[of P, OF _ assms(1)])
    fix lp client flt st n seen tok memos and y :: "js_error + Memo list"
    assume 1: "\<And>client flt st n seen tok memos y. lp client flt st n seen tok memos = Some y \<Longrightarrow> P client flt st n seen tok memos y"
      and 2: "(case client n (export_request flt st tok) of
        Inl e \<Rightarrow> Some (Inl e)
      | Inr response \<Rightarrow>
          let memos' = memos @ lr_memos response; nxt = lr_nextPageToken response
          in if nxt = [] then Some (Inr memos')
             else if nxt \<in> set seen then Some (Inl repeated_token)
             else lp client flt st (Suc n) (seen @ [nxt]) nxt memos') = Some y"
    show "P client flt st n seen tok memos y"
      unfolding P_def
    proof (intro impI)
      assume y: "y = Inr ms" and d: "distinct seen"
      obtain p where p: "client n (export_request flt st tok) = Inr p"
        using 2 y by (auto split: sum.splits)
      show "\<exists>ps. pages_from client flt st n tok ps \<and> ms = memos @ concat (map lr_memos ps) \<and> distinct (seen @ page_tokens ps)"
      proof (cases "lr_nextPageToken p = []")
        case True
        then show ?thesis using 2 y p d by (intro exI[of _ "[p]"]) (auto simp: Let_def page_tokens_def)
      next
        case False
        let ?t = "lr_nextPageToken p"
        have t: "?t \<notin> set seen" and r: "lp client flt st (Suc n) (seen @ [?t]) ?t (memos @ lr_memos p) = Some y"
          using 2 y p False by (auto simp: Let_def split: if_splits)
        then obtain ps where ps: "pages_from client flt st (Suc n) ?t ps" "ms = (memos @ lr_memos p) @ concat (map lr_memos ps)"
            "distinct ((seen @ [?t]) @ page_tokens ps)"
          using 1[OF r] y d by (auto simp: P_def)
        then have "ps \<noteq> []" by auto
        then show ?thesis using ps p False
          by (intro exI[of _ "p # ps"]) (auto simp: page_tokens_def)
      qed
    qed
  qed
  then show ?thesis using assms by (simp add: P_def)
qed

lemma list_pages_terminates:
  assumes "finite T" "tokens_in client T" "set seen \<subseteq> T"
  shows "\<exists>y. list_pages client flt st n seen tok memos = Some y \<and>
    (\<forall>e. y = Inl e \<longrightarrow> e = repeated_token \<or> (\<exists>k r. client k r = Inl e))"
  using assms(3)
proof (induction "card (T - set seen)" arbitrary: n seen tok memos rule: less_induct)
  case less
  show ?case
  proof (cases "client n (export_request flt st tok)")
    case (Inr p)
    let ?t = "lr_nextPageToken p"
    show ?thesis
    proof (cases "?t = [] \<or> ?t \<in> set seen")
      case False
      then have t: "?t \<in> T" "?t \<notin> set seen" using assms(2) Inr by (auto simp: tokens_in_def)
      then have "T - set (seen @ [?t]) \<subset> T - set seen" by auto
      then have "card (T - set (seen @ [?t])) < card (T - set seen)" using assms(1) by (intro psubset_card_mono) auto
      from less(1)[OF this, of "Suc n" ?t "memos @ lr_memos p"] show ?thesis
        using Inr False t less(2) by (subst list_pages.simps) (simp add: Let_def)
    qed (use Inr in \<open>auto simp: list_pages.simps[of client flt st n] Let_def\<close>)
  qed (auto simp: list_pages.simps[of client flt st n])
qed

lemma pages_tokens_in:
  assumes "tokens_in client T"
  shows "pages_from client flt st n tok ps \<Longrightarrow> set (page_tokens ps) \<subseteq> T \<and> length ps = length (page_tokens ps) + 1"
proof (induction ps arbitrary: n tok)
  case (Cons p ps)
  have "lr_nextPageToken p \<in> insert [] T" using assms Cons.prems unfolding tokens_in_def pages_from.simps by blast
  then show ?case using Cons
    by (cases "lr_nextPageToken p = []") (auto simp: page_tokens_def split: if_splits)
qed simp


definition demo_server :: list_server where
  "demo_server n r =
     (if lmr_pageToken r = [] then Inr \<lparr>lr_memos = [demo_memo], lr_nextPageToken = ''p2'', lr_totalSize = None\<rparr>
      else Inr \<lparr>lr_memos = [default_memo], lr_nextPageToken = [], lr_totalSize = None\<rparr>)"



section \<open>The file reads back\<close>

lemma skip_ws_append: "list_all json_ws w \<Longrightarrow> skip_ws (w @ s) = skip_ws s"
  by (induction w) (auto simp: skip_ws_def)

lemma parse_val_ws: "list_all json_ws w \<Longrightarrow> parse_val n (w @ s) = parse_val n s"
  by (cases n) (simp_all add: skip_ws_append)

lemma parse_members_ws: "list_all json_ws w \<Longrightarrow> parse_members n m (w @ s) = parse_members n m s"
  by (cases n) (simp_all add: skip_ws_append)

lemma indent_ws: "list_all json_ws (json_indent d)"
proof -
  have "json_ws newline" "json_ws (CHR '' '')" by code_simp+
  then show ?thesis by (simp add: json_indent_def list_all_iff)
qed

lemma num_end_indent: "num_end (json_indent d @ r)"
proof -
  have "\<not> is_digit newline" "newline \<notin> set ''.eE''" by code_simp+
  then show ?thesis by (simp add: num_end_def json_indent_def)
qed

definition reads_pretty :: "nat \<Rightarrow> json \<Rightarrow> bool" where
  "reads_pretty d v \<longleftrightarrow>
     (\<forall>n r. num_end r \<longrightarrow> 2 * length (json_pretty d v) < n \<longrightarrow> parse_val n (json_pretty d v @ r) = Some (v, r))"

definition pretty_elem :: "nat \<Rightarrow> json \<Rightarrow> string" where
  "pretty_elem d v = json_indent d @ json_pretty d v"

definition pretty_member :: "nat \<Rightarrow> string \<times> json \<Rightarrow> string" where
  "pretty_member d = (\<lambda>(k, v). json_indent d @ json_quote k @ '': '' @ json_pretty d v)"

lemma parse_elems_pretty:
  assumes "vs \<noteq> []" "\<forall>v \<in> set vs. reads_pretty d v"
    and "2 * length (join '','' (map (pretty_elem d) vs)) + 1 < n"
  shows "parse_elems n (join '','' (map (pretty_elem d) vs) @ json_indent e @ CHR '']'' # r) = Some (vs, r)"
  using assms
proof (induction vs arbitrary: n)
  case (Cons v vs)
  obtain m where n: "n = Suc m" using Cons.prems(3) by (cases n) auto
  have pv: "parse_val m (pretty_elem d v @ t) = Some (v, t)" if "num_end t" "2 * length (json_pretty d v) < m" for t
    using Cons.prems(2) that by (simp add: pretty_elem_def parse_val_ws[OF indent_ws] reads_pretty_def)
  have len: "length (json_pretty d v) \<le> length (pretty_elem d v)" by (simp add: pretty_elem_def)
  show ?case
  proof (cases "vs = []")
    case True
    have "parse_val m (pretty_elem d v @ json_indent e @ CHR '']'' # r) = Some (v, json_indent e @ CHR '']'' # r)"
      using Cons.prems(3) n True by (intro pv num_end_indent) (simp add: pretty_elem_def)
    with True n not_ws show ?thesis by (simp add: skip_ws_append[OF indent_ws] skip_ws_Cons)
  next
    case False
    let ?j = "join '','' (map (pretty_elem d) vs)"
    have j: "join '','' (map (pretty_elem d) (v # vs)) = pretty_elem d v @ '','' @ ?j"
      using False by (simp add: join_Cons)
    have "parse_val m (pretty_elem d v @ CHR '','' # ?j @ json_indent e @ CHR '']'' # r) = Some (v, CHR '','' # ?j @ json_indent e @ CHR '']'' # r)"
      using Cons.prems(3) n j len by (intro pv num_end_close) simp_all
    moreover have "parse_elems m (?j @ json_indent e @ CHR '']'' # r) = Some (vs, r)"
      using Cons.prems(2,3) n j by (intro Cons.IH False) auto
    ultimately show ?thesis using n j not_ws by (simp add: skip_ws_Cons)
  qed
qed simp

lemma parse_pretty_member_head:
  "parse_members (Suc n) m (pretty_member d (k, v) @ r) =
     (case parse_val n (json_pretty d v @ r) of
        None \<Rightarrow> None
      | Some (v, r3) \<Rightarrow>
          (case skip_ws r3 of
             [] \<Rightarrow> None
           | e # r4 \<Rightarrow>
               if e = CHR '','' then parse_members n (map_set k v m) r4
               else if e = CHR ''}'' then Some (map_set k v m, r4) else None))"
proof -
  have "parse_chars (concat (map esc_char k) @ quote_char # CHR '':'' # CHR '' '' # json_pretty d v @ r)
      = Some (k, CHR '':'' # CHR '' '' # json_pretty d v @ r)"
    by (rule parse_chars_quote)
  moreover have "parse_val n (CHR '' '' # json_pretty d v @ r) = parse_val n (json_pretty d v @ r)"
    using parse_val_ws[of "'' ''" n "json_pretty d v @ r"] by (simp add: json_ws_def code_def)
  ultimately show ?thesis
    using not_ws parse_members_ws[OF indent_ws, of "Suc n" m d]
    by (simp add: pretty_member_def json_quote_def skip_ws_Cons skip_ws_append[OF indent_ws] del: parse_chars.simps)
qed

lemma parse_members_pretty:
  assumes "kvs \<noteq> []" "\<forall>(k, v) \<in> set kvs. reads_pretty d v" "distinct (map fst m @ map fst kvs)"
    and "2 * length (join '','' (map (pretty_member d) kvs)) < n"
  shows "parse_members n m (join '','' (map (pretty_member d) kvs) @ json_indent e @ CHR ''}'' # r) = Some (m @ kvs, r)"
  using assms
proof (induction kvs arbitrary: n m)
  case (Cons kv kvs)
  obtain k v where kv: "kv = (k, v)" by (cases kv)
  obtain i where n: "n = Suc i" using Cons.prems(4) by (cases n) auto
  have rb: "reads_pretty d v" using Cons.prems(2) kv by auto
  have ms: "map_set k v m = m @ [(k, v)]"
    using Cons.prems(3) kv by (intro map_set_fresh) auto
  have len: "2 * length (json_pretty d v) < 2 * length (pretty_member d kv) - 1"
    by (simp add: kv pretty_member_def json_quote_def)
  show ?case
  proof (cases "kvs = []")
    case True
    with Cons.prems(4) n len have "parse_val i (json_pretty d v @ json_indent e @ CHR ''}'' # r) = Some (v, json_indent e @ CHR ''}'' # r)"
      using rb num_end_indent unfolding reads_pretty_def by simp
    with True n not_ws ms show ?thesis
      by (simp add: kv parse_pretty_member_head skip_ws_append[OF indent_ws] skip_ws_Cons del: parse_members.simps)
  next
    case False
    let ?j = "join '','' (map (pretty_member d) kvs)"
    have j: "join '','' (map (pretty_member d) (kv # kvs)) = pretty_member d kv @ '','' @ ?j"
      using False by (simp add: join_Cons)
    have "parse_val i (json_pretty d v @ CHR '','' # ?j @ json_indent e @ CHR ''}'' # r) =
        Some (v, CHR '','' # ?j @ json_indent e @ CHR ''}'' # r)"
      using Cons.prems(4) n j rb len by (auto simp: reads_pretty_def num_end_close)
    moreover have "parse_members i (m @ [(k, v)]) (?j @ json_indent e @ CHR ''}'' # r) = Some ((m @ [(k, v)]) @ kvs, r)"
      using Cons.prems(2,3,4) n j kv by (intro Cons.IH False) auto
    ultimately show ?thesis
      using n j not_ws ms by (simp add: kv parse_pretty_member_head skip_ws_Cons del: parse_members.simps)
  qed
qed simp

lemma json_pretty_arr:
  "vs \<noteq> [] \<Longrightarrow> json_pretty d (JArr vs) = ''['' @ join '','' (map (pretty_elem (Suc d)) vs) @ json_indent d @ '']''"
  by (simp add: pretty_elem_def cong: map_cong)

lemma json_pretty_obj:
  "kvs \<noteq> [] \<Longrightarrow> json_pretty d (JObj kvs) = ''{'' @ join '','' (map (pretty_member (Suc d)) kvs) @ json_indent d @ ''}''"
  by (simp add: pretty_member_def)

text \<open>What \<open>parse_elems\<close> or \<open>parse_members\<close> accepts is not the closing bracket of an empty array or object.\<close>

lemma parse_elems_open:
  assumes "parse_elems n s = Some y"
  shows "\<not> starts_with (skip_ws s) '']''"
proof
  assume "starts_with (skip_ws s) '']''"
  then obtain r where r: "skip_ws s = CHR '']'' # r" by (cases "skip_ws s") (auto simp: starts_with_def)
  have "\<not> is_digit (CHR '']'')" by code_simp
  then have "parse_num (CHR '']'' # r) = None" by (simp add: parse_num_def starts_with_def Let_def)
  then have "parse_val m s = None" for m using r quote_char_neq by (cases m) (auto simp: starts_with_def)
  then show False using assms by (cases n) auto
qed

lemma parse_members_open:
  assumes "parse_members n m s = Some y"
  shows "\<not> starts_with (skip_ws s) ''}''"
proof
  assume "starts_with (skip_ws s) ''}''"
  then obtain r where "skip_ws s = CHR ''}'' # r" by (cases "skip_ws s") (auto simp: starts_with_def)
  then show False using assms quote_char_neq by (cases n) auto
qed

lemma reads_pretty_flat: "json_ok v \<Longrightarrow> json_pretty d v = json_print v \<Longrightarrow> reads_pretty d v"
  using reads_back_ok[of v] by (simp add: reads_pretty_def reads_back_def del: parse_val.simps json_print.simps)

lemma reads_pretty_ok: "json_ok v \<Longrightarrow> reads_pretty d v"
proof (induction v arbitrary: d)
  case (JArr vs)
  have "parse_val n (json_pretty d (JArr vs) @ r) = Some (JArr vs, r)" if n: "2 * length (json_pretty d (JArr vs)) < n" for n r
  proof (cases "vs = []")
    case True
    with n not_ws quote_char_neq show ?thesis by (cases n) (auto simp: skip_ws_Cons starts_with_def)
  next
    case False
    let ?s = "join '','' (map (pretty_elem (Suc d)) vs) @ json_indent d @ CHR '']'' # r"
    obtain i where i: "n = Suc i" using n by (cases n) auto
    have e: "parse_elems i ?s = Some (vs, r)"
      using n i False JArr unfolding json_pretty_arr[OF False]
      by (intro parse_elems_pretty) (auto simp: list_all_iff)
    have "parse_val (Suc i) (CHR ''['' # ?s) = Some (JArr vs, r)"
      using e parse_elems_open[OF e] not_ws quote_char_neq by (auto simp: skip_ws_Cons)
    then show ?thesis using i by (simp add: json_pretty_arr[OF False] del: json_pretty.simps parse_val.simps)
  qed
  then show ?case unfolding reads_pretty_def by blast
next
  case (JObj kvs)
  have "parse_val n (json_pretty d (JObj kvs) @ r) = Some (JObj kvs, r)" if n: "2 * length (json_pretty d (JObj kvs)) < n" for n r
  proof (cases "kvs = []")
    case True
    with n not_ws quote_char_neq show ?thesis by (cases n) (auto simp: skip_ws_Cons starts_with_def)
  next
    case False
    let ?s = "join '','' (map (pretty_member (Suc d)) kvs) @ json_indent d @ CHR ''}'' # r"
    obtain i where i: "n = Suc i" using n by (cases n) auto
    have rb: "\<forall>(k, v) \<in> set kvs. reads_pretty (Suc d) v" using JObj by (fastforce simp: list_all_iff)
    have e: "parse_members i [] ?s = Some ([] @ kvs, r)"
      using n i JObj.prems unfolding json_pretty_obj[OF False]
      by (intro parse_members_pretty False rb) auto
    have "parse_val (Suc i) (CHR ''{'' # ?s) = Some (JObj kvs, r)"
      using e parse_members_open[OF e] not_ws quote_char_neq by (auto simp: skip_ws_Cons)
    then show ?thesis using i by (simp add: json_pretty_obj[OF False] del: json_pretty.simps parse_val.simps)
  qed
  then show ?case unfolding reads_pretty_def by blast
qed (simp_all add: reads_pretty_flat)

lemma json_parse_pretty:
  assumes "json_ok v"
  shows "json_parse (json_pretty 0 v @ [newline]) = Some v"
proof -
  have nl: "num_end [newline]" "json_ws newline" by code_simp+
  then have "parse_val (2 * length (json_pretty 0 v @ [newline]) + 2) (json_pretty 0 v @ [newline]) = Some (v, [newline])"
    using reads_pretty_ok[OF assms, of 0] unfolding reads_pretty_def by (simp del: parse_val.simps)
  then show ?thesis using nl unfolding json_parse_def by (simp add: skip_ws_def del: parse_val.simps)
qed

definition json_field :: "string \<Rightarrow> json \<Rightarrow> json option" where
  "json_field k j = (case j of JObj kvs \<Rightarrow> map_of kvs k | _ \<Rightarrow> None)"

text \<open>C26. An export that succeeds has listed the user's normal and archived memos to the end, and its document has every
  listed memo, the normal ones first, each in its JSON form, and their number. Its file is JSON that reads back as that document.
  The memos' own JSON forms are those of the protobuf runtime; reading back asks of them distinct keys and integer numbers
  (a location's coordinates are the only fractions of a memo).\<close>

theorem export_file_readable:
  assumes "createMemoExportFile memo_json client first user now = Some (Inr f)"
  shows "\<exists>flt ns as.
    buildMemoCreatorFilter (eu_name user) = Some flt \<and>
    listAllMemosForState (client NORMAL) flt NORMAL = Some (Inr ns) \<and>
    listAllMemosForState (client ARCHIVED) flt ARCHIVED = Some (Inr as) \<and>
    json_field ''memos'' (ef_document f) = Some (JArr (map memo_json (ns @ as))) \<and>
    Option.bind (json_field ''counts'' (ef_document f)) (json_field ''total'') = Some (JNum (int (length ns + length as))) \<and>
    ((\<forall>m \<in> set ns \<union> set as. json_ok (memo_json m)) \<longrightarrow> json_parse (ef_content f) = Some (ef_document f))"
proof -
  obtain flt ns as where 1: "buildMemoCreatorFilter (eu_name user) = Some flt"
      "listAllMemosForState (client NORMAL) flt NORMAL = Some (Inr ns)"
      "listAllMemosForState (client ARCHIVED) flt ARCHIVED = Some (Inr as)"
      "ef_document f = export_document memo_json user now ns as"
      "ef_content f = json_pretty 0 (ef_document f) @ [newline]"
    using assms(1) by (auto simp: createMemoExportFile_def promise_all_def Let_def split: option.splits sum.splits)
  have "json_ok (ef_document f)" if "\<forall>m \<in> set ns \<union> set as. json_ok (memo_json m)"
    using that by (auto simp: 1(4) export_document_def list_all_iff)
  then have "(\<forall>m \<in> set ns \<union> set as. json_ok (memo_json m)) \<longrightarrow> json_parse (ef_content f) = Some (ef_document f)"
    using json_parse_pretty by (simp only: 1(5)) blast
  moreover have "json_field ''memos'' (ef_document f) = Some (JArr (map memo_json (ns @ as)))"
    by (simp add: 1(4) export_document_def json_field_def)
  moreover have "Option.bind (json_field ''counts'' (ef_document f)) (json_field ''total'') = Some (JNum (int (length ns + length as)))"
    by (simp add: 1(4) export_document_def json_field_def)
  ultimately show ?thesis using 1(1-3) by blast
qed

theorem export_file_readable_witness:
  "\<exists>f. createMemoExportFile (\<lambda>m. JObj [(''name'', JStr (memo_name m))]) (\<lambda>_. demo_server) True
         \<lparr>eu_name = ''users/1'', eu_username = ''a'', eu_displayName = ''A''\<rparr> 0 = Some (Inr f) \<and>
       json_parse (ef_content f) = Some (ef_document f)"
proof -
  let ?u = "\<lparr>eu_name = ''users/1'', eu_username = ''a'', eu_displayName = ''A''\<rparr>"
  let ?j = "\<lambda>m. JObj [(''name'', JStr (memo_name m))]"
  have l: "listAllMemosForState demo_server flt st = Some (Inr [demo_memo, default_memo])" for flt st
    by (simp add: listAllMemosForState_def list_pages.simps[of demo_server] demo_server_def export_request_def)
  have "\<exists>f. createMemoExportFile ?j (\<lambda>_. demo_server) True ?u 0 = Some (Inr f)"
    by (auto simp: createMemoExportFile_def l promise_all_def buildMemoCreatorFilter_def Let_def)
  then obtain f where f: "createMemoExportFile ?j (\<lambda>_. demo_server) True ?u 0 = Some (Inr f)" ..
  from export_file_readable[OF f] have "json_parse (ef_content f) = Some (ef_document f)" by auto
  with f show ?thesis by blast
qed

end
