(* ===== verification/Preferences.thy ===== *)
theory Preferences
  imports OAuth
begin

text \<open>
  The preferences a browser keeps between visits: the language (\<open>utils/i18n.ts\<close>), the theme (\<open>utils/theme.ts\<close>) and the order
  of memo lists (\<open>contexts/ViewContext.tsx\<close>), each written to \<open>localStorage\<close> when it changes and read when a page loads.

  The document is the part of the DOM these modules write: the attributes of the root element, the theme's style element
  and the colour tag. The stylesheets are data files and the argument \<open>css\<close>.
\<close>

section \<open>Language\<close>

definition LOCALE_STORAGE_KEY :: string where "LOCALE_STORAGE_KEY = ''memos-locale''"
definition RTL_LOCALES :: "string list" where "RTL_LOCALES = [''ar'', ''fa'']"

text \<open>\<open>orderBy\<close> of the list in \<open>i18n.ts\<close>: ascending.\<close>

definition locales :: "string list" where
  "locales = [''ar'', ''ca'', ''cs'', ''de'', ''en'', ''en-GB'', ''es'', ''fa'', ''fr'', ''gl'', ''hi'', ''hr'', ''hu'', ''id'', ''it'',
     ''ja'', ''ka-GE'', ''ko'', ''mr'', ''nb'', ''nl'', ''pl'', ''pt-BR'', ''pt-PT'', ''ru'', ''sl'', ''sv'', ''th'', ''tr'', ''uk'', ''vi'',
     ''zh-Hans'', ''zh-Hant'']"

definition fallbackLng :: "(string \<times> string list) list" where
  "fallbackLng = [(''zh-HK'', [''zh-Hant'', ''en'']), (''zh-TW'', [''zh-Hant'', ''en'']), (''zh'', [''zh-Hans'', ''en'']),
     (''default'', [''en''])]"

record document =
  html_lang :: string
  html_dir :: string
  data_theme :: "string option"
  theme_style :: "string option"
  theme_meta :: "string option"
  colorScheme :: string
  i18n_language :: string

definition getStoredLocale :: "storage \<Rightarrow> string option" where
  "getStoredLocale st = (case get_item st LOCALE_STORAGE_KEY of
     None \<Rightarrow> None
   | Some stored \<Rightarrow> if truthy stored \<and> the stored \<in> set locales then stored else None)"

definition setStoredLocale :: "string \<Rightarrow> storage \<Rightarrow> storage" where
  "setStoredLocale l = try_set_item LOCALE_STORAGE_KEY l"

definition findNearestMatchedLanguage :: "string \<Rightarrow> string" where
  "findNearestMatchedLanguage language =
     (if language \<in> set locales then language
      else case find (\<lambda>(main, _). language = main) fallbackLng of
        Some (_, fs) \<Rightarrow> hd fs
      | None \<Rightarrow>
          let shortCode = take 2 language
          in if shortCode \<in> set locales then shortCode
             else case find (\<lambda>existing. shortCode = take 2 existing) locales of
               Some existing \<Rightarrow> existing
             | None \<Rightarrow> hd (the (map_of fallbackLng ''default'')))"

definition isValidLocale :: "string option \<Rightarrow> bool" where
  "isValidLocale l \<longleftrightarrow> truthy l \<and> the l \<in> set locales"

definition getLocaleWithFallback :: "string option \<Rightarrow> string \<Rightarrow> storage \<Rightarrow> string" where
  "getLocaleWithFallback userLocale navigator_language st =
     (if truthy userLocale \<and> isValidLocale userLocale then the userLocale
      else case getStoredLocale st of Some stored \<Rightarrow> stored | None \<Rightarrow> findNearestMatchedLanguage navigator_language)"

definition loadLocale :: "string \<Rightarrow> string \<Rightarrow> storage \<Rightarrow> document \<Rightarrow> string \<times> storage \<times> document" where
  "loadLocale l navigator_language st doc =
     (let validLocale = (if isValidLocale (Some l) then l else findNearestMatchedLanguage navigator_language)
      in (validLocale, setStoredLocale validLocale st,
          doc\<lparr>i18n_language := validLocale, html_lang := validLocale,
              html_dir := (if validLocale \<in> set RTL_LOCALES then ''rtl'' else ''ltr'')\<rparr>))"

definition applyLocaleEarly :: "string \<Rightarrow> storage \<Rightarrow> document \<Rightarrow> storage \<times> document" where
  "applyLocaleEarly navigator_language st doc =
     (let l = (case getStoredLocale st of Some s \<Rightarrow> s | None \<Rightarrow> findNearestMatchedLanguage navigator_language)
      in snd (loadLocale l navigator_language st doc))"

text \<open>The first effect of \<open>useUserLocale\<close>, for the locale of the user's general setting.\<close>

definition useUserLocale_effect :: "string option \<Rightarrow> string \<Rightarrow> storage \<times> document \<Rightarrow> storage \<times> document" where
  "useUserLocale_effect setting navigator_language = (\<lambda>(st, doc). case setting of
     None \<Rightarrow> (st, doc)
   | Some l \<Rightarrow> snd (loadLocale (getLocaleWithFallback (Some l) navigator_language st) navigator_language st doc))"

section \<open>Theme\<close>

datatype Theme = ThemeSystem | ThemeDefault | ThemeDefaultDark | ThemePaper

definition theme_value :: "Theme \<Rightarrow> string" where
  "theme_value t = (case t of ThemeSystem \<Rightarrow> ''system'' | ThemeDefault \<Rightarrow> ''default'' | ThemeDefaultDark \<Rightarrow> ''default-dark''
     | ThemePaper \<Rightarrow> ''paper'')"

definition VALID_THEMES :: "Theme list" where
  "VALID_THEMES = [ThemeSystem, ThemeDefault, ThemeDefaultDark, ThemePaper]"

definition THEME_STORAGE_KEY :: string where "THEME_STORAGE_KEY = ''memos-theme''"

definition valid_theme :: "string \<Rightarrow> Theme option" where
  "valid_theme s = find (\<lambda>t. theme_value t = s) VALID_THEMES"

definition validateTheme :: "string \<Rightarrow> Theme" where
  "validateTheme s = (case valid_theme s of Some t \<Rightarrow> t | None \<Rightarrow> ThemeDefault)"

definition getSystemTheme :: "bool \<Rightarrow> Theme" where
  "getSystemTheme prefersDark = (if prefersDark then ThemeDefaultDark else ThemeDefault)"

definition resolveTheme :: "bool \<Rightarrow> string \<Rightarrow> Theme" where
  "resolveTheme prefersDark s =
     (let validTheme = validateTheme s in if validTheme = ThemeSystem then getSystemTheme prefersDark else validTheme)"

definition getStoredTheme :: "storage \<Rightarrow> Theme option" where
  "getStoredTheme st = (case get_item st THEME_STORAGE_KEY of
     None \<Rightarrow> None
   | Some stored \<Rightarrow> if truthy stored then valid_theme (the stored) else None)"

definition setStoredTheme :: "Theme \<Rightarrow> storage \<Rightarrow> storage" where
  "setStoredTheme t = try_set_item THEME_STORAGE_KEY (theme_value t)"

definition getInitialTheme :: "storage \<Rightarrow> Theme" where
  "getInitialTheme st = (case getStoredTheme st of Some t \<Rightarrow> t | None \<Rightarrow> ThemeSystem)"

definition getThemeWithFallback :: "string option \<Rightarrow> storage \<Rightarrow> Theme" where
  "getThemeWithFallback userTheme st =
     (case (if truthy userTheme then valid_theme (the userTheme) else None) of
        Some t \<Rightarrow> t
      | None \<Rightarrow> (case getStoredTheme st of Some t \<Rightarrow> t | None \<Rightarrow> ThemeSystem))"

definition THEME_COLORS :: "Theme \<Rightarrow> string" where
  "THEME_COLORS t = (case t of ThemeDefaultDark \<Rightarrow> ''#1d1f23'' | ThemePaper \<Rightarrow> ''#f5ede4'' | _ \<Rightarrow> ''#faf9f5'')"

definition injectThemeStyle :: "(Theme \<Rightarrow> string) \<Rightarrow> Theme \<Rightarrow> document \<Rightarrow> document" where
  "injectThemeStyle css t doc =
     (let d = doc\<lparr>theme_style := None\<rparr>
      in if t = ThemeDefault then d else if css t \<noteq> [] then d\<lparr>theme_style := Some (css t)\<rparr> else d)"

definition isDarkTheme :: "Theme \<Rightarrow> bool" where
  "isDarkTheme t \<longleftrightarrow> suffix ''-dark'' (theme_value t) \<or> suffix ''.dark'' (theme_value t)"

definition updateThemeColorMeta :: "Theme \<Rightarrow> document \<Rightarrow> document" where
  "updateThemeColorMeta t doc = (case theme_meta doc of None \<Rightarrow> doc | Some _ \<Rightarrow> doc\<lparr>theme_meta := Some (THEME_COLORS t)\<rparr>)"

definition loadTheme :: "(Theme \<Rightarrow> string) \<Rightarrow> bool \<Rightarrow> string \<Rightarrow> storage \<Rightarrow> document \<Rightarrow> storage \<times> document" where
  "loadTheme css prefersDark themeName st doc =
     (let validTheme = validateTheme themeName;
          resolvedTheme = resolveTheme prefersDark (theme_value validTheme);
          d1 = injectThemeStyle css resolvedTheme doc;
          d2 = d1\<lparr>data_theme := Some (theme_value resolvedTheme)\<rparr>;
          d3 = updateThemeColorMeta resolvedTheme d2;
          d4 = d3\<lparr>colorScheme := (if isDarkTheme resolvedTheme then ''dark'' else ''light'')\<rparr>
      in (setStoredTheme validTheme st, d4))"

definition applyThemeEarly :: "(Theme \<Rightarrow> string) \<Rightarrow> bool \<Rightarrow> storage \<Rightarrow> document \<Rightarrow> storage \<times> document" where
  "applyThemeEarly css prefersDark st doc = loadTheme css prefersDark (theme_value (getInitialTheme st)) st doc"

text \<open>The effects of \<open>useUserTheme\<close>: applying the user's theme, and, for the system theme only, applying it again when the
  preference of the operating system changes.\<close>

definition useUserTheme_effect :: "(Theme \<Rightarrow> string) \<Rightarrow> bool \<Rightarrow> string option \<Rightarrow> storage \<times> document \<Rightarrow> storage \<times> document" where
  "useUserTheme_effect css prefersDark setting = (\<lambda>(st, doc). case setting of
     None \<Rightarrow> (st, doc)
   | Some t \<Rightarrow> loadTheme css prefersDark (theme_value (getThemeWithFallback (Some t) st)) st doc)"

definition listens_to_system :: "string option \<Rightarrow> storage \<Rightarrow> bool" where
  "listens_to_system setting st \<longleftrightarrow> getThemeWithFallback setting st = ThemeSystem"

definition system_theme_changed :: "(Theme \<Rightarrow> string) \<Rightarrow> bool \<Rightarrow> bool \<Rightarrow> storage \<times> document \<Rightarrow> storage \<times> document" where
  "system_theme_changed css prefersDark listening = (\<lambda>(st, doc).
     if listening then loadTheme css prefersDark (theme_value ThemeSystem) st doc else (st, doc))"

section \<open>View settings\<close>

datatype MemoTimeBasis = CreateTime | UpdateTime

definition basis_value :: "MemoTimeBasis \<Rightarrow> string" where
  "basis_value b = (case b of CreateTime \<Rightarrow> ''create_time'' | UpdateTime \<Rightarrow> ''update_time'')"

definition basis_of_json :: "json option \<Rightarrow> MemoTimeBasis option" where
  "basis_of_json v = (if v = Some (JStr ''create_time'') then Some CreateTime
     else if v = Some (JStr ''update_time'') then Some UpdateTime else None)"

record ViewState =
  vs_orderByTimeAsc :: bool
  vs_timeBasis :: "MemoTimeBasis option"

definition VIEW_STORAGE_KEY :: string where "VIEW_STORAGE_KEY = ''memos-view-setting''"

text \<open>\<open>a ?? b\<close> on JSON values.\<close>

definition nullish :: "json option \<Rightarrow> json option \<Rightarrow> json option" where
  "nullish a b = (if a \<in> {None, Some JNull} then b else a)"

text \<open>A cached \<open>null\<close> throws at the first property and is taken by the \<open>catch\<close>, with the same result as no cached value.\<close>

definition getInitialState :: "storage \<Rightarrow> ViewState" where
  "getInitialState st =
     (let dflt = \<lparr>vs_orderByTimeAsc = False, vs_timeBasis = None\<rparr>
      in case get_item st VIEW_STORAGE_KEY of
        None \<Rightarrow> dflt
      | Some cached \<Rightarrow>
          if \<not> truthy cached then dflt
          else case json_parse (the cached) of
            None \<Rightarrow> dflt
          | Some d \<Rightarrow>
              \<lparr>vs_orderByTimeAsc = \<not> falsy_json (nullish (prop_of d ''orderByTimeAsc'') (Some (JBool False))),
               vs_timeBasis = basis_of_json (nullish (prop_of d ''timeBasis'') (prop_of d ''sortTimeField''))\<rparr>)"

definition current_basis :: "ViewState \<Rightarrow> MemoTimeBasis" where
  "current_basis v = (case vs_timeBasis v of None \<Rightarrow> CreateTime | Some b \<Rightarrow> b)"

definition view_json :: "ViewState \<Rightarrow> json" where
  "view_json v = JObj ((''orderByTimeAsc'', JBool (vs_orderByTimeAsc v))
     # (case vs_timeBasis v of None \<Rightarrow> [] | Some b \<Rightarrow> [(''timeBasis'', JStr (basis_value b))]))"

definition persistToStorage :: "ViewState \<Rightarrow> storage \<Rightarrow> storage" where
  "persistToStorage v st = try_set_item VIEW_STORAGE_KEY (json_print (view_json v)) st"

definition toggleSortOrder :: "ViewState \<times> storage \<Rightarrow> ViewState \<times> storage" where
  "toggleSortOrder = (\<lambda>(v, st). let v' = v\<lparr>vs_orderByTimeAsc := \<not> vs_orderByTimeAsc v\<rparr> in (v', persistToStorage v' st))"

definition setTimeBasis :: "MemoTimeBasis \<Rightarrow> ViewState \<times> storage \<Rightarrow> ViewState \<times> storage" where
  "setTimeBasis b = (\<lambda>(v, st). let v' = v\<lparr>vs_timeBasis := Some b\<rparr> in (v', persistToStorage v' st))"

definition demo_document :: document where
  "demo_document = \<lparr>html_lang = ''en'', html_dir = ''ltr'', data_theme = None, theme_style = None, theme_meta = Some [], colorScheme = [],
     i18n_language = ''en''\<rparr>"

section \<open>Preferences survive a reload\<close>

lemma find_in: "find P xs = Some x \<Longrightarrow> x \<in> set xs \<and> P x"
  by (auto simp: find_Some_iff)

lemma findNearestMatchedLanguage_supported: "findNearestMatchedLanguage language \<in> set locales"
proof -
  have fb: "list_all (\<lambda>e. hd (snd e) \<in> set locales) fallbackLng" "hd (the (map_of fallbackLng ''default'')) \<in> set locales"
    by code_simp+
  have "hd fs \<in> set locales" if "find P fallbackLng = Some (m, fs)" for P m fs
    using find_in[OF that] fb(1) by (auto simp: list_all_iff)
  moreover have "e \<in> set locales" if "find P locales = Some e" for P e using find_in[OF that] by simp
  ultimately show ?thesis using fb(2) unfolding findNearestMatchedLanguage_def
    by (simp add: Let_def split: option.split prod.split)
qed

lemma locale_not_Nil: "l \<in> set locales \<Longrightarrow> l \<noteq> []"
  by (auto simp: locales_def)

lemma loadLocale_valid: "fst (loadLocale l nav st doc) \<in> set locales"
  by (simp add: loadLocale_def Let_def isValidLocale_def findNearestMatchedLanguage_supported)

lemma valid_theme_value [simp]: "valid_theme (theme_value t) = Some t"
  by (cases t) (simp_all add: valid_theme_def VALID_THEMES_def theme_value_def)

lemma theme_value_not_Nil [simp]: "theme_value t \<noteq> []"
  by (cases t) (simp_all add: theme_value_def)

lemma validateTheme_value [simp]: "validateTheme (theme_value t) = t"
  by (simp add: validateTheme_def)

lemma view_roundtrip:
  assumes "get_item st VIEW_STORAGE_KEY = Some (Some (json_print (view_json v)))"
  shows "getInitialState st = v"
proof -
  have ok: "json_ok (view_json v)" by (simp add: view_json_def split: option.splits)
  have "basis_of_json (nullish (prop_of (view_json v) ''timeBasis'') (prop_of (view_json v) ''sortTimeField'')) = vs_timeBasis v"
    by (auto simp: view_json_def prop_of_def map_get_def nullish_def basis_of_json_def basis_value_def
        split: option.splits MemoTimeBasis.splits)
  moreover have "\<not> falsy_json (nullish (prop_of (view_json v) ''orderByTimeAsc'') (Some (JBool False))) \<longleftrightarrow> vs_orderByTimeAsc v"
    by (auto simp: view_json_def prop_of_def map_get_def nullish_def falsy_json_def)
  ultimately show ?thesis
    using assms js.parse_print[OF ok] json_print_not_Nil[of "view_json v"]
    by (simp add: getInitialState_def Let_def truthy_def)
qed

lemma pref_keys: "LOCALE_STORAGE_KEY \<noteq> THEME_STORAGE_KEY" "LOCALE_STORAGE_KEY \<noteq> VIEW_STORAGE_KEY" "THEME_STORAGE_KEY \<noteq> VIEW_STORAGE_KEY"
  by (simp_all add: LOCALE_STORAGE_KEY_def THEME_STORAGE_KEY_def VIEW_STORAGE_KEY_def)

text \<open>The document as the theme code leaves it.\<close>

definition theme_part :: "document \<Rightarrow> string option \<times> string option \<times> string option \<times> string" where
  "theme_part d = (data_theme d, theme_style d, theme_meta d, colorScheme d)"

lemma theme_part_load:
  "(theme_meta d' = None \<longleftrightarrow> theme_meta d = None) \<Longrightarrow>
   theme_part (snd (loadTheme css dark (theme_value t) st' d')) = theme_part (snd (loadTheme css dark (theme_value t) st d))"
  by (auto simp: theme_part_def loadTheme_def Let_def injectThemeStyle_def updateThemeColorMeta_def split: option.splits)

lemma loadTheme_store: "fst (loadTheme css dark s st d) = try_set_item THEME_STORAGE_KEY (theme_value (validateTheme s)) st"
  by (simp add: loadTheme_def Let_def setStoredTheme_def)

lemma try_set_writable:
  assumes "accessible st" "has_room st"
  shows "get_item (try_set_item k v st) j = (if j = k then Some (Some v) else get_item st j)"
    "accessible (try_set_item k v st)" "has_room (try_set_item k v st)"
  using assms by (auto simp: try_set_item_def set_item_def get_item_def)

text \<open>Preferences survive a reload. Where the storage can be written, a chosen language, a chosen theme and a change of
  the list order (made one after the other) are what the next page load shows, whatever language that browser reports: the
  language is a supported one, the theme is resolved for the system's preference at that time, and the list order is the
  whole view state.\<close>

theorem preferences_survive_reload:
  assumes "accessible st" "has_room st" "op \<in> {toggleSortOrder, setTimeBasis CreateTime, setTimeBasis UpdateTime}"
    and "loadLocale l nav st d = (l', st1, d1)" "loadTheme css dark th st1 d1 = (st2, d2)" "op (v, st2) = (v', st3)"
    and "theme_meta doc = None \<longleftrightarrow> theme_meta d = None"
  shows "l' \<in> set locales \<and> (l \<in> set locales \<longrightarrow> l' = l)
    \<and> html_lang (snd (applyLocaleEarly nav' st3 doc)) = l' \<and> html_dir (snd (applyLocaleEarly nav' st3 doc)) = html_dir d2
    \<and> theme_part (snd (applyThemeEarly css dark st3 doc)) = theme_part d2
    \<and> theme_part (snd (applyThemeEarly css dark' st3 doc)) = theme_part (snd (loadTheme css dark' th st1 d1))
    \<and> getInitialState st3 = v'"
proof -
  let ?t = "validateTheme th"
  have s1: "st1 = try_set_item LOCALE_STORAGE_KEY l' st" and d1: "html_dir d1 = (if l' \<in> set RTL_LOCALES then ''rtl'' else ''ltr'')"
      "theme_meta d1 = theme_meta d"
    using assms(4) by (auto simp: loadLocale_def Let_def setStoredLocale_def)
  have s2: "st2 = try_set_item THEME_STORAGE_KEY (theme_value ?t) st1" using loadTheme_store[of css dark th st1 d1] assms(5) by simp
  have s3: "st3 = try_set_item VIEW_STORAGE_KEY (json_print (view_json v')) st2"
    using assms(3,6) by (auto simp: toggleSortOrder_def setTimeBasis_def persistToStorage_def Let_def)
  have l': "l' \<in> set locales" using loadLocale_valid[of l nav st d] assms(4) by simp
  then have ne: "l' \<noteq> []" by (rule locale_not_Nil)
  note w1 = try_set_writable[OF assms(1,2), of LOCALE_STORAGE_KEY l', folded s1]
  note w2 = try_set_writable[OF w1(2,3), of THEME_STORAGE_KEY "theme_value ?t", folded s2]
  note w3 = try_set_writable[OF w2(2,3), of VIEW_STORAGE_KEY "json_print (view_json v')", folded s3]
  have sl: "getStoredLocale st3 = Some l'" using w1(1) w2(1) w3(1) pref_keys l' ne by (simp add: getStoredLocale_def truthy_def)
  have th: "getInitialTheme st3 = ?t" using w2(1) w3(1) pref_keys by (simp add: getInitialTheme_def getStoredTheme_def truthy_def)
  have dir: "html_dir d2 = html_dir d1" using assms(5) by (auto simp: loadTheme_def Let_def injectThemeStyle_def updateThemeColorMeta_def split: option.splits)
  have thq: "loadTheme css x th st1 d1 = loadTheme css x (theme_value ?t) st1 d1" for x
    by (simp add: loadTheme_def)
  have tp: "theme_part (snd (applyThemeEarly css x st3 doc)) = theme_part (snd (loadTheme css x th st1 d1))" for x
    using theme_part_load[of doc d1 css x ?t st3 st1] assms(7) d1(2) by (simp add: applyThemeEarly_def th thq)
  have "l \<in> set locales \<longrightarrow> l' = l" using assms(4) locale_not_Nil[of l] by (auto simp: loadLocale_def Let_def isValidLocale_def truthy_def)
  moreover have "html_lang (snd (applyLocaleEarly nav' st3 doc)) = l'" "html_dir (snd (applyLocaleEarly nav' st3 doc)) = html_dir d2"
    using sl l' ne d1 dir by (auto simp: applyLocaleEarly_def loadLocale_def Let_def isValidLocale_def truthy_def)
  moreover have "getInitialState st3 = v'" using w3(1) by (intro view_roundtrip) simp
  ultimately show ?thesis using l' tp[of dark] tp[of dark'] assms(5) by simp
qed

theorem preferences_survive_reload_witness:
  "\<exists>st. html_lang (snd (applyLocaleEarly ''de'' st demo_document)) = ''ar'' \<and>
     html_dir (snd (applyLocaleEarly ''de'' st demo_document)) = ''rtl'' \<and>
     data_theme (snd (applyThemeEarly (\<lambda>_. ''css'') False st demo_document)) = Some ''paper'' \<and> vs_orderByTimeAsc (getInitialState st)"
proof -
  define v where "v = \<lparr>vs_orderByTimeAsc = False, vs_timeBasis = None\<rparr>"
  obtain l' st1 d1 where 1: "loadLocale ''ar'' ''en'' empty_storage demo_document = (l', st1, d1)" by (cases "loadLocale ''ar'' ''en'' empty_storage demo_document")
  obtain st2 d2 where 2: "loadTheme (\<lambda>_. ''css'') False ''paper'' st1 d1 = (st2, d2)" by fastforce
  obtain v' st3 where 3: "toggleSortOrder (v, st2) = (v', st3)" by fastforce
  have s: "accessible empty_storage" "has_room empty_storage" by (simp_all add: empty_storage_def)
  have v': "vs_orderByTimeAsc v'" using 3 by (auto simp: toggleSortOrder_def Let_def v_def)
  have dt: "data_theme d2 = Some ''paper''" "''ar'' \<in> set locales"
    using 2 by (auto simp: loadTheme_def Let_def validateTheme_def resolveTheme_def valid_theme_def VALID_THEMES_def theme_value_def updateThemeColorMeta_def locales_def split: option.splits)
  have dir: "html_dir d2 = html_dir d1" "html_dir d1 = (if l' = ''ar'' then ''rtl'' else html_dir d1)" using 1 2
    by (auto simp: loadLocale_def loadTheme_def Let_def injectThemeStyle_def updateThemeColorMeta_def RTL_LOCALES_def split: option.splits)
  note r = preferences_survive_reload[OF s insertI1 1 2 3, of demo_document "''de''" False]
  from r v' dt dir show ?thesis by (intro exI[of _ st3]) (auto simp: theme_part_def)
qed

end
