(* ===== verification/AuthFlow.thy ===== *)
theory AuthFlow
  imports Connect MemoCache Preferences
begin

text \<open>
  The session of the application, \<open>contexts/AuthContext.tsx\<close>: starting it from a token or a refresh cookie, ending it, and
  keeping the user's settings. Every call goes through the authentication interceptor of \<open>Connect\<close>, so a call may refresh
  the token, or end the session by itself.

  The world of \<open>Connect\<close> gives the answers: the n-th request gets the n-th answer, which has a field for each method, and a call
  reads the field of the method it calls. The two calls of \<open>fetchUserSettings\<close> run one after the other here; the code starts
  both and waits for both.
\<close>

section \<open>State\<close>

record auth_context =
  currentUser :: "User option"
  userGeneralSetting :: "UserSetting_GeneralSetting option"
  userWebhooksSetting :: "UserSetting_WebhooksSetting option"
  shortcuts :: "Shortcut list"
  isInitialized :: bool
  isLoading :: bool

definition initial_auth :: auth_context where
  "initial_auth = \<lparr>currentUser = None, userGeneralSetting = None, userWebhooksSetting = None, shortcuts = [],
     isInitialized = False, isLoading = True\<rparr>"

definition signed_out :: auth_context where
  "signed_out = \<lparr>currentUser = None, userGeneralSetting = None, userWebhooksSetting = None, shortcuts = [],
     isInitialized = True, isLoading = False\<rparr>"

text \<open>The answers of the methods the session calls.\<close>

record session_answer =
  an_user :: "User option"
  an_settings :: "UserSetting list"
  an_shortcuts :: "Shortcut list"
  an_setting :: UserSetting
  an_signIn :: "string \<times> Timestamp option"

record 'c app =
  net :: "session_answer world"
  ctx :: auth_context
  cache :: 'c

record user_settings =
  st_general :: "UserSetting_GeneralSetting option"
  st_webhooks :: "UserSetting_WebhooksSetting option"
  st_shortcuts :: "Shortcut list"

definition userKeys_details :: query_key where "userKeys_details = userKeys_all @ [KStr ''detail'']"

definition userKeys_detail :: "string \<Rightarrow> query_key" where "userKeys_detail name = userKeys_details @ [KStr name]"

definition userKeys_currentUser :: query_key where "userKeys_currentUser = userKeys_all @ [KStr ''current'']"

definition getUserSettingKeyName :: "UserSetting_Key \<Rightarrow> string" where
  "getUserSettingKeyName k = (case k of KEY_UNSPECIFIED \<Rightarrow> ''KEY_UNSPECIFIED'' | GENERAL \<Rightarrow> ''GENERAL'' | WEBHOOKS \<Rightarrow> ''WEBHOOKS'')"

definition buildUserSettingName :: "string \<Rightarrow> UserSetting_Key \<Rightarrow> string" where
  "buildUserSettingName username k = username @ ''/settings/'' @ getUserSettingKeyName k"

section \<open>Calls\<close>

text \<open>A call of a service client: a fresh request through the interceptor.\<close>

definition rpc :: "(session_answer \<Rightarrow> 'a) \<Rightarrow> session_answer world \<Rightarrow> (js_error + 'a) \<times> session_answer world" where
  "rpc sel w = (case authInterceptor \<lparr>authorization = None, x_retry = None\<rparr> w of
     (Inl e, w') \<Rightarrow> (Inl e, w') | (Inr a, w') \<Rightarrow> (Inr (sel a), w'))"

definition general_of :: "UserSetting list \<Rightarrow> UserSetting_GeneralSetting option" where
  "general_of settings = (case find (\<lambda>s. case us_value s of GeneralSetting _ \<Rightarrow> True | _ \<Rightarrow> False) settings of
     None \<Rightarrow> None
   | Some s \<Rightarrow> (case us_value s of GeneralSetting g \<Rightarrow> Some g | _ \<Rightarrow> None))"

definition webhooks_of :: "UserSetting list \<Rightarrow> UserSetting_WebhooksSetting option" where
  "webhooks_of settings = (case find (\<lambda>s. case us_value s of WebhooksSetting _ \<Rightarrow> True | _ \<Rightarrow> False) settings of
     None \<Rightarrow> None
   | Some s \<Rightarrow> (case us_value s of WebhooksSetting g \<Rightarrow> Some g | _ \<Rightarrow> None))"

definition fetchUserSettings :: "session_answer world \<Rightarrow> (js_error + user_settings) \<times> session_answer world" where
  "fetchUserSettings w =
     (case rpc an_settings w of (a, w1) \<Rightarrow>
      case rpc an_shortcuts w1 of (b, w2) \<Rightarrow>
      case (a, b) of
        (Inr settings, Inr scs) \<Rightarrow>
          (Inr \<lparr>st_general = general_of settings, st_webhooks = webhooks_of settings, st_shortcuts = scs\<rparr>, w2)
      | (Inl e, _) \<Rightarrow> (Inl e, w2)
      | (_, Inl e) \<Rightarrow> (Inl e, w2))"

section \<open>Operations\<close>

definition end_session :: "'c app \<Rightarrow> 'c app" where
  "end_session s = s\<lparr>net := (net s)\<lparr>auth := clearAccessToken (auth (net s))\<rparr>, ctx := signed_out\<rparr>"

text \<open>\<open>getAccessToken()\<close> in the application: it may load the token from the storage.\<close>

definition load_token :: "session_answer world \<Rightarrow> string option \<times> session_answer world" where
  "load_token w = (case getAccessToken (clock w) (auth w) of (t, a) \<Rightarrow> (t, w\<lparr>auth := a\<rparr>))"

text \<open>Making a locale that was chosen on the sign-in page the user's preference.\<close>

definition persist_locale :: "string option \<Rightarrow> user_settings \<Rightarrow> session_answer world \<Rightarrow> user_settings \<times> session_answer world" where
  "persist_locale preferredLocale settings w =
     (if isValidLocale preferredLocale \<and> map_option gs_locale (st_general settings) \<noteq> preferredLocale then
        let preferred = \<lparr>gs_locale = the preferredLocale,
              gs_memoVisibility = (case st_general settings of None \<Rightarrow> [] | Some g \<Rightarrow> gs_memoVisibility g),
              gs_theme = (case st_general settings of None \<Rightarrow> [] | Some g \<Rightarrow> gs_theme g)\<rparr>
        in case rpc an_setting w of
             (Inr updated, w') \<Rightarrow>
               (settings\<lparr>st_general := Some (case us_value updated of GeneralSetting g \<Rightarrow> g | _ \<Rightarrow> preferred)\<rparr>, w')
           | (Inl e, w') \<Rightarrow> (settings\<lparr>st_general := Some preferred\<rparr>, w')
      else (settings, w))"

definition sign_in :: "'c query_client \<Rightarrow> User \<Rightarrow> user_settings \<Rightarrow> session_answer world \<Rightarrow> 'c app \<Rightarrow> 'c app" where
  "sign_in qc user settings w s =
     s\<lparr>net := w,
       ctx := \<lparr>currentUser = Some user, userGeneralSetting = st_general settings, userWebhooksSetting = st_webhooks settings,
               shortcuts = st_shortcuts settings, isInitialized = True, isLoading = False\<rparr>,
       cache := setQueryData qc (userKeys_detail (user_name user)) (UserData user)
                  (setQueryData qc userKeys_currentUser (UserData user) (cache s))\<rparr>"

text \<open>The \<open>try\<close> block of \<open>initialize\<close>, with its \<open>catch\<close>.\<close>

definition load_session :: "'c query_client \<Rightarrow> string option \<Rightarrow> 'c app \<Rightarrow> 'c app" where
  "load_session qc preferredLocale s =
     (case rpc an_user (net s) of
        (Inl e, w) \<Rightarrow> end_session (s\<lparr>net := w\<rparr>)
      | (Inr None, w) \<Rightarrow> end_session (s\<lparr>net := w\<rparr>)
      | (Inr (Some user), w) \<Rightarrow>
          (case fetchUserSettings w of
             (Inl e, w') \<Rightarrow> end_session (s\<lparr>net := w'\<rparr>)
           | (Inr settings, w') \<Rightarrow>
               (case persist_locale preferredLocale settings w' of (settings', w'') \<Rightarrow> sign_in qc user settings' w'' s)))"

definition auth_initialize :: "'c query_client \<Rightarrow> string option \<Rightarrow> 'c app \<Rightarrow> 'c app" where
  "auth_initialize qc preferredLocale s =
     (let s0 = s\<lparr>ctx := (ctx s)\<lparr>isLoading := True\<rparr>\<rparr>
      in case load_token (net s0) of (token, w) \<Rightarrow>
         let w1 = (if truthy token then w else snd (doRefreshAccessToken w))
         in case load_token w1 of (token', w2) \<Rightarrow>
            let s1 = s0\<lparr>net := w2\<rparr>
            in if \<not> truthy token' then s1\<lparr>ctx := signed_out\<rparr> else load_session qc preferredLocale s1)"

definition logout :: "'c query_client \<Rightarrow> 'c app \<Rightarrow> 'c app" where
  "logout qc s =
     (case rpc (\<lambda>_. ()) (net s) of (_, w) \<Rightarrow>
        let s1 = end_session (s\<lparr>net := w\<rparr>) in s1\<lparr>cache := clearCache qc (cache s1)\<rparr>)"

text \<open>\<open>refetchSettings\<close> starts for the user at that time; its answer is applied to the state of a later time.\<close>

definition refetch_start :: "'c app \<Rightarrow> string option \<times> ((js_error + user_settings) option) \<times> 'c app" where
  "refetch_start s = (case map_option user_name (currentUser (ctx s)) of
     None \<Rightarrow> (None, None, s)
   | Some name \<Rightarrow>
       if name = [] then (None, None, s)
       else case fetchUserSettings (net s) of (r, w) \<Rightarrow> (Some name, Some r, s\<lparr>net := w\<rparr>))"

definition refetch_apply :: "string \<Rightarrow> user_settings \<Rightarrow> auth_context \<Rightarrow> auth_context" where
  "refetch_apply currentUserName settings prev =
     (if map_option user_name (currentUser prev) \<noteq> Some currentUserName then prev
      else prev\<lparr>userGeneralSetting := st_general settings, userWebhooksSetting := st_webhooks settings,
                shortcuts := st_shortcuts settings\<rparr>)"

definition setCurrentUser :: "'c query_client \<Rightarrow> User option \<Rightarrow> 'c app \<Rightarrow> 'c app" where
  "setCurrentUser qc user s =
     (let previousUser = getQueryData qc userKeys_currentUser (cache s);
          s1 = s\<lparr>ctx := (ctx s)\<lparr>currentUser := user\<rparr>\<rparr>
      in case user of
           Some u \<Rightarrow> s1\<lparr>cache := setQueryData qc (userKeys_detail (user_name u)) (UserData u)
                          (setQueryData qc userKeys_currentUser (UserData u) (cache s1))\<rparr>
         | None \<Rightarrow>
             let c1 = removeExactly qc userKeys_currentUser (cache s1)
             in s1\<lparr>cache := (case previousUser of
                  Some (UserData p) \<Rightarrow> if user_name p \<noteq> [] then removeExactly qc (userKeys_detail (user_name p)) c1 else c1
                | _ \<Rightarrow> c1)\<rparr>)"

section \<open>Refresh on focus\<close>

text \<open>\<open>useTokenRefreshOnFocus\<close>: the handler of a visibility change.\<close>

definition focus_refresh :: "bool \<Rightarrow> bool \<Rightarrow> 'r world \<Rightarrow> 'r world" where
  "focus_refresh enabled visible w =
     (if \<not> enabled \<or> \<not> visible then w
      else if \<not> hasStoredToken (auth w) then w
      else if isTokenExpired FOCUS_TOKEN_EXPIRY_BUFFER_MS (clock w) (auth w) then snd (doRefreshAccessToken w)
      else w)"

section \<open>Tokens through a call\<close>

text \<open>The tab has a token in memory.\<close>

definition has_token :: "'r world \<Rightarrow> bool" where
  "has_token w \<longleftrightarrow> truthy (accessToken (auth w))"

text \<open>From \<open>w\<close> to \<open>w'\<close> a token is kept, or the visitor was sent away.\<close>

definition keeps_session :: "'r world \<Rightarrow> 'r world \<Rightarrow> bool" where
  "keeps_session w w' \<longleftrightarrow> clock w' = clock w \<and> length (replaced w) \<le> length (replaced w') \<and>
     (has_token w \<longrightarrow> has_token w' \<or> length (replaced w) < length (replaced w'))"

lemma keeps_session_refl [simp]: "keeps_session w w"
  by (simp add: keeps_session_def)

lemma keeps_session_trans: "keeps_session w w' \<Longrightarrow> keeps_session w' w'' \<Longrightarrow> keeps_session w w''"
  by (auto simp: keeps_session_def)

lemma getAccessToken_truthy: "truthy (accessToken a) \<Longrightarrow> getAccessToken now a = (accessToken a, a)"
  by (simp add: getAccessToken_def)

lemma getAccessToken_memory: "getAccessToken now a = (t, a') \<Longrightarrow> accessToken a' = t"
  by (auto simp: getAccessToken_def Let_def)

lemma set_token: "accessToken (setAccessToken t e a) = t"
  by (auto simp: setAccessToken_def Let_def split: option.splits)

interpretation ks: call_relation keeps_session
proof
  fix w :: "'r world" and t a
  assume "getAccessToken (clock w) (auth w) = (t, a)"
  then show "keeps_session w (w\<lparr>auth := a\<rparr>)"
    using getAccessToken_truthy[of "auth w" "clock w"] by (auto simp: keeps_session_def has_token_def)
next
  show "keeps_session w (snd (doRefreshAccessToken w))" for w :: "'r world"
    by (auto simp: doRefreshAccessToken_def Let_def keeps_session_def has_token_def set_token truthy_def split: sum.splits prod.splits)
  show "keeps_session w (fail_session w)" for w :: "'r world"
    by (auto simp: keeps_session_def fail_session_def redirectOnAuthFailure_def has_token_def Let_def split: prod.splits option.splits)
qed (auto simp: keeps_session_def has_token_def)

lemma rpc_session: "rpc sel w = (r, w') \<Longrightarrow> keeps_session w w'"
  by (auto simp: rpc_def dest: ks.interceptor split: prod.splits sum.splits)

lemma fetchUserSettings_session:
  assumes "fetchUserSettings w = (r, w')"
  shows "keeps_session w w'"
proof -
  obtain a w1 b w2 where "rpc an_settings w = (a, w1)" "rpc an_shortcuts w1 = (b, w2)" by fastforce
  moreover from this have "w' = w2" using assms by (auto simp: fetchUserSettings_def split: sum.splits)
  ultimately show ?thesis using rpc_session keeps_session_trans by metis
qed

lemma persist_locale_session:
  assumes "persist_locale l st w = (st', w')"
  shows "keeps_session w w'"
proof -
  obtain a w1 where r: "rpc an_setting w = (a, w1)" by fastforce
  then have "w' = w \<or> w' = w1" using assms by (auto simp: persist_locale_def Let_def split: sum.splits if_splits)
  then show ?thesis using rpc_session[OF r] by auto
qed

lemma load_token_props:
  assumes "load_token w = (t, w')"
  shows "keeps_session w w'" "accessToken (auth w') = t" "sent w' = sent w" "clock w' = clock w" "replaced w' = replaced w"
    "load_token w' = (t, w')"
proof -
  obtain a where a: "getAccessToken (clock w) (auth w) = (t, a)" "w' = w\<lparr>auth := a\<rparr>"
    using assms by (auto simp: load_token_def split: prod.splits)
  then show "keeps_session w w'" "accessToken (auth w') = t" "sent w' = sent w" "clock w' = clock w" "replaced w' = replaced w"
    using ks.R_load getAccessToken_memory by auto
  have "getAccessToken (clock w) a = (t, a)"
    using a(1) by (auto simp: getAccessToken_def Let_def truthy_def split: if_splits option.splits)
  then show "load_token w' = (t, w')" using a(2) by (simp add: load_token_def)
qed

lemma load_token_refreshes: "load_token w = (t, w') \<Longrightarrow> load_token (w\<lparr>refreshes := n\<rparr>) = (t, w'\<lparr>refreshes := n\<rparr>)"
  by (auto simp: load_token_def split: prod.splits)

section \<open>Starting a session\<close>

text \<open>How \<open>load_session\<close> can end.\<close>

lemma load_session_cases:
  obtains (out) w where "keeps_session (net s) w" "load_session qc l s = end_session (s\<lparr>net := w\<rparr>)"
  | (signed) w0 w1 user settings0 settings w where "rpc an_user (net s) = (Inr (Some user), w0)"
      "fetchUserSettings w0 = (Inr settings0, w1)" "persist_locale l settings0 w1 = (settings, w)"
      "keeps_session (net s) w" "load_session qc l s = sign_in qc user settings w s"
proof -
  obtain a w0 where a: "rpc an_user (net s) = (a, w0)" by fastforce
  note k0 = rpc_session[OF a]
  obtain b w1 where b: "fetchUserSettings w0 = (b, w1)" by fastforce
  note k1 = keeps_session_trans[OF k0 fetchUserSettings_session[OF b]]
  show thesis
  proof (cases a)
    case (Inr u)
    show thesis
    proof (cases u)
      case (Some user)
      show thesis
      proof (cases b)
        case (Inr settings0)
        obtain settings w where c: "persist_locale l settings0 w1 = (settings, w)" by fastforce
        show thesis using signed[of user w0 settings0 w1 settings w] a b c \<open>a = Inr u\<close> Some Inr keeps_session_trans[OF k1 persist_locale_session[OF c]]
          by (simp add: load_session_def)
      qed (use out[OF k1] a b \<open>a = Inr u\<close> Some in \<open>simp add: load_session_def\<close>)
    qed (use out[OF k0] a Inr in \<open>simp add: load_session_def\<close>)
  qed (use out[OF k0] a in \<open>simp add: load_session_def\<close>)
qed

lemma end_session_props:
  "ctx (end_session s) = signed_out" "cache (end_session s) = cache s"
  "fst (getAccessToken now (auth (net (end_session s)))) = None" "\<not> hasStoredToken (auth (net (end_session s)))"
  by (simp_all add: end_session_def clear_no_token)

lemma signed_out_simps [simp]: "currentUser signed_out = None" "isInitialized signed_out" "\<not> isLoading signed_out"
  by (simp_all add: signed_out_def)

text \<open>Starting a session always ends in an initialized state, and that state and the token agree. With no user the
  whole context is that of a visitor and no usable token is left. With a user, who is the one the server named in answer to
  the first request, made with a token in memory, the query cache has the user under both keys, the settings are those of
  the server (the language perhaps replaced by the chosen one), and a token is in memory, unless
  a call ended the session by sending the visitor to the sign-in page.\<close>

theorem session_start:
  assumes "client_laws qc" "auth_initialize qc l s = s'"
  shows "isInitialized (ctx s') \<and> \<not> isLoading (ctx s') \<and>
    (case currentUser (ctx s') of
       None \<Rightarrow> ctx s' = signed_out \<and> cache s' = cache s \<and>
         \<not> truthy (fst (getAccessToken (clock (net s')) (auth (net s'))))
     | Some u \<Rightarrow>
         getQueryData qc userKeys_currentUser (cache s') = Some (UserData u) \<and>
         getQueryData qc (userKeys_detail (user_name u)) (cache s') = Some (UserData u) \<and>
         (\<exists>w w0 w1 st. has_token w \<and> sent w = sent (net s) \<and> rpc an_user w = (Inr (Some u), w0) \<and> fetchUserSettings w0 = (Inr st, w1) \<and>
            userWebhooksSetting (ctx s') = st_webhooks st \<and> shortcuts (ctx s') = st_shortcuts st \<and>
            (userGeneralSetting (ctx s') \<noteq> st_general st \<longrightarrow> isValidLocale l)) \<and>
         (has_token (net s') \<or> length (replaced (net s)) < length (replaced (net s'))))"
proof -
  let ?s0 = "s\<lparr>ctx := (ctx s)\<lparr>isLoading := True\<rparr>\<rparr>"
  obtain t w where t: "load_token (net s) = (t, w)" by fastforce
  define w1 where "w1 = (if truthy t then w else snd (doRefreshAccessToken w))"
  obtain t' w2 where t': "load_token w1 = (t', w2)" by fastforce
  have r1: "length (replaced (net s)) \<le> length (replaced w2)"
    using load_token_props(5)[OF t] load_token_props(5)[OF t'] doRefresh_frame[of w] by (auto simp: w1_def) (metis dual_order.refl surjective_pairing)+
  have s': "s' = (if \<not> truthy t' then ?s0\<lparr>net := w2, ctx := signed_out\<rparr> else load_session qc l (?s0\<lparr>net := w2\<rparr>))"
    using assms(2) t t' by (auto simp: auth_initialize_def Let_def w1_def)
  show ?thesis
  proof (cases "truthy t'")
    case False
    then show ?thesis using s' load_token_props(6)[OF t'] by (auto simp: load_token_def split: prod.splits)
  next
    case True
    then have tok: "has_token w2" using load_token_props(2)[OF t'] by (simp add: has_token_def)
    show ?thesis
    proof (cases rule: load_session_cases[of "?s0\<lparr>net := w2\<rparr>" qc l])
      case (out x)
      then show ?thesis using s' True by (simp add: end_session_props truthy_def)
    next
      case (signed w0 x1 user st0 st x)
      have k: "userKeys_detail n \<noteq> userKeys_currentUser" for n by (simp add: userKeys_detail_def userKeys_details_def userKeys_currentUser_def)
      have g: "getQueryData qc j (setQueryData qc k v c) = (if j = k then Some v else getQueryData qc j c)" for j k v c
        using assms(1) by (simp add: client_laws_def)
      have st: "st_webhooks st = st_webhooks st0" "st_shortcuts st = st_shortcuts st0" "st_general st \<noteq> st_general st0 \<longrightarrow> isValidLocale l"
        using signed(3) by (auto simp: persist_locale_def Let_def split: if_splits sum.splits prod.splits)
      have "has_token x \<or> length (replaced (net s)) < length (replaced x)" using signed(4) tok r1 by (auto simp: keeps_session_def)
      moreover have "sent w2 = sent (net s)"
        using load_token_props(3)[OF t] load_token_props(3)[OF t'] doRefresh_frame[of w "fst (doRefreshAccessToken w)" w1] by (auto simp: w1_def split: if_splits)
      moreover have "s' = sign_in qc user st x (?s0\<lparr>net := w2\<rparr>)" using s' True signed(5) by simp
      moreover have "\<exists>w w0 w1 st'. has_token w \<and> sent w = sent (net s) \<and> rpc an_user w = (Inr (Some user), w0) \<and> fetchUserSettings w0 = (Inr st', w1) \<and>
          st_webhooks st = st_webhooks st' \<and> st_shortcuts st = st_shortcuts st' \<and> (st_general st \<noteq> st_general st' \<longrightarrow> isValidLocale l)"
        using tok calculation(2) signed(1,2) st by (intro exI[of _ w2] exI[of _ w0] exI[of _ x1] exI[of _ st0]) simp
      ultimately show ?thesis using k k[symmetric] by (simp add: sign_in_def g)
    qed
  qed
qed

section \<open>Ending a session\<close>

text \<open>C4. Signing out is final whatever the server answers: the context is that of a visitor, the query cache is empty, and no
  token is found at any later time in the tab or, after a reload, in the storage; starting the session again where the
  server refuses a refresh leaves the visitor signed out and sends no request.\<close>

theorem logout_final:
  assumes "client_laws qc" "logout qc s = s'"
  shows "ctx s' = signed_out \<and> (\<forall>k. getQueryData qc k (cache s') = None)
    \<and> (\<forall>now. fst (getAccessToken now (auth (net s'))) = None) \<and> \<not> hasStoredToken (auth (net s'))
    \<and> (\<forall>now ch. fst (getAccessToken now (page_load (local_store (auth (net s'))) ch)) = None)
    \<and> (\<forall>e l. refresh_answer (net s') (refreshes (net s')) = Inl e \<longrightarrow>
         ctx (auth_initialize qc l s') = signed_out \<and> sent (net (auth_initialize qc l s')) = sent (net s'))"
proof -
  obtain r w where "rpc (\<lambda>_. ()) (net s) = (r, w)" by fastforce
  then have s': "s' = (end_session (s\<lparr>net := w\<rparr>))\<lparr>cache := clearCache qc (cache s)\<rparr>"
    using assms(2) by (auto simp: logout_def Let_def end_session_def)
  have tok: "\<And>now. fst (getAccessToken now (auth (net s'))) = None" "\<not> hasStoredToken (auth (net s'))"
    "\<And>now ch. fst (getAccessToken now (page_load (local_store (auth (net s'))) ch)) = None"
    using s' by (simp_all add: end_session_def clear_no_token)
  have "ctx (auth_initialize qc l s') = signed_out \<and> sent (net (auth_initialize qc l s')) = sent (net s')"
    if e: "refresh_answer (net s') (refreshes (net s')) = Inl e" for e l
  proof -
    obtain w1 where l1: "load_token (net s') = (None, w1)" using tok(1)[of "clock (net s')"] by (cases "load_token (net s')") (auto simp: load_token_def split: prod.splits)
    then have w1: "w1 = (net s')\<lparr>auth := auth w1\<rparr>" by (auto simp: load_token_def split: prod.splits)
    then have r: "snd (doRefreshAccessToken w1) = w1\<lparr>refreshes := Suc (refreshes w1)\<rparr>"
      using e by (cases w1; cases "net s'") (auto simp: doRefreshAccessToken_def)
    have l2: "load_token (w1\<lparr>refreshes := Suc (refreshes w1)\<rparr>) = (None, w1\<lparr>refreshes := Suc (refreshes w1)\<rparr>)"
      using load_token_props(6)[OF l1] by (rule load_token_refreshes)
    show ?thesis using l1 l2 r load_token_props(3)[OF l1] by (simp add: auth_initialize_def Let_def truthy_def)
  qed
  then show ?thesis using tok s' assms(1) by (simp add: client_laws_def end_session_props)
qed

definition demo_user :: User where
  "demo_user = \<lparr>user_name = ''users/1'', user_role = ROLE_USER, user_username = ''steven'', user_email = [], user_displayName = [],
     user_avatarUrl = [], user_description = [], user_password = [], user_state = NORMAL, user_createTime = None, user_updateTime = None\<rparr>"

definition demo_app :: "alist_cache app" where
  "demo_app = \<lparr>net = \<lparr>auth = setAccessToken (Some ''tok'') (Some 90000000) demo_auth, page = \<lparr>pathname = ''/home'', search_part = [], hash_part = []\<rparr>, replaced = [], clock = 0,
       refresh_answer = (\<lambda>_. Inl (PlainError ''Error'' ''no session'')), refreshes = 0,
       next_answer = (\<lambda>_. Inr \<lparr>an_user = Some demo_user, an_settings = [], an_shortcuts = [],
          an_setting = \<lparr>us_name = [], us_value = NoSetting\<rparr>, an_signIn = (''tok2'', None)\<rparr>), sent = []\<rparr>,
     ctx = initial_auth, cache = []\<rparr>"

theorem session_start_witness:
  "currentUser (ctx (auth_initialize alist_client (Some ''de'') demo_app)) = Some demo_user \<and>
   getQueryData alist_client userKeys_currentUser (cache (auth_initialize alist_client (Some ''de'') demo_app)) = Some (UserData demo_user)"
proof -
  have u: "currentUser (ctx (auth_initialize alist_client (Some ''de'') demo_app)) = Some demo_user" by code_simp
  from session_start[OF qa.laws refl, of "Some ''de''" demo_app] u show ?thesis by simp
qed

theorem logout_final_witness:
  "ctx (logout alist_client (auth_initialize alist_client None demo_app)) = signed_out \<and>
   ctx (auth_initialize alist_client None (logout alist_client (auth_initialize alist_client None demo_app))) = signed_out"
proof -
  let ?s = "logout alist_client (auth_initialize alist_client None demo_app)"
  have "refresh_answer (net ?s) (refreshes (net ?s)) = Inl (PlainError ''Error'' ''no session'')" by code_simp
  with logout_final[OF qa.laws refl, of "auth_initialize alist_client None demo_app"] show ?thesis by blast
qed

text \<open>Settings that arrive late never reach another user.\<close>

lemma refetch_other_user:
  "map_option user_name (currentUser c) \<noteq> Some name \<Longrightarrow> refetch_apply name st c = c"
  by (simp add: refetch_apply_def)

text \<open>A language chosen at sign-in holds for the session even where the server does not keep it, and nothing else of the
  user's settings changes then.\<close>

lemma preferred_locale_kept:
  assumes "isValidLocale (Some l)" "persist_locale (Some l) st w = (st', w')" "rpc an_setting w = (Inl e, w1)"
  shows "map_option gs_locale (st_general st') = Some l \<and>
    (\<forall>g. st_general st = Some g \<longrightarrow> st_general st' = Some (g\<lparr>gs_locale := l\<rparr>)) \<and> st_webhooks st' = st_webhooks st"
  using assms by (cases "st_general st") (auto simp: persist_locale_def Let_def split: if_splits)

end
