(* ===== verification/SignOut.thy ===== *)
theory SignOut
  imports AuthFlow AutoSave
begin

text \<open>
  Signing out from the menu (\<open>handleSignOut\<close> of \<open>components/UserMenu.tsx\<close>): the session ends, the user's items are removed from
  \<open>localStorage\<close>, and the page is left for the sign-in page. The tab also has an editor whose auto-save hook writes to the
  same storage; leaving the page hides it, which is the \<open>Hide\<close> event of the hook.
\<close>

definition keysToPreserve :: "string list" where
  "keysToPreserve = [''memos-theme'', ''memos-locale'', ''memos-view-setting'', ''tag-view-as-tree'', ''tag-tree-auto-expand'']"

text \<open>The empty key is falsy and never collected. Where the storage is blocked, the loop throws at once.\<close>

definition clear_user_items :: "storage \<Rightarrow> storage" where
  "clear_user_items st =
     (if accessible st then st\<lparr>items := (\<lambda>k. if k \<noteq> [] \<and> k \<notin> set keysToPreserve then None else items st k)\<rparr> else st)"

text \<open>A tab: the application and an open editor, over one storage.\<close>

record 'c tab =
  tab_app :: "'c app"
  tab_editor :: autosave

definition app_store :: "'c app \<Rightarrow> storage" where
  "app_store s = local_store (auth (net s))"

definition set_app_store :: "storage \<Rightarrow> 'c app \<Rightarrow> 'c app" where
  "set_app_store st s = s\<lparr>net := (net s)\<lparr>auth := (auth (net s))\<lparr>local_store := st\<rparr>\<rparr>\<rparr>"

definition shared_storage :: "'c tab \<Rightarrow> bool" where
  "shared_storage t \<longleftrightarrow> c_store (a_cache (tab_editor t)) = app_store (tab_app t)"

definition set_editor_store :: "storage \<Rightarrow> autosave \<Rightarrow> autosave" where
  "set_editor_store st e = e\<lparr>a_cache := (a_cache e)\<lparr>c_store := st\<rparr>\<rparr>"

definition handleSignOut :: "'c query_client \<Rightarrow> 'c tab \<Rightarrow> 'c tab" where
  "handleSignOut qc t =
     (let s1 = logout qc (tab_app t);
          st = clear_user_items (app_store s1);
          s2 = set_app_store st s1;
          s3 = s2\<lparr>net := (net s2)\<lparr>replaced := replaced (net s2) @ [ROUTES_AUTH]\<rparr>\<rparr>
      in t\<lparr>tab_app := s3, tab_editor := set_editor_store st (tab_editor t)\<rparr>)"

text \<open>Leaving the page runs the hook's \<open>pagehide\<close> handler.\<close>

definition leave_page :: "'c tab \<Rightarrow> 'c tab" where
  "leave_page t =
     (let e = autosave_exec Hide (tab_editor t)
      in t\<lparr>tab_app := set_app_store (c_store (a_cache e)) (tab_app t), tab_editor := e\<rparr>)"

section \<open>What is left in the browser\<close>

lemma clear_user_items_get:
  "get_item (clear_user_items st) k = (if k = [] \<or> k \<in> set keysToPreserve then get_item st k else if accessible st then Some None else None)"
  by (auto simp: clear_user_items_def get_item_def)

lemma clear_token_other:
  assumes "k \<noteq> TOKEN_KEY" "k \<noteq> EXPIRES_KEY"
  shows "get_item (local_store (clearAccessToken a)) k = get_item (local_store a) k"
  using assms by (simp add: clearAccessToken_def try_items ws.get_try_del_other)

lemma clear_token_env: "accessible (local_store (clearAccessToken a)) = accessible (local_store a)"
  "has_room (local_store (clearAccessToken a)) = has_room (local_store a)"
  by (auto simp: clearAccessToken_def try_remove_item_def remove_item_def split: option.splits)

text \<open>A call touches no other items of the storage than the token's.\<close>

definition same_items :: "storage \<Rightarrow> storage \<Rightarrow> bool" where
  "same_items st st' \<longleftrightarrow> accessible st' = accessible st \<and> has_room st' = has_room st \<and>
     (\<forall>k. k \<noteq> TOKEN_KEY \<longrightarrow> k \<noteq> EXPIRES_KEY \<longrightarrow> items st' k = items st k)"

lemma same_items_refl [simp]: "same_items st st"
  by (simp add: same_items_def)

lemma same_items_trans: "same_items a b \<Longrightarrow> same_items b c \<Longrightarrow> same_items a c"
  by (simp add: same_items_def)

lemma set_item_same: "set_item k v st = Some st' \<Longrightarrow> k \<in> {TOKEN_KEY, EXPIRES_KEY} \<Longrightarrow> same_items st st'"
  by (auto simp: set_item_def same_items_def split: if_splits)

lemma try_remove_same: "k \<in> {TOKEN_KEY, EXPIRES_KEY} \<Longrightarrow> same_items st (try_remove_item k st)"
  by (auto simp: try_remove_item_def remove_item_def same_items_def)

lemma remove_both_same: "same_items st (try_remove_item EXPIRES_KEY (try_remove_item TOKEN_KEY st))"
  using try_remove_same same_items_trans by blast

lemma clear_same: "same_items (local_store a) (local_store (clearAccessToken a))"
  by (simp add: clearAccessToken_def remove_both_same)

lemma setAccessToken_same: "same_items (local_store a) (local_store (setAccessToken t e a))"
  by (auto simp: setAccessToken_def Let_def remove_both_same intro: set_item_same same_items_trans[OF set_item_same set_item_same]
      split: option.splits)

lemma getAccessToken_store: "getAccessToken now a = (t, a') \<Longrightarrow> local_store a' = local_store a"
  by (auto simp: getAccessToken_def Let_def split: if_splits option.splits)

definition same_store :: "'r world \<Rightarrow> 'r world \<Rightarrow> bool" where
  "same_store w w' \<longleftrightarrow> same_items (local_store (auth w)) (local_store (auth w'))"

interpretation sst: call_relation same_store
proof
  show "same_store w w' \<Longrightarrow> same_store w' w'' \<Longrightarrow> same_store w w''" for w w' w'' :: "'r world"
    unfolding same_store_def by (rule same_items_trans)
  show "same_store w (snd (doRefreshAccessToken w))" for w :: "'r world"
    by (auto simp: doRefreshAccessToken_def Let_def same_store_def setAccessToken_same split: sum.splits prod.splits)
  show "same_store w (fail_session w)" for w :: "'r world"
    by (auto simp: same_store_def fail_session_def redirectOnAuthFailure_def clear_same Let_def split: prod.splits option.splits)
qed (auto simp: same_store_def dest: getAccessToken_store)

lemma rpc_store: "rpc sel w = (r, w') \<Longrightarrow> same_store w w'"
  by (auto simp: rpc_def dest: sst.interceptor split: prod.splits sum.splits)

lemma logout_store: "same_items (app_store s) (app_store (logout qc s))"
proof -
  obtain r w where r: "rpc (\<lambda>_. ()) (net s) = (r, w)" by fastforce
  then show ?thesis
    using rpc_store[OF r] same_items_trans[OF _ clear_same] by (auto simp: logout_def app_store_def end_session_def same_store_def Let_def)
qed

lemma preferences_of_items:
  assumes "accessible st' = accessible st" "\<forall>k \<in> set keysToPreserve. items st' k = items st k"
  shows "getStoredLocale st' = getStoredLocale st" "getStoredTheme st' = getStoredTheme st" "getInitialState st' = getInitialState st"
proof -
  have k: "LOCALE_STORAGE_KEY \<in> set keysToPreserve" "THEME_STORAGE_KEY \<in> set keysToPreserve" "VIEW_STORAGE_KEY \<in> set keysToPreserve"
    by (simp_all add: keysToPreserve_def LOCALE_STORAGE_KEY_def THEME_STORAGE_KEY_def VIEW_STORAGE_KEY_def)
  have "get_item st' j = get_item st j" if "j \<in> set keysToPreserve" for j using assms that by (simp add: get_item_def)
  with k show "getStoredLocale st' = getStoredLocale st" "getStoredTheme st' = getStoredTheme st" "getInitialState st' = getInitialState st"
    by (simp_all add: getStoredLocale_def getStoredTheme_def getInitialState_def)
qed

lemma sign_out_stores:
  "app_store (tab_app (handleSignOut qc t)) = clear_user_items (app_store (logout qc (tab_app t)))"
  "tab_editor (handleSignOut qc t) = set_editor_store (app_store (tab_app (handleSignOut qc t))) (tab_editor t)"
  "ctx (tab_app (handleSignOut qc t)) = ctx (logout qc (tab_app t))"
  by (simp_all add: handleSignOut_def Let_def app_store_def set_app_store_def)

lemma set_editor_store_inv: "autosave_inv e \<Longrightarrow> autosave_inv (set_editor_store st e)"
  by (cases "flusher e") (simp_all add: autosave_inv_def set_editor_store_def)


definition demo_tab :: "alist_cache tab" where
  "demo_tab = \<lparr>tab_app = demo_app, tab_editor = autosave_mount demo_props empty_cache\<rparr>"


end
