(* ===== verification/Instance.thy ===== *)
theory Instance
  imports Errors Filters
begin

text \<open>
  The settings of the instance, \<open>contexts/InstanceContext.tsx\<close>: they are fetched when they are first needed, by several
  components at once; \<open>fetchedSettingsRef\<close> keeps the names that were asked for. A request and its answer are
  two steps, so requests of several callers interleave. The content of a setting is any type.
\<close>

section \<open>State\<close>

datatype InstanceSetting_Key = INSTANCE_KEY_UNSPECIFIED | INSTANCE_GENERAL | INSTANCE_STORAGE | INSTANCE_MEMO_RELATED
  | INSTANCE_TAGS | INSTANCE_NOTIFICATION | INSTANCE_AI

definition instance_key_name :: "InstanceSetting_Key \<Rightarrow> string" where
  "instance_key_name k = (case k of INSTANCE_KEY_UNSPECIFIED \<Rightarrow> ''KEY_UNSPECIFIED'' | INSTANCE_GENERAL \<Rightarrow> ''GENERAL''
     | INSTANCE_STORAGE \<Rightarrow> ''STORAGE'' | INSTANCE_MEMO_RELATED \<Rightarrow> ''MEMO_RELATED'' | INSTANCE_TAGS \<Rightarrow> ''TAGS''
     | INSTANCE_NOTIFICATION \<Rightarrow> ''NOTIFICATION'' | INSTANCE_AI \<Rightarrow> ''AI'')"

definition buildInstanceSettingName :: "InstanceSetting_Key \<Rightarrow> string" where
  "buildInstanceSettingName k = instanceSettingNamePrefix @ instance_key_name k"

text \<open>The case of the \<open>value\<close> field; \<open>is_content\<close> is its content.\<close>

datatype setting_case = GeneralSettingCase | StorageSettingCase | MemoRelatedSettingCase | TagsSettingCase
  | NotificationSettingCase | AISettingCase | UndefinedCase

record 'v InstanceSetting =
  is_name :: string
  is_case :: setting_case
  is_content :: 'v

record ('p, 'v) instance_state =
  profile :: 'p
  settings :: "'v InstanceSetting list"
  inst_initialized :: bool
  inst_loading :: bool
  profileLoaded :: bool
  fetchedSettings :: "string set"

definition initial_instance :: "'p \<Rightarrow> ('p, 'v) instance_state" where
  "initial_instance p = \<lparr>profile = p, settings = [], inst_initialized = False, inst_loading = True, profileLoaded = False,
     fetchedSettings = {}\<rparr>"

text \<open>The derived settings (\<open>generalSetting\<close>, \<open>storageSetting\<close>, ...): the first setting of the name, where it has the expected
  case, and the default message otherwise.\<close>

definition derived_setting :: "InstanceSetting_Key \<Rightarrow> setting_case \<Rightarrow> 'v \<Rightarrow> 'v InstanceSetting list \<Rightarrow> 'v" where
  "derived_setting k c dflt ss = (case find (\<lambda>s. is_name s = buildInstanceSettingName k) ss of
     Some s \<Rightarrow> if is_case s = c then is_content s else dflt
   | None \<Rightarrow> dflt)"

section \<open>Operations\<close>

definition init_keys :: "InstanceSetting_Key list" where
  "init_keys = [INSTANCE_GENERAL, INSTANCE_MEMO_RELATED, INSTANCE_TAGS]"

definition instance_initialize :: "(js_error + 'p) \<Rightarrow> (js_error + 'v InstanceSetting list) \<Rightarrow> ('p, 'v) instance_state \<Rightarrow> ('p, 'v) instance_state" where
  "instance_initialize profile_answer settings_answer s0 =
     (let s = s0\<lparr>inst_loading := True\<rparr>
      in case profile_answer of
           Inr p \<Rightarrow> (case settings_answer of
             Inr ss \<Rightarrow> s\<lparr>profile := p, settings := ss, inst_initialized := True, inst_loading := False, profileLoaded := True,
                         fetchedSettings := fetchedSettings s \<union> is_name ` set ss\<rparr>
           | Inl e \<Rightarrow> s\<lparr>inst_initialized := True, inst_loading := False\<rparr>)
         | Inl e \<Rightarrow> s\<lparr>inst_initialized := True, inst_loading := False\<rparr>)"

text \<open>\<open>fetchSettings\<close> up to the request: the names it asks for, none where nothing is left to ask.\<close>

definition fetchSettings_start :: "InstanceSetting_Key list \<Rightarrow> ('p, 'v) instance_state \<Rightarrow> string list \<times> ('p, 'v) instance_state" where
  "fetchSettings_start keys s =
     (let names = filter (\<lambda>n. n \<notin> fetchedSettings s) (map buildInstanceSettingName keys)
      in if names = [] then ([], s) else (names, s\<lparr>fetchedSettings := fetchedSettings s \<union> set names\<rparr>))"

definition merge_settings :: "'v InstanceSetting list \<Rightarrow> 'v InstanceSetting list \<Rightarrow> 'v InstanceSetting list" where
  "merge_settings ss new = filter (\<lambda>s. is_name s \<notin> is_name ` set new) ss @ new"

definition fetchSettings_done :: "string list \<Rightarrow> (js_error + 'v InstanceSetting list) \<Rightarrow> ('p, 'v) instance_state \<Rightarrow>
    (js_error + unit) \<times> ('p, 'v) instance_state" where
  "fetchSettings_done names answer s = (case answer of
     Inr new \<Rightarrow> (Inr (), s\<lparr>settings := merge_settings (settings s) new\<rparr>)
   | Inl e \<Rightarrow> (Inl e, s\<lparr>fetchedSettings := fetchedSettings s - set names\<rparr>))"

text \<open>\<open>fetchSetting\<close>: the same for one name, with \<open>getInstanceSetting\<close>.\<close>

definition fetchSetting_start :: "InstanceSetting_Key \<Rightarrow> ('p, 'v) instance_state \<Rightarrow> string list \<times> ('p, 'v) instance_state" where
  "fetchSetting_start key s =
     (let name = buildInstanceSettingName key
      in if name \<in> fetchedSettings s then ([], s) else ([name], s\<lparr>fetchedSettings := insert name (fetchedSettings s)\<rparr>))"

definition fetchSetting_done :: "string \<Rightarrow> (js_error + 'v InstanceSetting) \<Rightarrow> ('p, 'v) instance_state \<Rightarrow>
    (js_error + unit) \<times> ('p, 'v) instance_state" where
  "fetchSetting_done name answer s = (case answer of
     Inr setting \<Rightarrow> (Inr (), s\<lparr>settings := filter (\<lambda>x. is_name x \<noteq> is_name setting) (settings s) @ [setting]\<rparr>)
   | Inl e \<Rightarrow> (Inl e, s\<lparr>fetchedSettings := fetchedSettings s - {name}\<rparr>))"

definition updateSetting :: "(js_error + 'v InstanceSetting) \<Rightarrow> ('p, 'v) instance_state \<Rightarrow> (js_error + unit) \<times> ('p, 'v) instance_state" where
  "updateSetting answer s = (case answer of
     Inr updated \<Rightarrow> (Inr (), s\<lparr>settings := filter (\<lambda>x. is_name x \<noteq> is_name updated) (settings s) @ [updated]\<rparr>)
   | Inl e \<Rightarrow> (Inl e, s))"

section \<open>Interleaved requests\<close>

text \<open>The state with the requests in flight (the names each asked for). The server may answer with any settings of distinct names.\<close>

type_synonym ('p, 'v) instance_run = "('p, 'v) instance_state \<times> string list list"

definition answer_ok :: "(js_error + 'v InstanceSetting list) \<Rightarrow> bool" where
  "answer_ok a \<longleftrightarrow> (case a of Inr ss \<Rightarrow> distinct (map is_name ss) | Inl _ \<Rightarrow> True)"

inductive instance_step :: "('p, 'v) instance_run \<Rightarrow> ('p, 'v) instance_run \<Rightarrow> bool" where
  step_init: "answer_ok a \<Longrightarrow> instance_step (s, rs) (instance_initialize p a s, rs)"
| step_fetch: "fetchSettings_start keys s = (n # ns, s') \<Longrightarrow> instance_step (s, rs) (s', (n # ns) # rs)"
| step_fetch_nothing: "fetchSettings_start keys s = ([], s') \<Longrightarrow> instance_step (s, rs) (s', rs)"
| step_fetched: "answer_ok a \<Longrightarrow> instance_step (s, rs @ r # rs') (snd (fetchSettings_done r a s), rs @ rs')"
| step_fetch_one: "fetchSetting_start key s = ([n], s') \<Longrightarrow> instance_step (s, rs) (s', [n] # rs)"
| step_fetched_one: "instance_step (s, rs @ [n] # rs') (snd (fetchSetting_done n a1 s), rs @ rs')"
| step_update: "instance_step (s, rs) (snd (updateSetting a1 s), rs)"

inductive_cases instance_stepE: "instance_step x y"

inductive instance_reachable :: "('p, 'v) instance_run \<Rightarrow> bool" where
  reach_init: "instance_reachable (initial_instance p, [])"
| reach_step: "instance_reachable x \<Longrightarrow> instance_step x y \<Longrightarrow> instance_reachable y"

section \<open>Every setting is asked for once\<close>

definition disjoint_requests :: "string list list \<Rightarrow> bool" where
  "disjoint_requests rs = sorted_wrt (\<lambda>a b. set a \<inter> set b = {}) rs"

fun instance_inv :: "('p, 'v) instance_run \<Rightarrow> bool" where
  "instance_inv (s, rs) \<longleftrightarrow> distinct (map is_name (settings s)) \<and> disjoint_requests rs \<and> \<Union> (set ` set rs) \<subseteq> fetchedSettings s"

lemma disjoint_requests_Cons:
  "disjoint_requests (r # rs) \<longleftrightarrow> (\<forall>x \<in> set rs. set r \<inter> set x = {}) \<and> disjoint_requests rs"
  by (simp add: disjoint_requests_def)

lemma disjoint_requests_mid:
  "disjoint_requests (rs @ r # rs') \<Longrightarrow> disjoint_requests (rs @ rs') \<and> (\<forall>x \<in> set (rs @ rs'). set x \<inter> set r = {})"
  by (auto simp: disjoint_requests_def sorted_wrt_append)

lemma merge_distinct:
  "distinct (map is_name ss) \<Longrightarrow> distinct (map is_name new) \<Longrightarrow> distinct (map is_name (merge_settings ss new))"
  by (auto simp: merge_settings_def distinct_map inj_on_def)

lemma filter_add_distinct:
  "distinct (map is_name (ss :: 'v InstanceSetting list)) \<Longrightarrow> distinct (map is_name (filter (\<lambda>x. is_name x \<noteq> is_name y) ss @ [y]))"
  using merge_distinct[of ss "[y]"] by (simp add: merge_settings_def)

lemma start_props:
  assumes "fetchSettings_start keys s = (ns, s') \<or> fetchSetting_start key s = (ns, s')"
  shows "set ns \<inter> fetchedSettings s = {}" "fetchedSettings s' = fetchedSettings s \<union> set ns" "settings s' = settings s"
  using assms by (auto simp: fetchSettings_start_def fetchSetting_start_def Let_def split: if_splits)

lemma inv_answered:
  assumes "instance_inv (s, rs @ r # rs')" "distinct (map is_name (settings s'))" "fetchedSettings s - set r \<subseteq> fetchedSettings s'"
  shows "instance_inv (s', rs @ rs')"
proof -
  from assms(1) have d: "disjoint_requests (rs @ r # rs')" and u: "\<And>q. q \<in> set (rs @ r # rs') \<Longrightarrow> set q \<subseteq> fetchedSettings s"
    by auto
  note m = disjoint_requests_mid[OF d]
  have "set q \<subseteq> fetchedSettings s'" if q: "q \<in> set (rs @ rs')" for q
  proof -
    have "set q \<inter> set r = {}" using m q by blast
    moreover have "set q \<subseteq> fetchedSettings s" using u[of q] q by auto
    ultimately show ?thesis using assms(3) by blast
  qed
  then have "\<Union> (set ` set (rs @ rs')) \<subseteq> fetchedSettings s'" by blast
  with m assms(2) show ?thesis by simp
qed

lemma instance_step_inv: "instance_step x y \<Longrightarrow> instance_inv x \<Longrightarrow> instance_inv y"
proof (induction rule: instance_step.induct)
  case (step_init a s rs p)
  then show ?case by (auto simp: instance_initialize_def Let_def answer_ok_def split: sum.splits)
next
  case (step_fetch keys s n ns s' rs)
  then show ?case using start_props[OF disjI1[OF step_fetch(1)]] by (auto simp: disjoint_requests_Cons)
next
  case (step_fetch_nothing keys s s' rs)
  then show ?case using start_props[OF disjI1[OF step_fetch_nothing(1)]] by simp
next
  case (step_fetched a s rs r rs')
  show ?case using step_fetched(1,2)
    by (intro inv_answered[OF step_fetched(2)]) (auto simp: fetchSettings_done_def answer_ok_def merge_distinct split: sum.splits)
next
  case (step_fetch_one key s n s' rs)
  then show ?case using start_props[OF disjI2[OF step_fetch_one(1)]] by (auto simp: disjoint_requests_Cons)
next
  case (step_fetched_one s rs n rs' a1)
  then have "distinct (map is_name (settings s))" by simp
  then show ?case
    by (intro inv_answered[OF step_fetched_one(1)]) (auto simp: fetchSetting_done_def filter_add_distinct simp del: map_append split: sum.splits)
next
  case (step_update s rs a1)
  then show ?case by (auto simp: updateSetting_def filter_add_distinct simp del: map_append split: sum.splits)
qed

lemma instance_reachable_inv: "instance_reachable x \<Longrightarrow> instance_inv x"
  by (induction rule: instance_reachable.induct) (auto simp: initial_instance_def disjoint_requests_def intro: instance_step_inv)

lemma find_merged:
  assumes "distinct (map is_name new)" "x \<in> set new"
  shows "find (\<lambda>s. is_name s = is_name x) (merge_settings ss new) = Some x"
proof -
  have "find (\<lambda>s. is_name s = is_name x) (filter (\<lambda>s. is_name s \<notin> is_name ` set new) ss) = None"
    using assms(2) by (auto simp: find_None_iff)
  moreover have "find (\<lambda>s. is_name s = is_name x) new = Some x"
    using assms by (induction new) auto
  moreover have "find P (xs @ ys) = (case find P xs of None \<Rightarrow> find P ys | Some y \<Rightarrow> Some y)" for P and xs ys :: "'a InstanceSetting list"
    by (induction xs) auto
  ultimately show ?thesis by (simp add: merge_settings_def)
qed

text \<open>C27. Settings are asked for once. However the components' requests interleave, two requests in flight never ask for the same
  setting, asking for a setting that is in flight sends nothing, and the settings have distinct names. An answer is visible at
  once in the derived settings; a failed request can be made again.\<close>

theorem settings_requested_once:
  assumes "instance_reachable (s, rs)"
  shows "distinct (map is_name (settings s))
    \<and> (\<forall>i < length rs. \<forall>j < length rs. i \<noteq> j \<longrightarrow> set (rs ! i) \<inter> set (rs ! j) = {})
    \<and> (\<forall>r \<in> set rs. \<forall>k. buildInstanceSettingName k \<in> set r \<longrightarrow> fetchSetting_start k s = ([], s) \<and> fetchSettings_start [k] s = ([], s))
    \<and> (\<forall>r \<in> set rs. \<forall>new k c v d. distinct (map is_name new) \<longrightarrow> \<lparr>is_name = buildInstanceSettingName k, is_case = c, is_content = v\<rparr> \<in> set new \<longrightarrow>
         derived_setting k c d (settings (snd (fetchSettings_done r (Inr new) s))) = v)
    \<and> (\<forall>r \<in> set rs. \<forall>e k. buildInstanceSettingName k \<in> set r \<longrightarrow>
         fst (fetchSetting_start k (snd (fetchSettings_done r (Inl e) s))) = [buildInstanceSettingName k])"
proof -
  note inv = instance_reachable_inv[OF assms, simplified]
  have "\<forall>i < length rs. \<forall>j < length rs. i \<noteq> j \<longrightarrow> set (rs ! i) \<inter> set (rs ! j) = {}"
    using inv by (auto simp: disjoint_requests_def sorted_wrt_iff_nth_less) (metis IntI empty_iff nat_neq_iff)
  moreover have "buildInstanceSettingName k \<in> fetchedSettings s" if "r \<in> set rs" "buildInstanceSettingName k \<in> set r" for r k
    using inv that by blast
  moreover have "derived_setting k c d (merge_settings ss new) = v"
    if "distinct (map is_name new)" "\<lparr>is_name = buildInstanceSettingName k, is_case = c, is_content = v\<rparr> \<in> set new" for new k c v d ss
    using find_merged[OF that] by (simp add: derived_setting_def)
  ultimately show ?thesis
    using inv by (auto simp: fetchSetting_start_def fetchSettings_start_def fetchSettings_done_def Let_def)
qed

definition demo_fetch :: "string list \<times> (unit, nat) instance_state" where
  "demo_fetch = fetchSettings_start [INSTANCE_AI, INSTANCE_TAGS] (initial_instance ())"

theorem settings_requested_once_witness:
  "fst demo_fetch = [''instance/settings/AI'', ''instance/settings/TAGS''] \<and>
   fetchSetting_start INSTANCE_AI (snd demo_fetch) = ([], snd demo_fetch)"
proof -
  have f: "fst demo_fetch = [''instance/settings/AI'', ''instance/settings/TAGS'']" by code_simp
  then have "fetchSettings_start [INSTANCE_AI, INSTANCE_TAGS] (initial_instance ()) =
      (''instance/settings/AI'' # [''instance/settings/TAGS''], snd demo_fetch)"
    by (metis demo_fetch_def prod.collapse)
  from reach_step[OF reach_init step_fetch[OF this]]
  have r: "instance_reachable (snd demo_fetch, [[''instance/settings/AI'', ''instance/settings/TAGS'']])" .
  have n: "buildInstanceSettingName INSTANCE_AI = ''instance/settings/AI''" by code_simp
  from settings_requested_once[OF r] n f show ?thesis by (metis list.set_intros(1))
qed

end
