(* ===== verification/SignIn.thy ===== *)
theory SignIn
  imports AuthFlow Instance
begin

text \<open>
  The ways into a session: the route guards (\<open>router/guards.tsx\<close>), the sign-in and sign-up forms
  (\<open>components/PasswordSignInForm.tsx\<close>, \<open>pages/SignUp.tsx\<close>), and the sign-in through an identity provider, from the redirect
  (\<open>pages/SignIn.tsx\<close>) to its callback (\<open>pages/AuthCallback.tsx\<close>). They compose the redirect check, the OAuth state, the token
  and the session. Texts shown to the user are the constructors of a datatype.
\<close>

section \<open>Route guards\<close>

datatype guard_result = Outlet | Navigate string

definition LandingRoute :: "User option \<Rightarrow> page_location \<Rightarrow> guard_result" where
  "LandingRoute user loc = (case user of
     None \<Rightarrow> Navigate (ROUTES_EXPLORE @ search_part loc @ hash_part loc) | Some _ \<Rightarrow> Outlet)"

definition RequireAuthRoute :: "User option \<Rightarrow> page_location \<Rightarrow> guard_result" where
  "RequireAuthRoute user loc = (case user of
     None \<Rightarrow> Navigate (buildAuthRoute (Some (pathname loc @ search_part loc @ hash_part loc)) None) | Some _ \<Rightarrow> Outlet)"

text \<open>\<open>query\<close> is the query string of the page, without its question mark.\<close>

definition RequireGuestRoute :: "User option \<Rightarrow> string \<Rightarrow> guard_result" where
  "RequireGuestRoute user query = (case user of
     None \<Rightarrow> Outlet
   | Some _ \<Rightarrow> Navigate (case getSafeRedirectPath (search_get query AUTH_REDIRECT_PARAM) of Some p \<Rightarrow> p | None \<Rightarrow> ROUTES_HOME))"

section \<open>The visit\<close>

text \<open>The messages of the callback page.\<close>

datatype callback_message = NoMessage | OAuthErrorMessage string "string option" "string option" | MissingParameters
  | InvalidState | LinkSignInRequired | UserChanged | FailedAuthenticate

record callback_state =
  cb_loading :: bool
  cb_message :: callback_message

text \<open>The tab of a visitor: the application, \<open>sessionStorage\<close>, the calls of \<open>navigateTo\<close>, the state and the ref of the callback
  page, the language of the browser, and the URL it was sent to.\<close>

record 'c visit =
  v_app :: "'c app"
  v_session :: storage
  v_nav :: "string list"
  v_handled :: bool
  v_callback :: callback_state
  v_language :: string
  v_href :: "string option"

definition v_now :: "'c visit \<Rightarrow> date" where "v_now v = clock (net (v_app v))"

definition visit_locale :: "'c visit \<Rightarrow> string" where
  "visit_locale v = getLocaleWithFallback None (v_language v) (local_store (auth (net (v_app v))))"

text \<open>A call in the visitor's tab.\<close>

definition v_rpc :: "(session_answer \<Rightarrow> 'a) \<Rightarrow> 'c visit \<Rightarrow> (js_error + 'a) \<times> 'c visit" where
  "v_rpc sel v = (case rpc sel (net (v_app v)) of (r, w) \<Rightarrow> (r, v\<lparr>v_app := (v_app v)\<lparr>net := w\<rparr>\<rparr>))"

text \<open>Keeping the token of a sign-in answer.\<close>

definition store_token :: "wkt \<Rightarrow> string \<times> Timestamp option \<Rightarrow> 'c visit \<Rightarrow> 'c visit" where
  "store_token k ans v = (case ans of (token, expires) \<Rightarrow>
     if token = [] then v
     else let w = net (v_app v)
          in v\<lparr>v_app := (v_app v)\<lparr>net := w\<lparr>auth := setAccessToken (Some token) (map_option (timestampDate k) expires) (auth w)\<rparr>\<rparr>\<rparr>)"

definition v_initialize :: "'c query_client \<Rightarrow> string option \<Rightarrow> 'c visit \<Rightarrow> 'c visit" where
  "v_initialize qc l v = v\<lparr>v_app := auth_initialize qc l (v_app v)\<rparr>"

section \<open>Forms\<close>

text \<open>\<open>handleSignInButtonClick\<close>: the result says that the form was submitted, and whether it failed.\<close>

definition password_sign_in :: "wkt \<Rightarrow> 'c query_client \<Rightarrow> bool \<Rightarrow> string \<Rightarrow> string \<Rightarrow> string option \<Rightarrow> 'c visit \<Rightarrow> (js_error + unit) option \<times> 'c visit" where
  "password_sign_in k qc loading username password redirectPath v =
     (if username = [] \<or> password = [] then (None, v)
      else if loading then (None, v)
      else case v_rpc an_signIn v of
        (Inl e, v1) \<Rightarrow> (Some (Inl e), v1)
      | (Inr ans, v1) \<Rightarrow>
          let v2 = store_token k ans v1;
              v3 = v_initialize qc (Some (visit_locale v2)) v2
          in (Some (Inr ()), v3\<lparr>v_nav := v_nav v3 @ [if truthy redirectPath then the redirectPath else ROUTES_HOME]\<rparr>))"

definition sign_up :: "wkt \<Rightarrow> 'c query_client \<Rightarrow> (js_error + 'p) \<Rightarrow> (js_error + 's InstanceSetting list) \<Rightarrow> bool \<Rightarrow> string \<Rightarrow> string \<Rightarrow>
    string option \<Rightarrow> 'c visit \<times> ('p, 's) instance_state \<Rightarrow> (js_error + unit) option \<times> 'c visit \<times> ('p, 's) instance_state" where
  "sign_up k qc profile_answer settings_answer loading username password redirectTarget = (\<lambda>(v, inst).
     if username = [] \<or> password = [] then (None, v, inst)
     else if loading then (None, v, inst)
     else case v_rpc (\<lambda>_. ()) v of
        (Inl e, v0) \<Rightarrow> (Some (Inl e), v0, inst)
      | (Inr _, v0) \<Rightarrow>
          (case v_rpc an_signIn v0 of
             (Inl e, v1) \<Rightarrow> (Some (Inl e), v1, inst)
           | (Inr ans, v1) \<Rightarrow>
               let v2 = store_token k ans v1;
                   v3 = v_initialize qc (Some (visit_locale v2)) v2;
                   inst' = instance_initialize profile_answer settings_answer inst
               in (Some (Inr ()), v3\<lparr>v_nav := v_nav v3 @ [if truthy redirectTarget then the redirectTarget else ROUTES_HOME]\<rparr>, inst')))"

section \<open>Identity providers\<close>

datatype IdentityProvider_Type = IDP_TYPE_UNSPECIFIED | OAUTH2

record FieldMapping =
  fm_identifier :: string
  fm_displayName :: string
  fm_email :: string
  fm_avatarUrl :: string

record OAuth2Config =
  oc_clientId :: string
  oc_clientSecret :: string
  oc_authUrl :: string
  oc_tokenUrl :: string
  oc_userInfoUrl :: string
  oc_scopes :: "string list"
  oc_fieldMapping :: "FieldMapping option"

text \<open>\<open>ip_config\<close> is the \<open>oauth2Config\<close> of the configuration, where there is one.\<close>

record IdentityProvider =
  ip_name :: string
  ip_type :: IdentityProvider_Type
  ip_title :: string
  ip_identifierFilter :: string
  ip_config :: "OAuth2Config option"

datatype start_result = StartIgnored | InvalidIdentityProvider | StartFailed js_error | StartRedirected string

definition oauth_url :: "OAuth2Config \<Rightarrow> string \<Rightarrow> string \<Rightarrow> string option \<Rightarrow> string" where
  "oauth_url cfg redirectUri state codeChallenge =
     oc_authUrl cfg @ ''?client_id='' @ oc_clientId cfg @ ''&redirect_uri='' @ encode_uri_component redirectUri @ ''&state='' @ state
     @ ''&response_type=code&scope='' @ encode_uri_component (join '' '' (oc_scopes cfg))
     @ (if truthy codeChallenge then ''&code_challenge='' @ the codeChallenge @ ''&code_challenge_method=S256'' else [])"

text \<open>\<open>origin\<close> is the origin that \<open>absolutifyLink\<close> puts before a path.\<close>

definition handleSignInWithIdentityProvider :: "browser_crypto \<Rightarrow> string \<Rightarrow> IdentityProvider \<Rightarrow> string option \<Rightarrow> 'c visit \<Rightarrow> start_result \<times> 'c visit" where
  "handleSignInWithIdentityProvider crypto origin idp redirectTarget v =
     (if ip_type idp \<noteq> OAUTH2 then (StartIgnored, v)
      else case ip_config idp of
        None \<Rightarrow> (InvalidIdentityProvider, v)
      | Some cfg \<Rightarrow>
          (case storeOAuthState crypto (v_now v) (ip_name idp) signin redirectTarget None (v_session v) of
             (Inl e, st) \<Rightarrow> (StartFailed e, v\<lparr>v_session := st\<rparr>)
           | (Inr (state, codeChallenge), st) \<Rightarrow>
               let url = oauth_url cfg (origin @ ''/auth/callback'') state codeChallenge
               in (StartRedirected url, v\<lparr>v_session := st, v_href := Some url\<rparr>)))"

section \<open>The callback\<close>

definition type_error :: js_error where "type_error = PlainError ''TypeError'' ''path.startsWith is not a function''"

text \<open>\<open>getSafeRedirectPath(returnUrl)\<close> on a value that was read from the storage: a truthy value that is no text has no \<open>startsWith\<close>.\<close>

definition safe_return :: "json option \<Rightarrow> js_error + string option" where
  "safe_return v = (case v of
     Some (JStr s) \<Rightarrow> Inr (getSafeRedirectPath (Some s))
   | _ \<Rightarrow> if falsy_json v then Inr None else Inl type_error)"

definition link_check :: "oauth_result \<Rightarrow> User option \<Rightarrow> callback_message" where
  "link_check r user = (case user of
     None \<Rightarrow> LinkSignInRequired
   | Some u \<Rightarrow>
       if user_name u = [] then LinkSignInRequired
       else if \<not> falsy_json (ok_linkingUserName r) \<and> ok_linkingUserName r \<noteq> Some (JStr (user_name u)) then UserChanged
       else NoMessage)"

definition callback_failed :: "callback_message \<Rightarrow> 'c visit \<Rightarrow> 'c visit" where
  "callback_failed m v = v\<lparr>v_callback := \<lparr>cb_loading = False, cb_message = m\<rparr>\<rparr>"

text \<open>The end of the asynchronous part: the session is started and the visitor goes on.\<close>

definition callback_finish :: "'c query_client \<Rightarrow> oauth_result \<Rightarrow> 'c visit \<Rightarrow> 'c visit" where
  "callback_finish qc r v =
     (let v1 = v\<lparr>v_callback := \<lparr>cb_loading = False, cb_message = NoMessage\<rparr>\<rparr>;
          v2 = v_initialize qc (if ok_flowMode r = JStr ''signin'' then Some (visit_locale v1) else None) v1
      in case safe_return (ok_returnUrl r) of
           Inl e \<Rightarrow> callback_failed FailedAuthenticate v2
         | Inr p \<Rightarrow> v2\<lparr>v_nav := v_nav v2 @ [case p of Some x \<Rightarrow> x | None \<Rightarrow> ROUTES_HOME]\<rparr>)"

definition callback_flow :: "wkt \<Rightarrow> 'c query_client \<Rightarrow> oauth_result \<Rightarrow> 'c visit \<Rightarrow> 'c visit" where
  "callback_flow k qc r v =
     (if ok_flowMode r = JStr ''link'' then
        (case link_check r (currentUser (ctx (v_app v))) of
           NoMessage \<Rightarrow>
             (case v_rpc (\<lambda>_. ()) v of
                (Inl e, v1) \<Rightarrow> callback_failed FailedAuthenticate v1
              | (Inr _, v1) \<Rightarrow> callback_finish qc r v1)
         | m \<Rightarrow> callback_failed m v)
      else
        (case v_rpc an_signIn v of
           (Inl e, v1) \<Rightarrow> callback_failed FailedAuthenticate v1
         | (Inr ans, v1) \<Rightarrow> callback_finish qc r (store_token k ans v1)))"

text \<open>The effect of the page, for a query string. An error that the effect throws is on the left.\<close>

definition callback_effect :: "wkt \<Rightarrow> 'c query_client \<Rightarrow> string \<Rightarrow> 'c visit \<Rightarrow> js_error + 'c visit" where
  "callback_effect k qc query v =
     (if \<not> isInitialized (ctx (v_app v)) then Inr v
      else if v_handled v then Inr v
      else let error = search_get query ''error''; description = search_get query ''error_description''; uri = search_get query ''error_uri''
      in if truthy error then
           (if truthy description then
              (case decode_uri_component (the description) of
                 None \<Rightarrow> Inl (PlainError ''URIError'' ''URI malformed'')
               | Some d \<Rightarrow> Inr (callback_failed (OAuthErrorMessage (the error) (Some d) (if truthy uri then uri else None)) v))
            else Inr (callback_failed (OAuthErrorMessage (the error) None (if truthy uri then uri else None)) v))
         else let authCode = search_get query ''code''; state = search_get query ''state''
         in if \<not> truthy authCode \<or> \<not> truthy state then Inr (callback_failed MissingParameters v)
            else (case validateOAuthState (the state) (v_now v) (v_session v) of
                    (Inl e, st) \<Rightarrow> Inl e
                  | (Inr None, st) \<Rightarrow> Inr (callback_failed InvalidState (v\<lparr>v_session := st\<rparr>))
                  | (Inr (Some r), st) \<Rightarrow> Inr (callback_flow k qc r (v\<lparr>v_session := st, v_handled := True\<rparr>))))"

definition demo_visit :: "alist_cache visit" where
  "demo_visit = \<lparr>v_app = demo_app\<lparr>ctx := signed_out\<rparr>, v_session = empty_storage, v_nav = [], v_handled = False,
     v_callback = \<lparr>cb_loading = True, cb_message = NoMessage\<rparr>, v_language = ''en'', v_href = None\<rparr>"

section \<open>Back to the page\<close>

lemma auth_route_redirect:
  "search_get (drop (length ''/auth?'') (buildAuthRoute (Some p) None)) AUTH_REDIRECT_PARAM = getSafeRedirectPath (Some p)"
  by (simp only: buildAuthRoute_query auth_params_get)

text \<open>C1. A visitor who needs to sign in comes back to the page. For a page of the site that is not an auth page, the guard leads to the
  auth page with the whole address (path, query and fragment) as a parameter; a visitor who has a session by then is sent
  to exactly that address, and so is one who signs in with a password there.\<close>

theorem return_after_sign_in:
  assumes "p = pathname loc @ search_part loc @ hash_part loc" "getSafeRedirectPath (Some p) = Some p"
    and "v_rpc an_signIn v = (Inr ans, v1)" "username \<noteq> []" "password \<noteq> []"
  shows "\<exists>url. RequireAuthRoute None loc = Navigate url \<and> starts_with url ''/auth?'' \<and>
    RequireGuestRoute (Some u) (drop (length ''/auth?'') url) = Navigate p \<and>
    v_nav (snd (password_sign_in k qc False username password
       (getSafeRedirectPath (search_get (drop (length ''/auth?'') url) AUTH_REDIRECT_PARAM)) v)) = v_nav v @ [p]"
proof -
  let ?url = "buildAuthRoute (Some p) None"
  have q: "search_get (drop (length ''/auth?'') ?url) AUTH_REDIRECT_PARAM = Some p" using auth_route_redirect assms(2) by simp
  have ne: "p \<noteq> []" using assms(2) by (auto simp: getSafeRedirectPath_def)
  have "starts_with ?url ''/auth?''" using assms(2) by (simp add: buildAuthRoute_params auth_params_def starts_with_def Let_def truthy_def)
  moreover have "v_nav v1 = v_nav v" using assms(3) by (auto simp: v_rpc_def split: prod.splits)
  then have "v_nav (snd (password_sign_in k qc False username password (Some p) v)) = v_nav v @ [p]"
    using assms(3-5) ne by (cases ans) (simp add: password_sign_in_def Let_def v_initialize_def store_token_def truthy_def)
  ultimately show ?thesis
    using q assms(1,2) by (intro exI[of _ ?url]) (simp add: RequireAuthRoute_def RequireGuestRoute_def)
qed

section \<open>The callback\<close>

lemma v_rpc_frame: "v_rpc sel v = (r, v') \<Longrightarrow> v_nav v' = v_nav v \<and> v_session v' = v_session v \<and> v_handled v' = v_handled v"
  by (auto simp: v_rpc_def split: prod.splits)

lemma store_token_frame [simp]:
  "v_nav (store_token k a v) = v_nav v" "v_session (store_token k a v) = v_session v" "v_handled (store_token k a v) = v_handled v"
  by (cases a; simp add: store_token_def Let_def)+

lemma callback_failed_frame [simp]:
  "v_nav (callback_failed m v) = v_nav v" "v_session (callback_failed m v) = v_session v"
  "v_handled (callback_failed m v) = v_handled v" "v_app (callback_failed m v) = v_app v"
  by (simp_all add: callback_failed_def)

text \<open>Where the callback page may send a visitor.\<close>

definition safe_target :: "string \<Rightarrow> bool" where
  "safe_target p \<longleftrightarrow> p = ROUTES_HOME \<or> getSafeRedirectPath (Some p) = Some p"

definition navigates_safely :: "'c visit \<Rightarrow> 'c visit \<Rightarrow> bool" where
  "navigates_safely v v' \<longleftrightarrow> v_session v' = v_session v \<and> v_handled v' = v_handled v \<and>
     (v_nav v' = v_nav v \<or> (\<exists>p. v_nav v' = v_nav v @ [p] \<and> safe_target p))"

lemma safe_return_target: "safe_return x = Inr (Some p) \<Longrightarrow> safe_target p"
  using getSafeRedirectPath_idem by (auto simp: safe_return_def safe_target_def getSafeRedirectPath_Some_iff split: json.splits option.splits if_splits)

lemma callback_finish_safe: "navigates_safely v (callback_finish qc r v)"
  using safe_return_target[of "ok_returnUrl r"]
  by (auto simp: navigates_safely_def callback_finish_def v_initialize_def Let_def safe_target_def split: sum.splits option.splits)

lemma after_rpc_safe:
  assumes "v_rpc sel v = (x, v1)"
  shows "navigates_safely v (callback_finish qc r (store_token k a v1))" "navigates_safely v (callback_finish qc r v1)"
    "navigates_safely v (callback_failed m v1)"
  using v_rpc_frame[OF assms] callback_finish_safe[of "store_token k a v1" qc r] callback_finish_safe[of v1 qc r]
  by (simp_all add: navigates_safely_def)

lemma callback_failed_safe: "navigates_safely v (callback_failed m v)"
  by (simp add: navigates_safely_def)

lemma callback_flow_safe: "navigates_safely v (callback_flow k qc r v)"
  by (auto simp: callback_flow_def callback_failed_safe after_rpc_safe split: callback_message.splits prod.splits sum.splits)

text \<open>In the mode that links an identity to an account, nothing happens without the right user.\<close>

lemma callback_flow_link:
  assumes "ok_flowMode r = JStr ''link''" "v_app (callback_flow k qc r v) \<noteq> v_app v"
  shows "\<exists>u. currentUser (ctx (v_app v)) = Some u \<and> (falsy_json (ok_linkingUserName r) \<or> ok_linkingUserName r = Some (JStr (user_name u)))"
  using assms by (auto simp: callback_flow_def link_check_def split: option.splits if_splits)

text \<open>A run of the page that does not throw either only reports, or has found the stored state and goes on with it.\<close>

lemma callback_effect_cases:
  assumes "callback_effect k qc query v = Inr v'"
  obtains (same) "v_app v' = v_app v" "v_nav v' = v_nav v" "v_handled v' = v_handled v"
    | (flow) state r st where "search_get query ''state'' = Some state" "validateOAuthState state (v_now v) (v_session v) = (Inr (Some r), st)"
        "v' = callback_flow k qc r (v\<lparr>v_session := st, v_handled := True\<rparr>)"
proof (cases "\<not> isInitialized (ctx (v_app v)) \<or> v_handled v \<or> truthy (search_get query ''error'') \<or>
    \<not> truthy (search_get query ''code'') \<or> \<not> truthy (search_get query ''state'')")
  case True
  then have "v_app v' = v_app v" "v_nav v' = v_nav v" "v_handled v' = v_handled v"
    using assms unfolding callback_effect_def by (simp_all add: Let_def split: if_split_asm option.split_asm) auto
  then show ?thesis by (rule same)
next
  case False
  then obtain state where st: "search_get query ''state'' = Some state" by (auto simp: truthy_def split: option.split_asm)
  show ?thesis
  proof (cases "validateOAuthState state (v_now v) (v_session v)")
    case (Pair x st')
    then show ?thesis
      using assms False st same flow[OF st] by (simp add: callback_effect_def Let_def split: sum.split_asm option.split_asm) auto
  qed
qed



theorem return_after_sign_in_witness:
  "\<exists>url. RequireAuthRoute None \<lparr>pathname = ''/archived'', search_part = ''?filter=x'', hash_part = []\<rparr> = Navigate url \<and>
     v_nav (snd (password_sign_in ms_wkt alist_client False ''u'' ''p''
       (getSafeRedirectPath (search_get (drop (length ''/auth?'') url) AUTH_REDIRECT_PARAM)) demo_visit)) = [''/archived?filter=x'']"
proof -
  obtain ans v1 where r: "v_rpc an_signIn demo_visit = (Inr ans, v1)"
  proof -
    have "case v_rpc an_signIn demo_visit of (Inr _, _) \<Rightarrow> True | _ \<Rightarrow> False" by code_simp
    then show thesis using that by (auto split: prod.splits sum.splits)
  qed
  have p: "getSafeRedirectPath (Some ''/archived?filter=x'') = Some ''/archived?filter=x''" by code_simp
  have n: "v_nav demo_visit = []" by (simp add: demo_visit_def)
  from return_after_sign_in[OF _ p r, of "\<lparr>pathname = ''/archived'', search_part = ''?filter=x'', hash_part = []\<rparr>" "''u''" "''p''" demo_user ms_wkt alist_client]
  show ?thesis by (auto simp: n)
qed

section \<open>The way through the identity provider\<close>

lemma state_not_Nil: "state_bytes c \<noteq> [] \<Longrightarrow> generateSecureState (state_bytes c) \<noteq> []"
  by (cases "state_bytes c") (simp_all add: generateSecureState_def hex_byte_def)

lemma start_redirected:
  assumes "handleSignInWithIdentityProvider crypto origin idp target v = (StartRedirected url, v1)"
  obtains chal cfg where "storeOAuthState crypto (v_now v) (ip_name idp) signin target None (v_session v)
      = (Inr (generateSecureState (state_bytes crypto), chal), v_session v1)" "ip_config idp = Some cfg"
    "url = oauth_url cfg (origin @ ''/auth/callback'') (generateSecureState (state_bytes crypto)) chal"
proof -
  have state: "state = generateSecureState (state_bytes crypto)"
    if "storeOAuthState crypto t n m r u st = (Inr (state, chal), st')" for t n m r u st state chal st'
    using that by (auto simp: storeOAuthState_def Let_def split: option.splits)
  show thesis using assms that
    by (auto simp: handleSignInWithIdentityProvider_def Let_def split: if_split_asm option.split_asm prod.split_asm sum.split_asm dest: state)
qed


definition demo_idp :: IdentityProvider where
  "demo_idp = \<lparr>ip_name = ''identity-providers/1'', ip_type = OAUTH2, ip_title = ''G'', ip_identifierFilter = [],
     ip_config = Some \<lparr>oc_clientId = ''id'', oc_clientSecret = [], oc_authUrl = ''https://g.test/a'', oc_tokenUrl = [], oc_userInfoUrl = [],
        oc_scopes = [''email''], oc_fieldMapping = None\<rparr>\<rparr>"


end
