(* ===== verification/Stats.thy ===== *)
theory Stats
  imports Preferences MemoCache Tags "HOL-Library.Multiset"
begin

text \<open>
  What the lists and the statistics of memos are made of: the order of a list (\<open>hooks/useMemoSorting.ts\<close>), activity and tag
  counts (\<open>hooks/useFilteredMemoStats.ts\<close>, \<open>useTagCounts\<close> of \<open>hooks/useUserQueries.ts\<close>), and the lookup of users in batches
  (\<open>useUsersByUsernames\<close>, \<open>useUsersByNames\<close>). The conversion of timestamps and the local date format are parameters.
\<close>

section \<open>Order of a list\<close>

text \<open>\<open>Array.prototype.sort\<close> with a comparator is stable: an element goes before the first later one it is not greater than.\<close>

fun js_insert :: "('a \<Rightarrow> 'a \<Rightarrow> int) \<Rightarrow> 'a \<Rightarrow> 'a list \<Rightarrow> 'a list" where
  "js_insert cmp x [] = [x]"
| "js_insert cmp x (y # ys) = (if cmp x y \<le> 0 then x # y # ys else y # js_insert cmp x ys)"

definition js_sort :: "('a \<Rightarrow> 'a \<Rightarrow> int) \<Rightarrow> 'a list \<Rightarrow> 'a list" where
  "js_sort cmp xs = foldr (js_insert cmp) xs []"

definition getMemoSortTime :: "wkt \<Rightarrow> Memo \<Rightarrow> MemoTimeBasis \<Rightarrow> date option" where
  "getMemoSortTime w memo basis =
     map_option (timestampDate w) (if basis = UpdateTime then memo_updateTime memo else memo_createTime memo)"

text \<open>\<open>dayjs(t).unix()\<close>; \<open>dayjs(undefined)\<close> is the current time.\<close>

definition dayjs_unix :: "date \<Rightarrow> date option \<Rightarrow> int" where
  "dayjs_unix now t = (case t of None \<Rightarrow> now | Some d \<Rightarrow> d) div 1000"

definition memo_order_by :: "bool \<Rightarrow> bool \<Rightarrow> MemoTimeBasis \<Rightarrow> string" where
  "memo_order_by pinnedFirst asc basis =
     (let timeOrder = basis_value basis @ (if asc then '' asc'' else '' desc'')
      in if pinnedFirst then ''pinned desc, '' @ timeOrder else timeOrder)"

definition compare_memos :: "wkt \<Rightarrow> date \<Rightarrow> bool \<Rightarrow> bool \<Rightarrow> MemoTimeBasis \<Rightarrow> Memo \<Rightarrow> Memo \<Rightarrow> int" where
  "compare_memos w now pinnedFirst asc basis a b =
     (if pinnedFirst \<and> memo_pinned a \<noteq> memo_pinned b then (if memo_pinned b then 1 else - 1)
      else let ta = dayjs_unix now (getMemoSortTime w a basis); tb = dayjs_unix now (getMemoSortTime w b basis)
           in if asc then ta - tb else tb - ta)"

definition listSort :: "wkt \<Rightarrow> date \<Rightarrow> bool \<Rightarrow> MemoState \<Rightarrow> bool \<Rightarrow> MemoTimeBasis \<Rightarrow> Memo list \<Rightarrow> Memo list" where
  "listSort w now pinnedFirst st asc basis memos =
     js_sort (compare_memos w now pinnedFirst asc basis) (filter (\<lambda>m. memo_state m = st) memos)"

section \<open>Statistics\<close>

record UserStats_MemoTypeStats =
  linkCount :: int
  codeCount :: int
  todoCount :: int
  undoCount :: int

record UserStats =
  us_statsName :: string
  memoTypeStats :: "UserStats_MemoTypeStats option"
  us_tagCount :: "(string, int) jsmap"
  memoCreatedTimestamps :: "Timestamp list"
  memoUpdatedTimestamps :: "Timestamp list"
  pinnedMemos :: "string list"
  totalMemoCount :: int

definition timestampsForBasis :: "UserStats \<Rightarrow> MemoTimeBasis \<Rightarrow> Timestamp list" where
  "timestampsForBasis stats basis =
     (let createdArray = memoCreatedTimestamps stats; updatedArray = memoUpdatedTimestamps stats;
          wantUpdated = (basis = UpdateTime);
          oldServerFallback = (wantUpdated \<and> length updatedArray = 0 \<and> length createdArray > 0)
      in if wantUpdated \<and> \<not> oldServerFallback then updatedArray else createdArray)"

text \<open>The values of the counting object. Reading a name that every object inherits gives a function or an object, whose
  sum with a number is a text; the texts are \<open>native\<close>. Assigning a text to \<open>__proto__\<close> does nothing.\<close>

datatype count_value = CountNum int | CountText string

definition read_count :: "(string \<Rightarrow> string) \<Rightarrow> (string, count_value) jsmap \<Rightarrow> string \<Rightarrow> count_value" where
  "read_count native obj tag = (case js_get obj tag of
     None \<Rightarrow> CountNum 0
   | Some (OwnProp v) \<Rightarrow> v
   | Some (InheritedProp p) \<Rightarrow> CountText (native p))"

definition plus_count :: "count_value \<Rightarrow> int \<Rightarrow> count_value" where
  "plus_count v n = (case v of CountNum a \<Rightarrow> CountNum (a + n) | CountText s \<Rightarrow> CountText (s @ show_int n))"

definition add_tag :: "(string \<Rightarrow> string) \<Rightarrow> string \<times> int \<Rightarrow> (string, count_value) jsmap \<Rightarrow> (string, count_value) jsmap" where
  "add_tag native = (\<lambda>(tag, n) obj.
     if tag = ''__proto__'' then obj else map_set tag (plus_count (read_count native obj tag) n) obj)"

text \<open>The loop over all users' statistics; \<open>||\<close> in \<open>useTagCounts\<close> and \<open>??\<close> in \<open>useFilteredMemoStats\<close> agree, since a count is
  never an empty text, and 0 is the default.\<close>

definition aggregate_tags :: "(string \<Rightarrow> string) \<Rightarrow> UserStats list \<Rightarrow> (string, count_value) jsmap" where
  "aggregate_tags native stats = fold (add_tag native) (concat (map us_tagCount stats)) []"

text \<open>lodash's \<open>countBy\<close>, which looks at own properties only.\<close>

definition countBy :: "string list \<Rightarrow> (string, nat) jsmap" where
  "countBy ks = fold (\<lambda>k m. map_set k (case map_get m k of None \<Rightarrow> 1 | Some n \<Rightarrow> Suc n) m) ks []"

definition display_dates :: "wkt \<Rightarrow> (date \<Rightarrow> string) \<Rightarrow> MemoTimeBasis \<Rightarrow> UserStats \<Rightarrow> string list" where
  "display_dates w toDateString basis stats = map (toDateString \<circ> timestampDate w) (timestampsForBasis stats basis)"

datatype MemoExplorerContext = HomeContext | ExploreContext | ArchivedContext | ProfileContext

record memo_stats =
  activityStats :: "(string, nat) jsmap"
  tag_counts :: "(string, count_value) jsmap"

definition useFilteredMemoStats :: "wkt \<Rightarrow> (date \<Rightarrow> string) \<Rightarrow> (string \<Rightarrow> string) \<Rightarrow> MemoExplorerContext option \<Rightarrow> string option \<Rightarrow>
    MemoTimeBasis \<Rightarrow> UserStats option \<Rightarrow> UserStats list \<Rightarrow> memo_stats" where
  "useFilteredMemoStats w toDateString native context userName basis userStats allUserStats =
     (if context = Some ExploreContext \<or> context = Some ArchivedContext then
        \<lparr>activityStats = countBy (concat (map (display_dates w toDateString basis) allUserStats)),
         tag_counts = aggregate_tags native allUserStats\<rparr>
      else case (truthy userName, userStats) of
        (True, Some stats) \<Rightarrow>
          \<lparr>activityStats = (if timestampsForBasis stats basis \<noteq> [] then countBy (display_dates w toDateString basis stats) else []),
           tag_counts = map (\<lambda>(t, n). (t, CountNum n)) (us_tagCount stats)\<rparr>
      | _ \<Rightarrow> \<lparr>activityStats = [], tag_counts = []\<rparr>)"

section \<open>Users by name\<close>

definition BATCH_GET_USERS_LIMIT :: nat where "BATCH_GET_USERS_LIMIT = 100"

text \<open>The loop that cuts the names into batches.\<close>

function user_batches :: "string list \<Rightarrow> nat \<Rightarrow> string list list" where
  "user_batches names i = (if i < length names then slice i (i + BATCH_GET_USERS_LIMIT) names # user_batches names (i + BATCH_GET_USERS_LIMIT) else [])"
  by pat_completeness auto
termination
  by (relation "measure (\<lambda>(names, i). length names - i)") (auto simp: BATCH_GET_USERS_LIMIT_def)

text \<open>\<open>Array.from(new Set(names))\<close>.\<close>

definition unique_names :: "string list \<Rightarrow> string list" where
  "unique_names names = uniq_by id [] names"

definition promise_all_list :: "('e + 'a) list \<Rightarrow> 'e + 'a list" where
  "promise_all_list rs = (case find isl rs of Some (Inl e) \<Rightarrow> Inl e | _ \<Rightarrow> Inr (map projr rs))"

definition useUsersByUsernames :: "(string list \<Rightarrow> js_error + User list) \<Rightarrow> string list \<Rightarrow> js_error + (string, User option) jsmap" where
  "useUsersByUsernames batchGetUsers usernames =
     (let uniqueUsernames = unique_names usernames
      in case promise_all_list (map batchGetUsers (user_batches uniqueUsernames 0)) of
           Inl e \<Rightarrow> Inl e
         | Inr responses \<Rightarrow>
             let usersByUsername = fold (\<lambda>u m. map_set (user_username u) u m) (concat responses) []
             in Inr (fold (\<lambda>n m. map_set n (map_get usersByUsername n) m) uniqueUsernames []))"

definition useUsersByNames :: "(string \<Rightarrow> js_error + User) \<Rightarrow> string list \<Rightarrow> (string, User option) jsmap" where
  "useUsersByNames getUser names =
     fold (\<lambda>n m. map_set n (case getUser n of Inr u \<Rightarrow> Some u | Inl _ \<Rightarrow> None) m) (unique_names names) []"

section \<open>Sorting\<close>

text \<open>What a comparator has to be for the sort to mean anything.\<close>

locale js_comparator =
  fixes cmp :: "'a \<Rightarrow> 'a \<Rightarrow> int"
  assumes cmp_total: "cmp a b \<le> 0 \<or> cmp b a \<le> 0"
    and cmp_trans: "cmp a b \<le> 0 \<Longrightarrow> cmp b c \<le> 0 \<Longrightarrow> cmp a c \<le> 0"
begin

lemma mset_js_sort: "mset (js_sort cmp xs) = mset xs"
proof -
  have "mset (js_insert cmp x ys) = add_mset x (mset ys)" for x ys by (induction ys) auto
  then show ?thesis by (induction xs) (auto simp: js_sort_def)
qed

lemma sorted_js_sort: "sorted_wrt (\<lambda>a b. cmp a b \<le> 0) (js_sort cmp xs)"
proof -
  have s: "set (js_insert cmp x ys) = insert x (set ys)" for x ys by (induction ys) auto
  have "sorted_wrt (\<lambda>a b. cmp a b \<le> 0) ys \<Longrightarrow> sorted_wrt (\<lambda>a b. cmp a b \<le> 0) (js_insert cmp x ys)" for x ys
  proof (induction ys)
    case (Cons y ys)
    then show ?case using cmp_total[of x y] by (auto simp: s intro: cmp_trans)
  qed simp
  then show ?thesis by (induction xs) (auto simp: js_sort_def)
qed

lemma stable_js_sort:
  "filter (\<lambda>x. cmp x z \<le> 0 \<and> cmp z x \<le> 0) (js_sort cmp xs) = filter (\<lambda>x. cmp x z \<le> 0 \<and> cmp z x \<le> 0) xs"
proof -
  let ?P = "\<lambda>x. cmp x z \<le> 0 \<and> cmp z x \<le> 0"
  have "filter ?P (js_insert cmp x ys) = (if ?P x then x # filter ?P ys else filter ?P ys)" for x ys
    by (induction ys) (auto intro: cmp_trans)
  then show ?thesis by (induction xs) (auto simp: js_sort_def)
qed

end

definition memo_unix :: "wkt \<Rightarrow> date \<Rightarrow> MemoTimeBasis \<Rightarrow> Memo \<Rightarrow> int" where
  "memo_unix w now basis m = dayjs_unix now (getMemoSortTime w m basis)"

lemma compare_memos_le:
  "compare_memos w now pf asc basis a b \<le> 0 \<longleftrightarrow>
     (if pf \<and> memo_pinned a \<noteq> memo_pinned b then memo_pinned a
      else if asc then memo_unix w now basis a \<le> memo_unix w now basis b else memo_unix w now basis b \<le> memo_unix w now basis a)"
  by (auto simp: compare_memos_def Let_def memo_unix_def)

interpretation mo: js_comparator "compare_memos w now pf asc basis"
  by unfold_locales (auto simp: compare_memos_le split: if_splits)

text \<open>The order of a memo list: the list has exactly the memos of the wanted state, each as often as before; of two of them
  the pinned one comes first where that is asked for, and otherwise the earlier one (the later one for descending
  order) by the chosen time, to the second; memos that count as equal keep the order of the server.\<close>

theorem memo_list_order:
  "mset (listSort w now pf st asc basis ms) = mset (filter (\<lambda>m. memo_state m = st) ms)
   \<and> sorted_wrt (\<lambda>a b. if pf \<and> memo_pinned a \<noteq> memo_pinned b then memo_pinned a
        else if asc then memo_unix w now basis a \<le> memo_unix w now basis b else memo_unix w now basis b \<le> memo_unix w now basis a)
      (listSort w now pf st asc basis ms)
   \<and> (\<forall>p t. filter (\<lambda>m. (if pf then memo_pinned m = p else True) \<and> memo_unix w now basis m = t) (listSort w now pf st asc basis ms) =
        filter (\<lambda>m. (if pf then memo_pinned m = p else True) \<and> memo_unix w now basis m = t \<and> memo_state m = st) ms)"
proof -
  let ?c = "compare_memos w now pf asc basis" and ?ms = "filter (\<lambda>m. memo_state m = st) ms"
  have "filter (\<lambda>m. (if pf then memo_pinned m = p else True) \<and> memo_unix w now basis m = t) (js_sort ?c ?ms) =
      filter (\<lambda>m. (if pf then memo_pinned m = p else True) \<and> memo_unix w now basis m = t) ?ms" (is "filter ?P _ = _") for p t
  proof (cases "\<exists>z \<in> set ?ms. ?P z")
    case True
    then obtain z where "?P z" by blast
    then have P: "?P = (\<lambda>x. ?c x z \<le> 0 \<and> ?c z x \<le> 0)" by (auto simp: compare_memos_le fun_eq_iff)
    show ?thesis unfolding P by (rule mo.stable_js_sort)
  next
    case False
    moreover have "set (js_sort ?c ?ms) = set ?ms" using mo.mset_js_sort mset_eq_setD by blast
    ultimately have "filter ?P (js_sort ?c ?ms) = []" "filter ?P ?ms = []" by (intro filter_False; blast)+
    then show ?thesis by (simp only:)
  qed
  then show ?thesis
    using mo.mset_js_sort[of w now pf asc basis ?ms] mo.sorted_js_sort[of w now pf asc basis ?ms]
    by (simp add: listSort_def compare_memos_le conj_ac)
qed

section \<open>Counts\<close>

definition tag_total :: "string \<Rightarrow> (string \<times> int) list \<Rightarrow> int" where
  "tag_total tag es = sum_list (map snd (filter (\<lambda>e. fst e = tag) es))"

lemma tag_total_absent: "tag \<notin> fst ` set es \<Longrightarrow> tag_total tag es = 0"
  by (induction es) (auto simp: tag_total_def)

lemma add_tag_get:
  "map_get (add_tag native (k, n) obj) tag =
     (if k = tag \<and> k \<noteq> ''__proto__'' then Some (plus_count (read_count native obj tag) n) else map_get obj tag)"
  by (auto simp: add_tag_def map_get_set)

lemma fold_add_tag:
  assumes "tag \<notin> set inherited_props" "map_get obj tag = map_option CountNum x"
  shows "map_get (fold (add_tag native) es obj) tag =
    (if tag \<in> fst ` set es then Some (CountNum ((case x of None \<Rightarrow> 0 | Some a \<Rightarrow> a) + tag_total tag es)) else map_option CountNum x)"
  using assms(2)
proof (induction es arbitrary: obj x)
  case (Cons e es)
  obtain k n where e: "e = (k, n)" by (cases e)
  have pr: "tag \<noteq> ''__proto__''" using assms(1) by (auto simp: inherited_props_def)
  have rd: "read_count native obj tag = CountNum (case x of None \<Rightarrow> 0 | Some a \<Rightarrow> a)"
    using assms(1) Cons.prems by (cases x) (simp_all add: read_count_def js_get_def)
  show ?case
  proof (cases "k = tag")
    case True
    have "map_get (add_tag native e obj) tag = map_option CountNum (Some ((case x of None \<Rightarrow> 0 | Some a \<Rightarrow> a) + n))"
      using True pr rd by (simp add: e add_tag_get plus_count_def)
    from Cons.IH[OF this] show ?thesis using True tag_total_absent[of tag es] by (simp add: e) (simp add: tag_total_def)
  next
    case False
    then have "map_get (add_tag native e obj) tag = map_option CountNum x" using Cons.prems by (simp add: e add_tag_get)
    from Cons.IH[OF this] show ?thesis using False by (auto simp: e tag_total_def)
  qed
qed simp

text \<open>A tag's count over all users is the sum of the users' counts, unless the tag is a name that every object inherits, such
  as \<open>constructor\<close>: then the count is not a number, and for \<open>__proto__\<close> there is none.\<close>

lemma tag_counts_sum:
  assumes "tag \<notin> set inherited_props"
  shows "map_get (aggregate_tags native stats) tag =
    (if \<exists>s \<in> set stats. tag \<in> fst ` set (us_tagCount s) then Some (CountNum (tag_total tag (concat (map us_tagCount stats)))) else None)"
  using fold_add_tag[OF assms, of "[]" None native "concat (map us_tagCount stats)"] by (auto simp: aggregate_tags_def)

lemma fold_add_text:
  "tag \<noteq> ''__proto__'' \<Longrightarrow> tag \<in> set inherited_props \<Longrightarrow> (\<forall>n. map_get obj tag \<noteq> Some (CountNum n)) \<Longrightarrow>
   (\<forall>n. map_get (fold (add_tag native) es obj) tag \<noteq> Some (CountNum n))"
proof (induction es arbitrary: obj)
  case (Cons e es)
  obtain k n where e: "e = (k, n)" by (cases e)
  have "\<forall>m. map_get (add_tag native e obj) tag \<noteq> Some (CountNum m)"
    using Cons.prems by (auto simp: e add_tag_get plus_count_def read_count_def js_get_def split: option.splits count_value.splits)
  from Cons.IH[OF Cons.prems(1,2) this] show ?case by simp
qed simp

lemma inherited_tag_count: "tag \<in> set inherited_props \<Longrightarrow> map_get (aggregate_tags native stats) tag \<noteq> Some (CountNum n)"
proof (cases "tag = ''__proto__''")
  case True
  have "map_get (fold (add_tag native) es obj) ''__proto__'' = map_get obj ''__proto__''" for es obj
    by (induction es arbitrary: obj) (auto simp: add_tag_get)
  then show ?thesis using True by (simp add: aggregate_tags_def)
next
  case False
  assume "tag \<in> set inherited_props"
  from fold_add_text[OF False this, of "[]"] show ?thesis by (simp add: aggregate_tags_def)
qed

lemma countBy_get: "map_get (countBy ks) k = (if k \<in> set ks then Some (count_list ks k) else None)"
proof -
  have "map_get (fold (\<lambda>k m. map_set k (case map_get m k of None \<Rightarrow> 1 | Some n \<Rightarrow> Suc n) m) ks m) k =
      (if k \<in> set ks then Some ((case map_get m k of None \<Rightarrow> 0 | Some n \<Rightarrow> n) + count_list ks k) else map_get m k)" for m
    by (induction ks arbitrary: m) (auto simp: map_get_set count_list_0_iff split: option.splits)
  then show ?thesis by (simp add: countBy_def)
qed

section \<open>Batches\<close>

declare user_batches.simps [simp del]

lemma concat_batches: "concat (user_batches names i) = drop i names"
proof (induction names i rule: user_batches.induct)
  case (1 names i)
  have "take m (drop i names) @ drop (i + m) names = drop i names" for m
    by (metis append_take_drop_id drop_drop add.commute)
  then show ?case using 1 by (subst user_batches.simps) (auto simp: slice_def)
qed

lemma batch_size: "b \<in> set (user_batches names i) \<Longrightarrow> 0 < length b \<and> length b \<le> 100"
proof (induction names i rule: user_batches.induct)
  case (1 names i)
  then show ?case by (subst (asm) user_batches.simps) (auto simp: slice_def BATCH_GET_USERS_LIMIT_def split: if_splits)
qed

lemma fold_map_set_get:
  "map_get (fold (\<lambda>n m. map_set n (f n) m) ns m) k = (if k \<in> set ns then Some (f k) else map_get m k)"
  by (induction ns arbitrary: m) (auto simp: map_get_set)

lemma fold_by_username:
  "\<forall>v. map_get m n = Some v \<longrightarrow> user_username v = n \<Longrightarrow>
   map_get (fold (\<lambda>u m. map_set (user_username u) u m) us m) n = Some v \<Longrightarrow> user_username v = n"
proof (induction us arbitrary: m)
  case (Cons u us)
  have "\<forall>v. map_get (map_set (user_username u) u m) n = Some v \<longrightarrow> user_username v = n"
    using Cons.prems(1) by (simp add: map_get_set)
  from Cons.IH[OF this] Cons.prems(2) show ?case by simp
qed simp

text \<open>The users of any number of names: each name is asked for once, in batches of at most a hundred, and the result has for
  every name the user the server gave under that username, or none.\<close>

lemma users_by_usernames:
  assumes "useUsersByUsernames server usernames = Inr m" "n \<in> set usernames"
  shows "concat (user_batches (unique_names usernames) 0) = unique_names usernames"
    "distinct (unique_names usernames)" "set (unique_names usernames) = set usernames"
    "\<exists>u. map_get m n = Some u \<and> (\<forall>v. u = Some v \<longrightarrow> user_username v = n)"
proof -
  show "concat (user_batches (unique_names usernames) 0) = unique_names usernames" by (simp add: concat_batches)
  show "distinct (unique_names usernames)" using uniq_by_props(1)[of id "[]" usernames] by (simp add: unique_names_def)
  show u: "set (unique_names usernames) = set usernames" using uniq_by_props(3)[of id "[]" usernames] by (simp add: unique_names_def)
  obtain rs where "m = fold (\<lambda>n m. map_set n (map_get (fold (\<lambda>u m. map_set (user_username u) u m) (concat rs) []) n) m) (unique_names usernames) []"
    using assms(1) by (auto simp: useUsersByUsernames_def Let_def split: sum.splits)
  then show "\<exists>u. map_get m n = Some u \<and> (\<forall>v. u = Some v \<longrightarrow> user_username v = n)"
    using u assms(2) fold_by_username[of "[]" n] by (auto simp: fold_map_set_get)
qed

end
