(* ===== verification/MemoActions.thy ===== *)
theory MemoActions
  imports MemoCache Markdown AuthState Media Stats
begin

text \<open>
  What a user does with a memo in view: the actions of its menu (\<open>components/MemoActionMenu/hooks.ts\<close>,
  \<open>components/MemoView/hooks/\<close>), its reactions (\<open>components/MemoReactionListView/hooks.ts\<close>) and its share links
  (\<open>hooks/useMemoShareQueries.ts\<close>, \<open>components/MemoDetailSidebar/MemoSharePanel.tsx\<close>,
  \<open>pages/MemoDetail.tsx\<close>). They run the mutations of \<open>MemoCache\<close> and the text operations of \<open>Markdown\<close>. A text
  shown to the user is the key of its translation.
\<close>

section \<open>The page around a memo\<close>

definition ROUTES_ARCHIVED :: string where "ROUTES_ARCHIVED = ''/archived''"

datatype toast = ToastSuccess string | ToastError string

text \<open>\<open>mp_path\<close> is the path of the page.\<close>

record 'c memo_page =
  mp_cache :: 'c
  mp_path :: string
  mp_toasts :: "toast list"
  mp_nav :: "string list"
  mp_clipboard :: "string option"
  mp_deleteDialog :: bool

text \<open>\<open>error.message\<close> of an \<open>Error\<close> is the parameter \<open>message\<close>, since that of a \<open>ConnectError\<close> is composed by the RPC library. A thrown value
  that is not an \<open>Error\<close> is a text.\<close>

definition getErrorMessage :: "(js_error \<Rightarrow> string) \<Rightarrow> js_error \<Rightarrow> string" where
  "getErrorMessage message error = (case error of Thrown s \<Rightarrow> s | _ \<Rightarrow> message error)"

text \<open>The text that \<open>handleError\<close> shows; the log line is left out.\<close>

definition handleError :: "(js_error \<Rightarrow> string) \<Rightarrow> string option \<Rightarrow> js_error \<Rightarrow> toast" where
  "handleError message fallbackMessage error =
     ToastError (case fallbackMessage of Some m \<Rightarrow> m | None \<Rightarrow> getErrorMessage message error)"

definition page_toast :: "toast \<Rightarrow> 'c memo_page \<Rightarrow> 'c memo_page" where
  "page_toast x p = p\<lparr>mp_toasts := mp_toasts p @ [x]\<rparr>"

definition page_error :: "js_error \<Rightarrow> 'c memo_page \<Rightarrow> 'c memo_page" where
  "page_error e = page_toast (handleError (\<lambda>_. []) (Some ''ui.generic-error'') e)"

definition page_success :: "string \<Rightarrow> 'c memo_page \<Rightarrow> 'c memo_page" where
  "page_success m = page_toast (ToastSuccess m)"

definition page_navigate :: "string \<Rightarrow> 'c memo_page \<Rightarrow> 'c memo_page" where
  "page_navigate r p = p\<lparr>mp_nav := mp_nav p @ [r]\<rparr>"

section \<open>Menu actions\<close>

type_synonym update_rpc = "MemoPatch \<Rightarrow> string list \<Rightarrow> js_error + Memo"

text \<open>\<open>updateMemo\<close> of \<open>useUpdateMemo\<close>, run from the page.\<close>

definition page_update :: "'c query_client \<Rightarrow> update_rpc \<Rightarrow> MemoPatch \<Rightarrow> string list \<Rightarrow> 'c memo_page \<Rightarrow> (js_error + Memo) \<times> 'c memo_page" where
  "page_update qc server update msk p =
     (case updateMemo_mutation qc server update msk (mp_cache p) of (r, c) \<Rightarrow> (r, p\<lparr>mp_cache := c\<rparr>))"

definition isInMemoDetailPage :: "Memo \<Rightarrow> 'c memo_page \<Rightarrow> bool" where
  "isInMemoDetailPage memo p = starts_with (mp_path p) (''/'' @ memo_name memo)"

definition memoUpdatedCallback :: "'c query_client \<Rightarrow> 'c memo_page \<Rightarrow> 'c memo_page" where
  "memoUpdatedCallback qc p = p\<lparr>mp_cache := invalidateQueries qc userKeys_stats (mp_cache p)\<rparr>"

definition updateMemoContent :: "'c query_client \<Rightarrow> update_rpc \<Rightarrow> Memo \<Rightarrow> string \<Rightarrow> 'c memo_page \<Rightarrow> 'c memo_page" where
  "updateMemoContent qc server memo nextContent p =
     (if nextContent = memo_content memo then p
      else case page_update qc server (empty_patch\<lparr>p_name := Some (memo_name memo), p_content := Some nextContent\<rparr>)
             [''content'', ''update_time''] p of
        (Inl e, p1) \<Rightarrow> page_error e p1
      | (Inr _, p1) \<Rightarrow> page_success ''memo.task-actions.updated'' p1)"

definition handleTogglePinMemoBtnClick :: "'c query_client \<Rightarrow> update_rpc \<Rightarrow> Memo \<Rightarrow> 'c memo_page \<Rightarrow> 'c memo_page" where
  "handleTogglePinMemoBtnClick qc server memo p =
     snd (page_update qc server (empty_patch\<lparr>p_name := Some (memo_name memo), p_pinned := Some (\<not> memo_pinned memo)\<rparr>) [''pinned''] p)"

definition handleToggleMemoStatusClick :: "'c query_client \<Rightarrow> update_rpc \<Rightarrow> Memo \<Rightarrow> 'c memo_page \<Rightarrow> 'c memo_page" where
  "handleToggleMemoStatusClick qc server memo p =
     (let state = (if memo_state memo = ARCHIVED then NORMAL else ARCHIVED);
          message = (if memo_state memo = ARCHIVED then ''message.restored-successfully'' else ''message.archived-successfully'')
      in case page_update qc server (empty_patch\<lparr>p_name := Some (memo_name memo), p_state := Some state\<rparr>) [''state''] p of
           (Inl e, p1) \<Rightarrow> page_error e p1
         | (Inr _, p1) \<Rightarrow>
             let p2 = page_success message p1;
                 p3 = (if isInMemoDetailPage memo p
                       then page_navigate (if memo_state memo = ARCHIVED then ROUTES_HOME else ROUTES_ARCHIVED) p2 else p2)
             in memoUpdatedCallback qc p3)"

text \<open>\<open>origin\<close> is \<open>window.location.origin\<close>.\<close>

definition handleCopyLink :: "string \<Rightarrow> string \<Rightarrow> Memo \<Rightarrow> 'c memo_page \<Rightarrow> 'c memo_page" where
  "handleCopyLink instanceUrl origin memo p =
     (let host = (if instanceUrl = [] then origin else instanceUrl)
      in page_success ''message.succeed-copy-link'' (p\<lparr>mp_clipboard := Some (host @ ''/'' @ memo_name memo)\<rparr>))"

definition handleCopyContent :: "Memo \<Rightarrow> 'c memo_page \<Rightarrow> 'c memo_page" where
  "handleCopyContent memo p = page_success ''message.succeed-copy-content'' (p\<lparr>mp_clipboard := Some (memo_content memo)\<rparr>)"

definition handleCheckAllTaskListItemsClick :: "(string \<Rightarrow> mdast option) \<Rightarrow> 'c query_client \<Rightarrow> update_rpc \<Rightarrow> Memo \<Rightarrow> 'c memo_page \<Rightarrow> 'c memo_page" where
  "handleCheckAllTaskListItemsClick parse qc server memo = updateMemoContent qc server memo (checkAllTasks parse (memo_content memo))"

definition handleUncheckAllTaskListItemsClick :: "(string \<Rightarrow> mdast option) \<Rightarrow> 'c query_client \<Rightarrow> update_rpc \<Rightarrow> Memo \<Rightarrow> 'c memo_page \<Rightarrow> 'c memo_page" where
  "handleUncheckAllTaskListItemsClick parse qc server memo = updateMemoContent qc server memo (uncheckAllTasks parse (memo_content memo))"

definition handleDeleteMemoClick :: "'c memo_page \<Rightarrow> 'c memo_page" where
  "handleDeleteMemoClick p = p\<lparr>mp_deleteDialog := True\<rparr>"

definition confirmDeleteMemo :: "'c query_client \<Rightarrow> (string \<Rightarrow> js_error + unit) \<Rightarrow> Memo \<Rightarrow> 'c memo_page \<Rightarrow> 'c memo_page" where
  "confirmDeleteMemo qc server memo p =
     (case deleteMemo_mutation qc server (memo_name memo) (mp_cache p) of
        (Inl e, c) \<Rightarrow> page_error e (p\<lparr>mp_cache := c\<rparr>)
      | (Inr _, c) \<Rightarrow>
          let p1 = page_success ''message.deleted-successfully'' (p\<lparr>mp_cache := c\<rparr>);
              p2 = (if truthy (memo_parent memo)
                    then p1\<lparr>mp_cache := invalidateQueries qc (memoKeys_comments (the (memo_parent memo))) (mp_cache p1)\<rparr> else p1);
              p3 = (if isInMemoDetailPage memo p then page_navigate ROUTES_HOME p2 else p2)
          in memoUpdatedCallback qc p3)"

text \<open>\<open>unpinMemo\<close> of \<open>useMemoActions\<close>; a rejection is passed on.\<close>

definition unpinMemo :: "'c query_client \<Rightarrow> update_rpc \<Rightarrow> Memo \<Rightarrow> 'c memo_page \<Rightarrow> (js_error + unit) \<times> 'c memo_page" where
  "unpinMemo qc server memo p =
     (if \<not> memo_pinned memo then (Inr (), p)
      else case page_update qc server (empty_patch\<lparr>p_name := Some (memo_name memo), p_pinned := Some False\<rparr>) [''pinned''] p of
        (Inl e, p1) \<Rightarrow> (Inl e, p1) | (Inr _, p1) \<Rightarrow> (Inr (), p1))"

section \<open>Previews\<close>

record ImagePreviewState =
  ip_open :: bool
  ip_items :: "PreviewMediaItem list"
  ip_index :: int

datatype preview_input = OneUrl string | Urls "string list" | PreviewItems "PreviewMediaItem list"

definition url_preview :: "string \<Rightarrow> PreviewMediaItem" where
  "url_preview url = ImagePreview url ''Image'' url (Some url)"

definition normalizePreviewItems :: "preview_input \<Rightarrow> PreviewMediaItem list" where
  "normalizePreviewItems input = (case input of
     OneUrl u \<Rightarrow> [url_preview u] | Urls us \<Rightarrow> map url_preview us | PreviewItems xs \<Rightarrow> xs)"

definition openPreview :: "preview_input \<Rightarrow> int option \<Rightarrow> ImagePreviewState \<Rightarrow> ImagePreviewState" where
  "openPreview input index s = \<lparr>ip_open = True, ip_items = normalizePreviewItems input, ip_index = or_default 0 index\<rparr>"

definition setPreviewOpen :: "bool \<Rightarrow> ImagePreviewState \<Rightarrow> ImagePreviewState" where
  "setPreviewOpen b s = s\<lparr>ip_open := b\<rparr>"

text \<open>The target of a click: its tag, whether it is inside a link, and its \<open>src\<close>.\<close>

record click_target =
  ct_tagName :: string
  ct_inLink :: bool
  ct_src :: "string option"

definition handleMemoContentClick :: "click_target \<Rightarrow> ImagePreviewState \<Rightarrow> ImagePreviewState" where
  "handleMemoContentClick e s =
     (if ct_tagName e = ''IMG'' \<and> \<not> ct_inLink e \<and> truthy (ct_src e) then openPreview (OneUrl (the (ct_src e))) None s else s)"

text \<open>Whether a double click opens the editor.\<close>

definition handleMemoContentDoubleClick :: "bool \<Rightarrow> bool \<Rightarrow> bool" where
  "handleMemoContentDoubleClick readonly enableDoubleClickEdit = (\<not> readonly \<and> enableDoubleClickEdit)"

section \<open>Reactions\<close>

definition useReactionGroups :: "(string \<Rightarrow> js_error + User) \<Rightarrow> Reaction list \<Rightarrow> (string, User list) jsmap" where
  "useReactionGroups getUser reactions =
     (let userMap = useUsersByNames getUser (map reaction_creator reactions)
      in fold (\<lambda>r g. case map_get userMap (reaction_creator r) of
            Some (Some user) \<Rightarrow>
              map_set (reaction_type r) ((case map_get g (reaction_type r) of Some us \<Rightarrow> us | None \<Rightarrow> []) @ [user]) g
          | _ \<Rightarrow> g) reactions [])"

definition hasReacted :: "User option \<Rightarrow> Memo \<Rightarrow> string \<Rightarrow> bool" where
  "hasReacted currentUser memo reactionType =
     (\<exists>r \<in> set (memo_reactions memo). reaction_type r = reactionType \<and> Some (reaction_creator r) = map_option user_name currentUser)"

text \<open>The server: reactions are added and removed, and the memo is read, in a state of any type.\<close>

record 's reaction_api =
  deleteMemoReaction :: "string \<Rightarrow> 's \<Rightarrow> (js_error + unit) \<times> 's"
  upsertMemoReaction :: "string \<Rightarrow> string \<Rightarrow> 's \<Rightarrow> (js_error + unit) \<times> 's"
  getMemo_rpc :: "string \<Rightarrow> 's \<Rightarrow> js_error + Memo"

text \<open>\<open>Promise.all\<close> of requests: all of them are sent, and the first rejection is the result.\<close>

fun send_all :: "('a \<Rightarrow> 's \<Rightarrow> (js_error + unit) \<times> 's) \<Rightarrow> 'a list \<Rightarrow> 's \<Rightarrow> (js_error + unit) \<times> 's" where
  "send_all f [] s = (Inr (), s)"
| "send_all f (x # xs) s = (case f x s of (r, s1) \<Rightarrow>
     (case send_all f xs s1 of (r', s2) \<Rightarrow> (case r of Inl e \<Rightarrow> (Inl e, s2) | Inr _ \<Rightarrow> (r', s2))))"

definition handleReactionClick :: "'c query_client \<Rightarrow> 's reaction_api \<Rightarrow> User option \<Rightarrow> Memo \<Rightarrow> string \<Rightarrow> 's \<times> 'c \<Rightarrow> 's \<times> 'c" where
  "handleReactionClick qc api currentUser memo reactionType = (\<lambda>(s, c).
     case currentUser of
       None \<Rightarrow> (s, c)
     | Some u \<Rightarrow>
         (case (if hasReacted currentUser memo reactionType
                then send_all (deleteMemoReaction api)
                       (map reaction_name (filter (\<lambda>r. reaction_type r = reactionType \<and> reaction_creator r = user_name u) (memo_reactions memo))) s
                else upsertMemoReaction api (memo_name memo) reactionType s) of
            (Inl e, s1) \<Rightarrow> (s1, c)
          | (Inr _, s1) \<Rightarrow>
              (case getMemo_rpc api (memo_name memo) s1 of
                 Inl e \<Rightarrow> (s1, c)
               | Inr updatedMemo \<Rightarrow>
                   let c1 = setQueryData qc (memoKeys_detail (memo_name memo)) (MemoData updatedMemo) c;
                       c2 = invalidateQueries qc memoKeys_lists c1
                   in (s1, if truthy (memo_parent memo) then invalidateQueries qc (memoKeys_comments (the (memo_parent memo))) c2 else c2))))"

definition formatReactionTooltip :: "User list \<Rightarrow> string \<Rightarrow> string" where
  "formatReactionTooltip users reactionType =
     (let formatUserName = (\<lambda>u. if user_displayName u \<noteq> [] then user_displayName u else user_username u)
      in if users = [] then []
         else if length users < 5 then join '', '' (map formatUserName users) @ '' reacted with '' @ to_lower reactionType
         else join '', '' (map formatUserName (take 4 users)) @ '' and '' @ show_nat (length users - 4) @ '' more reacted with '' @ to_lower reactionType)"

section \<open>Share links\<close>

record MemoShare =
  sh_name :: string
  sh_createTime :: "Timestamp option"
  sh_expireTime :: "Timestamp option"

definition memoShareKeys_all :: query_key where "memoShareKeys_all = [KStr ''memo-shares'']"

definition memoShareKeys_list :: "string \<Rightarrow> query_key" where
  "memoShareKeys_list memoName = memoShareKeys_all @ [KStr ''list'', KStr memoName]"

definition memoShareKeys_byShare :: "string \<Rightarrow> query_key" where
  "memoShareKeys_byShare shareId = memoShareKeys_all @ [KStr ''by-share'', KStr shareId]"

text \<open>The mutations, for an answer of the server to the request.\<close>

definition createMemoShare_mutation :: "wkt \<Rightarrow> 'c query_client \<Rightarrow> (string \<Rightarrow> MemoShare \<Rightarrow> js_error + MemoShare) \<Rightarrow> string \<Rightarrow> date option \<Rightarrow> 'c \<Rightarrow>
    (js_error + MemoShare) \<times> 'c" where
  "createMemoShare_mutation k qc server memoName expireTime c =
     (case server memoName \<lparr>sh_name = [], sh_createTime = None, sh_expireTime = map_option (timestampFromDate k) expireTime\<rparr> of
        Inl e \<Rightarrow> (Inl e, c) | Inr r \<Rightarrow> (Inr r, invalidateQueries qc (memoShareKeys_list memoName) c))"

definition deleteMemoShare_mutation :: "'c query_client \<Rightarrow> (string \<Rightarrow> js_error + unit) \<Rightarrow> string \<Rightarrow> string \<Rightarrow> 'c \<Rightarrow> (js_error + string) \<times> 'c" where
  "deleteMemoShare_mutation qc server name memoName c =
     (case server name of Inl e \<Rightarrow> (Inl e, c) | Inr _ \<Rightarrow> (Inr memoName, invalidateQueries qc (memoShareKeys_list memoName) c))"

definition getShareToken :: "MemoShare \<Rightarrow> string" where
  "getShareToken share = last (split_on (CHR ''/'') (sh_name share))"

definition getShareUrl :: "string \<Rightarrow> MemoShare \<Rightarrow> string" where
  "getShareUrl origin share = origin @ ''/memos/shares/'' @ last (split_on (CHR ''/'') (sh_name share))"

definition withShareAttachmentLinks :: "string \<Rightarrow> Attachment list \<Rightarrow> string \<Rightarrow> Attachment list" where
  "withShareAttachmentLinks origin atts token =
     map (\<lambda>a. if att_externalLink a \<noteq> [] then a
              else a\<lparr>att_externalLink := origin @ ''/file/'' @ att_name a @ ''/'' @ att_filename a @ ''?share_token='' @ encode_uri_component token\<rparr>)
       atts"

section \<open>The share panel\<close>

datatype ExpiryOption = never | d1 | d7 | d30

text \<open>\<open>add_days\<close> is \<open>setDate(getDate() + n)\<close>, which counts days in local time.\<close>

definition getExpireDate :: "(nat \<Rightarrow> date \<Rightarrow> date) \<Rightarrow> date \<Rightarrow> ExpiryOption \<Rightarrow> date option" where
  "getExpireDate add_days now opt = (case opt of
     never \<Rightarrow> None | d1 \<Rightarrow> Some (add_days 1 now) | d7 \<Rightarrow> Some (add_days 7 now) | d30 \<Rightarrow> Some (add_days 30 now))"

text \<open>The text of an error, or the fallback when it has none.\<close>

definition message_or :: "(js_error \<Rightarrow> string) \<Rightarrow> string \<Rightarrow> js_error \<Rightarrow> toast" where
  "message_or message fallback e = ToastError (if message e = [] then fallback else message e)"

definition handleRevoke :: "(js_error \<Rightarrow> string) \<Rightarrow> 'c query_client \<Rightarrow> (string \<Rightarrow> js_error + unit) \<Rightarrow> MemoShare \<Rightarrow> string \<Rightarrow> 'c memo_page \<Rightarrow> 'c memo_page" where
  "handleRevoke message qc server share memoName p =
     (case deleteMemoShare_mutation qc server (sh_name share) memoName (mp_cache p) of
        (Inl e, c) \<Rightarrow> page_toast (message_or message ''memo.share.revoke-failed'' e) (p\<lparr>mp_cache := c\<rparr>)
      | (Inr _, c) \<Rightarrow> page_success ''memo.share.revoked'' (p\<lparr>mp_cache := c\<rparr>))"

definition handleCreateShare :: "(js_error \<Rightarrow> string) \<Rightarrow> wkt \<Rightarrow> (nat \<Rightarrow> date \<Rightarrow> date) \<Rightarrow> 'c query_client \<Rightarrow> (string \<Rightarrow> MemoShare \<Rightarrow> js_error + MemoShare) \<Rightarrow>
    date \<Rightarrow> ExpiryOption \<Rightarrow> string \<Rightarrow> 'c memo_page \<Rightarrow> 'c memo_page" where
  "handleCreateShare message k add_days qc server now expiry memoName p =
     (case createMemoShare_mutation k qc server memoName (getExpireDate add_days now expiry) (mp_cache p) of
        (Inl e, c) \<Rightarrow> page_toast (message_or message ''memo.share.create-failed'' e) (p\<lparr>mp_cache := c\<rparr>)
      | (Inr _, c) \<Rightarrow> p\<lparr>mp_cache := c\<rparr>)"

section \<open>The page of one memo\<close>

text \<open>What the page sees of a query.\<close>

record 'a query_view =
  qv_data :: "'a option"
  qv_error :: "js_error option"
  qv_isLoading :: bool

datatype detail_view = NavigateNotFound | EmptyPage | ShowMemo Memo

text \<open>\<open>MemoDetail\<close>: \<open>token\<close> is the token in the route, \<open>share\<close> and \<open>direct\<close> the two queries, of which only one is enabled.\<close>

definition MemoDetail :: "string \<Rightarrow> string option \<Rightarrow> Memo query_view \<Rightarrow> Memo query_view \<Rightarrow> detail_view" where
  "MemoDetail origin token share direct =
     (let isShareMode = truthy token; q = (if isShareMode then share else direct);
          isNotFound = (case qv_error q of Some (ConnectError c _ _) \<Rightarrow> c = NotFound \<or> c = Unauthenticated | _ \<Rightarrow> False)
      in if isShareMode \<and> (isNotFound \<or> (\<not> qv_isLoading q \<and> qv_data q = None)) then NavigateNotFound
         else if qv_isLoading q then EmptyPage
         else case qv_data q of
           None \<Rightarrow> EmptyPage
         | Some memo \<Rightarrow> ShowMemo (if isShareMode
             then memo\<lparr>memo_attachments := withShareAttachmentLinks origin (memo_attachments memo) (the token)\<rparr> else memo))"

text \<open>\<open>useMemoDetailError\<close>: leave the page, or show the error.\<close>

definition useMemoDetailError :: "(js_error \<Rightarrow> string) \<Rightarrow> js_error option \<Rightarrow> 'c memo_page \<Rightarrow> 'c memo_page" where
  "useMemoDetailError message error p = (case error of
     None \<Rightarrow> p
   | Some e \<Rightarrow> if is_ConnectError e \<and> conn_code e \<in> {Unauthenticated, PermissionDenied, NotFound} then page_navigate ''/404'' p
               else page_toast (ToastError (message e)) p)"

section \<open>Rejected actions\<close>

lemma adds_nothing_required:
  "adds_nothing (empty_patch\<lparr>p_name := a, p_content := b\<rparr>) m" "adds_nothing (empty_patch\<lparr>p_name := a, p_pinned := c\<rparr>) m"
  "adds_nothing (empty_patch\<lparr>p_name := a, p_state := d\<rparr>) m"
  by (simp_all add: adds_nothing_def empty_patch_def)

definition cache_kept :: "'c query_client \<Rightarrow> Memo \<Rightarrow> 'c memo_page \<Rightarrow> 'c memo_page \<Rightarrow> bool" where
  "cache_kept qc memo p p' \<longleftrightarrow> mp_nav p' = mp_nav p \<and> (\<forall>j. getQueryData qc j (mp_cache p') = getQueryData qc j (mp_cache p) \<or>
     j = memoKeys_detail (memo_name memo) \<and> getQueryData qc j (mp_cache p') = Some (MemoData memo))"

context query_cache
begin

lemma rejected_update:
  assumes "memo_copies qc (memo_name memo) (mp_cache p) = {memo}" "memo_name memo \<noteq> []"
    and "p_name u = Some (memo_name memo)" "adds_nothing u memo" "server u msk = Inl e"
  shows "\<exists>p'. page_update qc server u msk p = (Inl e, p') \<and> mp_toasts p' = mp_toasts p \<and> cache_kept qc memo p p'"
  using rollback_known[OF assms(1) refl assms(3,2,4)] onMutate_known[OF assms(1,3,2)] assms(5)
  by (simp add: page_update_def updateMemo_mutation_def split_beta cache_kept_def)

end

lemma page_toast_frame [simp]:
  "mp_nav (page_toast x p) = mp_nav p" "mp_cache (page_toast x p) = mp_cache p" "mp_path (page_toast x p) = mp_path p"
  "mp_toasts (page_toast x p) = mp_toasts p @ [x]"
  by (simp_all add: page_toast_def)

text \<open>C11. A rejected action changes nothing. When the server rejects it, pinning, archiving or restoring, checking or unchecking all tasks, or deleting a memo of which the cache has one
  version leaves every cached query as it was (the detail query of the memo holds that version), the user stays on the page, and
  every action that fails tells so, except pinning.\<close>

theorem rejected_actions:
  assumes "client_laws qc" "memo_copies qc (memo_name memo) (mp_cache p) = {memo}" "memo_name memo \<noteq> []"
    and "\<And>u msk. \<exists>e. server u msk = Inl e" "del (memo_name memo) = Inl e"
  shows "cache_kept qc memo p (handleTogglePinMemoBtnClick qc server memo p) \<and>
    cache_kept qc memo p (handleToggleMemoStatusClick qc server memo p) \<and>
    mp_toasts (handleToggleMemoStatusClick qc server memo p) = mp_toasts p @ [ToastError ''ui.generic-error''] \<and>
    cache_kept qc memo p (handleCheckAllTaskListItemsClick parse qc server memo p) \<and>
    mp_toasts (handleCheckAllTaskListItemsClick parse qc server memo p) =
      mp_toasts p @ (if checkAllTasks parse (memo_content memo) = memo_content memo then [] else [ToastError ''ui.generic-error'']) \<and>
    cache_kept qc memo p (handleUncheckAllTaskListItemsClick parse qc server memo p) \<and>
    mp_toasts (handleUncheckAllTaskListItemsClick parse qc server memo p) =
      mp_toasts p @ (if uncheckAllTasks parse (memo_content memo) = memo_content memo then [] else [ToastError ''ui.generic-error'']) \<and>
    cache_kept qc memo p (confirmDeleteMemo qc del memo p) \<and>
    mp_toasts (confirmDeleteMemo qc del memo p) = mp_toasts p @ [ToastError ''ui.generic-error'']"
proof -
  have q: "query_cache qc" using assms(1) by (simp add: query_cache_def)
  have r: "\<exists>e p'. page_update qc server u msk p = (Inl e, p') \<and> mp_toasts p' = mp_toasts p \<and> cache_kept qc memo p p'"
    if "p_name u = Some (memo_name memo)" "adds_nothing u memo" for u msk
    using query_cache.rejected_update[OF q assms(2,3) that] assms(4)[of u msk] by blast
  have upd: "cache_kept qc memo p (updateMemoContent qc server memo x p) \<and>
      mp_toasts (updateMemoContent qc server memo x p) = mp_toasts p @ (if x = memo_content memo then [] else [ToastError ''ui.generic-error''])" for x
    using r[of "empty_patch\<lparr>p_name := Some (memo_name memo), p_content := Some x\<rparr>" "[''content'', ''update_time'']"]
    by (auto simp: updateMemoContent_def page_error_def handleError_def adds_nothing_required cache_kept_def)
  have "cache_kept qc memo p (handleTogglePinMemoBtnClick qc server memo p)"
    using r[of "empty_patch\<lparr>p_name := Some (memo_name memo), p_pinned := Some (\<not> memo_pinned memo)\<rparr>" "[''pinned'']"]
    by (auto simp: handleTogglePinMemoBtnClick_def adds_nothing_required)
  moreover have "cache_kept qc memo p (handleToggleMemoStatusClick qc server memo p) \<and>
      mp_toasts (handleToggleMemoStatusClick qc server memo p) = mp_toasts p @ [ToastError ''ui.generic-error'']"
    using r[of "empty_patch\<lparr>p_name := Some (memo_name memo), p_state := Some NORMAL\<rparr>" "[''state'']"]
      r[of "empty_patch\<lparr>p_name := Some (memo_name memo), p_state := Some ARCHIVED\<rparr>" "[''state'']"]
    by (auto simp: handleToggleMemoStatusClick_def page_error_def handleError_def adds_nothing_required cache_kept_def)
  ultimately show ?thesis using upd assms(5)
    by (simp add: handleCheckAllTaskListItemsClick_def handleUncheckAllTaskListItemsClick_def confirmDeleteMemo_def deleteMemo_mutation_def
        page_error_def handleError_def cache_kept_def)
qed

section \<open>Reactions\<close>

text \<open>A server that does what it is asked for: a deleted reaction is gone, a new one is at the end of the list and belongs to the user.\<close>

definition reaction_laws :: "'s reaction_api \<Rightarrow> string \<Rightarrow> string \<Rightarrow> bool" where
  "reaction_laws api user n \<longleftrightarrow> (\<forall>s m. getMemo_rpc api n s = Inr m \<longrightarrow>
     (\<forall>x. \<exists>s'. deleteMemoReaction api x s = (Inr (), s') \<and>
        getMemo_rpc api n s' = Inr (m\<lparr>memo_reactions := filter (\<lambda>r. reaction_name r \<noteq> x) (memo_reactions m)\<rparr>)) \<and>
     (\<forall>t. \<exists>s' r. upsertMemoReaction api n t s = (Inr (), s') \<and> reaction_creator r = user \<and> reaction_type r = t \<and>
        getMemo_rpc api n s' = Inr (m\<lparr>memo_reactions := memo_reactions m @ [r]\<rparr>)))"

lemma send_all_delete:
  assumes "reaction_laws api user n" "getMemo_rpc api n s = Inr m"
  shows "\<exists>s'. send_all (deleteMemoReaction api) xs s = (Inr (), s') \<and>
    getMemo_rpc api n s' = Inr (m\<lparr>memo_reactions := filter (\<lambda>r. reaction_name r \<notin> set xs) (memo_reactions m)\<rparr>)"
  using assms(2)
proof (induction xs arbitrary: s m)
  case (Cons x xs)
  let ?m = "m\<lparr>memo_reactions := filter (\<lambda>r. reaction_name r \<noteq> x) (memo_reactions m)\<rparr>"
  obtain s1 where s1: "deleteMemoReaction api x s = (Inr (), s1)" "getMemo_rpc api n s1 = Inr ?m"
    using assms(1) Cons.prems unfolding reaction_laws_def by blast
  show ?case using Cons.IH[OF s1(2)] s1(1) by (auto simp: conj_commute)
qed simp

definition mine :: "User \<Rightarrow> string \<Rightarrow> Reaction \<Rightarrow> bool" where
  "mine u t r \<longleftrightarrow> reaction_type r = t \<and> reaction_creator r = user_name u"

lemma hasReacted_mine: "hasReacted (Some u) m t \<longleftrightarrow> (\<exists>r \<in> set (memo_reactions m). mine u t r)"
  by (auto simp: hasReacted_def mine_def)

lemma others_of_distinct:
  assumes "distinct (map reaction_name rs)"
  shows "filter (\<lambda>r. reaction_name r \<notin> set (map reaction_name (filter P rs))) rs = filter (\<lambda>r. \<not> P r) rs"
proof (rule filter_cong)
  fix r assume "r \<in> set rs"
  then show "(reaction_name r \<notin> set (map reaction_name (filter P rs))) = (\<not> P r)"
    using assms by (auto simp: distinct_map inj_on_def)
qed simp

lemma reaction_request:
  assumes "reaction_laws api (user_name u) n" "getMemo_rpc api n s = Inr memo" "distinct (map reaction_name (memo_reactions memo))" "memo_name memo = n"
  shows "\<exists>s' m'. (if hasReacted (Some u) memo t
       then send_all (deleteMemoReaction api) (map reaction_name (filter (mine u t) (memo_reactions memo))) s
       else upsertMemoReaction api n t s) = (Inr (), s') \<and>
     getMemo_rpc api n s' = Inr m' \<and> hasReacted (Some u) m' t = (\<not> hasReacted (Some u) memo t) \<and>
     filter (\<lambda>r. \<not> mine u t r) (memo_reactions m') = filter (\<lambda>r. \<not> mine u t r) (memo_reactions memo)"
proof (cases "hasReacted (Some u) memo t")
  case True
  let ?xs = "map reaction_name (filter (mine u t) (memo_reactions memo))"
  obtain s' where s': "send_all (deleteMemoReaction api) ?xs s = (Inr (), s')"
    "getMemo_rpc api n s' = Inr (memo\<lparr>memo_reactions := filter (\<lambda>r. reaction_name r \<notin> set ?xs) (memo_reactions memo)\<rparr>)"
    using send_all_delete[OF assms(1,2), of ?xs] by blast
  note s'(2)[unfolded others_of_distinct[OF assms(3)]]
  then show ?thesis using True s'(1) by (simp add: hasReacted_mine)
next
  case False
  obtain s' r where "upsertMemoReaction api n t s = (Inr (), s')" "mine u t r"
    "getMemo_rpc api n s' = Inr (memo\<lparr>memo_reactions := memo_reactions memo @ [r]\<rparr>)"
    using assms(1,2) unfolding reaction_laws_def mine_def by blast
  then show ?thesis using False by (auto simp: hasReacted_mine)
qed

text \<open>What the click does to the cache once the server has answered.\<close>

definition click_cache :: "'c query_client \<Rightarrow> Memo \<Rightarrow> Memo \<Rightarrow> 'c \<Rightarrow> 'c" where
  "click_cache qc memo m' c =
     (let c2 = invalidateQueries qc memoKeys_lists (setQueryData qc (memoKeys_detail (memo_name memo)) (MemoData m') c)
      in if truthy (memo_parent memo) then invalidateQueries qc (memoKeys_comments (the (memo_parent memo))) c2 else c2)"

context query_cache
begin

lemma click_cache_props:
  "getQueryData qc (memoKeys_detail (memo_name memo)) (click_cache qc memo m' c) = Some (MemoData m')"
  "prefix memoKeys_lists j \<Longrightarrow> getQueryData qc j c \<noteq> None \<Longrightarrow> isInvalidated qc j (click_cache qc memo m' c)"
  by (simp_all add: click_cache_def Let_def get_set invalidated)

end

text \<open>A click on a reaction toggles it. With a server that carries out its requests, a click by a signed-in user on a reaction
  adds the user's reaction when there was none, and removes it (with all duplicates) when there was one; the reactions of others, and to
  other emoji, stay as they are, in their order. The cached detail is then what the server has, and all cached lists are marked
  for a refetch.\<close>

theorem reaction_toggle:
  assumes "client_laws qc" "reaction_laws api (user_name u) (memo_name memo)" "getMemo_rpc api (memo_name memo) s = Inr memo"
    and "distinct (map reaction_name (memo_reactions memo))" "handleReactionClick qc api (Some u) memo t (s, c) = (s', c')"
  shows "\<exists>m'. getMemo_rpc api (memo_name memo) s' = Inr m' \<and> getQueryData qc (memoKeys_detail (memo_name memo)) c' = Some (MemoData m') \<and>
    hasReacted (Some u) m' t = (\<not> hasReacted (Some u) memo t) \<and>
    filter (\<lambda>r. \<not> mine u t r) (memo_reactions m') = filter (\<lambda>r. \<not> mine u t r) (memo_reactions memo) \<and>
    (\<forall>j. prefix memoKeys_lists j \<and> getQueryData qc j c \<noteq> None \<longrightarrow> isInvalidated qc j c')"
proof -
  have q: "query_cache qc" using assms(1) by (simp add: query_cache_def)
  obtain s1 m' where r: "(if hasReacted (Some u) memo t
       then send_all (deleteMemoReaction api) (map reaction_name (filter (mine u t) (memo_reactions memo))) s
       else upsertMemoReaction api (memo_name memo) t s) = (Inr (), s1)"
     "getMemo_rpc api (memo_name memo) s1 = Inr m'" "hasReacted (Some u) m' t = (\<not> hasReacted (Some u) memo t)"
     "filter (\<lambda>r. \<not> mine u t r) (memo_reactions m') = filter (\<lambda>r. \<not> mine u t r) (memo_reactions memo)"
    using reaction_request[OF assms(2,3,4) refl] by blast
  have "c' = click_cache qc memo m' c" "s' = s1"
    using assms(5) r(2) by (simp_all add: handleReactionClick_def r(1)[unfolded mine_def[abs_def]] click_cache_def Let_def)
  then show ?thesis using r(2-4) query_cache.click_cache_props(1)[OF q, of memo m' c] query_cache.click_cache_props(2)[OF q, of _ c memo m'] by auto
qed

text \<open>A server with one memo.\<close>

definition one_memo_server :: "string \<Rightarrow> (Memo \<times> nat) reaction_api" where
  "one_memo_server user = \<lparr>deleteMemoReaction = (\<lambda>x (m, k). (Inr (), m\<lparr>memo_reactions := filter (\<lambda>r. reaction_name r \<noteq> x) (memo_reactions m)\<rparr>, k)),
     upsertMemoReaction = (\<lambda>n t (m, k). (Inr (), m\<lparr>memo_reactions := memo_reactions m @
        [\<lparr>reaction_name = replicate k (CHR ''r''), reaction_creator = user, reaction_contentId = n, reaction_type = t, reaction_createTime = None\<rparr>]\<rparr>, Suc k)),
     getMemo_rpc = (\<lambda>_ (m, k). Inr m)\<rparr>"

lemma one_memo_laws: "reaction_laws (one_memo_server user) user n"
  unfolding reaction_laws_def one_memo_server_def
  by (intro allI impI conjI) (auto split: prod.splits, metis Reaction.select_convs(2,4))

definition demo_reader :: User where
  "demo_reader = \<lparr>user_name = ''users/2'', user_role = ROLE_USER, user_username = ''reader'', user_email = [], user_displayName = [],
     user_avatarUrl = [], user_description = [], user_password = [], user_state = NORMAL, user_createTime = None, user_updateTime = None\<rparr>"

theorem reaction_toggle_witness:
  "\<exists>s' c' m'. handleReactionClick alist_client (one_memo_server (user_name demo_reader)) (Some demo_reader) demo_memo ''x'' ((demo_memo, 0), demo_cache) = (s', c') \<and>
     getQueryData alist_client (memoKeys_detail ''memos/a'') c' = Some (MemoData m') \<and> hasReacted (Some demo_reader) m' ''x''"
proof -
  obtain s' c' where h: "handleReactionClick alist_client (one_memo_server (user_name demo_reader)) (Some demo_reader) demo_memo ''x'' ((demo_memo, 0), demo_cache) = (s', c')"
    by fastforce
  have d: "memo_name demo_memo = ''memos/a''" "memo_reactions demo_memo = []" by (simp_all add: demo_memo_def default_memo_def)
  have g: "getMemo_rpc (one_memo_server (user_name demo_reader)) (memo_name demo_memo) (demo_memo, 0) = Inr demo_memo"
    by (simp add: one_memo_server_def)
  from reaction_toggle[OF qa.laws one_memo_laws g _ h] h show ?thesis by (auto simp: d hasReacted_def)
qed

section \<open>Share links\<close>

lemma last_split_on:
  assumes "c \<notin> set t"
  shows "last (split_on c (s @ c # t)) = t"
proof -
  have "last (split_on c (s @ c # t)) = t \<and> length (split_on c (s @ c # t)) > 1"
  proof (induction s)
    case (Cons x s)
    then show ?case by (cases "split_on c (s @ c # t)") auto
  qed (use assms in simp)
  then show ?thesis by simp
qed

lemma uri_roundtrip: "decode_uri_component (encode_uri_component s) = Some s"
  by (simp add: encode_uri_component_def uri.dec_concat)

text \<open>A share link works without a session. The link of a share, at the host of the page, is a public route and carries
  the token of the share, so that a failed refresh of the session does not lead away from it; the page of that token shows the
  memo, in which every attachment without a link of its own gets one that carries the token, encoded, and every other attachment is unchanged.\<close>

theorem share_link_public:
  assumes "sh_name share = parent @ ''/shares/'' @ token" "CHR ''/'' \<notin> set token" "token \<noteq> []"
    and "pathname loc = drop (length origin) (getShareUrl origin share)" "qv_data q = Some memo" "\<not> qv_isLoading q" "qv_error q = None"
  shows "getShareUrl origin share = origin @ ROUTES_SHARED_MEMO @ ''/'' @ getShareToken share \<and> getShareToken share = token \<and>
    redirectOnAuthFailure False redirect reason loc s = (None, s) \<and>
    (\<exists>m. MemoDetail origin (Some token) q q' = ShowMemo m \<and> memo_content m = memo_content memo \<and>
       list_all2 (\<lambda>a a'. if att_externalLink a \<noteq> [] then a' = a
          else \<exists>pre. att_externalLink a' = pre @ ''?share_token='' @ encode_uri_component token \<and> decode_uri_component (encode_uri_component token) = Some token)
         (memo_attachments memo) (memo_attachments m))"
proof -
  have l: "getShareToken share = token"
    using last_split_on[OF assms(2), of "parent @ ''/shares''"] by (simp add: getShareToken_def assms(1))
  have u: "getShareUrl origin share = origin @ ROUTES_SHARED_MEMO @ ''/'' @ token"
    using l by (simp add: getShareUrl_def getShareToken_def ROUTES_SHARED_MEMO_def)
  have p: "pathname loc = ROUTES_SHARED_MEMO @ ''/'' @ token" using assms(4) u by simp
  have "isPublicRoute (pathname loc)" by (simp add: p isPublicRoute_def PUBLIC_ROUTE_PREFIXES_def starts_with_def)
  moreover have "list_all2 (\<lambda>a a'. if att_externalLink a \<noteq> [] then a' = a
          else \<exists>pre. att_externalLink a' = pre @ ''?share_token='' @ encode_uri_component token \<and> decode_uri_component (encode_uri_component token) = Some token)
         xs (withShareAttachmentLinks origin xs token)" for xs
    by (induction xs) (auto simp: withShareAttachmentLinks_def uri_roundtrip)
  ultimately show ?thesis using l u assms(3,5-7) by (simp add: MemoDetail_def redirectOnAuthFailure_def Let_def truthy_def)
qed

theorem share_link_public_witness:
  "\<exists>m. MemoDetail ''https://m.test'' (Some ''t0'') \<lparr>qv_data = Some demo_memo, qv_error = None, qv_isLoading = False\<rparr>
       \<lparr>qv_data = None, qv_error = None, qv_isLoading = False\<rparr> = ShowMemo m \<and> memo_content m = ''text'' \<and>
     redirectOnAuthFailure False None None \<lparr>pathname = ''/memos/shares/t0'', search_part = [], hash_part = []\<rparr> demo_auth = (None, demo_auth)"
proof -
  let ?sh = "\<lparr>sh_name = ''memos/a/shares/t0'', sh_createTime = None, sh_expireTime = None\<rparr>"
  let ?q = "\<lparr>qv_data = Some demo_memo, qv_error = None, qv_isLoading = False\<rparr>"
  let ?loc = "\<lparr>pathname = ''/memos/shares/t0'', search_part = [], hash_part = []\<rparr>"
  have u: "pathname ?loc = drop (length ''https://m.test'') (getShareUrl ''https://m.test'' ?sh)" by code_simp
  have n: "sh_name ?sh = ''memos/a'' @ ''/shares/'' @ ''t0''" "CHR ''/'' \<notin> set ''t0''" "''t0'' \<noteq> []" by simp_all
  have c: "memo_content demo_memo = ''text''" by (simp add: demo_memo_def)
  from share_link_public[OF n u, of ?q demo_memo None None demo_auth "\<lparr>qv_data = None, qv_error = None, qv_isLoading = False\<rparr>"] c
  show ?thesis by auto
qed

definition demo_page :: "alist_cache memo_page" where
  "demo_page = \<lparr>mp_cache = demo_cache, mp_path = ''/'', mp_toasts = [], mp_nav = [], mp_clipboard = None, mp_deleteDialog = False\<rparr>"

theorem rejected_actions_witness:
  "cache_kept alist_client demo_memo demo_page (handleToggleMemoStatusClick alist_client (\<lambda>_ _. Inl (Thrown ''no'')) demo_memo demo_page) \<and>
   mp_toasts (handleToggleMemoStatusClick alist_client (\<lambda>_ _. Inl (Thrown ''no'')) demo_memo demo_page) = [ToastError ''ui.generic-error'']"
proof -
  have n: "memo_name demo_memo = ''memos/a''" by (simp add: demo_memo_def)
  have m: "memo_copies alist_client (memo_name demo_memo) (mp_cache demo_page) = {demo_memo}" "memo_name demo_memo \<noteq> []"
    by (simp_all only: n) (simp_all add: demo_page_def demo_copies)
  have p: "mp_toasts demo_page = []" by (simp add: demo_page_def)
  from rejected_actions[OF qa.laws m, of "\<lambda>_ _. Inl (Thrown ''no'')" "\<lambda>_. Inl (Thrown ''no'')" "Thrown ''no''" "\<lambda>_. None"] p
  show ?thesis by simp
qed

end
