(* ===== verification/Explorer.thy ===== *)
theory Explorer
  imports Stats
begin

text \<open>
  The explorer beside a list: the activity calendar (\<open>components/ActivityCalendar/\<close>, \<open>lib/calendar-utils.ts\<close>,
  \<open>components/StatisticsView/\<close>), the way from a clicked day to a new memo of that day (\<open>hooks/useDateFilterNavigation.ts\<close>,
  \<open>MemoEditor/utils/deriveDefaultCreateTime.ts\<close>), and the tree of tags (\<open>components/TagTree.tsx\<close>).

  Local days are integers, counted from the epoch. What \<open>dayjs\<close> does with them is the parameter \<open>cal\<close>.
\<close>

section \<open>The calendar\<close>

definition DAYS_IN_WEEK :: int where "DAYS_IN_WEEK = 7"
definition MONTHS_IN_YEAR :: nat where "MONTHS_IN_YEAR = 12"
definition MIN_COUNT :: int where "MIN_COUNT = 1"
definition MIN_YEAR :: int where "MIN_YEAR = 1970"

text \<open>\<open>dayjs(text)\<close> as a day, the first day of a day's month and the last one (\<open>startOf\<close>, \<open>endOf\<close>), the day of the week and of the month, the formats
  \<open>YYYY-MM-DD\<close> and \<open>YYYY-MM\<close>, and the day some months later.\<close>

record dayjs_calendar =
  cal_parse :: "string \<Rightarrow> int"
  cal_startOf :: "int \<Rightarrow> int"
  cal_endOf :: "int \<Rightarrow> int"
  cal_weekday :: "int \<Rightarrow> int"
  cal_date :: "int \<Rightarrow> int"
  cal_formatDay :: "int \<Rightarrow> string"
  cal_formatMonth :: "int \<Rightarrow> string"
  cal_addMonths :: "int \<Rightarrow> int \<Rightarrow> int"
  cal_year :: "int \<Rightarrow> int"
  cal_month :: "int \<Rightarrow> int"
  cal_setYearMonth :: "int \<Rightarrow> int \<Rightarrow> int \<Rightarrow> int"

type_synonym CalendarData = "(string, int) jsmap"

record CalendarDayCell =
  cell_date :: string
  cell_label :: int
  cell_count :: int
  cell_isCurrentMonth :: bool
  cell_isToday :: bool
  cell_isSelected :: bool

record CalendarMatrixResult =
  cm_weeks :: "CalendarDayCell list list"
  cm_weekDays :: "string list"

definition createCalendarDayCell :: "dayjs_calendar \<Rightarrow> string \<Rightarrow> CalendarData \<Rightarrow> string \<Rightarrow> string \<Rightarrow> int \<Rightarrow> CalendarDayCell" where
  "createCalendarDayCell cal monthKey data today selectedDate current =
     (let isoDate = cal_formatDay cal current
      in \<lparr>cell_date = isoDate, cell_label = cal_date cal current,
          cell_count = (case map_get data isoDate of Some n \<Rightarrow> n | None \<Rightarrow> 0),
          cell_isCurrentMonth = (cal_formatMonth cal current = monthKey),
          cell_isToday = (isoDate = today), cell_isSelected = (isoDate = selectedDate)\<rparr>)"

text \<open>\<open>%\<close> takes the sign of its left operand.\<close>

definition js_rem :: "int \<Rightarrow> int \<Rightarrow> int" where
  "js_rem a b = (if a < 0 then - (\<bar>a\<bar> mod \<bar>b\<bar>) else a mod \<bar>b\<bar>)"

definition calculateCalendarBoundaries :: "dayjs_calendar \<Rightarrow> int \<Rightarrow> int \<Rightarrow> int \<times> int" where
  "calculateCalendarBoundaries cal monthStart weekStartDayOffset =
     (let monthEnd = cal_endOf cal monthStart;
          startOffset = js_rem (cal_weekday cal monthStart - weekStartDayOffset + DAYS_IN_WEEK) DAYS_IN_WEEK;
          endOffset = js_rem (weekStartDayOffset + (DAYS_IN_WEEK - 1) - cal_weekday cal monthEnd + DAYS_IN_WEEK) DAYS_IN_WEEK;
          calendarStart = monthStart - startOffset;
          calendarEnd = monthEnd + endOffset
      in (calendarStart, calendarEnd - calendarStart + 1))"

text \<open>\<open>Array.prototype.slice\<close> with an index that may be negative.\<close>

definition slice_from :: "int \<Rightarrow> 'a list \<Rightarrow> 'a list" where
  "slice_from i xs = drop (nat (if i < 0 then int (length xs) + i else i)) xs"

definition slice_to :: "int \<Rightarrow> 'a list \<Rightarrow> 'a list" where
  "slice_to i xs = take (nat (if i < 0 then int (length xs) + i else i)) xs"

text \<open>The loop: a day goes to the row of its index divided by seven, which is made when it is missing.\<close>

definition push_day :: "(int \<Rightarrow> CalendarDayCell) \<Rightarrow> nat \<Rightarrow> CalendarDayCell list list \<Rightarrow> CalendarDayCell list list" where
  "push_day cell index weeks =
     (let weekIndex = index div nat DAYS_IN_WEEK;
          weeks1 = (if weekIndex < length weeks then weeks else weeks @ replicate (weekIndex + 1 - length weeks) [])
      in weeks1[weekIndex := weeks1 ! weekIndex @ [cell (int index)]])"

definition useCalendarMatrix :: "dayjs_calendar \<Rightarrow> string \<Rightarrow> CalendarData \<Rightarrow> string list \<Rightarrow> int \<Rightarrow> string \<Rightarrow> string \<Rightarrow> CalendarMatrixResult" where
  "useCalendarMatrix cal month data weekDays weekStartDayOffset today selectedDate =
     (let monthStart = cal_startOf cal (cal_parse cal month); monthKey = cal_formatMonth cal monthStart;
          (calendarStart, dayCount) = calculateCalendarBoundaries cal monthStart weekStartDayOffset;
          cell = (\<lambda>index. createCalendarDayCell cal monthKey data today selectedDate (calendarStart + index))
      in \<lparr>cm_weeks = fold (push_day cell) [0..<nat dayCount] [],
          cm_weekDays = slice_from weekStartDayOffset weekDays @ slice_to weekStartDayOffset weekDays\<rparr>)"

datatype cell_style = STYLE_HIGH | STYLE_MEDIUM | STYLE_LOW | STYLE_MINIMAL | STYLE_EMPTY

text \<open>The quotient is compared with the thresholds 0.75, 0.5 and 0.25, by multiplying out.\<close>

definition getCellIntensityClass :: "CalendarDayCell \<Rightarrow> int \<Rightarrow> cell_style" where
  "getCellIntensityClass day maxCount =
     (if \<not> cell_isCurrentMonth day \<or> cell_count day = 0 then STYLE_EMPTY
      else if 4 * cell_count day > 3 * maxCount then STYLE_HIGH
      else if 2 * cell_count day > maxCount then STYLE_MEDIUM
      else if 4 * cell_count day > maxCount then STYLE_LOW
      else STYLE_MINIMAL)"

definition calculateMaxCount :: "CalendarData \<Rightarrow> int" where
  "calculateMaxCount data = max (fold (\<lambda>(_, n) m. max m n) data 0) MIN_COUNT"

definition generateMonthsForYear :: "dayjs_calendar \<Rightarrow> string \<Rightarrow> string list" where
  "generateMonthsForYear cal year =
     map (\<lambda>i. cal_formatMonth cal (cal_addMonths cal (cal_parse cal (year @ ''-01-01'')) (int i))) [0..<MONTHS_IN_YEAR]"

definition filterDataByYear :: "dayjs_calendar \<Rightarrow> CalendarData \<Rightarrow> string \<Rightarrow> CalendarData" where
  "filterDataByYear cal data year =
     (let yearStart = cal_parse cal (year @ ''-01-01''); yearEnd = cal_parse cal (year @ ''-12-31'')
      in filter (\<lambda>(dateStr, _). yearStart \<le> cal_parse cal dateStr \<and> cal_parse cal dateStr \<le> yearEnd) data)"

text \<open>\<open>getTooltipText\<close>: the day alone, or the count with the key of its text.\<close>

definition getTooltipText :: "int \<Rightarrow> string \<Rightarrow> MemoTimeBasis \<Rightarrow> string \<times> (int \<times> string) option" where
  "getTooltipText n date basis =
     (if n = 0 then (date, None)
      else (if basis = UpdateTime then ''memo.count-memos-updated-in-date'' else ''memo.count-memos-in-date'',
            Some (n, if n = 1 then ''common.memo'' else ''common.memos'')))"

section \<open>Navigation by month and year\<close>

definition formatMonth :: "dayjs_calendar \<Rightarrow> string \<Rightarrow> string" where
  "formatMonth cal d = cal_formatMonth cal (cal_parse cal d)"

definition addMonths :: "dayjs_calendar \<Rightarrow> string \<Rightarrow> int \<Rightarrow> string" where
  "addMonths cal d n = cal_formatMonth cal (cal_addMonths cal (cal_parse cal d) n)"

definition setYearAndMonth :: "dayjs_calendar \<Rightarrow> int \<Rightarrow> int \<Rightarrow> int \<Rightarrow> string" where
  "setYearAndMonth cal today year month = cal_formatMonth cal (cal_setYearMonth cal today year month)"

text \<open>The visible month of \<open>StatisticsView\<close> and the year dialog of \<open>MonthNavigator\<close>.\<close>

record statistics_view =
  sv_visibleMonth :: string
  sv_isOpen :: bool

datatype month_event = PrevMonth | NextMonth | YearDateClick string | YearChange int

definition month_navigator :: "dayjs_calendar \<Rightarrow> int \<Rightarrow> month_event \<Rightarrow> statistics_view \<Rightarrow> statistics_view" where
  "month_navigator cal today e s = (case e of
     PrevMonth \<Rightarrow> s\<lparr>sv_visibleMonth := addMonths cal (sv_visibleMonth s) (- 1)\<rparr>
   | NextMonth \<Rightarrow> s\<lparr>sv_visibleMonth := addMonths cal (sv_visibleMonth s) 1\<rparr>
   | YearDateClick d \<Rightarrow> s\<lparr>sv_visibleMonth := formatMonth cal d, sv_isOpen := False\<rparr>
   | YearChange y \<Rightarrow> s\<lparr>sv_visibleMonth := setYearAndMonth cal today y (cal_month cal (cal_parse cal (sv_visibleMonth s)))\<rparr>)"

text \<open>The arrows of \<open>YearCalendar\<close>.\<close>

definition year_arrow :: "int \<Rightarrow> bool \<Rightarrow> int \<Rightarrow> month_event option" where
  "year_arrow currentYear forward selectedYear =
     (if forward then (if selectedYear < currentYear + 1 then Some (YearChange (selectedYear + 1)) else None)
      else (if selectedYear > MIN_YEAR then Some (YearChange (selectedYear - 1)) else None))"

section \<open>From a day to a memo\<close>

definition navigateToDateFilter :: "string option \<Rightarrow> string \<Rightarrow> string \<Rightarrow> string" where
  "navigateToDateFilter targetPath path date =
     (case targetPath of Some p \<Rightarrow> p | None \<Rightarrow> path) @ ''?filter='' @ stringifyFilters [\<lparr>factor = ''displayTime'', f_value = date\<rparr>]"

text \<open>Local time: a \<open>Date\<close> from its fields, which roll over, and the fields of a \<open>Date\<close>.\<close>

record local_time =
  lt_make :: "int \<times> int \<times> int \<Rightarrow> int \<times> int \<times> int \<Rightarrow> date"
  lt_day :: "date \<Rightarrow> int \<times> int \<times> int"
  lt_clock :: "date \<Rightarrow> int \<times> int \<times> int"

definition date_re :: "string \<Rightarrow> (int \<times> int \<times> int) option" where
  "date_re s =
     (if length s = 10 \<and> s ! 4 = CHR ''-'' \<and> s ! 7 = CHR ''-'' \<and> list_all is_digit (slice 0 4 s @ slice 5 7 s @ slice 8 10 s)
      then Some (int (digits_val (slice 0 4 s)), int (digits_val (slice 5 7 s)), int (digits_val (slice 8 10 s))) else None)"

definition deriveDefaultCreateTimeFromFilters :: "local_time \<Rightarrow> MemoFilter list \<Rightarrow> date \<Rightarrow> date option" where
  "deriveDefaultCreateTimeFromFilters lt filters now =
     (case find (\<lambda>f. factor f = ''displayTime'') filters of
        None \<Rightarrow> None
      | Some f \<Rightarrow> (case date_re (f_value f) of
          None \<Rightarrow> None
        | Some ymd \<Rightarrow>
            let candidate = lt_make lt ymd (lt_clock lt now)
            in if lt_day lt candidate = ymd then Some candidate else None))"

section \<open>The tag tree\<close>

datatype Tag = Tag (tag_key: string) (tag_text: string) (tag_amount: int) (tag_subTags: "Tag list")

text \<open>\<open>sort()\<close> without a comparator compares the elements as texts, here \<open>tag,amount\<close>, by code units.\<close>

fun compare_text :: "string \<Rightarrow> string \<Rightarrow> int" where
  "compare_text [] [] = 0"
| "compare_text [] (y # ys) = - 1"
| "compare_text (x # xs) [] = 1"
| "compare_text (x # xs) (y # ys) = (if code x < code y then - 1 else if code y < code x then 1 else compare_text xs ys)"

definition show_int :: "int \<Rightarrow> string" where
  "show_int n = (if n < 0 then ''-'' @ show_nat (nat (- n)) else show_nat (nat n))"

definition entry_text :: "string \<times> int \<Rightarrow> string" where
  "entry_text e = fst e @ '','' @ show_int (snd e)"

definition compare_entries :: "string \<times> int \<Rightarrow> string \<times> int \<Rightarrow> int" where
  "compare_entries a b = compare_text (entry_text a) (entry_text b)"

fun update_first :: "('a \<Rightarrow> bool) \<Rightarrow> ('a \<Rightarrow> 'a) \<Rightarrow> 'a list \<Rightarrow> 'a list" where
  "update_first P f [] = []"
| "update_first P f (x # xs) = (if P x then f x # xs else x # update_first P f xs)"

text \<open>The inner loop: \<open>subs\<close> are the \<open>subTags\<close> of \<open>tempObj\<close>, \<open>tagText\<close> is \<open>None\<close> before the first key.\<close>

definition next_text :: "string option \<Rightarrow> string \<Rightarrow> string" where
  "next_text tagText key = (case tagText of None \<Rightarrow> key | Some t \<Rightarrow> t @ ''/'' @ key)"

fun insert_tag :: "(string \<times> int) list \<Rightarrow> int \<Rightarrow> string option \<Rightarrow> string list \<Rightarrow> Tag list \<Rightarrow> Tag list" where
  "insert_tag es n tagText [] subs = subs"
| "insert_tag es n tagText (key # rest) subs =
     (let t = next_text tagText key;
          amount = (if \<exists>(tag, a) \<in> set es. tag = t \<and> a > 1 then n else 0)
      in if \<exists>x \<in> set subs. tag_text x = t
         then update_first (\<lambda>x. tag_text x = t) (\<lambda>x. Tag (tag_key x) (tag_text x) (tag_amount x) (insert_tag es n (Some t) rest (tag_subTags x))) subs
         else subs @ [Tag key t amount (insert_tag es n (Some t) rest [])])"

definition TagTree :: "(string \<times> int) list \<Rightarrow> Tag list" where
  "TagTree tagAmounts =
     (let es = js_sort compare_entries tagAmounts
      in fold (\<lambda>(tag, n). insert_tag es n None (split_on (CHR ''/'') tag)) es [])"

text \<open>A click on a tag of the tree, or of the list in \<open>TagsSection\<close>.\<close>

definition handleTagClick :: "string \<Rightarrow> filter_context \<Rightarrow> filter_context" where
  "handleTagClick tag s =
     (if list_ex (\<lambda>f. f_value f = tag) (getFiltersByFactor ''tagSearch'' s)
      then removeFilter (\<lambda>f. factor f = ''tagSearch'' \<and> f_value f = tag) s
      else addFilter \<lparr>factor = ''tagSearch'', f_value = tag\<rparr> s)"

section \<open>The rows of the calendar\<close>

text \<open>What is relied on of \<open>dayjs\<close> for a month: the days of the week follow each other (day 0 is a Thursday), and the days with the
  month's format are those from the first to the last.\<close>

definition month_laws :: "dayjs_calendar \<Rightarrow> string \<Rightarrow> bool" where
  "month_laws cal month \<longleftrightarrow> (let s = cal_startOf cal (cal_parse cal month); e = cal_endOf cal s in
     s \<le> e \<and> (\<forall>d. cal_weekday cal d = (d + 4) mod 7) \<and>
     (\<forall>d \<in> {s - 7..e + 7}. cal_formatMonth cal d = cal_formatMonth cal s \<longleftrightarrow> s \<le> d \<and> d \<le> e))"

lemma push_day_new: "push_day cell (7 * length ws) ws = ws @ [[cell (int (7 * length ws))]]"
  by (simp add: push_day_def Let_def DAYS_IN_WEEK_def nth_append)

lemma push_day_row: "r < 7 \<Longrightarrow> push_day cell (7 * length ws + r) (ws @ [row]) = ws @ [row @ [cell (int (7 * length ws + r))]]"
  by (simp add: push_day_def Let_def DAYS_IN_WEEK_def nth_append)

definition week_row :: "(int \<Rightarrow> CalendarDayCell) \<Rightarrow> nat \<Rightarrow> CalendarDayCell list" where
  "week_row cell w = map (\<lambda>i. cell (int (7 * w + i))) [0..<7]"

lemma fold_push_week:
  "r < 7 \<Longrightarrow> fold (push_day cell) [7 * length ws..<7 * length ws + Suc r] ws = ws @ [map (\<lambda>i. cell (int (7 * length ws + i))) [0..<Suc r]]"
proof (induction r)
  case 0
  then show ?case using push_day_new[of cell ws] by simp
next
  case (Suc r)
  have "[7 * length ws..<7 * length ws + Suc (Suc r)] = [7 * length ws..<7 * length ws + Suc r] @ [7 * length ws + Suc r]" by simp
  then show ?case using Suc push_day_row[of "Suc r" cell ws] by (simp del: upt_Suc add: upt_Suc_append add.left_commute)
qed

lemma fold_push: "fold (push_day cell) [0..<7 * k] [] = map (week_row cell) [0..<k]"
proof (induction k)
  case (Suc k)
  have "[0..<7 * Suc k] = [0..<7 * k] @ [7 * k..<7 * k + Suc 6]" using upt_add_eq_append[of 0 "7 * k" 7] by (simp add: add.commute)
  moreover have "fold (push_day cell) [7 * k..<7 * k + Suc 6] (map (week_row cell) [0..<k]) = map (week_row cell) [0..<k] @ [week_row cell k]"
    using fold_push_week[of 6 cell "map (week_row cell) [0..<k]"] by (simp del: upt_Suc add: week_row_def eval_nat_numeral)
  ultimately show ?case using Suc by simp
qed simp

lemma rotated_labels:
  assumes "length labels = 7" "- 7 \<le> off" "off \<le> 7" "i < 7"
  shows "(slice_from off labels @ slice_to off labels) ! i = labels ! nat ((off + int i) mod 7)"
proof -
  define k where "k = nat (if off < 0 then 7 + off else off)"
  have k: "k \<le> 7" "(off + int i) mod 7 = int ((k + i) mod 7)"
    using assms(2,3) by (auto simp: k_def zmod_int) (smt (verit) mod_add_self1)
  have "slice_from off labels @ slice_to off labels = drop k labels @ take k labels"
    using assms(1) by (simp add: slice_from_def slice_to_def k_def)
  also have "\<dots> ! i = labels ! ((k + i) mod 7)"
    using k(1) assms(1,4) by (auto simp: nth_append mod_if add.commute)
  finally show ?thesis by (simp add: k(2))
qed

lemma boundaries:
  fixes s e off :: int
  assumes "\<And>d. cal_weekday cal d = (d + 4) mod 7" "- 7 \<le> off" "off \<le> 7" "cal_endOf cal s = e" "s \<le> e"
    and "calculateCalendarBoundaries cal s off = (start, n)"
  shows "start \<le> s" "s < start + 7" "(start + 4) mod 7 = off mod 7" "\<exists>k. nat n = 7 * k \<and> e < start + 7 * int k \<and> start + 7 * int k \<le> e + 7"
proof -
  define a where "a = ((s + 4) mod 7 - off + 7) mod 7"
  define b where "b = (off + 6 - (e + 4) mod 7 + 7) mod 7"
  have 0: "0 \<le> (s + 4) mod 7" "(s + 4) mod 7 < 7" "0 \<le> (e + 4) mod 7" "(e + 4) mod 7 < 7" by simp_all
  have r: "js_rem x 7 = x mod 7" if "0 \<le> x" for x using that by (simp add: js_rem_def)
  have "js_rem ((s + 4) mod 7 - off + 7) 7 = a" "js_rem (off + (7 - 1) - (e + 4) mod 7 + 7) 7 = b"
    using 0 assms(2,3) by (simp_all add: r a_def b_def)
  then have sn: "start = s - a" "n = e + b - start + 1"
    using assms(6) unfolding calculateCalendarBoundaries_def Let_def DAYS_IN_WEEK_def assms(1,4) by auto
  have ab: "0 \<le> a" "a < 7" "0 \<le> b" "b < 7" by (simp_all add: a_def b_def)
  have "a = (s + 4 - off) mod 7" unfolding a_def by (simp add: mod_simps)
  then have "start + 4 = s + 4 - (s + 4 - off) mod 7" using sn(1) by simp
  then have m: "(start + 4) mod 7 = off mod 7" by (simp only: mod_diff_right_eq) simp
  have "b = (off + 13 - (e + 4) mod 7) mod 7" unfolding b_def by (rule arg_cong[of _ _ "\<lambda>x. x mod 7"]) simp
  also have "\<dots> = (off + 13 - (e + 4)) mod 7" by (rule mod_diff_right_eq)
  finally have "(e + b) mod 7 = (e + (off + 13 - (e + 4))) mod 7" by (simp only: mod_add_right_eq)
  also have "e + (off + 13 - (e + 4)) = (off + 2) + 7" by simp
  finally have eb: "(e + b) mod 7 = (off + 2) mod 7" by (simp only: mod_add_self2)
  have "n mod 7 = ((e + b) mod 7 - (start + 4) mod 7 + 5) mod 7" proof -
    have "((e + b) mod 7 - (start + 4) mod 7 + 5) mod 7 = (e + b - (start + 4) + 5) mod 7" by (metis mod_add_left_eq mod_diff_eq)
    moreover have "e + b - (start + 4) + 5 = n" by (simp add: sn(2))
    ultimately show ?thesis by simp
  qed
  also have "\<dots> = ((off + 2) - off + 5) mod 7" unfolding eb m by (metis mod_add_left_eq mod_diff_eq)
  finally have d: "n mod 7 = 0" by simp
  show "start \<le> s" "s < start + 7" using sn ab by simp_all
  show "(start + 4) mod 7 = off mod 7" by (rule m)
  have "0 \<le> n" using sn ab assms(5) by simp
  then obtain k where k: "n = 7 * int k" using d by (intro that[of "nat (n div 7)"]) auto
  then show "\<exists>k. nat n = 7 * k \<and> e < start + 7 * int k \<and> start + 7 * int k \<le> e + 7"
    using sn ab by (intro exI[of _ k]) auto
qed


text \<open>C21. The month in the calendar. For every start of the week, the calendar has full weeks of seven consecutive days, from the first
  of which the month begins and in the last of which it ends, each in the column of its day of the week, whose label is
  above it; every day has its own count, and exactly the days of the month are marked as belonging to it.\<close>

theorem calendar_matrix:
  assumes "month_laws cal month" "- 7 \<le> off" "off \<le> 7" "length labels = 7"
    and "s = cal_startOf cal (cal_parse cal month)" "e = cal_endOf cal s" "m = useCalendarMatrix cal month data labels off today sel"
  shows "\<exists>start k. start \<le> s \<and> s < start + 7 \<and> start + 7 * int k - 7 \<le> e \<and> e < start + 7 * int k \<and>
    cm_weeks m = map (\<lambda>w. map (\<lambda>i. createCalendarDayCell cal (cal_formatMonth cal s) data today sel (start + int (7 * w + i))) [0..<7]) [0..<k] \<and>
    (\<forall>w < k. \<forall>i < 7. cm_weekDays m ! i = labels ! nat (cal_weekday cal (start + int (7 * w + i))) \<and>
       cell_isCurrentMonth (cm_weeks m ! w ! i) = (s \<le> start + int (7 * w + i) \<and> start + int (7 * w + i) \<le> e))"
proof -
  obtain start n where b: "calculateCalendarBoundaries cal s off = (start, n)" by fastforce
  have l: "s \<le> e" "\<And>d. cal_weekday cal d = (d + 4) mod 7"
    "\<And>d. s - 7 \<le> d \<Longrightarrow> d \<le> e + 7 \<Longrightarrow> cal_formatMonth cal d = cal_formatMonth cal s \<longleftrightarrow> s \<le> d \<and> d \<le> e"
    using assms(1,5,6) by (auto simp: month_laws_def Let_def)
  note bd = boundaries[OF l(2) assms(2,3) assms(6)[symmetric] l(1) b]
  obtain k where k: "nat n = 7 * k" "e < start + 7 * int k" "start + 7 * int k \<le> e + 7" using bd(4) by blast
  let ?cell = "\<lambda>index. createCalendarDayCell cal (cal_formatMonth cal s) data today sel (start + index)"
  have m: "cm_weeks m = map (week_row ?cell) [0..<k]" "cm_weekDays m = slice_from off labels @ slice_to off labels"
    using assms(5,7) b by (simp_all add: useCalendarMatrix_def Let_def k(1) fold_push)
  have "cm_weekDays m ! i = labels ! nat (cal_weekday cal (start + int (7 * w + i)))" if "i < 7" for w i
  proof -
    have "(start + int (7 * w + i) + 4) mod 7 = ((start + 4) + int i + int w * 7) mod 7" by (simp add: algebra_simps)
    also have "\<dots> = ((start + 4) mod 7 + int i) mod 7" by (simp add: mod_simps)
    also have "\<dots> = (off + int i) mod 7" unfolding bd(3) by (simp add: mod_simps)
    finally show ?thesis using rotated_labels[OF assms(4,2,3) that] by (simp add: m(2) l(2))
  qed
  moreover have "cell_isCurrentMonth (cm_weeks m ! w ! i) = (s \<le> start + int (7 * w + i) \<and> start + int (7 * w + i) \<le> e)"
    if "w < k" "i < 7" for w i
  proof -
    have "start + int (7 * w + i) < start + 7 * int k" using that by simp
    then have "s - 7 \<le> start + int (7 * w + i)" "start + int (7 * w + i) \<le> e + 7" using bd(2) k(3) by simp_all
    then show ?thesis using that by (simp add: m(1) week_row_def createCalendarDayCell_def Let_def l(3))
  qed
  ultimately show ?thesis using bd(1,2) k(2,3) m(1) by (intro exI[of _ start] exI[of _ k]) (simp add: week_row_def[abs_def])
qed

text \<open>The Gregorian calendar as such a parameter.\<close>

definition gregorian :: dayjs_calendar where
  "gregorian = \<lparr>cal_parse = (\<lambda>s. days_of (int (digits_val (slice 0 4 s))) (int (digits_val (slice 5 7 s))) (if length s < 10 then 1 else int (digits_val (slice 8 10 s)))),
     cal_startOf = (\<lambda>d. case civil d of (y, m, _) \<Rightarrow> days_of y m 1),
     cal_endOf = (\<lambda>d. case civil d of (y, m, _) \<Rightarrow> (if m = 12 then days_of (y + 1) 1 1 else days_of y (m + 1) 1) - 1),
     cal_weekday = (\<lambda>d. (d + 4) mod 7), cal_date = (\<lambda>d. case civil d of (_, _, x) \<Rightarrow> x),
     cal_formatDay = (\<lambda>d. case civil d of (y, m, x) \<Rightarrow> iso_year y @ ''-'' @ padded 2 (nat m) @ ''-'' @ padded 2 (nat x)),
     cal_formatMonth = (\<lambda>d. case civil d of (y, m, x) \<Rightarrow> iso_year y @ ''-'' @ padded 2 (nat m)),
     cal_addMonths = (\<lambda>d n. case civil d of (y, m, x) \<Rightarrow> days_of (y + (m - 1 + n) div 12) ((m - 1 + n) mod 12 + 1) x),
     cal_year = (\<lambda>d. fst (civil d)), cal_month = (\<lambda>d. fst (snd (civil d)) - 1),
     cal_setYearMonth = (\<lambda>d y m. days_of y (m + 1) (snd (snd (civil d))))\<rparr>"

lemma gregorian_weekday: "cal_weekday gregorian d = (d + 4) mod 7"
  by (simp add: gregorian_def)

definition month_key :: "int \<Rightarrow> int \<Rightarrow> string" where
  "month_key y m = iso_year y @ ''-'' @ padded 2 (nat m)"

lemma formatMonth_gregorian: "civil d = (y, m, x) \<Longrightarrow> cal_formatMonth gregorian d = month_key y m"
  by (simp add: gregorian_def month_key_def)

lemma month_key_inj:
  assumes "0 \<le> m" "m < 100" "0 \<le> m'" "m' < 100" "month_key y m = month_key y m'"
  shows "m = m'"
proof -
  have "padded 2 (nat m) = padded 2 (nat m')" using assms(5) by (simp add: month_key_def)
  moreover have "nat m < 10 ^ 2" "nat m' < 10 ^ 2" using assms(2,4) by simp_all
  ultimately have "nat m = nat m'" using digits_val_padded by metis
  then show ?thesis using assms(1,3) by (simp add: nat_eq_iff)
qed

lemma split_month_key:
  assumes "length u = 4" "length v = 2"
  shows "slice 0 4 (u @ ''-'' @ v) = u" "slice 5 7 (u @ ''-'' @ v) = v" "length (u @ ''-'' @ v) < 10"
  using assms by (simp_all add: slice_def)

lemma february_2024:
  "cal_parse gregorian (month_key 2024 2) = 19754" "cal_startOf gregorian 19754 = 19754" "cal_endOf gregorian 19754 = 19782"
  "month_laws gregorian (month_key 2024 2)"
proof -
  have mk: "month_key 2024 2 = padded 4 2024 @ ''-'' @ padded 2 2" by (simp add: month_key_def iso_year_def)
  have "digits_val (padded 4 2024) = 2024" "digits_val (padded 2 2) = 2" by (rule digits_val_padded; simp)+
  then have "digits_val (slice 0 4 (month_key 2024 2)) = 2024" "digits_val (slice 5 7 (month_key 2024 2)) = 2" "length (month_key 2024 2) < 10"
    unfolding mk using split_month_key[OF length_padded length_padded, of 2024 2] by simp_all
  then show p: "cal_parse gregorian (month_key 2024 2) = 19754" by (simp add: gregorian_def days_of_def)
  have c: "civil 19754 = (2024, 2, 1)" by code_simp
  show s: "cal_startOf gregorian 19754 = 19754" and e: "cal_endOf gregorian 19754 = 19782"
    by (simp_all add: gregorian_def c days_of_def)
  have l: "list_all (\<lambda>d. case civil d of (y, m, _) \<Rightarrow> y = 2024 \<and> (if 19754 \<le> d \<and> d \<le> 19782 then m = 2 else m = 1 \<or> m = 3)) [19747..19789]"
    by code_simp
  have r: "cal_formatMonth gregorian d = month_key 2024 2 \<longleftrightarrow> 19754 \<le> d \<and> d \<le> 19782" if "d \<in> {19747..19789}" for d
  proof (cases "civil d")
    case (fields y m x)
    show ?thesis using l[unfolded list_all_iff set_upto, rule_format, OF that] formatMonth_gregorian[OF fields] month_key_inj[of m 2 2024]
      by (cases "19754 \<le> d \<and> d \<le> 19782") (auto simp: fields)
  qed
  have "(19754::int) - 7 = 19747" "(19782::int) + 7 = 19789" "(19754::int) \<le> 19782" by simp_all
  then show "month_laws gregorian (month_key 2024 2)"
    unfolding month_laws_def Let_def p s e formatMonth_gregorian[OF c] using gregorian_weekday r by (simp only:) blast
qed

theorem calendar_matrix_witness:
  "\<exists>start k. start \<le> 19754 \<and> 19782 < start + 7 * int k \<and>
     cm_weeks (useCalendarMatrix gregorian (month_key 2024 2) [] [''S'', ''M'', ''T'', ''W'', ''T'', ''F'', ''S''] 1 [] []) =
       map (\<lambda>w. map (\<lambda>i. createCalendarDayCell gregorian (cal_formatMonth gregorian 19754) [] [] [] (start + int (7 * w + i))) [0..<7]) [0..<k]"
  using calendar_matrix[OF february_2024(4) _ _ _ refl refl refl, of 1 "[''S'', ''M'', ''T'', ''W'', ''T'', ''F'', ''S'']" "[]" "[]" "[]"]
  by (auto simp: february_2024(1-3))

section \<open>The tag tree\<close>

text \<open>The node at a path of keys: its amount.\<close>

fun node_at :: "string option \<Rightarrow> Tag list \<Rightarrow> string list \<Rightarrow> int option" where
  "node_at tagText subs [] = None"
| "node_at tagText subs (key # rest) =
     (case find (\<lambda>x. tag_text x = next_text tagText key) subs of
        None \<Rightarrow> None
      | Some x \<Rightarrow> if rest = [] then Some (tag_amount x) else node_at (Some (next_text tagText key)) (tag_subTags x) rest)"

text \<open>The text of a path.\<close>

fun path_text :: "string option \<Rightarrow> string list \<Rightarrow> string" where
  "path_text tagText [] = (case tagText of None \<Rightarrow> [] | Some t \<Rightarrow> t)"
| "path_text tagText (key # rest) = path_text (Some (next_text tagText key)) rest"

definition new_amount :: "(string \<times> int) list \<Rightarrow> int \<Rightarrow> string \<Rightarrow> int" where
  "new_amount es n t = (if \<exists>(tag, a) \<in> set es. tag = t \<and> a > 1 then n else 0)"

lemma find_update_first:
  assumes "\<And>x. tag_text (f x) = tag_text x"
  shows "find (\<lambda>x. tag_text x = u) (update_first (\<lambda>x. tag_text x = t) f subs) =
    (if u = t then map_option f (find (\<lambda>x. tag_text x = t) subs) else find (\<lambda>x. tag_text x = u) subs)"
  by (induction subs) (auto simp: assms)

lemma find_append: "find P (xs @ ys) = (case find P xs of None \<Rightarrow> find P ys | Some x \<Rightarrow> Some x)"
  by (induction xs) auto

lemma next_text_inj: "next_text t k = next_text t k' \<longleftrightarrow> k = k'"
  by (cases t) (auto simp: next_text_def)

lemma node_at_Nil: "node_at t [] q = None"
  by (cases q) auto

text \<open>Putting in a path adds the nodes of its beginnings that are not there yet, and changes no node.\<close>

lemma node_at_insert:
  "q \<noteq> [] \<Longrightarrow> node_at tagText (insert_tag es n tagText path subs) q =
     (if node_at tagText subs q = None \<and> prefix q path then Some (new_amount es n (path_text tagText q)) else node_at tagText subs q)"
proof (induction path arbitrary: tagText subs q)
  case (Cons key rest)
  obtain k q' where q: "q = k # q'" using Cons.prems by (cases q) auto
  let ?t = "next_text tagText key"
  have IH: "node_at (Some ?t) (insert_tag es n (Some ?t) rest xs) q' =
      (if node_at (Some ?t) xs q' = None \<and> prefix q' rest then Some (new_amount es n (path_text (Some ?t) q')) else node_at (Some ?t) xs q')"
    if "q' \<noteq> []" for xs using Cons.IH[OF that] .
  show ?case
  proof (cases "find (\<lambda>x. tag_text x = ?t) subs")
    case None
    then have no: "\<not> (\<exists>x \<in> set subs. tag_text x = ?t)" by (auto simp: find_None_iff)
    show ?thesis
      using None no IH[of "[]"] by (cases "k = key"; cases "q' = []")
        (auto simp: q Let_def find_append next_text_inj new_amount_def node_at_Nil split: option.splits)
  next
    case (Some x)
    then have ex: "\<exists>x \<in> set subs. tag_text x = ?t" by (auto simp: find_Some_iff)
    show ?thesis
      using Some ex IH[of "tag_subTags x"] by (cases "k = key"; cases "q' = []")
        (auto simp: q Let_def find_update_first next_text_inj split: option.splits)
  qed
qed simp

lemma path_text_join: "path_text (Some t) ks = join ''/'' (t # ks)"
proof (induction ks arbitrary: t)
  case (Cons k ks)
  have "join ''/'' ((t @ ''/'' @ k) # ks) = t @ ''/'' @ join ''/'' (k # ks)" by (cases ks) (simp_all add: join_Cons)
  then show ?case using Cons[of "t @ ''/'' @ k"] by (simp add: next_text_def)
qed simp

lemma join_append: "xs \<noteq> [] \<Longrightarrow> ys \<noteq> [] \<Longrightarrow> join sep (xs @ ys) = join sep xs @ sep @ join sep ys"
proof (induction xs)
  case (Cons x xs)
  then show ?case by (cases "xs = []") (simp_all add: join_Cons)
qed simp

lemma path_text_None: "q \<noteq> [] \<Longrightarrow> path_text None q = join ''/'' q"
  by (cases q) (simp_all add: next_text_def path_text_join)

lemma compare_text_swap: "compare_text b a = - compare_text a b"
  by (induction a b rule: compare_text.induct) auto

lemma compare_text_trans: "compare_text a b \<le> 0 \<Longrightarrow> compare_text b c \<le> 0 \<Longrightarrow> compare_text a c \<le> 0"
proof (induction a b arbitrary: c rule: compare_text.induct)
  case (4 x xs y ys)
  show ?case
  proof (cases c)
    case Nil
    then show ?thesis using "4.prems"(2) by simp
  next
    case (Cons z zs)
    have "code x \<le> code y" "code y \<le> code z" using "4.prems" Cons by (auto split: if_split_asm)
    then show ?thesis using "4.IH"[of zs] "4.prems" Cons by (cases "code x = code y"; cases "code y = code z") simp_all
  qed
next
  case (2 y ys)
  then show ?case by (cases c) auto
qed auto

interpretation te: js_comparator compare_entries
proof
  show "compare_entries a b \<le> 0 \<or> compare_entries b a \<le> 0" for a b
    using compare_text_swap[of "entry_text a" "entry_text b"] by (auto simp: compare_entries_def)
  show "compare_entries a b \<le> 0 \<Longrightarrow> compare_entries b c \<le> 0 \<Longrightarrow> compare_entries a c \<le> 0" for a b c
    unfolding compare_entries_def by (rule compare_text_trans)
qed

lemma compare_text_append: "compare_text (p @ a) (p @ b) = compare_text a b"
  by (induction p) auto

text \<open>A tag sorts before the tags below it, since a comma comes before a slash.\<close>

lemma parent_first: "compare_entries (t @ ''/'' @ u, n) (t, a) > 0"
  by (simp add: compare_entries_def entry_text_def compare_text_append) (simp add: code_def)

lemma sorted_before:
  assumes "sorted_wrt (\<lambda>a b. cmp a b \<le> 0) (xs @ y # ys)" "x \<in> set (xs @ y # ys)" "cmp y x > (0::int)" "x \<noteq> y"
  shows "x \<in> set xs"
  using assms by (auto simp: sorted_wrt_append)

text \<open>The number shown at a tag: its own count, where that is more than one.\<close>

definition own_amount :: "(string \<times> int) list \<Rightarrow> string \<Rightarrow> int" where
  "own_amount es t = (case map_of es t of Some n \<Rightarrow> if n > 1 then n else 0 | None \<Rightarrow> 0)"

lemma new_amount_own:
  assumes "sorted_wrt (\<lambda>a b. compare_entries a b \<le> 0) es" "distinct (map fst es)" "es = xs @ (tag, n) # ys"
    and "prefix q (split_on (CHR ''/'') tag)" "q \<noteq> []" "\<not> (\<exists>e \<in> set xs. prefix q (split_on (CHR ''/'') (fst e)))"
  shows "new_amount es n (path_text None q) = own_amount es (path_text None q)"
proof (cases "\<exists>a. (path_text None q, a) \<in> set es \<and> a > 1")
  case False
  then show ?thesis by (auto simp: new_amount_def own_amount_def split: option.splits dest: map_of_SomeD)
next
  case True
  then obtain a where a: "(path_text None q, a) \<in> set es" "a > 1" by blast
  have slash: "CHR ''/'' \<notin> set k" if "k \<in> set q" for k
    using that set_split_on assms(4) by (metis set_mono_prefix subsetD)
  have t: "split_on (CHR ''/'') (path_text None q) = q" using assms(5) slash by (simp add: path_text_None split_on_join)
  obtain r where r: "split_on (CHR ''/'') tag = q @ r" using assms(4) by (auto simp: prefix_def)
  have tag: "tag = join ''/'' (q @ r)" using r join_split_on[of "CHR ''/''" tag] by simp
  have "path_text None q = tag"
  proof (rule ccontr)
    assume ne: "path_text None q \<noteq> tag"
    then have "r \<noteq> []" using tag assms(5) by (auto simp: path_text_None)
    then have "tag = path_text None q @ ''/'' @ join ''/'' r" using tag assms(5) by (simp add: path_text_None join_append)
    then have "compare_entries (tag, n) (path_text None q, a) > 0" using parent_first by simp
    then have "(path_text None q, a) \<in> set xs" using sorted_before[OF assms(1)[unfolded assms(3)]] a(1) assms(3) ne by auto
    then show False using assms(6) t by force
  qed
  then have "new_amount es n (path_text None q) = n" "own_amount es (path_text None q) = (if n > 1 then n else 0)" "a = n"
    using a assms(3) eq_key_imp_eq_value[OF assms(2), of tag a n] map_of_is_SomeI[OF assms(2), of tag n]
    by (auto simp: new_amount_def own_amount_def simp del: map_of_append)
  then show ?thesis using a(2) by simp
qed

definition insert_entry :: "(string \<times> int) list \<Rightarrow> string \<times> int \<Rightarrow> Tag list \<Rightarrow> Tag list" where
  "insert_entry es e subs = insert_tag es (snd e) None (split_on (CHR ''/'') (fst e)) subs"

lemma TagTree_fold: "TagTree tags = fold (insert_entry (js_sort compare_entries tags)) (js_sort compare_entries tags) []"
  unfolding TagTree_def Let_def by (rule fold_cong) (auto simp: insert_entry_def fun_eq_iff)

lemma node_at_fold:
  assumes "sorted_wrt (\<lambda>a b. compare_entries a b \<le> 0) es" "distinct (map fst es)" "es = xs @ ys" "q \<noteq> []"
  shows "node_at None (fold (insert_entry es) xs []) q =
    (if \<exists>e \<in> set xs. prefix q (split_on (CHR ''/'') (fst e)) then Some (own_amount es (path_text None q)) else None)"
  using assms(3)
proof (induction xs arbitrary: ys rule: rev_induct)
  case Nil
  then show ?case by (simp add: node_at_Nil)
next
  case (snoc x xs)
  obtain tag n where x: "x = (tag, n)" by (cases x)
  have IH: "node_at None (fold (insert_entry es) xs []) q =
      (if \<exists>e \<in> set xs. prefix q (split_on (CHR ''/'') (fst e)) then Some (own_amount es (path_text None q)) else None)"
    using snoc.IH[of "x # ys"] snoc.prems by simp
  have own: "new_amount es n (path_text None q) = own_amount es (path_text None q)"
    if "prefix q (split_on (CHR ''/'') tag)" "\<not> (\<exists>e \<in> set xs. prefix q (split_on (CHR ''/'') (fst e)))"
    using new_amount_own[OF assms(1,2) _ that(1) assms(4) that(2)] snoc.prems x by simp
  have "node_at None (insert_entry es x subs) q =
      (if node_at None subs q = None \<and> prefix q (split_on (CHR ''/'') tag) then Some (new_amount es n (path_text None q)) else node_at None subs q)" for subs
    by (simp add: x insert_entry_def node_at_insert[OF assms(4)])
  then show ?case using IH own by (auto simp: x)
qed

text \<open>C3. The tree of tags. For a list of tags with their counts, each tag once, the tree has a node exactly for every beginning, at a slash, of
  one of the tags, found by following its keys; the number at a node is the tag's own count where the path is itself a tag
  with more than one memo, and nothing otherwise, whatever the order of the list.\<close>

theorem tag_tree_nodes:
  assumes "distinct (map fst tags)" "q \<noteq> []"
  shows "node_at None (TagTree tags) q =
    (if \<exists>e \<in> set tags. prefix q (split_on (CHR ''/'') (fst e)) then Some (own_amount tags (join ''/'' q)) else None)"
proof -
  let ?es = "js_sort compare_entries tags"
  have m: "mset ?es = mset tags" by (rule te.mset_js_sort)
  then have d: "distinct (map fst ?es)" using assms(1) mset_eq_imp_distinct_iff[of "map fst ?es" "map fst tags"] by simp
  have "map_of ?es = map_of tags"
    using map_of_inject_set[OF d assms(1)] mset_eq_setD[OF m] by simp
  then show ?thesis
    using node_at_fold[OF te.sorted_js_sort d, of ?es "[]" q] assms(2) mset_eq_setD[OF m]
    by (simp add: TagTree_fold own_amount_def path_text_None)
qed

theorem tag_tree_nodes_witness:
  "node_at None (TagTree [(''work/a'', 3), (''home'', 1), (''work'', 2)]) [''work''] = Some 2 \<and>
   node_at None (TagTree [(''work/a'', 3), (''home'', 1), (''work'', 2)]) [''work'', ''b''] = None"
proof -
  let ?t = "[(''work/a'', 3), (''home'', 1), (''work'', 2)] :: (string \<times> int) list"
  have d: "distinct (map fst ?t)" by simp
  show ?thesis using tag_tree_nodes[OF d, of "[''work'']"] tag_tree_nodes[OF d, of "[''work'', ''b'']"] by (simp add: own_amount_def)
qed

section \<open>From a day to a memo\<close>

text \<open>A click on a day of the calendar leads to a list in which a new memo gets that day.\<close>

lemma derived_day:
  "deriveDefaultCreateTimeFromFilters lt [\<lparr>factor = ''displayTime'', f_value = d\<rparr>] now = Some t \<Longrightarrow> date_re d = Some (lt_day lt t)"
  by (auto simp: deriveDefaultCreateTimeFromFilters_def Let_def split: option.splits if_splits)

end
