(* ===== verification/Transitions.thy ===== *)
theory Transitions
  imports Main
begin

text \<open>
  Transition systems: the states that can be reached from an initial state by labelled steps, and the interface of an
  invariant, which the state machines of the components implement.
\<close>

inductive reachable :: "('s \<Rightarrow> bool) \<Rightarrow> ('e \<Rightarrow> 's \<Rightarrow> 's \<Rightarrow> bool) \<Rightarrow> 's \<Rightarrow> bool" for initial step where
  start: "initial s \<Longrightarrow> reachable initial step s"
| step: "reachable initial step s \<Longrightarrow> step e s s' \<Longrightarrow> reachable initial step s'"

text \<open>A sequence of steps.\<close>

inductive steps :: "('e \<Rightarrow> 's \<Rightarrow> 's \<Rightarrow> bool) \<Rightarrow> 'e list \<Rightarrow> 's \<Rightarrow> 's \<Rightarrow> bool" for step where
  none: "steps step [] s s"
| some: "step e s s1 \<Longrightarrow> steps step es s1 s2 \<Longrightarrow> steps step (e # es) s s2"

inductive_cases steps_NilE: "steps step [] s s'"
inductive_cases steps_ConsE: "steps step (e # es) s s'"

lemma steps_Nil_iff: "steps step [] s s' \<longleftrightarrow> s' = s"
  by (auto intro: none elim: steps_NilE)

lemma steps_Cons_iff: "steps step (e # es) s s' \<longleftrightarrow> (\<exists>s1. step e s s1 \<and> steps step es s1 s')"
  by (auto intro: some elim: steps_ConsE)

lemma reachable_steps: "reachable initial step s \<Longrightarrow> steps step es s s' \<Longrightarrow> reachable initial step s'"
  by (induction es arbitrary: s) (auto simp: steps_Nil_iff steps_Cons_iff intro: reachable.step)

locale invariant =
  fixes initial :: "'s \<Rightarrow> bool" and step :: "'e \<Rightarrow> 's \<Rightarrow> 's \<Rightarrow> bool" and I :: "'s \<Rightarrow> bool"
  assumes initial_I: "initial s \<Longrightarrow> I s"
    and step_I: "I s \<Longrightarrow> step e s s' \<Longrightarrow> I s'"
begin

lemma reachable_I: "reachable initial step s \<Longrightarrow> I s"
  by (induction rule: reachable.induct) (auto intro: initial_I step_I)

lemma steps_I: "steps step es s s' \<Longrightarrow> I s \<Longrightarrow> I s'"
  by (induction rule: steps.induct) (auto intro: step_I)

end

end
