(* ===== verification/Recorder.thy ===== *)
theory Recorder
  imports Transitions TextEditor SaveMemo
begin

text \<open>
  Recording audio in the editor: the hook \<open>hooks/useAudioRecorder.ts\<close> with its refs, the handlers of
  \<open>MemoEditor/index.tsx\<close> around it, and the browser's side of it (the permission prompt, streams and recorders), as a
  step relation in which prompts, data and stop events come at any later time. A recorder that is started without a time slice delivers
  its data in one piece when it stops, and then reports the stop; it stops by itself when its stream ends.
\<close>

section \<open>The hook\<close>

definition FALLBACK_AUDIO_MIME_TYPE :: string where "FALLBACK_AUDIO_MIME_TYPE = ''audio/webm''"

datatype AudioRecordingCompleteMode = attach | transcribe

definition AUDIO_MIME_TYPE_CANDIDATES :: "string list" where
  "AUDIO_MIME_TYPE_CANDIDATES = [''audio/webm;codecs=opus'', ''audio/webm'', ''audio/mp4'', ''audio/ogg;codecs=opus'']"

text \<open>\<open>isTypeSupported\<close> is what the browser supports.\<close>

definition getSupportedAudioMimeType :: "(string \<Rightarrow> bool) \<Rightarrow> string option" where
  "getSupportedAudioMimeType isTypeSupported = find isTypeSupported AUDIO_MIME_TYPE_CANDIDATES"

definition getFileExtension :: "string \<Rightarrow> string" where
  "getFileExtension mimeType =
     (if str_includes mimeType ''ogg'' then ''ogg'' else if str_includes mimeType ''mp4'' then ''m4a'' else ''webm'')"

text \<open>\<open>local_fields\<close> are the year, month, day, hour, minute and second of a time, in local time.\<close>

definition createRecordedFile :: "(date \<Rightarrow> nat \<times> nat \<times> nat \<times> nat \<times> nat \<times> nat) \<Rightarrow> date \<Rightarrow> nat list \<Rightarrow> string \<Rightarrow> File" where
  "createRecordedFile local_fields now blob mimeType =
     (case local_fields now of (y, mo, d, h, mi, s) \<Rightarrow>
       \<lparr>file_name = ''voice-note-'' @ show_nat y @ padded 2 mo @ padded 2 d @ ''-'' @ padded 2 h @ padded 2 mi @ padded 2 s @ ''.''
          @ getFileExtension mimeType,
        file_size = int (length blob), file_type = mimeType, file_bytes = blob\<rparr>)"

record recorder_hook =
  mediaRecorderRef :: "nat option"
  mediaStreamRef :: "nat option"
  recordingStream :: "nat option"
  chunksRef :: "nat list list"
  startedAtRef :: "date option"
  elapsedTimerRef :: bool
  recorderMimeTypeRef :: string
  completionModeRef :: AudioRecordingCompleteMode
  startRequestIdRef :: nat

definition initial_hook :: recorder_hook where
  "initial_hook = \<lparr>mediaRecorderRef = None, mediaStreamRef = None, recordingStream = None, chunksRef = [], startedAtRef = None,
     elapsedTimerRef = False, recorderMimeTypeRef = FALLBACK_AUDIO_MIME_TYPE, completionModeRef = attach, startRequestIdRef = 0\<rparr>"

text \<open>A recorder of the browser: the request whose listeners it has, its stream, whether it is still active, and the events it has fired.\<close>

record media_recorder =
  mr_request :: nat
  mr_stream :: nat
  mr_active :: bool
  mr_data :: "nat list option"
  mr_stopped :: bool

record browser_audio =
  ba_supported :: bool
  ba_types :: "string \<Rightarrow> bool"
  ba_localFields :: "date \<Rightarrow> nat \<times> nat \<times> nat \<times> nat \<times> nat \<times> nat"

text \<open>The editor around the hook. \<open>rw_live\<close> are the streams with a live track, that is, the microphones in use; \<open>rw_prompts\<close> are the requests
  for permission that are not answered; \<open>rw_transcribing\<close> are the files whose transcription has been asked for.\<close>

record recorder_world =
  rw_browser :: browser_audio
  rw_hook :: recorder_hook
  rw_editor :: EditorState
  rw_recorders :: "media_recorder list"
  rw_live :: "nat set"
  rw_streams :: nat
  rw_prompts :: "nat set"
  rw_now :: date
  rw_urls :: nat
  rw_open :: bool
  rw_isTranscribing :: bool
  rw_canTranscribe :: bool
  rw_transcribing :: "LocalFile list"
  rw_toasts :: "string list"
  rw_mounted :: bool

definition dispatch :: "EditorAction \<Rightarrow> recorder_world \<Rightarrow> recorder_world" where
  "dispatch a w = w\<lparr>rw_editor := editorReducer (rw_editor w) a\<rparr>"

definition map_hook :: "(recorder_hook \<Rightarrow> recorder_hook) \<Rightarrow> recorder_world \<Rightarrow> recorder_world" where
  "map_hook f w = w\<lparr>rw_hook := f (rw_hook w)\<rparr>"

definition cleanupTimer :: "recorder_world \<Rightarrow> recorder_world" where
  "cleanupTimer = map_hook (\<lambda>h. h\<lparr>elapsedTimerRef := False\<rparr>)"

text \<open>Stopping the tracks of a stream ends it, and its recorders become inactive.\<close>

definition stop_tracks :: "nat \<Rightarrow> recorder_world \<Rightarrow> recorder_world" where
  "stop_tracks s w = w\<lparr>rw_live := rw_live w - {s},
     rw_recorders := map (\<lambda>r. if mr_stream r = s then r\<lparr>mr_active := False\<rparr> else r) (rw_recorders w)\<rparr>"

definition cleanupStream :: "recorder_world \<Rightarrow> recorder_world" where
  "cleanupStream w =
     map_hook (\<lambda>h. h\<lparr>mediaStreamRef := None, recordingStream := None\<rparr>)
       (case mediaStreamRef (rw_hook w) of None \<Rightarrow> w | Some s \<Rightarrow> stop_tracks s w)"

definition resetRecorderRefs :: "recorder_world \<Rightarrow> recorder_world" where
  "resetRecorderRefs w =
     map_hook (\<lambda>h. h\<lparr>mediaRecorderRef := None, chunksRef := [], startedAtRef := None\<rparr>) (cleanupStream (cleanupTimer w))"

definition UNSUPPORTED_ERROR :: string where "UNSUPPORTED_ERROR = ''Audio recording is not supported in this browser.''"

text \<open>The effect of the hook, on mounting and, after its cleanup, when \<open>actions\<close> changes.\<close>

definition recorder_effect :: "recorder_world \<Rightarrow> recorder_world" where
  "recorder_effect w =
     (let s = ba_supported (rw_browser w); w1 = dispatch (setAudioRecorderSupport s) w
      in if \<not> s then dispatch (setAudioRecorderError (Some UNSUPPORTED_ERROR)) (dispatch (setAudioRecorderStatus st_unsupported) w1)
         else dispatch (setAudioRecorderError None) (dispatch (setAudioRecorderStatus st_idle) w1))"

definition actions_changed :: "recorder_world \<Rightarrow> recorder_world" where
  "actions_changed w = recorder_effect (if ba_supported (rw_browser w) then resetRecorderRefs w else w)"

definition recorder_unmount :: "recorder_world \<Rightarrow> recorder_world" where
  "recorder_unmount w = (if ba_supported (rw_browser w) then resetRecorderRefs w else w)\<lparr>rw_mounted := False\<rparr>"

section \<open>Starting\<close>

definition startRecording :: "recorder_world \<Rightarrow> recorder_world" where
  "startRecording w =
     (let requestId = startRequestIdRef (rw_hook w) + 1; w1 = map_hook (\<lambda>h. h\<lparr>startRequestIdRef := requestId\<rparr>) w
      in if \<not> ba_supported (rw_browser w)
         then dispatch (setAudioRecorderError (Some UNSUPPORTED_ERROR)) (dispatch (setAudioRecorderStatus st_unsupported)
                (dispatch (setAudioRecorderSupport False) w1))
         else (dispatch (setAudioRecorderElapsed 0) (dispatch (setAudioRecorderStatus st_requesting_permission)
                (dispatch (setAudioRecorderError None) w1)))\<lparr>rw_prompts := insert requestId (rw_prompts w)\<rparr>)"

text \<open>The \<open>catch\<close> block.\<close>

definition start_failed :: "nat \<Rightarrow> bool \<Rightarrow> recorder_world \<Rightarrow> recorder_world" where
  "start_failed requestId permissionDenied w =
     (if startRequestIdRef (rw_hook w) \<noteq> requestId then w
      else resetRecorderRefs
        (dispatch (setAudioRecorderError (Some (if permissionDenied then ''Microphone permission was denied.'' else ''Failed to start audio recording.'')))
          (dispatch (setAudioRecorderStatus st_error)
            (dispatch (setAudioRecorderPermission (if permissionDenied then perm_denied else perm_unknown)) w))))"

text \<open>What can throw after the stream is there: the constructor of the recorder, or its start.\<close>

datatype start_outcome = Starts | ConstructorThrows | StartThrows

definition stream_granted :: "nat \<Rightarrow> start_outcome \<Rightarrow> recorder_world \<Rightarrow> recorder_world" where
  "stream_granted requestId outcome w0 =
     (let s = rw_streams w0;
          w = w0\<lparr>rw_live := insert s (rw_live w0), rw_streams := Suc s, rw_prompts := rw_prompts w0 - {requestId}\<rparr>
      in if startRequestIdRef (rw_hook w) \<noteq> requestId then stop_tracks s w
         else if outcome = ConstructorThrows then start_failed requestId False w
         else
           let mimeType = (case getSupportedAudioMimeType (ba_types (rw_browser w)) of Some t \<Rightarrow> t | None \<Rightarrow> FALLBACK_AUDIO_MIME_TYPE);
               i = length (rw_recorders w);
               w1 = (map_hook (\<lambda>h. h\<lparr>recorderMimeTypeRef := mimeType, mediaStreamRef := Some s, recordingStream := Some s,
                        mediaRecorderRef := Some i, chunksRef := []\<rparr>) w)
                    \<lparr>rw_recorders := rw_recorders w @
                       [\<lparr>mr_request = requestId, mr_stream = s, mr_active = (outcome = Starts), mr_data = None, mr_stopped = (outcome \<noteq> Starts)\<rparr>]\<rparr>
           in if outcome = StartThrows then start_failed requestId False w1
              else map_hook (\<lambda>h. h\<lparr>elapsedTimerRef := True\<rparr>)
                     (dispatch (setAudioRecorderStatus st_recording) (dispatch (setAudioRecorderPermission perm_granted)
                       (map_hook (\<lambda>h. h\<lparr>startedAtRef := Some (rw_now w)\<rparr>) w1))))"

definition prompt_rejected :: "nat \<Rightarrow> bool \<Rightarrow> recorder_world \<Rightarrow> recorder_world" where
  "prompt_rejected requestId permissionDenied w = start_failed requestId permissionDenied (w\<lparr>rw_prompts := rw_prompts w - {requestId}\<rparr>)"

section \<open>Events of a recorder\<close>

definition dataavailable :: "nat \<Rightarrow> nat list \<Rightarrow> recorder_world \<Rightarrow> recorder_world" where
  "dataavailable i blob w =
     (let w1 = w\<lparr>rw_recorders := (rw_recorders w)[i := (rw_recorders w ! i)\<lparr>mr_data := Some blob\<rparr>]\<rparr>
      in if startRequestIdRef (rw_hook w) \<noteq> mr_request (rw_recorders w ! i) then w1
         else if blob \<noteq> [] then map_hook (\<lambda>h. h\<lparr>chunksRef := chunksRef h @ [blob]\<rparr>) w1 else w1)"

text \<open>\<open>handleTranscribeRecordedAudio\<close> up to the request, and \<open>onRecordingComplete\<close>, \<open>onRecordingEmpty\<close>.\<close>

definition handleTranscribeRecordedAudio :: "LocalFile \<Rightarrow> recorder_world \<Rightarrow> recorder_world" where
  "handleTranscribeRecordedAudio f w =
     (if \<not> rw_canTranscribe w then (dispatch (addLocalFile f) w)\<lparr>rw_isTranscribing := False, rw_open := False\<rparr>
      else w\<lparr>rw_transcribing := rw_transcribing w @ [f]\<rparr>)"

definition onRecordingComplete :: "LocalFile \<Rightarrow> AudioRecordingCompleteMode \<Rightarrow> recorder_world \<Rightarrow> recorder_world" where
  "onRecordingComplete f mode w =
     (if mode = transcribe then handleTranscribeRecordedAudio f w else (dispatch (addLocalFile f) w)\<lparr>rw_open := False\<rparr>)"

definition onRecordingEmpty :: "AudioRecordingCompleteMode \<Rightarrow> recorder_world \<Rightarrow> recorder_world" where
  "onRecordingEmpty mode w =
     (if mode = transcribe then w\<lparr>rw_isTranscribing := False, rw_toasts := rw_toasts w @ [''editor.audio-recorder.transcribe-empty''], rw_open := False\<rparr>
      else w\<lparr>rw_open := False\<rparr>)"

text \<open>\<open>Math.round\<close> of milliseconds as seconds.\<close>

definition duration_seconds :: "date \<Rightarrow> date option \<Rightarrow> nat" where
  "duration_seconds now startedAt = (case startedAt of None \<Rightarrow> 0 | Some t \<Rightarrow> if t = 0 then 0 else nat ((now - t + 500) div 1000))"

definition idle_again :: "recorder_world \<Rightarrow> recorder_world" where
  "idle_again w = dispatch (setAudioRecorderStatus st_idle) (dispatch (setAudioRecorderError None) (dispatch (setAudioRecorderElapsed 0) w))"

definition recorder_stopped :: "nat \<Rightarrow> recorder_world \<Rightarrow> recorder_world" where
  "recorder_stopped i w0 =
     (let w = w0\<lparr>rw_recorders := (rw_recorders w0)[i := (rw_recorders w0 ! i)\<lparr>mr_stopped := True\<rparr>]\<rparr>; h = rw_hook w
      in if startRequestIdRef h \<noteq> mr_request (rw_recorders w0 ! i) then w
         else
           let durationSeconds = duration_seconds (rw_now w) (startedAtRef h); blob = concat (chunksRef h); mode = completionModeRef h;
               w1 = map_hook (\<lambda>h. h\<lparr>completionModeRef := attach\<rparr>) w
           in if blob = [] then resetRecorderRefs (onRecordingEmpty mode (idle_again w1))
              else
                let file = createRecordedFile (ba_localFields (rw_browser w)) (rw_now w) blob (recorderMimeTypeRef h);
                    previewUrl = ''blob:'' @ show_nat (rw_urls w)
                in resetRecorderRefs (idle_again (onRecordingComplete
                     \<lparr>lf_file = file, lf_previewUrl = previewUrl, lf_origin = Some audio_recording, lf_durationSeconds = Some durationSeconds,
                      lf_motionMedia = None\<rparr> mode (w1\<lparr>rw_urls := Suc (rw_urls w1)\<rparr>))))"

definition elapsed_tick :: "recorder_world \<Rightarrow> recorder_world" where
  "elapsed_tick w = (case startedAtRef (rw_hook w) of
     None \<Rightarrow> w
   | Some t \<Rightarrow> if t = 0 then w else dispatch (setAudioRecorderElapsed (nat ((rw_now w - t) div 1000))) w)"

section \<open>Stopping\<close>

definition stopRecording :: "AudioRecordingCompleteMode \<Rightarrow> recorder_world \<Rightarrow> bool \<times> recorder_world" where
  "stopRecording mode w =
     (case mediaRecorderRef (rw_hook w) of
        None \<Rightarrow> (False, w)
      | Some i \<Rightarrow>
          if \<not> mr_active (rw_recorders w ! i) then (False, w)
          else let w1 = cleanupTimer (map_hook (\<lambda>h. h\<lparr>completionModeRef := mode\<rparr>) w)
               in (True, w1\<lparr>rw_recorders := (rw_recorders w1)[i := (rw_recorders w1 ! i)\<lparr>mr_active := False\<rparr>]\<rparr>))"

definition resetRecording :: "recorder_world \<Rightarrow> recorder_world" where
  "resetRecording w =
     idle_again (resetRecorderRefs (map_hook (\<lambda>h. h\<lparr>startRequestIdRef := startRequestIdRef h + 1, completionModeRef := attach\<rparr>) w))"

section \<open>Handlers of the editor\<close>

definition handleAudioRecorderClick :: "recorder_world \<Rightarrow> recorder_world" where
  "handleAudioRecorderClick w =
     (if status (audioRecorder (rw_editor w)) = st_recording \<or> status (audioRecorder (rw_editor w)) = st_requesting_permission then w
      else startRecording (w\<lparr>rw_open := True\<rparr>))"

definition handleCancelAudioRecording :: "recorder_world \<Rightarrow> recorder_world" where
  "handleCancelAudioRecording w = (resetRecording (w\<lparr>rw_isTranscribing := False\<rparr>))\<lparr>rw_open := False\<rparr>"

definition handleTranscribeAudioRecording :: "recorder_world \<Rightarrow> recorder_world" where
  "handleTranscribeAudioRecording w =
     (if \<not> rw_canTranscribe w \<or> rw_isTranscribing w then w
      else case stopRecording transcribe (w\<lparr>rw_isTranscribing := True\<rparr>) of
        (True, w1) \<Rightarrow> w1 | (False, w1) \<Rightarrow> w1\<lparr>rw_isTranscribing := False\<rparr>)"

text \<open>The effect that closes the panel on an error.\<close>

definition recorder_error_effect :: "recorder_world \<Rightarrow> recorder_world" where
  "recorder_error_effect w =
     (let a = audioRecorder (rw_editor w)
      in if rw_open w \<and> (status a = st_error \<or> status a = st_unsupported)
         then w\<lparr>rw_toasts := rw_toasts w @ [if truthy (recorder_error a) then the (recorder_error a) else ''editor.audio-recorder.error-description''],
                rw_open := False\<rparr>
         else w)"

text \<open>The text of a transcription goes into the editor, as a paragraph of its own.\<close>

definition ends_with :: "string \<Rightarrow> string \<Rightarrow> bool" where
  "ends_with s t \<longleftrightarrow> length t \<le> length s \<and> drop (length s - length t) s = t"

definition insertTranscribedText :: "string \<Rightarrow> textarea \<Rightarrow> textarea" where
  "insertTranscribedText txt ta =
     (let cursor = getCursorPosition ta; beforeCursor = take cursor (ta_value ta); afterCursor = drop cursor (ta_value ta); nl = [newline];
          pre = (if beforeCursor = [] \<or> ends_with beforeCursor (nl @ nl) then [] else if ends_with beforeCursor nl then nl else nl @ nl);
          suf = (if afterCursor = [] \<or> starts_with afterCursor (nl @ nl) then [] else if starts_with afterCursor nl then nl else nl @ nl)
      in insertText txt pre suf ta)"

text \<open>The answer to a transcription. \<open>message\<close> is the text of an error.\<close>

definition transcription_answer :: "(js_error \<Rightarrow> string) \<Rightarrow> LocalFile \<Rightarrow> js_error + string \<Rightarrow> recorder_world \<times> textarea \<Rightarrow> recorder_world \<times> textarea" where
  "transcription_answer message f answer = (\<lambda>(w, ta).
     let (w1, ta1) = (case answer of
           Inr t \<Rightarrow>
             (let txt = trim t
              in if txt = [] then ((dispatch (addLocalFile f) w)\<lparr>rw_toasts := rw_toasts w @ [''editor.audio-recorder.transcribe-empty'']\<rparr>, ta)
                 else (w\<lparr>rw_toasts := rw_toasts w @ [''editor.audio-recorder.transcribe-success'']\<rparr>, insertTranscribedText txt ta))
         | Inl e \<Rightarrow>
             (dispatch (addLocalFile f) (w\<lparr>rw_toasts := rw_toasts w @ [if message e = [] then ''editor.audio-recorder.transcribe-error'' else message e]\<rparr>), ta))
     in (w1\<lparr>rw_isTranscribing := False, rw_open := False\<rparr>, ta1))"

section \<open>The steps\<close>

datatype recorder_event = Click | Granted nat start_outcome | Rejected nat bool | Data nat "nat list" | Stopped nat | Tick
  | StopClick | TranscribeClick | Cancel | ActionsChanged | ErrorEffect | Unmount | Time date

inductive recorder_step :: "recorder_event \<Rightarrow> recorder_world \<Rightarrow> recorder_world \<Rightarrow> bool" where
  click: "rw_mounted w \<Longrightarrow> recorder_step Click w (handleAudioRecorderClick w)"
| granted: "n \<in> rw_prompts w \<Longrightarrow> recorder_step (Granted n x) w (stream_granted n x w)"
| rejected: "n \<in> rw_prompts w \<Longrightarrow> recorder_step (Rejected n d) w (prompt_rejected n d w)"
| data: "i < length (rw_recorders w) \<Longrightarrow> r = rw_recorders w ! i \<Longrightarrow> \<not> mr_active r \<Longrightarrow> \<not> mr_stopped r \<Longrightarrow> mr_data r = None \<Longrightarrow>
    recorder_step (Data i b) w (dataavailable i b w)"
| stopped: "i < length (rw_recorders w) \<Longrightarrow> r = rw_recorders w ! i \<Longrightarrow> \<not> mr_active r \<Longrightarrow> \<not> mr_stopped r \<Longrightarrow> mr_data r \<noteq> None \<Longrightarrow>
    recorder_step (Stopped i) w (recorder_stopped i w)"
| tick: "elapsedTimerRef (rw_hook w) \<Longrightarrow> recorder_step Tick w (elapsed_tick w)"
| stop_click: "rw_mounted w \<Longrightarrow> recorder_step StopClick w (snd (stopRecording attach w))"
| transcribe_click: "rw_mounted w \<Longrightarrow> recorder_step TranscribeClick w (handleTranscribeAudioRecording w)"
| cancel: "rw_mounted w \<Longrightarrow> recorder_step Cancel w (handleCancelAudioRecording w)"
| actions_changed: "rw_mounted w \<Longrightarrow> recorder_step ActionsChanged w (actions_changed w)"
| error_effect: "rw_mounted w \<Longrightarrow> recorder_step ErrorEffect w (recorder_error_effect w)"
| unmount: "rw_mounted w \<Longrightarrow> recorder_step Unmount w (recorder_unmount w)"
| time: "rw_now w \<le> t \<Longrightarrow> recorder_step (Time t) w (w\<lparr>rw_now := t\<rparr>)"

inductive_cases recorder_stepE: "recorder_step e w w'"

text \<open>The steps of an editor that stays open, in a browser in which a recorder can be made for a granted stream.\<close>

definition healthy_step :: "recorder_event \<Rightarrow> recorder_world \<Rightarrow> recorder_world \<Rightarrow> bool" where
  "healthy_step e w w' \<longleftrightarrow> recorder_step e w w' \<and> e \<noteq> Unmount \<and> (\<forall>n. e \<noteq> Granted n ConstructorThrows)"

abbreviation rw_status :: "recorder_world \<Rightarrow> AudioRecorderStatus" where
  "rw_status w \<equiv> status (audioRecorder (rw_editor w))"

definition recorder_initial :: "recorder_world \<Rightarrow> bool" where
  "recorder_initial w \<longleftrightarrow> rw_hook w = initial_hook \<and> rw_recorders w = [] \<and> rw_live w = {} \<and> rw_prompts w = {} \<and> rw_status w \<noteq> st_recording"

text \<open>The chunks that the hook keeps of a recorder.\<close>

definition chunks_of :: "media_recorder \<Rightarrow> nat list list" where
  "chunks_of r = (case mr_data r of None \<Rightarrow> [] | Some b \<Rightarrow> if b = [] then [] else [b])"

definition recorder_ok :: "recorder_world \<Rightarrow> media_recorder \<Rightarrow> bool" where
  "recorder_ok w r \<longleftrightarrow> mr_request r \<le> startRequestIdRef (rw_hook w) \<and> mr_request r \<notin> rw_prompts w \<and> mr_stream r < rw_streams w \<and>
     (mr_active r \<longrightarrow> mr_data r = None)"

text \<open>The part of the invariant that does not depend on the current recorder.\<close>

definition recorder_static :: "recorder_world \<Rightarrow> bool" where
  "recorder_static w \<longleftrightarrow> rw_live w = set_option (mediaStreamRef (rw_hook w)) \<and> list_all (recorder_ok w) (rw_recorders w) \<and>
     distinct (map mr_request (rw_recorders w)) \<and> (\<forall>n \<in> rw_prompts w. n \<le> startRequestIdRef (rw_hook w)) \<and>
     (\<not> ba_supported (rw_browser w) \<longrightarrow> rw_prompts w = {} \<and> mediaRecorderRef (rw_hook w) = None)"

definition recorder_inv :: "recorder_world \<Rightarrow> bool" where
  "recorder_inv w \<longleftrightarrow> (let h = rw_hook w; rs = rw_recorders w in
     recorder_static w \<and> (mediaStreamRef h = None \<longleftrightarrow> mediaRecorderRef h = None) \<and> (rw_status w = st_recording \<longleftrightarrow> mediaRecorderRef h \<noteq> None) \<and>
     (\<forall>i. mediaRecorderRef h = Some i \<longrightarrow> i < length rs \<and> mr_request (rs ! i) = startRequestIdRef h \<and>
        mediaStreamRef h = Some (mr_stream (rs ! i)) \<and> \<not> mr_stopped (rs ! i) \<and> chunksRef h = chunks_of (rs ! i)))"

lemmas inv_unfold = recorder_inv_def recorder_static_def recorder_ok_def list_all_iff Let_def

lemma hook_frame [simp]:
  "rw_hook (dispatch a w) = rw_hook w" "rw_recorders (dispatch a w) = rw_recorders w" "rw_live (dispatch a w) = rw_live w"
  "rw_streams (dispatch a w) = rw_streams w" "rw_prompts (dispatch a w) = rw_prompts w" "rw_browser (dispatch a w) = rw_browser w"
  "rw_editor (dispatch a w) = editorReducer (rw_editor w) a" "rw_now (dispatch a w) = rw_now w"
  "rw_hook (map_hook f w) = f (rw_hook w)" "rw_recorders (map_hook f w) = rw_recorders w" "rw_live (map_hook f w) = rw_live w"
  "rw_streams (map_hook f w) = rw_streams w" "rw_prompts (map_hook f w) = rw_prompts w" "rw_browser (map_hook f w) = rw_browser w"
  "rw_editor (map_hook f w) = rw_editor w" "rw_now (map_hook f w) = rw_now w"
  by (simp_all add: dispatch_def map_hook_def)

definition deactivate :: "nat option \<Rightarrow> media_recorder list \<Rightarrow> media_recorder list" where
  "deactivate s = map (\<lambda>r. if Some (mr_stream r) = s then r\<lparr>mr_active := False\<rparr> else r)"

lemma deactivate_props [simp]:
  "length (deactivate s rs) = length rs" "map mr_request (deactivate s rs) = map mr_request rs" "deactivate None rs = rs"
  by (simp_all add: deactivate_def comp_def if_distrib cong: if_cong)

lemma deactivate_set:
  "r \<in> set (deactivate s rs) \<Longrightarrow> \<exists>r' \<in> set rs. mr_request r = mr_request r' \<and> mr_stream r = mr_stream r' \<and> mr_data r = mr_data r' \<and> mr_stopped r = mr_stopped r' \<and> (mr_active r \<longrightarrow> mr_active r')"
  by (auto simp: deactivate_def split: if_splits)

lemma reset_refs [simp]:
  "rw_hook (resetRecorderRefs w) = (rw_hook w)\<lparr>elapsedTimerRef := False, mediaStreamRef := None, recordingStream := None, mediaRecorderRef := None,
      chunksRef := [], startedAtRef := None\<rparr>"
  "rw_live (resetRecorderRefs w) = rw_live w - set_option (mediaStreamRef (rw_hook w))"
  "rw_recorders (resetRecorderRefs w) = deactivate (mediaStreamRef (rw_hook w)) (rw_recorders w)"
  "rw_streams (resetRecorderRefs w) = rw_streams w" "rw_prompts (resetRecorderRefs w) = rw_prompts w" "rw_browser (resetRecorderRefs w) = rw_browser w"
  "rw_editor (resetRecorderRefs w) = rw_editor w"
  by (cases "mediaStreamRef (rw_hook w)"; auto simp: resetRecorderRefs_def cleanupStream_def cleanupTimer_def stop_tracks_def deactivate_def cong: if_cong)+

text \<open>After a reset, what matters is that nobody says a recording runs.\<close>

lemma static_reset: "recorder_static w \<Longrightarrow> recorder_static (resetRecorderRefs w)"
  by (auto simp: recorder_static_def list_all_iff recorder_ok_def dest!: deactivate_set)

lemma inv_reset:
  assumes "recorder_static w" "rw_status w \<noteq> st_recording"
  shows "recorder_inv (resetRecorderRefs w)"
  using static_reset[OF assms(1)] assms(2) by (simp add: recorder_inv_def)

lemma inv_static: "recorder_inv w \<Longrightarrow> recorder_static w"
  by (simp add: recorder_inv_def Let_def)

text \<open>The static part keeps when the request number grows, and through everything that it does not look at.\<close>

lemma static_grow:
  assumes "recorder_static w" "rw_hook v = (rw_hook w)\<lparr>startRequestIdRef := n, completionModeRef := c\<rparr>" "n \<ge> startRequestIdRef (rw_hook w)"
    "rw_live v = rw_live w" "rw_recorders v = rw_recorders w" "rw_streams v = rw_streams w" "rw_prompts v = rw_prompts w" "rw_browser v = rw_browser w"
  shows "recorder_static v"
  using assms by (auto simp: recorder_static_def list_all_iff recorder_ok_def intro: order_trans)

text \<open>An event of a recorder marks it.\<close>

lemma static_mark:
  assumes "recorder_static w" "j < length (rw_recorders w)" "mr_request r = mr_request (rw_recorders w ! j)" "mr_stream r = mr_stream (rw_recorders w ! j)"
    and "\<not> mr_active r"
  shows "recorder_static (w\<lparr>rw_recorders := (rw_recorders w)[j := r]\<rparr>)"
proof -
  have m: "map mr_request ((rw_recorders w)[j := r]) = map mr_request (rw_recorders w)"
    using assms(2,3) by (simp add: map_update list_update_same_conv)
  have "recorder_ok w (rw_recorders w ! j)" using assms(1,2) by (simp add: recorder_static_def list_all_length)
  then have "recorder_ok w r" using assms(3-5) by (simp add: recorder_ok_def)
  then have "list_all (recorder_ok w) ((rw_recorders w)[j := r])"
    using assms(1) set_update_subset_insert[of "rw_recorders w" j r] unfolding recorder_static_def list_all_iff by blast
  moreover have "recorder_ok (w\<lparr>rw_recorders := rs\<rparr>) = recorder_ok w" for rs by (simp add: recorder_ok_def fun_eq_iff)
  ultimately show ?thesis using assms(1) m by (simp add: recorder_static_def)
qed

text \<open>The invariant does not look at the rest of the state.\<close>

lemma inv_same:
  assumes "recorder_inv w" "mediaRecorderRef (rw_hook v) = mediaRecorderRef (rw_hook w)" "mediaStreamRef (rw_hook v) = mediaStreamRef (rw_hook w)"
    "startRequestIdRef (rw_hook v) = startRequestIdRef (rw_hook w)" "chunksRef (rw_hook v) = chunksRef (rw_hook w)"
    "rw_live v = rw_live w" "rw_recorders v = rw_recorders w" "rw_streams v = rw_streams w" "rw_prompts v = rw_prompts w" "rw_browser v = rw_browser w"
    "rw_status v = rw_status w"
  shows "recorder_inv v"
  using assms by (simp add: inv_unfold)

lemma inv_noref: "recorder_inv w \<Longrightarrow> rw_status w \<noteq> st_recording \<Longrightarrow> mediaRecorderRef (rw_hook w) = None \<and> mediaStreamRef (rw_hook w) = None \<and> rw_live w = {}"
  by (auto simp: inv_unfold)

lemma inv_start:
  assumes "recorder_inv w" "rw_status w \<noteq> st_recording"
  shows "recorder_inv (startRecording w)"
proof -
  note n = inv_noref[OF assms]
  show ?thesis using assms n by (fastforce simp: startRecording_def inv_unfold)
qed

lemma inv_click: "recorder_inv w \<Longrightarrow> recorder_inv (handleAudioRecorderClick w)"
  unfolding handleAudioRecorderClick_def by (auto intro!: inv_start inv_same[of w])

lemma inv_start_failed:
  assumes "recorder_inv w" shows "recorder_inv (start_failed n d w)"
proof (cases "startRequestIdRef (rw_hook w) = n")
  case True
  then show ?thesis unfolding start_failed_def
    by (simp only: if_False simp_thms) (rule inv_reset, rule static_grow[OF inv_static[OF assms], of _ "completionModeRef (rw_hook w)" "startRequestIdRef (rw_hook w)"]; simp)
qed (simp add: start_failed_def assms)

lemma inv_rejected: "recorder_inv w \<Longrightarrow> recorder_inv (prompt_rejected n d w)"
  unfolding prompt_rejected_def by (rule inv_start_failed) (auto simp: inv_unfold)

text \<open>A prompt that belongs to the current request finds no recorder.\<close>

lemma inv_prompt_noref: "recorder_inv w \<Longrightarrow> startRequestIdRef (rw_hook w) \<in> rw_prompts w \<Longrightarrow>
    mediaRecorderRef (rw_hook w) = None \<and> mediaStreamRef (rw_hook w) = None \<and> rw_live w = {} \<and> rw_status w \<noteq> st_recording"
  by (cases "mediaRecorderRef (rw_hook w)") (auto simp: inv_unfold dest!: bspec[OF _ nth_mem])

lemma inv_granted_stale:
  assumes "recorder_inv w" "n \<in> rw_prompts w" "startRequestIdRef (rw_hook w) \<noteq> n"
  shows "recorder_inv (stream_granted n x w)"
proof -
  have "rw_streams w \<notin> rw_live w"
    using assms(1) by (cases "mediaRecorderRef (rw_hook w)") (auto simp: inv_unfold dest: nth_mem)
  moreover have "map (\<lambda>r. if mr_stream r = rw_streams w then r\<lparr>mr_active := False\<rparr> else r) (rw_recorders w) = rw_recorders w"
    using assms(1) by (intro map_idI) (auto simp: inv_unfold)
  ultimately show ?thesis using assms by (simp add: stream_granted_def stop_tracks_def Let_def) (auto simp: inv_unfold)
qed

lemma inv_granted:
  assumes "recorder_inv w" "n \<in> rw_prompts w" "startRequestIdRef (rw_hook w) = n" "x \<noteq> ConstructorThrows"
  shows "recorder_inv (stream_granted n x w)"
proof -
  note r = inv_prompt_noref[OF assms(1) assms(2)[folded assms(3)]]
  have i: "mr_request y \<le> n \<and> mr_request y \<noteq> n \<and> mr_request y \<notin> rw_prompts w \<and> mr_stream y < rw_streams w \<and> (mr_active y \<longrightarrow> mr_data y = None)"
    if "y \<in> set (rw_recorders w)" for y using assms(1,2,3) that by (auto simp: inv_unfold)
  have d: "distinct (map mr_request (rw_recorders w))" "\<And>m. m \<in> rw_prompts w \<Longrightarrow> m \<le> n" "ba_supported (rw_browser w)"
    using assms(1,2,3) by (auto simp: inv_unfold)
  have k: "n \<notin> mr_request ` set (rw_recorders w)" using i by blast
  show ?thesis
  proof (cases x)
    case Starts
    show ?thesis using assms(3) r d k i by (auto simp: Starts stream_granted_def Let_def inv_unfold nth_append chunks_of_def less_Suc_eq)
  next
    case StartThrows
    show ?thesis using assms(3) r d k i
      by (auto simp: StartThrows stream_granted_def start_failed_def Let_def inv_unfold less_Suc_eq dest!: deactivate_set)
  qed (use assms(4) in simp)
qed

section \<open>Events\<close>

lemma inv_others:
  assumes "recorder_inv w" "mediaRecorderRef (rw_hook w) = Some i" "j < length (rw_recorders w)" "mr_request (rw_recorders w ! j) = startRequestIdRef (rw_hook w)"
  shows "j = i"
proof -
  have "distinct (map mr_request (rw_recorders w))" "i < length (rw_recorders w)" "mr_request (rw_recorders w ! i) = startRequestIdRef (rw_hook w)"
    using assms(1,2) by (simp_all add: inv_unfold)
  then show ?thesis using assms(3,4) by (metis distinct_conv_nth length_map nth_map)
qed

lemma inv_mark:
  assumes "recorder_inv w" "j < length (rw_recorders w)" "mediaRecorderRef (rw_hook w) \<noteq> Some j"
    and "mr_request r = mr_request (rw_recorders w ! j)" "mr_stream r = mr_stream (rw_recorders w ! j)" "\<not> mr_active r"
  shows "recorder_inv (w\<lparr>rw_recorders := (rw_recorders w)[j := r]\<rparr>)"
  using static_mark[OF inv_static[OF assms(1)] assms(2,4-6)] assms(1,3) by (auto simp: recorder_inv_def Let_def)

lemma inv_data:
  assumes "recorder_inv w" "j < length (rw_recorders w)" "\<not> mr_active (rw_recorders w ! j)" "mr_data (rw_recorders w ! j) = None"
  shows "recorder_inv (dataavailable j b w)"
proof -
  let ?w = "w\<lparr>rw_recorders := (rw_recorders w)[j := (rw_recorders w ! j)\<lparr>mr_data := Some b\<rparr>]\<rparr>"
  have s: "recorder_static ?w" using assms(2,3) by (intro static_mark[OF inv_static[OF assms(1)]]) simp_all
  have st: "recorder_static (map_hook (\<lambda>h. h\<lparr>chunksRef := chunksRef h @ [b]\<rparr>) ?w)"
    using s by (simp add: recorder_static_def list_all_iff recorder_ok_def)
  show ?thesis
  proof (cases "mediaRecorderRef (rw_hook w)")
    case None
    then show ?thesis using s st assms(1) by (cases b) (simp_all add: dataavailable_def recorder_inv_def Let_def)
  next
    case (Some i)
    show ?thesis
    proof (cases "j = i")
      case True
      then show ?thesis using s st Some assms(1,4) by (cases b) (auto simp: dataavailable_def recorder_inv_def Let_def chunks_of_def)
    next
      case False
      then have "dataavailable j b w = ?w" using inv_others[OF assms(1) Some assms(2)] by (auto simp: dataavailable_def Let_def)
      moreover have "recorder_inv ?w" using assms(2,3) Some False by (intro inv_mark[OF assms(1)]) simp_all
      ultimately show ?thesis by simp
    qed
  qed
qed

lemma inv_stopped:
  assumes "recorder_inv w" "j < length (rw_recorders w)" "\<not> mr_active (rw_recorders w ! j)"
  shows "recorder_inv (recorder_stopped j w)"
proof -
  let ?w = "w\<lparr>rw_recorders := (rw_recorders w)[j := (rw_recorders w ! j)\<lparr>mr_stopped := True\<rparr>]\<rparr>"
  have s: "recorder_static ?w" using assms(2,3) by (intro static_mark[OF inv_static[OF assms(1)]]) simp_all
  show ?thesis
  proof (cases "startRequestIdRef (rw_hook w) = mr_request (rw_recorders w ! j)")
    case False
    then have "mediaRecorderRef (rw_hook w) \<noteq> Some j" using assms(1) by (auto simp: inv_unfold)
    then have "recorder_inv ?w" using assms(2,3) by (intro inv_mark[OF assms(1)]) simp_all
    then show ?thesis using False by (simp add: recorder_stopped_def Let_def)
  next
    case True
    have st: "recorder_static v" if "rw_hook v = (rw_hook w)\<lparr>completionModeRef := c\<rparr>" "rw_live v = rw_live w" "rw_recorders v = rw_recorders ?w"
      "rw_streams v = rw_streams w" "rw_prompts v = rw_prompts w" "rw_browser v = rw_browser w" for v c
      using s that by (simp add: recorder_static_def list_all_iff recorder_ok_def)
    show ?thesis using True
      by (simp add: recorder_stopped_def Let_def) (auto intro!: inv_reset st simp: onRecordingEmpty_def onRecordingComplete_def handleTranscribeRecordedAudio_def idle_again_def)
  qed
qed

section \<open>The microphone\<close>

lemma inv_stop: "recorder_inv w \<Longrightarrow> recorder_inv (snd (stopRecording m w))"
proof (cases "mediaRecorderRef (rw_hook w)")
  case (Some i)
  assume inv: "recorder_inv w"
  let ?r = "(rw_recorders w ! i)\<lparr>mr_active := False\<rparr>"
  have i: "i < length (rw_recorders w)" using inv Some by (simp add: inv_unfold)
  have "recorder_static (w\<lparr>rw_recorders := (rw_recorders w)[i := ?r]\<rparr>)" using i by (intro static_mark[OF inv_static[OF inv]]) simp_all
  then have "recorder_inv (w\<lparr>rw_recorders := (rw_recorders w)[i := ?r]\<rparr>)" using inv Some by (auto simp: recorder_inv_def Let_def chunks_of_def)
  then show ?thesis using Some inv by (auto simp: stopRecording_def cleanupTimer_def Let_def elim!: inv_same)
qed (simp add: stopRecording_def)

lemma inv_cancel: "recorder_inv w \<Longrightarrow> recorder_inv (handleCancelAudioRecording w)"
proof -
  assume inv: "recorder_inv w"
  let ?v = "map_hook (\<lambda>h. h\<lparr>startRequestIdRef := startRequestIdRef h + 1, completionModeRef := attach\<rparr>) (w\<lparr>rw_isTranscribing := False\<rparr>)"
  have "recorder_static (resetRecorderRefs ?v)" by (rule static_reset, rule static_grow[OF inv_static[OF inv], of _ attach "startRequestIdRef (rw_hook w) + 1"]) simp_all
  then show ?thesis by (simp add: handleCancelAudioRecording_def resetRecording_def idle_again_def recorder_inv_def recorder_static_def list_all_iff recorder_ok_def)
qed

lemma inv_actions: "recorder_inv w \<Longrightarrow> recorder_inv (actions_changed w)"
proof (cases "ba_supported (rw_browser w)")
  case True
  assume "recorder_inv w"
  then have "recorder_static (resetRecorderRefs w)" by (intro static_reset inv_static)
  then show ?thesis using True by (simp add: actions_changed_def recorder_effect_def Let_def recorder_inv_def recorder_static_def list_all_iff recorder_ok_def)
next
  case False
  assume "recorder_inv w"
  then show ?thesis using False by (auto simp: actions_changed_def recorder_effect_def inv_unfold)
qed

lemma inv_transcribe: "recorder_inv w \<Longrightarrow> recorder_inv (handleTranscribeAudioRecording w)"
proof -
  assume inv: "recorder_inv w"
  then have "recorder_inv (w\<lparr>rw_isTranscribing := True\<rparr>)" by (rule inv_same) simp_all
  note s = inv_stop[OF this, of transcribe]
  then have "recorder_inv ((snd (stopRecording transcribe (w\<lparr>rw_isTranscribing := True\<rparr>)))\<lparr>rw_isTranscribing := False\<rparr>)" by (rule inv_same) simp_all
  then show ?thesis using s inv by (auto simp: handleTranscribeAudioRecording_def split: prod.splits bool.splits)
qed

interpretation rec: invariant recorder_initial healthy_step recorder_inv
proof
  show "recorder_initial w \<Longrightarrow> recorder_inv w" for w by (auto simp: recorder_initial_def initial_hook_def inv_unfold)
  show "recorder_inv w'" if "recorder_inv w" "healthy_step e w w'" for e w w'
  proof -
    have "recorder_step e w w'" "e \<noteq> Unmount" "\<And>n. e \<noteq> Granted n ConstructorThrows" using that(2) by (auto simp: healthy_step_def)
    then show ?thesis
    proof cases
      case (granted n x)
      then show ?thesis using inv_granted[OF that(1)] inv_granted_stale[OF that(1)] \<open>\<And>n. e \<noteq> Granted n ConstructorThrows\<close> by blast
    next
      case tick
      then show ?thesis by (auto simp: elapsed_tick_def intro!: inv_same[OF that(1)] split: option.splits)
    next
      case error_effect
      then show ?thesis by (auto simp: recorder_error_effect_def Let_def intro!: inv_same[OF that(1)])
    next
      case (time t)
      then show ?thesis by (auto intro!: inv_same[OF that(1)])
    qed (use that(1) in \<open>auto intro: inv_click inv_rejected inv_data inv_stopped inv_stop inv_transcribe inv_cancel inv_actions\<close>)
  qed
qed


section \<open>The recording\<close>

inductive_simps step_data: "recorder_step (Data i b) w w'"
inductive_simps step_stopped: "recorder_step (Stopped i) w w'"
inductive_simps step_stop_click: "recorder_step StopClick w w'"

lemma delivered:
  assumes "recorder_inv w" "mediaRecorderRef (rw_hook w) = Some i" "mr_active (rw_recorders w ! i)"
  shows "let w' = recorder_stopped i (dataavailable i b (snd (stopRecording attach w))) in
    rw_live w' = {} \<and> rw_status w' = st_idle \<and>
    (if b = [] then localFiles (rw_editor w') = localFiles (rw_editor w)
     else \<exists>f. localFiles (rw_editor w') = localFiles (rw_editor w) @ [f] \<and> file_bytes (lf_file f) = b \<and> lf_origin f = Some audio_recording)"
proof -
  let ?r = "rw_recorders w ! i"
  have h: "i < length (rw_recorders w)" "mr_request ?r = startRequestIdRef (rw_hook w)" "mediaStreamRef (rw_hook w) = Some (mr_stream ?r)"
    "rw_live w = {mr_stream ?r}" "mr_data ?r = None" "chunksRef (rw_hook w) = []"
    using assms by (auto simp: inv_unfold chunks_of_def dest!: bspec[OF _ nth_mem])
  let ?v = "snd (stopRecording attach w)"
  have v: "rw_hook ?v = (rw_hook w)\<lparr>completionModeRef := attach, elapsedTimerRef := False\<rparr>" "rw_recorders ?v = (rw_recorders w)[i := ?r\<lparr>mr_active := False\<rparr>]"
    "rw_live ?v = rw_live w" "rw_editor ?v = rw_editor w"
    using assms(2,3) by (simp_all add: stopRecording_def Let_def cleanupTimer_def)
  let ?d = "dataavailable i b ?v"
  have d: "rw_hook ?d = (rw_hook ?v)\<lparr>chunksRef := (if b = [] then [] else [b])\<rparr>" "rw_recorders ?d = (rw_recorders w)[i := ?r\<lparr>mr_active := False, mr_data := Some b\<rparr>]"
    "rw_live ?d = rw_live w" "rw_editor ?d = rw_editor w"
    using h v by (auto simp: dataavailable_def Let_def)
  have q: "mr_request (rw_recorders ?d ! i) = startRequestIdRef (rw_hook ?d)" using h v d by simp
  show ?thesis
  proof (cases b)
    case Nil
    show ?thesis using q h v d Nil by (simp add: recorder_stopped_def Let_def onRecordingEmpty_def idle_again_def)
  next
    case (Cons x y)
    then have c: "concat (chunksRef (rw_hook ?d)) = b" "b \<noteq> []" "completionModeRef (rw_hook ?d) = attach" using d v by simp_all
    show ?thesis using q h v d c
      by (simp add: recorder_stopped_def Let_def onRecordingComplete_def idle_again_def createRecordedFile_def split: prod.splits)
  qed
qed

text \<open>After a cancellation everything that is under way is out of date.\<close>

definition all_stale :: "recorder_world \<Rightarrow> bool" where
  "all_stale w \<longleftrightarrow> rw_live w = {} \<and> mediaStreamRef (rw_hook w) = None \<and> list_all (\<lambda>r. mr_request r < startRequestIdRef (rw_hook w)) (rw_recorders w) \<and>
     (\<forall>n \<in> rw_prompts w. n < startRequestIdRef (rw_hook w))"

definition background :: "recorder_event \<Rightarrow> bool" where
  "background e = (case e of Granted _ _ \<Rightarrow> True | Rejected _ _ \<Rightarrow> True | Data _ _ \<Rightarrow> True | Stopped _ \<Rightarrow> True | Tick \<Rightarrow> True | Time _ \<Rightarrow> True | _ \<Rightarrow> False)"

lemma transcribing_frame [simp]:
  "rw_transcribing (dispatch a w) = rw_transcribing w" "rw_transcribing (map_hook f w) = rw_transcribing w"
  "rw_transcribing (resetRecorderRefs w) = rw_transcribing w"
  by (cases "mediaStreamRef (rw_hook w)"; simp add: dispatch_def map_hook_def resetRecorderRefs_def cleanupStream_def cleanupTimer_def stop_tracks_def)+

lemma cancel_stale:
  assumes "recorder_inv w"
  shows "all_stale (handleCancelAudioRecording w)" "localFiles (rw_editor (handleCancelAudioRecording w)) = localFiles (rw_editor w)"
    "rw_transcribing (handleCancelAudioRecording w) = rw_transcribing w"
  using assms
  by (fastforce simp: all_stale_def handleCancelAudioRecording_def resetRecording_def idle_again_def inv_unfold less_Suc_eq_le dest: deactivate_set)+

lemma stale_mark:
  assumes "all_stale w" "i < length (rw_recorders w)" "mr_request r = mr_request (rw_recorders w ! i)"
  shows "all_stale (w\<lparr>rw_recorders := (rw_recorders w)[i := r]\<rparr>)"
proof -
  have "list_all (\<lambda>r. mr_request r < startRequestIdRef (rw_hook w)) ((rw_recorders w)[i := r])"
    using assms set_update_subset_insert[of "rw_recorders w" i r] by (fastforce simp: all_stale_def list_all_iff)
  then show ?thesis using assms(1) by (simp add: all_stale_def)
qed

lemma stale_step:
  assumes "recorder_step e w w'" "background e" "all_stale w"
  shows "all_stale w' \<and> localFiles (rw_editor w') = localFiles (rw_editor w) \<and> rw_transcribing w' = rw_transcribing w"
  using assms(1)
proof cases
  case (granted n x)
  then have "startRequestIdRef (rw_hook w) \<noteq> n" using assms(3) by (auto simp: all_stale_def)
  then show ?thesis using granted assms(3) by (auto simp: stream_granted_def stop_tracks_def Let_def all_stale_def list_all_iff)
next
  case (rejected n d)
  then have "startRequestIdRef (rw_hook w) \<noteq> n" using assms(3) by (auto simp: all_stale_def)
  then show ?thesis using rejected assms(3) by (auto simp: prompt_rejected_def start_failed_def all_stale_def)
next
  case (data i r b)
  then have "startRequestIdRef (rw_hook w) \<noteq> mr_request (rw_recorders w ! i)" using assms(3) by (auto simp: all_stale_def list_all_length)
  then show ?thesis using data stale_mark[OF assms(3)] by (simp add: dataavailable_def)
next
  case (stopped i r)
  then have "startRequestIdRef (rw_hook w) \<noteq> mr_request (rw_recorders w ! i)" using assms(3) by (auto simp: all_stale_def list_all_length)
  then show ?thesis using stopped stale_mark[OF assms(3)] by (simp add: recorder_stopped_def)
next
  case tick
  then show ?thesis using assms(3) by (auto simp: elapsed_tick_def all_stale_def split: option.splits)
next
  case (time t)
  then show ?thesis using assms(3) by (simp add: all_stale_def)
qed (use assms(2) in \<open>simp_all add: background_def\<close>)

lemma stale_steps:
  assumes "steps recorder_step es w w'" "list_all background es" "all_stale w"
  shows "all_stale w' \<and> localFiles (rw_editor w') = localFiles (rw_editor w) \<and> rw_transcribing w' = rw_transcribing w"
  using assms
proof (induction rule: steps.induct)
  case (some e w w1 es w2)
  then show ?case using stale_step[OF some.hyps(1)] by simp
qed simp

text \<open>What becomes of a recording. When the user stops a recording, the data that the recorder then delivers becomes exactly one new file of the memo, with
  those bytes, or none when there is no data; the microphone is off and the editor is idle. When the user cancels it, nothing of it is ever attached
  or transcribed, and no microphone comes on, whatever prompts are answered and events arrive afterwards.\<close>

theorem recording_fate:
  assumes "reachable recorder_initial healthy_step w" "mediaRecorderRef (rw_hook w) = Some i" "mr_active (rw_recorders w ! i)"
  shows "(\<forall>b w'. steps recorder_step [StopClick, Data i b, Stopped i] w w' \<longrightarrow> rw_live w' = {} \<and> rw_status w' = st_idle \<and>
      (if b = [] then localFiles (rw_editor w') = localFiles (rw_editor w)
       else \<exists>f. localFiles (rw_editor w') = localFiles (rw_editor w) @ [f] \<and> file_bytes (lf_file f) = b \<and> lf_origin f = Some audio_recording)) \<and>
    (\<forall>es w'. list_all background es \<and> steps recorder_step es (handleCancelAudioRecording w) w' \<longrightarrow>
      rw_live w' = {} \<and> localFiles (rw_editor w') = localFiles (rw_editor w) \<and> rw_transcribing w' = rw_transcribing w)"
proof -
  have inv: "recorder_inv w" using assms(1) by (rule rec.reachable_I)
  have "rw_live w' = {} \<and> localFiles (rw_editor w') = localFiles (rw_editor w) \<and> rw_transcribing w' = rw_transcribing w"
    if "list_all background es" "steps recorder_step es (handleCancelAudioRecording w) w'" for es w'
    using stale_steps[OF that(2,1) cancel_stale(1)[OF inv]] cancel_stale(2,3)[OF inv] by (simp add: all_stale_def)
  then show ?thesis using delivered[OF inv assms(2,3)]
    by (auto simp: steps_Cons_iff steps_Nil_iff step_data step_stopped step_stop_click Let_def)
qed

definition demo_recorder :: recorder_world where
  "demo_recorder = \<lparr>rw_browser = \<lparr>ba_supported = True, ba_types = (\<lambda>_. True), ba_localFields = (\<lambda>_. (2024, 2, 29, 12, 0, 0))\<rparr>, rw_hook = initial_hook,
     rw_editor = initialState, rw_recorders = [], rw_live = {}, rw_streams = 0, rw_prompts = {}, rw_now = 5, rw_urls = 0, rw_open = False,
     rw_isTranscribing = False, rw_canTranscribe = False, rw_transcribing = [], rw_toasts = [], rw_mounted = True\<rparr>"

definition demo_recording :: recorder_world where
  "demo_recording = stream_granted 1 Starts (handleAudioRecorderClick demo_recorder)"

lemma demo_click:
  "rw_hook (handleAudioRecorderClick demo_recorder) = initial_hook\<lparr>startRequestIdRef := 1\<rparr>" "rw_prompts (handleAudioRecorderClick demo_recorder) = {1}"
  "rw_streams (handleAudioRecorderClick demo_recorder) = 0" "rw_recorders (handleAudioRecorderClick demo_recorder) = []"
  "rw_live (handleAudioRecorderClick demo_recorder) = {}" "rw_mounted (handleAudioRecorderClick demo_recorder)"
  "ba_supported (rw_browser (handleAudioRecorderClick demo_recorder))"
  by (simp_all add: handleAudioRecorderClick_def demo_recorder_def initialState_def startRecording_def initial_hook_def Let_def dispatch_def map_hook_def)

lemma demo_step: "recorder_step Click demo_recorder (handleAudioRecorderClick demo_recorder)"
  by (rule recorder_step.click) (simp add: demo_recorder_def)

lemma demo_recorder_initial: "recorder_initial demo_recorder"
  by (simp add: recorder_initial_def demo_recorder_def initialState_def)

lemma demo_reachable: "reachable recorder_initial healthy_step demo_recording"
proof -
  have "reachable recorder_initial healthy_step (handleAudioRecorderClick demo_recorder)"
    using reachable.step[OF reachable.start[of recorder_initial demo_recorder healthy_step], of Click] demo_step demo_recorder_initial by (simp add: healthy_step_def)
  moreover have "recorder_step (Granted 1 Starts) (handleAudioRecorderClick demo_recorder) demo_recording"
    unfolding demo_recording_def by (rule recorder_step.granted) (simp add: demo_click)
  ultimately show ?thesis by (intro reachable.step[of recorder_initial healthy_step _ "Granted 1 Starts" demo_recording]) (simp_all add: healthy_step_def)
qed

lemma demo_recording_props:
  "mediaRecorderRef (rw_hook demo_recording) = Some 0" "mr_active (rw_recorders demo_recording ! 0)" "rw_live demo_recording = {0}" "rw_mounted demo_recording"
  "length (rw_recorders demo_recording) = 1" "\<not> mr_stopped (rw_recorders demo_recording ! 0)" "mr_data (rw_recorders demo_recording ! 0) = None"
  by (simp_all add: demo_recording_def stream_granted_def demo_click Let_def initial_hook_def) (simp add: demo_click dispatch_def map_hook_def)


theorem recording_fate_witness:
  "\<exists>w' f. steps recorder_step [StopClick, Data 0 [1, 2], Stopped 0] demo_recording w' \<and> rw_live w' = {} \<and>
     localFiles (rw_editor w') = localFiles (rw_editor demo_recording) @ [f] \<and> file_bytes (lf_file f) = [1, 2]"
proof -
  let ?v = "snd (stopRecording attach demo_recording)"
  let ?d = "dataavailable 0 [1, 2] ?v"
  have ne: "rw_recorders demo_recording \<noteq> []" using demo_recording_props(5) by (cases "rw_recorders demo_recording") simp_all
  have v: "rw_recorders ?v = (rw_recorders demo_recording)[0 := (rw_recorders demo_recording ! 0)\<lparr>mr_active := False\<rparr>]"
    using demo_recording_props by (simp add: stopRecording_def Let_def cleanupTimer_def)
  have d: "rw_recorders ?d = (rw_recorders ?v)[0 := (rw_recorders ?v ! 0)\<lparr>mr_data := Some [1, 2]\<rparr>]" by (simp add: dataavailable_def Let_def)
  have "steps recorder_step [StopClick, Data 0 [1, 2], Stopped 0] demo_recording (recorder_stopped 0 ?d)"
    using v d demo_recording_props ne by (simp add: steps_Cons_iff steps_Nil_iff step_data step_stopped step_stop_click)
  moreover from recording_fate[OF demo_reachable demo_recording_props(1,2)] this
  have "rw_live (recorder_stopped 0 ?d) = {} \<and> (\<exists>f. localFiles (rw_editor (recorder_stopped 0 ?d)) = localFiles (rw_editor demo_recording) @ [f] \<and> file_bytes (lf_file f) = [1, 2])"
    by (metis list.discI)
  ultimately show ?thesis by blast
qed

text \<open>Without the two restrictions of \<open>healthy_step\<close> a microphone can stay on: a prompt that is answered after the editor is gone starts a recording that nobody
  ends, since leaving does not take back the request; and a stream for which no recorder can be made is not stopped, since the hook
  does not hold it yet.\<close>

lemma microphone_left_on:
  "\<exists>w. steps recorder_step [Click, Unmount, Granted 1 Starts] demo_recorder w \<and> \<not> rw_mounted w \<and> rw_live w \<noteq> {}"
  "\<exists>w. steps recorder_step [Click, Granted 1 ConstructorThrows] demo_recorder w \<and> rw_live w \<noteq> {} \<and> mediaStreamRef (rw_hook w) = None"
proof -
  let ?c = "handleAudioRecorderClick demo_recorder"
  let ?u = "recorder_unmount ?c"
  have u: "rw_hook ?u = initial_hook\<lparr>startRequestIdRef := 1\<rparr>" "rw_prompts ?u = {1}" "\<not> rw_mounted ?u"
    using demo_click by (simp_all add: recorder_unmount_def initial_hook_def)
  have "steps recorder_step [Click, Unmount, Granted 1 Starts] demo_recorder (stream_granted 1 Starts ?u)"
    using demo_step recorder_step.unmount[OF demo_click(6)] recorder_step.granted[of 1 ?u Starts] u(2) by (auto simp: steps_Cons_iff steps_Nil_iff)
  moreover have "\<not> rw_mounted (stream_granted 1 Starts ?u)" "rw_live (stream_granted 1 Starts ?u) \<noteq> {}"
    using u by (simp_all add: stream_granted_def Let_def) (simp add: dispatch_def map_hook_def)
  ultimately show "\<exists>w. steps recorder_step [Click, Unmount, Granted 1 Starts] demo_recorder w \<and> \<not> rw_mounted w \<and> rw_live w \<noteq> {}" by blast
  have "steps recorder_step [Click, Granted 1 ConstructorThrows] demo_recorder (stream_granted 1 ConstructorThrows ?c)"
    using demo_step recorder_step.granted[of 1 ?c ConstructorThrows] demo_click(2) by (auto simp: steps_Cons_iff steps_Nil_iff)
  moreover have "rw_live (stream_granted 1 ConstructorThrows ?c) \<noteq> {}" "mediaStreamRef (rw_hook (stream_granted 1 ConstructorThrows ?c)) = None"
    by (simp_all add: stream_granted_def start_failed_def demo_click initial_hook_def Let_def)
  ultimately show "\<exists>w. steps recorder_step [Click, Granted 1 ConstructorThrows] demo_recorder w \<and> rw_live w \<noteq> {} \<and> mediaStreamRef (rw_hook w) = None" by blast
qed

end
