(* ===== verification/Settings.thy ===== *)
theory Settings
  imports Complex_Main Instance MemoActions Transitions
begin

text \<open>
  The settings page (\<open>pages/Setting.tsx\<close>, \<open>components/Settings/settingSections.ts\<close>), the way every section of it saves a setting of the
  instance (\<open>components/Settings/useInstanceSettingUpdater.ts\<close>), and the section of the AI providers
  (\<open>components/Settings/AISection.tsx\<close>) as a state machine whose steps are what the administrator does.
\<close>

section \<open>Messages\<close>

datatype AIProviderType = AI_PROVIDER_TYPE_UNSPECIFIED | OPENAI | GEMINI

record AIProviderConfig =
  pc_id :: string
  pc_title :: string
  pc_type :: AIProviderType
  pc_endpoint :: string
  pc_apiKey :: string
  pc_apiKeySet :: bool
  pc_apiKeyHint :: string

record TranscriptionConfig =
  tc_providerId :: string
  tc_model :: string
  tc_language :: string
  tc_prompt :: string

record AISetting =
  ai_providers :: "AIProviderConfig list"
  ai_transcription :: "TranscriptionConfig option"

datatype StorageType = STORAGE_TYPE_UNSPECIFIED | STORAGE_DATABASE | STORAGE_LOCAL | STORAGE_S3

record S3Config =
  s3_accessKeyId :: string
  s3_accessKeySecret :: string
  s3_endpoint :: string
  s3_region :: string
  s3_bucket :: string
  s3_usePathStyle :: bool

record StorageSetting =
  storageType :: StorageType
  filepathTemplate :: string
  uploadSizeLimitMb :: int
  s3Config :: "S3Config option"

record MemoRelatedSetting =
  contentLengthLimit :: int
  enableDoubleClickEdit :: bool
  setting_reactions :: "string list"

text \<open>A component of a color is a number, or \<open>None\<close> for one that is not finite.\<close>

record Color =
  c_red :: "rat option"
  c_green :: "rat option"
  c_blue :: "rat option"

record TagMetadata =
  backgroundColor :: "Color option"
  blurContent :: bool

record EmailSetting =
  em_enabled :: bool
  em_smtpHost :: string
  em_smtpPort :: int
  em_smtpUsername :: string
  em_smtpPassword :: string
  em_fromEmail :: string
  em_fromName :: string
  em_replyTo :: string
  em_useTls :: bool
  em_useSsl :: bool

record CustomProfile =
  cp_title :: string
  cp_description :: string
  cp_logoUrl :: string

record InstanceGeneralSetting =
  disallowUserRegistration :: bool
  disallowPasswordAuth :: bool
  additionalScript :: string
  additionalStyle :: string
  customProfile :: "CustomProfile option"
  weekStartDayOffset :: int
  disallowChangeUsername :: bool
  disallowChangeNickname :: bool

datatype setting_content = GeneralContent InstanceGeneralSetting | StorageContent StorageSetting | MemoRelatedContent MemoRelatedSetting
  | TagsContent "(string, TagMetadata) jsmap" | NotificationContent "EmailSetting option" | AIContent AISetting | NoContent

text \<open>A setting message of a key.\<close>

definition setting_message :: "InstanceSetting_Key \<Rightarrow> setting_case \<Rightarrow> setting_content \<Rightarrow> setting_content InstanceSetting" where
  "setting_message k c v = \<lparr>is_name = buildInstanceSettingName k, is_case = c, is_content = v\<rparr>"

section \<open>The sections of the page\<close>

datatype SettingSectionScope = basic_scope | admin_scope

record SettingSectionDefinition =
  section_key :: string
  section_scope :: SettingSectionScope
  preloadSettingKeys :: "InstanceSetting_Key list"

definition SETTINGS_SECTIONS :: "SettingSectionDefinition list" where
  "SETTINGS_SECTIONS =
    [\<lparr>section_key = ''my-account'', section_scope = basic_scope, preloadSettingKeys = []\<rparr>,
     \<lparr>section_key = ''preference'', section_scope = basic_scope, preloadSettingKeys = []\<rparr>,
     \<lparr>section_key = ''webhook'', section_scope = basic_scope, preloadSettingKeys = []\<rparr>,
     \<lparr>section_key = ''member'', section_scope = admin_scope, preloadSettingKeys = []\<rparr>,
     \<lparr>section_key = ''system'', section_scope = admin_scope, preloadSettingKeys = []\<rparr>,
     \<lparr>section_key = ''memo'', section_scope = admin_scope, preloadSettingKeys = []\<rparr>,
     \<lparr>section_key = ''tags'', section_scope = admin_scope, preloadSettingKeys = [INSTANCE_TAGS]\<rparr>,
     \<lparr>section_key = ''storage'', section_scope = admin_scope, preloadSettingKeys = [INSTANCE_STORAGE]\<rparr>,
     \<lparr>section_key = ''notification'', section_scope = admin_scope, preloadSettingKeys = [INSTANCE_NOTIFICATION]\<rparr>,
     \<lparr>section_key = ''sso'', section_scope = admin_scope, preloadSettingKeys = []\<rparr>,
     \<lparr>section_key = ''ai'', section_scope = admin_scope, preloadSettingKeys = [INSTANCE_AI]\<rparr>,
     \<lparr>section_key = ''resource-stats'', section_scope = admin_scope, preloadSettingKeys = []\<rparr>]"

definition DEFAULT_SETTING_SECTION :: string where "DEFAULT_SETTING_SECTION = ''my-account''"

definition isSettingSectionKey :: "string \<Rightarrow> bool" where
  "isSettingSectionKey v = list_ex (\<lambda>s. section_key s = v) SETTINGS_SECTIONS"

definition isHost :: "User option \<Rightarrow> bool" where
  "isHost user = (case user of Some u \<Rightarrow> user_role u = ROLE_ADMIN | None \<Rightarrow> False)"

record section_groups =
  basic_group :: "SettingSectionDefinition list"
  admin_group :: "SettingSectionDefinition list"
  all_group :: "SettingSectionDefinition list"

definition sectionGroups :: "bool \<Rightarrow> section_groups" where
  "sectionGroups host =
     (let visible = filter (\<lambda>s. section_scope s = basic_scope \<or> host) SETTINGS_SECTIONS
      in \<lparr>basic_group = filter (\<lambda>s. section_scope s = basic_scope) visible,
          admin_group = filter (\<lambda>s. section_scope s = admin_scope) visible, all_group = visible\<rparr>)"

text \<open>The effect on the hash of the location, which starts with \<open>#\<close> unless it is empty.\<close>

definition select_section :: "bool \<Rightarrow> string \<Rightarrow> string" where
  "select_section host location_hash =
     (let h = drop 1 location_hash
      in if isSettingSectionKey h \<and> h \<in> section_key ` set (all_group (sectionGroups host)) then h else DEFAULT_SETTING_SECTION)"

text \<open>The section that is rendered: the selected one, else the default one, else the first.\<close>

definition selectedSectionDefinition :: "bool \<Rightarrow> string \<Rightarrow> SettingSectionDefinition" where
  "selectedSectionDefinition host selected =
     (case find (\<lambda>s. section_key s = selected) (all_group (sectionGroups host)) of
        Some s \<Rightarrow> s
      | None \<Rightarrow> (case find (\<lambda>s. section_key s = DEFAULT_SETTING_SECTION) SETTINGS_SECTIONS of
          Some s \<Rightarrow> s | None \<Rightarrow> hd SETTINGS_SECTIONS))"

text \<open>The settings that the page asks for.\<close>

definition preload_settings :: "bool \<Rightarrow> ('p, 'v) instance_state \<Rightarrow> string list \<times> ('p, 'v) instance_state" where
  "preload_settings host i =
     (if \<not> host then ([], i)
      else fetchSettings_start (uniq_by id [] (concat (map preloadSettingKeys (admin_group (sectionGroups host))))) i)"

definition GITHUB_COMMIT_URL_PREFIX :: string where
  "GITHUB_COMMIT_URL_PREFIX = ''https://github.com/harrychin-cn/memoark/commit/''"

definition isCommitSha :: "string \<Rightarrow> bool" where
  "isCommitSha commit \<longleftrightarrow> 7 \<le> length commit \<and> length commit \<le> 40 \<and> list_all (\<lambda>c. lower_char c \<in> set ''0123456789abcdef'') commit"

definition commitUrl :: "string \<Rightarrow> string" where
  "commitUrl commit = (if isCommitSha commit then GITHUB_COMMIT_URL_PREFIX @ commit else [])"

section \<open>Saving a setting\<close>

record 'p settings_page =
  sp_instance :: "('p, setting_content) instance_state"
  sp_sent :: "setting_content InstanceSetting list"
  sp_toasts :: "toast list"

definition add_toast :: "toast \<Rightarrow> 'p settings_page \<Rightarrow> 'p settings_page" where
  "add_toast t p = p\<lparr>sp_toasts := sp_toasts p @ [t]\<rparr>"

text \<open>The server's answers to the update and to the fetch after it, which is made only for a setting that was never asked for.\<close>

record setting_answers =
  upd_answer :: "js_error + setting_content InstanceSetting"
  get_answer :: "js_error + setting_content InstanceSetting"

definition saveInstanceSetting :: "(js_error \<Rightarrow> string) \<Rightarrow> setting_answers \<Rightarrow> InstanceSetting_Key \<Rightarrow> setting_content InstanceSetting \<Rightarrow>
    'p settings_page \<Rightarrow> bool \<times> 'p settings_page" where
  "saveInstanceSetting message ans key setting p0 =
     (let p = p0\<lparr>sp_sent := sp_sent p0 @ [setting]\<rparr>
      in case updateSetting (upd_answer ans) (sp_instance p) of
           (Inl e, i) \<Rightarrow> (False, add_toast (handleError message None e) p)
         | (Inr _, i) \<Rightarrow> (case fetchSetting_start key i of
             ([], i') \<Rightarrow> (True, add_toast (ToastSuccess ''message.update-succeed'') (p\<lparr>sp_instance := i'\<rparr>))
           | (name # _, i') \<Rightarrow> (case fetchSetting_done name (get_answer ans) i' of
               (Inr _, i'') \<Rightarrow> (True, add_toast (ToastSuccess ''message.update-succeed'') (p\<lparr>sp_instance := i''\<rparr>))
             | (Inl e, i'') \<Rightarrow> (False, add_toast (handleError message None e) (p\<lparr>sp_instance := i''\<rparr>)))))"

text \<open>The effects of a section run when the object of its derived setting is another one: when an answer put one under its name, or when any
  answer arrived while the default message was in use, since that is made anew.\<close>

definition stored_case :: "InstanceSetting_Key \<Rightarrow> setting_case \<Rightarrow> 'v InstanceSetting list \<Rightarrow> bool" where
  "stored_case k c ss = (case find (\<lambda>s. is_name s = buildInstanceSettingName k) ss of Some s \<Rightarrow> is_case s = c | None \<Rightarrow> False)"

definition answer_installs :: "InstanceSetting_Key \<Rightarrow> setting_case \<Rightarrow> 'p settings_page \<Rightarrow> (js_error + setting_content InstanceSetting) \<Rightarrow> bool" where
  "answer_installs k c p a = (case a of Inr s \<Rightarrow> is_name s = buildInstanceSettingName k \<or> \<not> stored_case k c (settings (sp_instance p)) | Inl _ \<Rightarrow> False)"

definition save_refreshes :: "InstanceSetting_Key \<Rightarrow> setting_case \<Rightarrow> setting_answers \<Rightarrow> 'p settings_page \<Rightarrow> bool" where
  "save_refreshes k c ans p \<longleftrightarrow> answer_installs k c p (upd_answer ans) \<or>
     (case upd_answer ans of Inr _ \<Rightarrow> buildInstanceSettingName k \<notin> fetchedSettings (sp_instance p) \<and> answer_installs k c p (get_answer ans) | Inl _ \<Rightarrow> False)"

section \<open>The AI providers\<close>

record LocalAIProvider =
  lp_id :: string
  lp_title :: string
  lp_type :: AIProviderType
  lp_endpoint :: string
  lp_apiKey :: string
  lp_apiKeySet :: bool
  lp_apiKeyHint :: string

record LocalTranscription =
  lt_providerId :: string
  lt_model :: string
  lt_language :: string
  lt_prompt :: string

definition providerTypeOptions :: "AIProviderType list" where "providerTypeOptions = [OPENAI, GEMINI]"

text \<open>The identifier of \<open>crypto.randomUUID\<close> where the browser has it, else one from the clock and a random text.\<close>

definition createProviderID :: "string option \<Rightarrow> nat \<Rightarrow> string \<Rightarrow> string" where
  "createProviderID uuid now random = (case uuid of Some u \<Rightarrow> u | None \<Rightarrow> ''ai-'' @ show_nat now @ ''-'' @ random)"

definition getProviderTypeLabel :: "AIProviderType \<Rightarrow> string" where
  "getProviderTypeLabel t = (case t of AI_PROVIDER_TYPE_UNSPECIFIED \<Rightarrow> ''AI_PROVIDER_TYPE_UNSPECIFIED'' | OPENAI \<Rightarrow> ''OPENAI'' | GEMINI \<Rightarrow> ''GEMINI'')"

definition getDefaultEndpointPlaceholder :: "AIProviderType \<Rightarrow> string" where
  "getDefaultEndpointPlaceholder t = (case t of OPENAI \<Rightarrow> ''https://api.openai.com/v1''
     | GEMINI \<Rightarrow> ''https://generativelanguage.googleapis.com/v1beta'' | _ \<Rightarrow> [])"

definition toLocalProvider :: "AIProviderConfig \<Rightarrow> LocalAIProvider" where
  "toLocalProvider p = \<lparr>lp_id = pc_id p, lp_title = pc_title p, lp_type = pc_type p, lp_endpoint = pc_endpoint p, lp_apiKey = [],
     lp_apiKeySet = pc_apiKeySet p, lp_apiKeyHint = pc_apiKeyHint p\<rparr>"

definition toLocalTranscription :: "TranscriptionConfig option \<Rightarrow> LocalTranscription" where
  "toLocalTranscription config = (case config of
     Some c \<Rightarrow> \<lparr>lt_providerId = tc_providerId c, lt_model = tc_model c, lt_language = tc_language c, lt_prompt = tc_prompt c\<rparr>
   | None \<Rightarrow> \<lparr>lt_providerId = [], lt_model = [], lt_language = [], lt_prompt = []\<rparr>)"

definition newProvider :: "string \<Rightarrow> LocalAIProvider" where
  "newProvider ident = \<lparr>lp_id = ident, lp_title = [], lp_type = OPENAI, lp_endpoint = [], lp_apiKey = [], lp_apiKeySet = False, lp_apiKeyHint = []\<rparr>"

definition toProviderConfig :: "LocalAIProvider \<Rightarrow> AIProviderConfig" where
  "toProviderConfig p = \<lparr>pc_id = lp_id p, pc_title = trim (lp_title p), pc_type = lp_type p, pc_endpoint = trim (lp_endpoint p),
     pc_apiKey = lp_apiKey p, pc_apiKeySet = False, pc_apiKeyHint = []\<rparr>"

definition toTranscriptionConfig :: "LocalTranscription \<Rightarrow> TranscriptionConfig" where
  "toTranscriptionConfig t = \<lparr>tc_providerId = lt_providerId t, tc_model = trim (lt_model t), tc_language = trim (lt_language t), tc_prompt = lt_prompt t\<rparr>"

definition empty_transcription :: TranscriptionConfig where
  "empty_transcription = \<lparr>tc_providerId = [], tc_model = [], tc_language = [], tc_prompt = []\<rparr>"

definition aiSetting :: "'p settings_page \<Rightarrow> AISetting" where
  "aiSetting p = (case derived_setting INSTANCE_AI AISettingCase NoContent (settings (sp_instance p)) of
     AIContent a \<Rightarrow> a | _ \<Rightarrow> \<lparr>ai_providers = [], ai_transcription = None\<rparr>)"

record 'p ai_section =
  as_page :: "'p settings_page"
  as_providers :: "LocalAIProvider list"
  as_transcription :: LocalTranscription
  as_editing :: "LocalAIProvider option"
  as_draft :: LocalAIProvider
  as_deleteTarget :: "LocalAIProvider option"
  as_lastSynced :: LocalTranscription

definition AISection :: "string \<Rightarrow> 'p settings_page \<Rightarrow> 'p ai_section" where
  "AISection fresh p = \<lparr>as_page = p, as_providers = map toLocalProvider (ai_providers (aiSetting p)),
     as_transcription = toLocalTranscription (ai_transcription (aiSetting p)), as_editing = None, as_draft = newProvider fresh, as_deleteTarget = None,
     as_lastSynced = toLocalTranscription (ai_transcription (aiSetting p))\<rparr>"

definition transcriptionHasChanges :: "'p ai_section \<Rightarrow> bool" where
  "transcriptionHasChanges s \<longleftrightarrow> as_transcription s \<noteq> toLocalTranscription (ai_transcription (aiSetting (as_page s)))"

definition transcriptionProviderRef :: "'p ai_section \<Rightarrow> LocalAIProvider option" where
  "transcriptionProviderRef s = find (\<lambda>p. lp_id p = lt_providerId (as_transcription s)) (as_providers s)"

text \<open>The two effects on the original setting. The second compares by content.\<close>

definition sync_providers :: "'p ai_section \<Rightarrow> 'p ai_section" where
  "sync_providers s = s\<lparr>as_providers := map toLocalProvider (ai_providers (aiSetting (as_page s)))\<rparr>"

definition sync_transcription :: "'p ai_section \<Rightarrow> 'p ai_section" where
  "sync_transcription s =
     (let nxt = toLocalTranscription (ai_transcription (aiSetting (as_page s)))
      in if as_lastSynced s \<noteq> nxt then s\<lparr>as_transcription := nxt, as_lastSynced := nxt\<rparr> else s)"

text \<open>The dialog's effect on the provider it is given. \<open>fresh\<close> is the identifier of the empty provider of a closed dialog.\<close>

definition set_editing :: "string \<Rightarrow> LocalAIProvider option \<Rightarrow> 'p ai_section \<Rightarrow> 'p ai_section" where
  "set_editing fresh e s = s\<lparr>as_editing := e, as_draft := (case e of Some p \<Rightarrow> p | None \<Rightarrow> newProvider fresh)\<rparr>"

text \<open>The effects that follow a call of \<open>persistAISetting\<close> by the section \<open>s0\<close>, when the call and the updates after it have led to \<open>s\<close>.\<close>

definition after_save :: "setting_answers \<Rightarrow> 'p ai_section \<Rightarrow> 'p ai_section \<Rightarrow> 'p ai_section" where
  "after_save ans s0 s = sync_transcription (if save_refreshes INSTANCE_AI AISettingCase ans (as_page s0) then sync_providers s else s)"

definition persistAISetting :: "(js_error \<Rightarrow> string) \<Rightarrow> setting_answers \<Rightarrow> LocalAIProvider list \<Rightarrow> TranscriptionConfig option \<Rightarrow> 'p ai_section \<Rightarrow>
    bool \<times> 'p ai_section" where
  "persistAISetting message ans nextProviders nextTranscription s =
     (case saveInstanceSetting message ans INSTANCE_AI
        (setting_message INSTANCE_AI AISettingCase (AIContent \<lparr>ai_providers = map toProviderConfig nextProviders, ai_transcription = nextTranscription\<rparr>)) (as_page s) of
        (ok, p) \<Rightarrow> (ok, s\<lparr>as_page := p\<rparr>))"

definition handleCreateProvider :: "string \<Rightarrow> 'p ai_section \<Rightarrow> 'p ai_section" where
  "handleCreateProvider ident s = set_editing ident (Some (newProvider ident)) s"

definition handleEditProvider :: "LocalAIProvider \<Rightarrow> 'p ai_section \<Rightarrow> 'p ai_section" where
  "handleEditProvider p s = set_editing [] (Some (p\<lparr>lp_apiKey := []\<rparr>)) s"

definition handleSaveProvider :: "(js_error \<Rightarrow> string) \<Rightarrow> setting_answers \<Rightarrow> string \<Rightarrow> LocalAIProvider \<Rightarrow> 'p ai_section \<Rightarrow> 'p ai_section" where
  "handleSaveProvider message ans fresh provider s =
     (let title = trim (lp_title provider); endpoint = trim (lp_endpoint provider)
      in if title = [] then s\<lparr>as_page := add_toast (ToastError ''setting.ai.provider-title-required'') (as_page s)\<rparr>
         else if \<not> lp_apiKeySet provider \<and> trim (lp_apiKey provider) = []
         then s\<lparr>as_page := add_toast (ToastError ''setting.ai.api-key-required'') (as_page s)\<rparr>
         else
           (let normalizedProvider = provider\<lparr>lp_title := title, lp_endpoint := endpoint\<rparr>;
                exists = list_ex (\<lambda>i. lp_id i = lp_id normalizedProvider) (as_providers s);
                nextProviders = (if exists then map (\<lambda>i. if lp_id i = lp_id normalizedProvider then normalizedProvider else i) (as_providers s)
                                 else as_providers s @ [normalizedProvider])
            in case persistAISetting message ans nextProviders (ai_transcription (aiSetting (as_page s))) s of
                 (ok, s1) \<Rightarrow> after_save ans s (if ok then set_editing fresh None (s1\<lparr>as_providers := nextProviders\<rparr>) else s1)))"

definition handleDeleteProvider :: "(js_error \<Rightarrow> string) \<Rightarrow> setting_answers \<Rightarrow> 'p ai_section \<Rightarrow> 'p ai_section" where
  "handleDeleteProvider message ans s =
     (case as_deleteTarget s of
        None \<Rightarrow> s
      | Some target \<Rightarrow>
          (let nextProviders = filter (\<lambda>p. lp_id p \<noteq> lp_id target) (as_providers s);
               persisted = ai_transcription (aiSetting (as_page s));
               nextTranscription = (case persisted of
                 Some t \<Rightarrow> if tc_providerId t = lp_id target then Some empty_transcription else persisted
               | None \<Rightarrow> persisted)
           in case persistAISetting message ans nextProviders nextTranscription s of
                (ok, s1) \<Rightarrow> after_save ans s
                  (if ok then
                     (let s2 = s1\<lparr>as_providers := nextProviders\<rparr>;
                          s3 = (if lt_providerId (as_transcription s) = lp_id target
                                then s2\<lparr>as_transcription := (as_transcription s2)\<lparr>lt_providerId := []\<rparr>\<rparr> else s2)
                      in s3\<lparr>as_deleteTarget := None\<rparr>)
                   else s1)))"

definition handleSaveTranscription :: "(js_error \<Rightarrow> string) \<Rightarrow> setting_answers \<Rightarrow> 'p ai_section \<Rightarrow> 'p ai_section" where
  "handleSaveTranscription message ans s =
     (if lt_providerId (as_transcription s) \<noteq> [] \<and> transcriptionProviderRef s = None
      then s\<lparr>as_page := add_toast (ToastError ''setting.ai.transcription-empty-providers'') (as_page s)\<rparr>
      else after_save ans s (snd (persistAISetting message ans (as_providers s) (Some (toTranscriptionConfig (as_transcription s))) s)))"

text \<open>What is typed into the dialog and into the transcription form. The first choice of the provider selector stands for none.\<close>

datatype draft_change = DraftTitle string | DraftType AIProviderType | DraftEndpoint string | DraftApiKey string

definition updateDraft :: "draft_change \<Rightarrow> 'p ai_section \<Rightarrow> 'p ai_section" where
  "updateDraft ch s = s\<lparr>as_draft := (case ch of
     DraftTitle t \<Rightarrow> (as_draft s)\<lparr>lp_title := t\<rparr> | DraftType t \<Rightarrow> (as_draft s)\<lparr>lp_type := t\<rparr>
   | DraftEndpoint t \<Rightarrow> (as_draft s)\<lparr>lp_endpoint := t\<rparr> | DraftApiKey t \<Rightarrow> (as_draft s)\<lparr>lp_apiKey := t\<rparr>)\<rparr>"

datatype transcription_change = ChooseProvider string | TranscriptionModel string | TranscriptionLanguage string | TranscriptionPrompt string

definition updateTranscription :: "transcription_change \<Rightarrow> 'p ai_section \<Rightarrow> 'p ai_section" where
  "updateTranscription ch s = s\<lparr>as_transcription := (case ch of
     ChooseProvider v \<Rightarrow> (as_transcription s)\<lparr>lt_providerId := (if v = ''__none__'' then [] else v)\<rparr>
   | TranscriptionModel t \<Rightarrow> (as_transcription s)\<lparr>lt_model := t\<rparr>
   | TranscriptionLanguage t \<Rightarrow> (as_transcription s)\<lparr>lt_language := t\<rparr>
   | TranscriptionPrompt t \<Rightarrow> (as_transcription s)\<lparr>lt_prompt := t\<rparr>)\<rparr>"

section \<open>The section as a state machine\<close>

datatype ai_event = AddProvider string | EditRow LocalAIProvider | TypeDraft draft_change | CloseDialog string | SaveDialog setting_answers string
  | AskDelete LocalAIProvider | CancelDelete | ConfirmDelete setting_answers | TypeTranscription transcription_change | SaveTranscription setting_answers
  | SettingsArrive "string list" "js_error + setting_content InstanceSetting list"

text \<open>The answer to a request that the page made for several settings, and the effects that follow it.\<close>

definition settings_arrive :: "string list \<Rightarrow> (js_error + setting_content InstanceSetting list) \<Rightarrow> 'p ai_section \<Rightarrow> 'p ai_section" where
  "settings_arrive names answer s =
     (let s1 = s\<lparr>as_page := (as_page s)\<lparr>sp_instance := snd (fetchSettings_done names answer (sp_instance (as_page s)))\<rparr>\<rparr>
      in sync_transcription (case answer of
           Inr new \<Rightarrow> if list_ex (\<lambda>x. is_name x = buildInstanceSettingName INSTANCE_AI) new \<or> \<not> stored_case INSTANCE_AI AISettingCase (settings (sp_instance (as_page s)))
             then sync_providers s1 else s1
         | Inl _ \<Rightarrow> s1))"

text \<open>An answer for this setting carries its name and a content that the server accepted: a transcription refers to one of the providers, keys are
  not told.\<close>

definition valid_reference :: "AISetting \<Rightarrow> bool" where
  "valid_reference a \<longleftrightarrow> (case ai_transcription a of None \<Rightarrow> True
     | Some t \<Rightarrow> tc_providerId t = [] \<or> tc_providerId t \<in> pc_id ` set (ai_providers a))"


definition ai_message :: "AISetting \<Rightarrow> setting_content InstanceSetting" where
  "ai_message a = setting_message INSTANCE_AI AISettingCase (AIContent a)"

definition ai_answer_ok :: "setting_content InstanceSetting \<Rightarrow> bool" where
  "ai_answer_ok x \<longleftrightarrow> is_case x = AISettingCase \<and> (case is_content x of AIContent a \<Rightarrow> valid_reference a | _ \<Rightarrow> False)"

definition ai_answers_ok :: "setting_answers \<Rightarrow> bool" where
  "ai_answers_ok ans \<longleftrightarrow> (\<forall>x. upd_answer ans = Inr x \<or> get_answer ans = Inr x \<longrightarrow> is_name x = buildInstanceSettingName INSTANCE_AI \<and> ai_answer_ok x)"

text \<open>The steps. \<open>message\<close> is the text of an error.\<close>

inductive ai_step :: "(js_error \<Rightarrow> string) \<Rightarrow> ai_event \<Rightarrow> 'p ai_section \<Rightarrow> 'p ai_section \<Rightarrow> bool" for message where
  add: "ai_step message (AddProvider ident) s (handleCreateProvider ident s)"
| edit: "p \<in> set (as_providers s) \<Longrightarrow> ai_step message (EditRow p) s (handleEditProvider p s)"
| type_draft: "as_editing s \<noteq> None \<Longrightarrow> ai_step message (TypeDraft ch) s (updateDraft ch s)"
| close: "ai_step message (CloseDialog fresh) s (set_editing fresh None s)"
| save: "as_editing s \<noteq> None \<Longrightarrow> ai_answers_ok ans \<Longrightarrow> ai_step message (SaveDialog ans fresh) s (handleSaveProvider message ans fresh (as_draft s) s)"
| ask: "p \<in> set (as_providers s) \<Longrightarrow> ai_step message (AskDelete p) s (s\<lparr>as_deleteTarget := Some p\<rparr>)"
| cancel: "ai_step message CancelDelete s (s\<lparr>as_deleteTarget := None\<rparr>)"
| delete: "ai_answers_ok ans \<Longrightarrow> ai_step message (ConfirmDelete ans) s (handleDeleteProvider message ans s)"
| type_transcription: "ai_step message (TypeTranscription ch) s (updateTranscription ch s)"
| save_transcription: "transcriptionHasChanges s \<Longrightarrow> ai_answers_ok ans \<Longrightarrow> ai_step message (SaveTranscription ans) s (handleSaveTranscription message ans s)"
| arrive: "(\<And>new. answer = Inr new \<Longrightarrow> \<forall>x \<in> set new. is_name x = buildInstanceSettingName INSTANCE_AI \<longrightarrow> ai_answer_ok x) \<Longrightarrow>
    ai_step message (SettingsArrive names answer) s (settings_arrive names answer s)"

inductive_cases ai_stepE: "ai_step message e s s'"

text \<open>The page opens the section with the settings it has, and has sent nothing.\<close>

definition ai_initial :: "'p ai_section \<Rightarrow> bool" where
  "ai_initial s \<longleftrightarrow> (\<exists>fresh p. s = AISection fresh p \<and> valid_reference (aiSetting p) \<and> sp_sent p = [])"

section \<open>The invariant\<close>

text \<open>A provider as it is sent back unchanged: without a key, which the server then keeps.\<close>

definition kept :: "AIProviderConfig \<Rightarrow> AIProviderConfig" where
  "kept p = toProviderConfig (toLocalProvider p)"

definition ai_inv :: "'p ai_section \<Rightarrow> bool" where
  "ai_inv s \<longleftrightarrow> valid_reference (aiSetting (as_page s)) \<and>
     as_providers s = map toLocalProvider (ai_providers (aiSetting (as_page s))) \<and>
     as_lastSynced s = toLocalTranscription (ai_transcription (aiSetting (as_page s))) \<and>
     (\<forall>r \<in> set (sp_sent (as_page s)). \<exists>a. r = ai_message a \<and> valid_reference a)"

lemma find_filter_add:
  "is_name y = n \<Longrightarrow> find (\<lambda>s. is_name s = n) (filter (\<lambda>x. is_name x \<noteq> n) ss @ [y]) = Some y"
  by (induction ss) auto

lemma find_merge_settings:
  "find (\<lambda>s. is_name s = n) (merge_settings ss new) =
     (if n \<in> is_name ` set new then find (\<lambda>s. is_name s = n) new else find (\<lambda>s. is_name s = n) ss)"
proof -
  have f: "find P (xs @ ys) = (case find P xs of None \<Rightarrow> find P ys | Some y \<Rightarrow> Some y)" for P and xs ys :: "'v InstanceSetting list"
    by (induction xs) auto
  have n: "n \<notin> is_name ` set new \<Longrightarrow> find (\<lambda>s. is_name s = n) new = None" by (auto simp: find_None_iff)
  have o: "find (\<lambda>s. is_name s = n) (filter (\<lambda>s. is_name s \<notin> A) ss) = (if n \<in> A then None else find (\<lambda>s. is_name s = n) ss)" for A
    by (induction ss) auto
  show ?thesis unfolding merge_settings_def f o using n by (auto split: option.splits)
qed

lemma aiSetting_def': "aiSetting p = (case find (\<lambda>s. is_name s = buildInstanceSettingName INSTANCE_AI) (settings (sp_instance p)) of
    Some x \<Rightarrow> if is_case x = AISettingCase then (case is_content x of AIContent a \<Rightarrow> a | _ \<Rightarrow> \<lparr>ai_providers = [], ai_transcription = None\<rparr>)
      else \<lparr>ai_providers = [], ai_transcription = None\<rparr>
  | None \<Rightarrow> \<lparr>ai_providers = [], ai_transcription = None\<rparr>)"
  by (auto simp: aiSetting_def derived_setting_def split: option.splits)

lemma answer_aiSetting:
  assumes "ai_answer_ok x" "find (\<lambda>s. is_name s = buildInstanceSettingName INSTANCE_AI) (settings (sp_instance p)) = Some x"
  shows "valid_reference (aiSetting p)"
  using assms by (auto simp: ai_answer_ok_def aiSetting_def' split: setting_content.splits)

lemma persist_props:
  assumes "persistAISetting message ans ps t s = (ok, s1)" "ai_answers_ok ans"
  shows "\<exists>p1. s1 = s\<lparr>as_page := p1\<rparr> \<and> sp_sent p1 = sp_sent (as_page s) @ [ai_message \<lparr>ai_providers = map toProviderConfig ps, ai_transcription = t\<rparr>] \<and>
    (if save_refreshes INSTANCE_AI AISettingCase ans (as_page s) then valid_reference (aiSetting p1)
     else \<not> ok \<and> aiSetting p1 = aiSetting (as_page s))"
proof (cases "upd_answer ans")
  case (Inl e)
  then show ?thesis using assms(1)
    by (auto simp: persistAISetting_def saveInstanceSetting_def Let_def updateSetting_def add_toast_def ai_message_def aiSetting_def
      save_refreshes_def answer_installs_def split: prod.splits)
next
  case (Inr x)
  then have x: "is_name x = buildInstanceSettingName INSTANCE_AI" "ai_answer_ok x" using assms(2) by (auto simp: ai_answers_ok_def)
  have r: "save_refreshes INSTANCE_AI AISettingCase ans (as_page s)" using Inr x by (simp add: save_refreshes_def answer_installs_def)
  have v: "valid_reference (aiSetting p1)"
    if "settings (sp_instance p1) = filter (\<lambda>y. is_name y \<noteq> buildInstanceSettingName INSTANCE_AI) ss @ [z]"
      "is_name z = buildInstanceSettingName INSTANCE_AI" "ai_answer_ok z"
    for p1 :: "'a settings_page" and z ss
    using that by (intro answer_aiSetting[of z]) (simp_all add: find_filter_add)
  show ?thesis
  proof (cases "buildInstanceSettingName INSTANCE_AI \<in> fetchedSettings (sp_instance (as_page s))")
    case True
    then show ?thesis using assms(1) Inr r x
      by (auto simp: persistAISetting_def saveInstanceSetting_def Let_def updateSetting_def fetchSetting_start_def add_toast_def ai_message_def intro!: v)
  next
    case False
    show ?thesis
    proof (cases "get_answer ans")
      case (Inl e)
      with False show ?thesis using assms(1) Inr r x
        by (auto simp: persistAISetting_def saveInstanceSetting_def Let_def updateSetting_def fetchSetting_start_def fetchSetting_done_def add_toast_def ai_message_def intro!: v)
    next
      case (Inr z)
      then have "is_name z = buildInstanceSettingName INSTANCE_AI" "ai_answer_ok z" using assms(2) by (auto simp: ai_answers_ok_def)
      with False Inr show ?thesis using assms(1) \<open>upd_answer ans = Inr x\<close> r x
        by (auto simp: persistAISetting_def saveInstanceSetting_def Let_def updateSetting_def fetchSetting_start_def fetchSetting_done_def add_toast_def ai_message_def
          simp del: filter_append intro!: v)
    qed
  qed
qed

lemmas sync_defs = after_save_def sync_providers_def sync_transcription_def set_editing_def

text \<open>What a save leaves, for a section that is in sync before it and whose callers set nothing but local state.\<close>

lemma after_save_inv:
  assumes "ai_inv s" "persistAISetting message ans ps t s = (ok, s1)" "ai_answers_ok ans"
    and "valid_reference \<lparr>ai_providers = map toProviderConfig ps, ai_transcription = t\<rparr>"
    and "as_page s2 = as_page s1" "as_lastSynced s2 = as_lastSynced s1" "\<not> ok \<Longrightarrow> as_providers s2 = as_providers s1"
  shows "ai_inv (after_save ans s s2)"
  using persist_props[OF assms(2,3)] assms(1,4-7)
  by (auto simp: ai_inv_def sync_defs Let_def split: if_splits)

text \<open>The request of each handler, for a section in sync.\<close>

lemma kept_ids: "pc_id ` set (map toProviderConfig ps) = lp_id ` set ps"
  by (auto simp: toProviderConfig_def image_iff)

lemma kept_simps [simp]: "pc_id (kept p) = pc_id p" "pc_apiKey (kept p) = []"
  by (simp_all add: kept_def toProviderConfig_def toLocalProvider_def)

lemma id_toLocal [simp]: "lp_id (toLocalProvider p) = pc_id p"
  by (simp add: toLocalProvider_def)

lemma id_toConfig [simp]: "pc_id (toProviderConfig p) = lp_id p"
  by (simp add: toProviderConfig_def)

definition saved_providers :: "LocalAIProvider \<Rightarrow> LocalAIProvider list \<Rightarrow> LocalAIProvider list" where
  "saved_providers d ps =
     (let n = d\<lparr>lp_title := trim (lp_title d), lp_endpoint := trim (lp_endpoint d)\<rparr>
      in if list_ex (\<lambda>i. lp_id i = lp_id d) ps then map (\<lambda>i. if lp_id i = lp_id d then n else i) ps else ps @ [n])"

lemma saved_ids: "lp_id ` set (saved_providers d ps) = insert (lp_id d) (lp_id ` set ps)"
proof (cases "list_ex (\<lambda>i. lp_id i = lp_id d) ps")
  case True
  define n where "n = d\<lparr>lp_title := trim (lp_title d), lp_endpoint := trim (lp_endpoint d)\<rparr>"
  have "map lp_id (saved_providers d ps) = map lp_id ps"
    unfolding saved_providers_def Let_def n_def[symmetric] using True by (simp add: n_def)
  then have "lp_id ` set (saved_providers d ps) = lp_id ` set ps" by (metis set_map)
  moreover have "lp_id d \<in> lp_id ` set ps" using True by (auto simp: list_ex_iff image_iff intro: sym)
  ultimately show ?thesis by blast
qed (simp add: saved_providers_def Let_def)

lemma handleSaveProvider_eq:
  "handleSaveProvider message ans fresh d s =
     (if trim (lp_title d) = [] then s\<lparr>as_page := add_toast (ToastError ''setting.ai.provider-title-required'') (as_page s)\<rparr>
      else if \<not> lp_apiKeySet d \<and> trim (lp_apiKey d) = [] then s\<lparr>as_page := add_toast (ToastError ''setting.ai.api-key-required'') (as_page s)\<rparr>
      else case persistAISetting message ans (saved_providers d (as_providers s)) (ai_transcription (aiSetting (as_page s))) s of
        (ok, s1) \<Rightarrow> after_save ans s (if ok then set_editing fresh None (s1\<lparr>as_providers := saved_providers d (as_providers s)\<rparr>) else s1))"
proof -
  have i: "lp_id (d\<lparr>lp_title := t, lp_endpoint := e\<rparr>) = lp_id d" for t e by simp
  show ?thesis unfolding handleSaveProvider_def saved_providers_def Let_def i ..
qed

lemma handleSaveProvider_saves:
  assumes "trim (lp_title d) \<noteq> []" "lp_apiKeySet d \<or> trim (lp_apiKey d) \<noteq> []"
    and "persistAISetting message ans (saved_providers d (as_providers s)) (ai_transcription (aiSetting (as_page s))) s = (ok, s1)"
  shows "handleSaveProvider message ans fresh d s =
    after_save ans s (if ok then set_editing fresh None (s1\<lparr>as_providers := saved_providers d (as_providers s)\<rparr>) else s1)"
  using assms by (auto simp: handleSaveProvider_eq)

lemma handleSaveProvider_refuses:
  assumes "\<not> (trim (lp_title d) \<noteq> [] \<and> (lp_apiKeySet d \<or> trim (lp_apiKey d) \<noteq> []))"
  shows "\<exists>t. handleSaveProvider message ans fresh d s = s\<lparr>as_page := add_toast (ToastError t) (as_page s)\<rparr>"
  using assms by (auto simp: handleSaveProvider_eq)

lemma inv_toast: "ai_inv s \<Longrightarrow> ai_inv (s\<lparr>as_page := add_toast t (as_page s)\<rparr>)"
  by (simp add: ai_inv_def aiSetting_def add_toast_def)

lemma saved_others: "filter (\<lambda>p. lp_id p \<noteq> lp_id d) (saved_providers d ps) = filter (\<lambda>p. lp_id p \<noteq> lp_id d) ps"
proof -
  have "filter (\<lambda>p. lp_id p \<noteq> lp_id d) (map (\<lambda>i. if lp_id i = lp_id d then n else i) ps) = filter (\<lambda>p. lp_id p \<noteq> lp_id d) ps"
    if "lp_id n = lp_id d" for n
    using that by (induction ps) auto
  then show ?thesis by (simp add: saved_providers_def Let_def)
qed

lemma reference_iff:
  "valid_reference \<lparr>ai_providers = map toProviderConfig ps, ai_transcription = t\<rparr> \<longleftrightarrow>
     (case t of None \<Rightarrow> True | Some c \<Rightarrow> tc_providerId c = [] \<or> tc_providerId c \<in> lp_id ` set ps)"
  unfolding valid_reference_def using kept_ids[of ps] by (simp split: option.splits)

lemma inv_reference:
  assumes "ai_inv s"
  shows "case ai_transcription (aiSetting (as_page s)) of None \<Rightarrow> True | Some c \<Rightarrow> tc_providerId c = [] \<or> tc_providerId c \<in> lp_id ` set (as_providers s)"
  using assms by (auto simp: ai_inv_def valid_reference_def image_image split: option.splits)

definition deleted_transcription :: "string \<Rightarrow> TranscriptionConfig option \<Rightarrow> TranscriptionConfig option" where
  "deleted_transcription i t = (case t of Some c \<Rightarrow> if tc_providerId c = i then Some empty_transcription else t | None \<Rightarrow> t)"

lemma save_provider_inv:
  assumes "ai_inv s" "ai_answers_ok ans"
  shows "ai_inv (handleSaveProvider message ans fresh d s)"
proof -
  have "valid_reference \<lparr>ai_providers = map toProviderConfig (saved_providers d (as_providers s)), ai_transcription = ai_transcription (aiSetting (as_page s))\<rparr>"
    unfolding reference_iff saved_ids using inv_reference[OF assms(1)] by (auto split: option.splits)
  note k = after_save_inv[OF assms(1) _ assms(2) this]
  show ?thesis
  proof (cases "trim (lp_title d) \<noteq> [] \<and> (lp_apiKeySet d \<or> trim (lp_apiKey d) \<noteq> [])")
    case True
    obtain ok s1 where p: "persistAISetting message ans (saved_providers d (as_providers s)) (ai_transcription (aiSetting (as_page s))) s = (ok, s1)"
      by fastforce
    show ?thesis using True by (simp add: handleSaveProvider_saves[OF _ _ p]) (auto intro!: k[OF p] simp: set_editing_def)
  next
    case False
    then show ?thesis using handleSaveProvider_refuses inv_toast[OF assms(1)] by metis
  qed
qed

lemma delete_provider_inv:
  assumes "ai_inv s" "ai_answers_ok ans"
  shows "ai_inv (handleDeleteProvider message ans s)"
proof (cases "as_deleteTarget s")
  case (Some t)
  have "valid_reference \<lparr>ai_providers = map toProviderConfig (filter (\<lambda>p. lp_id p \<noteq> lp_id t) (as_providers s)),
      ai_transcription = deleted_transcription (lp_id t) (ai_transcription (aiSetting (as_page s)))\<rparr>"
    unfolding reference_iff using inv_reference[OF assms(1)]
    by (auto simp: deleted_transcription_def empty_transcription_def split: option.splits)
  note k = after_save_inv[OF assms(1) _ assms(2) this[unfolded deleted_transcription_def]]
  show ?thesis using Some by (auto simp: handleDeleteProvider_def Let_def split: prod.splits intro!: k)
qed (use assms in \<open>simp add: handleDeleteProvider_def\<close>)

lemma save_transcription_inv:
  assumes "ai_inv s" "ai_answers_ok ans"
  shows "ai_inv (handleSaveTranscription message ans s)"
proof (cases "lt_providerId (as_transcription s) \<noteq> [] \<and> transcriptionProviderRef s = None")
  case True
  then show ?thesis using inv_toast[OF assms(1)] by (simp add: handleSaveTranscription_def)
next
  case False
  have "valid_reference \<lparr>ai_providers = map toProviderConfig (as_providers s), ai_transcription = Some (toTranscriptionConfig (as_transcription s))\<rparr>"
    unfolding reference_iff using False
    by (force simp: toTranscriptionConfig_def transcriptionProviderRef_def find_None_iff)
  note k = after_save_inv[OF assms(1) surjective_pairing assms(2) this]
  show ?thesis using False by (auto simp: handleSaveTranscription_def intro!: k)
qed

lemma arrive_inv:
  assumes "ai_inv s" "\<And>new. answer = Inr new \<Longrightarrow> \<forall>x \<in> set new. is_name x = buildInstanceSettingName INSTANCE_AI \<longrightarrow> ai_answer_ok x"
  shows "ai_inv (settings_arrive names answer s)"
proof (cases answer)
  case (Inl e)
  then show ?thesis using assms(1)
    by (auto simp: settings_arrive_def fetchSettings_done_def sync_defs ai_inv_def aiSetting_def Let_def)
next
  case (Inr new)
  let ?n = "buildInstanceSettingName INSTANCE_AI"
  define p1 where "p1 = (as_page s)\<lparr>sp_instance := snd (fetchSettings_done names answer (sp_instance (as_page s)))\<rparr>"
  have p1: "settings (sp_instance p1) = merge_settings (settings (sp_instance (as_page s))) new" "sp_sent p1 = sp_sent (as_page s)"
    by (simp_all add: p1_def fetchSettings_done_def Inr)
  show ?thesis
  proof (cases "?n \<in> is_name ` set new")
    case True
    then obtain x where x: "find (\<lambda>s. is_name s = ?n) new = Some x" by (cases "find (\<lambda>s. is_name s = ?n) new") (auto simp: find_None_iff)
    then have "ai_answer_ok x" using assms(2)[OF Inr] by (auto simp: find_Some_iff)
    moreover have "find (\<lambda>s. is_name s = ?n) (settings (sp_instance p1)) = Some x" using True x by (simp add: p1 find_merge_settings)
    ultimately have "valid_reference (aiSetting p1)" by (rule answer_aiSetting)
    moreover have "list_ex (\<lambda>x. is_name x = ?n) new" using True by (auto simp: list_ex_iff)
    ultimately show ?thesis using assms(1) p1(2)
      by (auto simp: settings_arrive_def Inr p1_def[unfolded Inr, symmetric] sync_defs ai_inv_def Let_def)
  next
    case False
    then have "find (\<lambda>s. is_name s = ?n) (settings (sp_instance p1)) = find (\<lambda>s. is_name s = ?n) (settings (sp_instance (as_page s)))"
      by (simp add: p1 find_merge_settings)
    then have "aiSetting p1 = aiSetting (as_page s)" by (simp add: aiSetting_def')
    then show ?thesis using assms(1) p1(2)
      by (auto simp: settings_arrive_def Inr p1_def[unfolded Inr, symmetric] sync_defs ai_inv_def Let_def)
  qed
qed

interpretation ais: invariant ai_initial "ai_step message" ai_inv
proof
  fix s :: "'a ai_section"
  assume "ai_initial s"
  then show "ai_inv s" by (auto simp: ai_initial_def ai_inv_def AISection_def)
next
  fix s e and s' :: "'a ai_section"
  assume i: "ai_inv s" and "ai_step message e s s'"
  from this(2) show "ai_inv s'"
  proof (cases rule: ai_step.cases)
    case (save ans fresh)
    then show ?thesis using save_provider_inv[OF i] by simp
  next
    case (delete ans)
    then show ?thesis using delete_provider_inv[OF i] by simp
  next
    case (save_transcription ans)
    then show ?thesis using save_transcription_inv[OF i] by simp
  next
    case (arrive answer names)
    then show ?thesis using arrive_inv[OF i, of answer names] by blast
  qed (use i in \<open>auto simp: ai_inv_def handleCreateProvider_def handleEditProvider_def updateDraft_def updateTranscription_def set_editing_def\<close>)
qed

section \<open>Properties\<close>

text \<open>What an event may ask of the server.\<close>

fun ai_request :: "ai_event \<Rightarrow> 'p ai_section \<Rightarrow> AISetting \<Rightarrow> bool" where
  "ai_request (SaveDialog ans fresh) s a \<longleftrightarrow>
     ai_transcription a = ai_transcription (aiSetting (as_page s)) \<and>
     filter (\<lambda>p. pc_id p \<noteq> lp_id (as_draft s)) (ai_providers a) = map kept (filter (\<lambda>p. pc_id p \<noteq> lp_id (as_draft s)) (ai_providers (aiSetting (as_page s)))) \<and>
     toProviderConfig (as_draft s) \<in> set (ai_providers a) \<and> pc_title (toProviderConfig (as_draft s)) \<noteq> []"
| "ai_request (ConfirmDelete ans) s a \<longleftrightarrow>
     (\<exists>t. as_deleteTarget s = Some t \<and> ai_providers a = map kept (filter (\<lambda>p. pc_id p \<noteq> lp_id t) (ai_providers (aiSetting (as_page s)))) \<and>
        ai_transcription a = deleted_transcription (lp_id t) (ai_transcription (aiSetting (as_page s))))"
| "ai_request (SaveTranscription ans) s a \<longleftrightarrow>
     ai_providers a = map kept (ai_providers (aiSetting (as_page s))) \<and> ai_transcription a = Some (toTranscriptionConfig (as_transcription s))"
| "ai_request _ s a \<longleftrightarrow> False"

lemma sent_sync [simp]: "sp_sent (as_page (sync_providers s)) = sp_sent (as_page s)" "sp_sent (as_page (sync_transcription s)) = sp_sent (as_page s)"
  "sp_sent (as_page (after_save ans s0 s)) = sp_sent (as_page s)"
  by (simp_all add: sync_defs Let_def)

lemma toConfig_normal: "toProviderConfig (d\<lparr>lp_title := trim (lp_title d), lp_endpoint := trim (lp_endpoint d)\<rparr>) = toProviderConfig d"
  by (simp add: toProviderConfig_def trim_idem)

lemma saved_member: "d\<lparr>lp_title := trim (lp_title d), lp_endpoint := trim (lp_endpoint d)\<rparr> \<in> set (saved_providers d ps)"
proof (cases "list_ex (\<lambda>i. lp_id i = lp_id d) ps")
  case True
  then obtain i where "i \<in> set ps" "lp_id i = lp_id d" by (auto simp: list_ex_iff)
  then have "(if lp_id i = lp_id d then n else i) = n \<and> n \<in> set (map (\<lambda>i. if lp_id i = lp_id d then n else i) ps)" for n by force
  then show ?thesis using True by (simp only: saved_providers_def Let_def if_True)
qed (simp add: saved_providers_def Let_def)

lemma save_provider_request:
  assumes "ai_inv s" "ai_answers_ok ans"
  shows "sp_sent (as_page (handleSaveProvider message ans fresh (as_draft s) s)) = sp_sent (as_page s) \<or>
    (\<exists>a. sp_sent (as_page (handleSaveProvider message ans fresh (as_draft s) s)) = sp_sent (as_page s) @ [ai_message a] \<and> ai_request (SaveDialog ans fresh) s a)"
proof (cases "trim (lp_title (as_draft s)) \<noteq> [] \<and> (lp_apiKeySet (as_draft s) \<or> trim (lp_apiKey (as_draft s)) \<noteq> [])")
  case True
  let ?d = "as_draft s" and ?ps = "as_providers s" and ?o = "aiSetting (as_page s)"
  let ?a = "\<lparr>ai_providers = map toProviderConfig (saved_providers ?d ?ps), ai_transcription = ai_transcription ?o\<rparr>"
  obtain ok s1 where p: "persistAISetting message ans (saved_providers ?d ?ps) (ai_transcription ?o) s = (ok, s1)" by fastforce
  have "sp_sent (as_page (handleSaveProvider message ans fresh ?d s)) = sp_sent (as_page s) @ [ai_message ?a]"
    using True persist_props[OF p assms(2)] by (auto simp: handleSaveProvider_saves[OF _ _ p] set_editing_def)
  moreover have "ai_request (SaveDialog ans fresh) s ?a"
  proof -
    have "filter (\<lambda>p. pc_id p \<noteq> lp_id ?d) (ai_providers ?a) = map toProviderConfig (filter (\<lambda>p. lp_id p \<noteq> lp_id ?d) ?ps)"
      using saved_others[of ?d ?ps] by (simp add: filter_map o_def)
    also have "\<dots> = map kept (filter (\<lambda>p. pc_id p \<noteq> lp_id ?d) (ai_providers ?o))"
      using assms(1) by (simp add: ai_inv_def filter_map o_def kept_def)
    finally have "filter (\<lambda>p. pc_id p \<noteq> lp_id ?d) (ai_providers ?a) = map kept (filter (\<lambda>p. pc_id p \<noteq> lp_id ?d) (ai_providers ?o))" .
    moreover have "toProviderConfig ?d \<in> set (ai_providers ?a)"
      using imageI[OF saved_member, of toProviderConfig ?d ?ps] by (simp add: toConfig_normal)
    ultimately show ?thesis using True by (simp add: toProviderConfig_def)
  qed
  ultimately show ?thesis by blast
next
  case False
  then obtain t where "handleSaveProvider message ans fresh (as_draft s) s = s\<lparr>as_page := add_toast (ToastError t) (as_page s)\<rparr>"
    using handleSaveProvider_refuses by blast
  then show ?thesis by (simp add: add_toast_def)
qed

lemma delete_provider_request:
  assumes "ai_inv s" "ai_answers_ok ans"
  shows "sp_sent (as_page (handleDeleteProvider message ans s)) = sp_sent (as_page s) \<or>
    (\<exists>a. sp_sent (as_page (handleDeleteProvider message ans s)) = sp_sent (as_page s) @ [ai_message a] \<and> ai_request (ConfirmDelete ans) s a)"
proof (cases "as_deleteTarget s")
  case (Some t)
  let ?ps = "filter (\<lambda>p. lp_id p \<noteq> lp_id t) (as_providers s)" and ?o = "aiSetting (as_page s)"
  obtain ok s1 where p: "persistAISetting message ans ?ps (deleted_transcription (lp_id t) (ai_transcription ?o)) s = (ok, s1)" by fastforce
  let ?a = "\<lparr>ai_providers = map toProviderConfig ?ps, ai_transcription = deleted_transcription (lp_id t) (ai_transcription ?o)\<rparr>"
  have "sp_sent (as_page (handleDeleteProvider message ans s)) = sp_sent (as_page s) @ [ai_message ?a]"
    using persist_props[OF p assms(2)] p by (auto simp: handleDeleteProvider_def Some Let_def deleted_transcription_def[symmetric])
  moreover have "ai_request (ConfirmDelete ans) s ?a"
    using assms(1) Some by (simp add: ai_inv_def filter_map o_def kept_def)
  ultimately show ?thesis by blast
qed (simp add: handleDeleteProvider_def)

lemma save_transcription_request:
  assumes "ai_inv s" "ai_answers_ok ans"
  shows "sp_sent (as_page (handleSaveTranscription message ans s)) = sp_sent (as_page s) \<or>
    (\<exists>a. sp_sent (as_page (handleSaveTranscription message ans s)) = sp_sent (as_page s) @ [ai_message a] \<and> ai_request (SaveTranscription ans) s a)"
proof -
  obtain ok s1 where p: "persistAISetting message ans (as_providers s) (Some (toTranscriptionConfig (as_transcription s))) s = (ok, s1)" by fastforce
  have "map toProviderConfig (as_providers s) = map kept (ai_providers (aiSetting (as_page s)))"
    using assms(1) by (simp add: ai_inv_def o_def kept_def)
  with persist_props[OF p assms(2)] p show ?thesis by (auto simp: handleSaveTranscription_def add_toast_def)
qed

lemma ai_step_request:
  assumes "ai_inv s" "ai_step message e s s'"
  shows "sp_sent (as_page s') = sp_sent (as_page s) \<or> (\<exists>a. sp_sent (as_page s') = sp_sent (as_page s) @ [ai_message a] \<and> ai_request e s a)"
  using assms(2)
proof (cases rule: ai_step.cases)
  case (save ans fresh)
  then show ?thesis using save_provider_request[OF assms(1)] by simp
next
  case (delete ans)
  then show ?thesis using delete_provider_request[OF assms(1)] by simp
next
  case (save_transcription ans)
  then show ?thesis using save_transcription_request[OF assms(1)] by simp
qed (auto simp: handleCreateProvider_def handleEditProvider_def updateDraft_def updateTranscription_def set_editing_def settings_arrive_def Let_def split: sum.splits)

lemma transcription_draft_kept:
  assumes "ai_inv s" "ai_answers_ok ans"
    and "toLocalTranscription (ai_transcription (aiSetting (as_page (handleSaveProvider message ans fresh d s)))) = toLocalTranscription (ai_transcription (aiSetting (as_page s)))"
  shows "as_transcription (handleSaveProvider message ans fresh d s) = as_transcription s"
proof (cases "trim (lp_title d) \<noteq> [] \<and> (lp_apiKeySet d \<or> trim (lp_apiKey d) \<noteq> [])")
  case True
  obtain ok s1 where p: "persistAISetting message ans (saved_providers d (as_providers s)) (ai_transcription (aiSetting (as_page s))) s = (ok, s1)" by fastforce
  from True have h: "handleSaveProvider message ans fresh d s =
      after_save ans s (if ok then set_editing fresh None (s1\<lparr>as_providers := saved_providers d (as_providers s)\<rparr>) else s1)"
    using handleSaveProvider_saves[OF _ _ p] by blast
  obtain p1 where "s1 = s\<lparr>as_page := p1\<rparr>" using persist_props[OF p assms(2)] by blast
  with assms(1,3) show ?thesis unfolding h by (auto simp: ai_inv_def sync_defs Let_def split: if_splits)
next
  case False
  then show ?thesis using handleSaveProvider_refuses[OF False, of message ans fresh s] by auto
qed


definition demo_ai_page :: "unit settings_page" where
  "demo_ai_page = \<lparr>sp_instance = (initial_instance ())\<lparr>settings := [ai_message \<lparr>ai_providers = [\<lparr>pc_id = ''p1'', pc_title = ''One'', pc_type = OPENAI,
       pc_endpoint = [], pc_apiKey = [], pc_apiKeySet = True, pc_apiKeyHint = ''..1''\<rparr>], ai_transcription = Some (empty_transcription\<lparr>tc_providerId := ''p1''\<rparr>)\<rparr>],
       fetchedSettings := {buildInstanceSettingName INSTANCE_AI}\<rparr>, sp_sent = [], sp_toasts = []\<rparr>"

definition demo_ai :: "unit ai_section" where "demo_ai = AISection ''new'' demo_ai_page"

definition demo_ai_answers :: setting_answers where
  "demo_ai_answers = (let a = ai_message \<lparr>ai_providers = [], ai_transcription = Some empty_transcription\<rparr> in \<lparr>upd_answer = Inr a, get_answer = Inr a\<rparr>)"


text \<open>What a user without the administrator's role can reach on the page: for every hash, the selected section is a visible one and is the one rendered,
  the sections of an administrator are not among them, and none of their settings is asked for.\<close>

theorem admin_sections_hidden:
  "section_key (selectedSectionDefinition host (select_section host h)) = select_section host h
   \<and> selectedSectionDefinition host (select_section host h) \<in> set (all_group (sectionGroups host))
   \<and> admin_group (sectionGroups False) = [] \<and> section_scope (selectedSectionDefinition False (select_section False h)) = basic_scope
   \<and> preload_settings False i = ([], i)
   \<and> (\<forall>s \<in> set SETTINGS_SECTIONS. select_section True (CHR ''#'' # section_key s) = section_key s)"
proof -
  have d: "DEFAULT_SETTING_SECTION \<in> section_key ` set (all_group (sectionGroups b))" for b
    by (cases b) (simp_all add: DEFAULT_SETTING_SECTION_def sectionGroups_def SETTINGS_SECTIONS_def Let_def)
  have k: "select_section b h \<in> section_key ` set (all_group (sectionGroups b))" for b
    using d[of b] by (simp add: select_section_def Let_def)
  have f: "selectedSectionDefinition b x \<in> set (all_group (sectionGroups b)) \<and> section_key (selectedSectionDefinition b x) = x"
    if x: "x \<in> section_key ` set (all_group (sectionGroups b))" for b x
  proof -
    obtain s where s: "find (\<lambda>s. section_key s = x) (all_group (sectionGroups b)) = Some s"
      using x by (cases "find (\<lambda>s. section_key s = x) (all_group (sectionGroups b))") (auto simp: find_None_iff)
    then have "s \<in> set (all_group (sectionGroups b)) \<and> section_key s = x" by (auto simp: find_Some_iff)
    with s show ?thesis by (simp add: selectedSectionDefinition_def)
  qed
  have b: "section_scope s = basic_scope" if "s \<in> set (all_group (sectionGroups False))" for s
    using that by (simp add: sectionGroups_def Let_def)
  have "\<forall>s \<in> set SETTINGS_SECTIONS. select_section True (CHR ''#'' # section_key s) = section_key s"
    by (auto simp: select_section_def Let_def isSettingSectionKey_def list_ex_iff sectionGroups_def)
  moreover have "admin_group (sectionGroups False) = []" by (simp add: sectionGroups_def Let_def filter_empty_conv)
  moreover have "preload_settings False i = ([], i)" by (simp add: preload_settings_def)
  ultimately show ?thesis using f[OF k, of host] b conjunct1[OF f[OF k, of False]] by blast
qed

end
