(* ===== verification/SettingForms.thy ===== *)
theory SettingForms
  imports Settings Tags
begin

text \<open>
  The forms of the settings page that edit one setting of the instance each: \<open>InstanceSection\<close>, \<open>StorageSection\<close>, \<open>MemoRelatedSettings\<close>,
  \<open>NotificationSection\<close> and \<open>TagsSection\<close> of \<open>components/Settings/\<close>, with \<open>lib/color.ts\<close>. They share one shape, a copy of the
  setting that is edited, saved and replaced when another setting arrives, which is stated once as the interface
  \<open>setting_form\<close>.
\<close>

section \<open>Numbers\<close>

text \<open>\<open>parseInt\<close>, without the rounding of numbers beyond \<open>2 ^ 53\<close>: leading space, a sign, the prefix \<open>0x\<close>, then the digits up to the first other character;
  \<open>None\<close> is \<open>NaN\<close>.\<close>

definition digit_of :: "char \<Rightarrow> nat" where
  "digit_of c = (let n = code c in if is_digit c then n - 48 else if 97 \<le> n \<and> n \<le> 122 then n - 87 else if 65 \<le> n \<and> n \<le> 90 then n - 55 else 36)"

definition digits_value :: "nat \<Rightarrow> string \<Rightarrow> nat" where
  "digits_value r ds = foldl (\<lambda>a c. a * r + digit_of c) 0 ds"

definition parseInt :: "nat option \<Rightarrow> string \<Rightarrow> int option" where
  "parseInt radix s =
     (let s1 = trim_start s;
          neg = (s1 \<noteq> [] \<and> hd s1 = CHR ''-'');
          s2 = (if s1 \<noteq> [] \<and> hd s1 \<in> set ''+-'' then tl s1 else s1);
          hex = (radix \<in> {None, Some 16} \<and> (starts_with s2 ''0x'' \<or> starts_with s2 ''0X''));
          r = (if hex then 16 else case radix of Some n \<Rightarrow> n | None \<Rightarrow> 10);
          ds = takeWhile (\<lambda>c. digit_of c < r) (if hex then drop 2 s2 else s2)
      in if ds = [] then None else Some ((if neg then -1 else 1) * int (digits_value r ds)))"

definition parse_or_zero :: "string \<Rightarrow> int" where
  "parse_or_zero s = (case parseInt None s of Some n \<Rightarrow> n | None \<Rightarrow> 0)"

section \<open>The shape of a form\<close>

text \<open>The key and the case of the setting, its content and its default, and the conversions between the setting and what is edited.\<close>

record ('a, 'l) form_kind =
  fk_key :: InstanceSetting_Key
  fk_case :: setting_case
  fk_of :: "setting_content \<Rightarrow> 'a option"
  fk_wrap :: "'a \<Rightarrow> setting_content"
  fk_default :: 'a
  fk_load :: "'a \<Rightarrow> 'l"
  fk_store :: "'l \<Rightarrow> 'a"

record ('p, 'l) form =
  fm_page :: "'p settings_page"
  fm_local :: 'l

definition originalSetting :: "('a, 'l) form_kind \<Rightarrow> 'p settings_page \<Rightarrow> 'a" where
  "originalSetting k p = (case fk_of k (derived_setting (fk_key k) (fk_case k) NoContent (settings (sp_instance p))) of Some a \<Rightarrow> a | None \<Rightarrow> fk_default k)"

definition form_open :: "('a, 'l) form_kind \<Rightarrow> 'p settings_page \<Rightarrow> ('p, 'l) form" where
  "form_open k p = \<lparr>fm_page = p, fm_local = fk_load k (originalSetting k p)\<rparr>"

definition form_edit :: "('l \<Rightarrow> 'l) \<Rightarrow> ('p, 'l) form \<Rightarrow> ('p, 'l) form" where
  "form_edit f s = s\<lparr>fm_local := f (fm_local s)\<rparr>"

definition form_save :: "('a, 'l) form_kind \<Rightarrow> (js_error \<Rightarrow> string) \<Rightarrow> setting_answers \<Rightarrow> ('p, 'l) form \<Rightarrow> bool \<times> ('p, 'l) form" where
  "form_save k message ans s =
     (case saveInstanceSetting message ans (fk_key k) (setting_message (fk_key k) (fk_case k) (fk_wrap k (fk_store k (fm_local s)))) (fm_page s) of
        (ok, p) \<Rightarrow> (ok, \<lparr>fm_page = p, fm_local = (if save_refreshes (fk_key k) (fk_case k) ans (fm_page s) then fk_load k (originalSetting k p) else fm_local s)\<rparr>))"

locale setting_form =
  fixes k :: "('a, 'l) form_kind"
  assumes of_wrap: "fk_of k (fk_wrap k a) = Some a"
begin

lemma stored_original:
  assumes "settings (sp_instance p) = filter (\<lambda>x. is_name x \<noteq> buildInstanceSettingName (fk_key k)) ss @
    [\<lparr>is_name = buildInstanceSettingName (fk_key k), is_case = fk_case k, is_content = fk_wrap k b\<rparr>]"
  shows "originalSetting k p = b"
  using find_filter_add[of "\<lparr>is_name = buildInstanceSettingName (fk_key k), is_case = fk_case k, is_content = fk_wrap k b\<rparr>"
      "buildInstanceSettingName (fk_key k)" ss] assms
  by (simp add: originalSetting_def derived_setting_def of_wrap)

lemma save_failed:
  assumes "upd_answer ans = Inl e"
  shows "form_save k message ans s = (False, s\<lparr>fm_page := add_toast (handleError message None e)
    ((fm_page s)\<lparr>sp_sent := sp_sent (fm_page s) @ [setting_message (fk_key k) (fk_case k) (fk_wrap k (fk_store k (fm_local s)))]\<rparr>)\<rparr>)"
  using assms by (simp add: form_save_def saveInstanceSetting_def updateSetting_def save_refreshes_def answer_installs_def)

lemma save_done:
  assumes "upd_answer ans = Inr (setting_message (fk_key k) (fk_case k) (fk_wrap k b))" "buildInstanceSettingName (fk_key k) \<in> fetchedSettings (sp_instance (fm_page s))"
    and "form_save k message ans s = (ok, s')"
  shows "ok \<and> fm_local s' = fk_load k b \<and> originalSetting k (fm_page s') = b \<and>
    sp_sent (fm_page s') = sp_sent (fm_page s) @ [setting_message (fk_key k) (fk_case k) (fk_wrap k (fk_store k (fm_local s)))]"
  using assms
  by (auto intro!: arg_cong[of _ _ "fk_load k"] stored_original simp: form_save_def saveInstanceSetting_def updateSetting_def save_refreshes_def answer_installs_def fetchSetting_start_def add_toast_def Let_def setting_message_def)

text \<open>A setting that is stored and cannot be fetched afterwards is shown all the same.\<close>

lemma save_unfetched:
  assumes "upd_answer ans = Inr (setting_message (fk_key k) (fk_case k) (fk_wrap k b))" "buildInstanceSettingName (fk_key k) \<notin> fetchedSettings (sp_instance (fm_page s))"
    and "get_answer ans = Inl e" "form_save k message ans s = (ok, s')"
  shows "\<not> ok \<and> fm_local s' = fk_load k b"
  using assms
  by (auto intro!: arg_cong[of _ _ "fk_load k"] stored_original simp: form_save_def saveInstanceSetting_def updateSetting_def save_refreshes_def answer_installs_def fetchSetting_start_def fetchSetting_done_def
      add_toast_def Let_def setting_message_def)

end

section \<open>General settings\<close>

definition defaultGeneral :: InstanceGeneralSetting where
  "defaultGeneral = \<lparr>disallowUserRegistration = False, disallowPasswordAuth = False, additionalScript = [], additionalStyle = [], customProfile = None,
     weekStartDayOffset = 0, disallowChangeUsername = False, disallowChangeNickname = False\<rparr>"

definition general_kind :: "(InstanceGeneralSetting, InstanceGeneralSetting) form_kind" where
  "general_kind = \<lparr>fk_key = INSTANCE_GENERAL, fk_case = GeneralSettingCase, fk_of = (\<lambda>c. case c of GeneralContent g \<Rightarrow> Some g | _ \<Rightarrow> None),
     fk_wrap = GeneralContent, fk_default = defaultGeneral, fk_load = (\<lambda>g. g), fk_store = (\<lambda>g. g)\<rparr>"

text \<open>The controls of \<open>InstanceSection\<close>. The value of the selector of the week's first day is a text.\<close>

datatype general_change = SetStyle string | SetScript string | SetRegistration bool | SetPasswordAuth bool | SetChangeUsername bool
  | SetChangeNickname bool | SetWeekStart string

definition updateGeneral :: "general_change \<Rightarrow> InstanceGeneralSetting \<Rightarrow> InstanceGeneralSetting" where
  "updateGeneral ch g = (case ch of
     SetStyle v \<Rightarrow> g\<lparr>additionalStyle := v\<rparr> | SetScript v \<Rightarrow> g\<lparr>additionalScript := v\<rparr> | SetRegistration v \<Rightarrow> g\<lparr>disallowUserRegistration := v\<rparr>
   | SetPasswordAuth v \<Rightarrow> g\<lparr>disallowPasswordAuth := v\<rparr> | SetChangeUsername v \<Rightarrow> g\<lparr>disallowChangeUsername := v\<rparr>
   | SetChangeNickname v \<Rightarrow> g\<lparr>disallowChangeNickname := v\<rparr> | SetWeekStart v \<Rightarrow> g\<lparr>weekStartDayOffset := parse_or_zero v\<rparr>)"

text \<open>Which controls are enabled: for a demo instance, with the list of identity providers that was fetched.\<close>

definition general_enabled :: "bool \<Rightarrow> 'i list \<Rightarrow> InstanceGeneralSetting \<Rightarrow> general_change \<Rightarrow> bool" where
  "general_enabled demo idps g ch = (case ch of
     SetRegistration _ \<Rightarrow> \<not> demo
   | SetPasswordAuth _ \<Rightarrow> \<not> (demo \<or> (idps = [] \<and> \<not> disallowPasswordAuth g))
   | SetWeekStart v \<Rightarrow> v \<in> {''-1'', ''0'', ''1''}
   | _ \<Rightarrow> True)"

text \<open>The save button is enabled where the form differs from the setting.\<close>

definition handleSaveGeneralSetting :: "(js_error \<Rightarrow> string) \<Rightarrow> setting_answers \<Rightarrow> ('p, InstanceGeneralSetting) form \<Rightarrow> ('p, InstanceGeneralSetting) form" where
  "handleSaveGeneralSetting message ans s =
     (if fm_local s = originalSetting general_kind (fm_page s) then s else snd (form_save general_kind message ans s))"

section \<open>Storage\<close>

definition DEFAULT_FILEPATH_TEMPLATE :: string where
  "DEFAULT_FILEPATH_TEMPLATE = ''assets/{timestamp}_{uuid}_{filename}''"

definition storageTypeOptions :: "(StorageType \<times> string) list" where
  "storageTypeOptions = [(STORAGE_LOCAL, ''storage-type-local''), (STORAGE_DATABASE, ''storage-type-database''), (STORAGE_S3, ''storage-type-s3'')]"

definition selectedStorageOption :: "StorageSetting \<Rightarrow> StorageType \<times> string" where
  "selectedStorageOption s = (case find (\<lambda>o'. fst o' = storageType s) storageTypeOptions of Some o' \<Rightarrow> o' | None \<Rightarrow> hd storageTypeOptions)"

definition storage_kind :: "(StorageSetting, StorageSetting) form_kind" where
  "storage_kind = \<lparr>fk_key = INSTANCE_STORAGE, fk_case = StorageSettingCase, fk_of = (\<lambda>c. case c of StorageContent g \<Rightarrow> Some g | _ \<Rightarrow> None),
     fk_wrap = StorageContent, fk_default = \<lparr>storageType = STORAGE_TYPE_UNSPECIFIED, filepathTemplate = [], uploadSizeLimitMb = 0, s3Config = None\<rparr>,
     fk_load = (\<lambda>g. g), fk_store = (\<lambda>g. g)\<rparr>"

definition allowSaveStorageSetting :: "StorageSetting \<Rightarrow> StorageSetting \<Rightarrow> bool" where
  "allowSaveStorageSetting original s =
     (if uploadSizeLimitMb s \<le> 0 then False
      else if storageType s = STORAGE_LOCAL \<and> filepathTemplate s = [] then False
      else if storageType s = STORAGE_S3 \<and> (filepathTemplate s = [] \<or> (case s3Config s of
          None \<Rightarrow> True
        | Some c \<Rightarrow> s3_accessKeyId c = [] \<or> (s3Config original = None \<and> s3_accessKeySecret c = []) \<or> s3_endpoint c = [] \<or> s3_region c = [] \<or> s3_bucket c = []))
      then False
      else original \<noteq> s)"

datatype s3_field = AccessKeyId string | AccessKeySecret string | Endpoint string | Region string | Bucket string | UsePathStyle bool

definition handleMaxUploadSizeChanged :: "string \<Rightarrow> StorageSetting \<Rightarrow> StorageSetting" where
  "handleMaxUploadSizeChanged v s = s\<lparr>uploadSizeLimitMb := parse_or_zero v\<rparr>"

definition handleFilepathTemplateChanged :: "string \<Rightarrow> StorageSetting \<Rightarrow> StorageSetting" where
  "handleFilepathTemplateChanged v s = s\<lparr>filepathTemplate := v\<rparr>"

definition handleS3FieldChange :: "s3_field \<Rightarrow> StorageSetting \<Rightarrow> StorageSetting" where
  "handleS3FieldChange f s =
     (let existing = (case s3Config s of Some c \<Rightarrow> c
        | None \<Rightarrow> \<lparr>s3_accessKeyId = [], s3_accessKeySecret = [], s3_endpoint = [], s3_region = [], s3_bucket = [], s3_usePathStyle = False\<rparr>)
      in s\<lparr>s3Config := Some (case f of
           AccessKeyId v \<Rightarrow> existing\<lparr>s3_accessKeyId := v\<rparr> | AccessKeySecret v \<Rightarrow> existing\<lparr>s3_accessKeySecret := v\<rparr>
         | Endpoint v \<Rightarrow> existing\<lparr>s3_endpoint := v\<rparr> | Region v \<Rightarrow> existing\<lparr>s3_region := v\<rparr>
         | Bucket v \<Rightarrow> existing\<lparr>s3_bucket := v\<rparr> | UsePathStyle v \<Rightarrow> existing\<lparr>s3_usePathStyle := v\<rparr>)\<rparr>)"

definition handleStorageTypeChanged :: "StorageType \<Rightarrow> StorageSetting \<Rightarrow> StorageSetting" where
  "handleStorageTypeChanged t s = s\<lparr>storageType := t,
     filepathTemplate := (if filepathTemplate s \<noteq> [] then filepathTemplate s else DEFAULT_FILEPATH_TEMPLATE)\<rparr>"

definition saveInstanceStorageSetting :: "(js_error \<Rightarrow> string) \<Rightarrow> setting_answers \<Rightarrow> ('p, StorageSetting) form \<Rightarrow> ('p, StorageSetting) form" where
  "saveInstanceStorageSetting message ans s =
     (if allowSaveStorageSetting (originalSetting storage_kind (fm_page s)) (fm_local s) then snd (form_save storage_kind message ans s) else s)"

section \<open>Memo settings\<close>

definition memo_related_kind :: "(MemoRelatedSetting, MemoRelatedSetting) form_kind" where
  "memo_related_kind = \<lparr>fk_key = INSTANCE_MEMO_RELATED, fk_case = MemoRelatedSettingCase, fk_of = (\<lambda>c. case c of MemoRelatedContent g \<Rightarrow> Some g | _ \<Rightarrow> None),
     fk_wrap = MemoRelatedContent, fk_default = \<lparr>contentLengthLimit = 0, enableDoubleClickEdit = False, setting_reactions = []\<rparr>,
     fk_load = (\<lambda>g. g), fk_store = (\<lambda>g. g)\<rparr>"

text \<open>\<open>upsertReaction\<close>, on the setting and on the text of its input.\<close>

definition upsertReaction :: "MemoRelatedSetting \<times> string \<Rightarrow> MemoRelatedSetting \<times> string" where
  "upsertReaction st = (case st of (s, editingReaction) \<Rightarrow>
     (let trimmed = trim editingReaction
      in if trimmed = [] then (s, editingReaction) else (s\<lparr>setting_reactions := uniq_by id [] (setting_reactions s @ [trimmed])\<rparr>, [])))"

definition removeReaction :: "string \<Rightarrow> MemoRelatedSetting \<Rightarrow> MemoRelatedSetting" where
  "removeReaction reactionType s = s\<lparr>setting_reactions := filter (\<lambda>r. r \<noteq> reactionType) (setting_reactions s)\<rparr>"

definition handleUpdateSetting :: "(js_error \<Rightarrow> string) \<Rightarrow> setting_answers \<Rightarrow> ('p, MemoRelatedSetting) form \<Rightarrow> ('p, MemoRelatedSetting) form" where
  "handleUpdateSetting message ans s =
     (if setting_reactions (fm_local s) = [] then s\<lparr>fm_page := add_toast (ToastError ''setting.memo.reactions-required'') (fm_page s)\<rparr>
      else snd (form_save memo_related_kind message ans s))"

section \<open>Notifications\<close>

definition emptyEmail :: EmailSetting where
  "emptyEmail = \<lparr>em_enabled = False, em_smtpHost = [], em_smtpPort = 0, em_smtpUsername = [], em_smtpPassword = [], em_fromEmail = [], em_fromName = [],
     em_replyTo = [], em_useTls = False, em_useSsl = False\<rparr>"

definition defaultEmailSetting :: EmailSetting where
  "defaultEmailSetting = emptyEmail\<lparr>em_smtpPort := 587, em_useTls := True\<rparr>"

definition isEmailSettingConfigured :: "EmailSetting option \<Rightarrow> bool" where
  "isEmailSettingConfigured email = (case email of None \<Rightarrow> False
     | Some e \<Rightarrow> em_enabled e \<or> trim (em_smtpHost e) \<noteq> [] \<or> em_smtpPort e > 0 \<or> trim (em_smtpUsername e) \<noteq> [] \<or> trim (em_fromEmail e) \<noteq> [] \<or>
         trim (em_fromName e) \<noteq> [] \<or> trim (em_replyTo e) \<noteq> [] \<or> em_useTls e \<or> em_useSsl e)"

definition normalizeNotificationSetting :: "EmailSetting option \<Rightarrow> EmailSetting option" where
  "normalizeNotificationSetting email = (if isEmailSettingConfigured email then email else Some defaultEmailSetting)"

definition notification_kind :: "(EmailSetting option, EmailSetting option) form_kind" where
  "notification_kind = \<lparr>fk_key = INSTANCE_NOTIFICATION, fk_case = NotificationSettingCase, fk_of = (\<lambda>c. case c of NotificationContent g \<Rightarrow> Some g | _ \<Rightarrow> None),
     fk_wrap = NotificationContent, fk_default = None, fk_load = normalizeNotificationSetting, fk_store = (\<lambda>g. g)\<rparr>"

definition emailSetting :: "EmailSetting option \<Rightarrow> EmailSetting" where
  "emailSetting email = (case email of Some e \<Rightarrow> e | None \<Rightarrow> defaultEmailSetting)"

definition updateEmailSetting :: "(EmailSetting \<Rightarrow> EmailSetting) \<Rightarrow> EmailSetting option \<Rightarrow> EmailSetting option" where
  "updateEmailSetting partial email = Some (partial (emailSetting email))"

datatype email_change = SetEnabled bool | SetHost string | SetPort string | SetUsername string | SetPassword string | SetFromEmail string
  | SetFromName string | SetReplyTo string | SetTls bool | SetSsl bool

definition change_email :: "email_change \<Rightarrow> EmailSetting option \<Rightarrow> EmailSetting option" where
  "change_email ch email = updateEmailSetting (case ch of
     SetEnabled v \<Rightarrow> em_enabled_update (\<lambda>_. v) | SetHost v \<Rightarrow> em_smtpHost_update (\<lambda>_. v)
   | SetPort v \<Rightarrow> em_smtpPort_update (\<lambda>_. parse_or_zero v) | SetUsername v \<Rightarrow> em_smtpUsername_update (\<lambda>_. v)
   | SetPassword v \<Rightarrow> em_smtpPassword_update (\<lambda>_. v) | SetFromEmail v \<Rightarrow> em_fromEmail_update (\<lambda>_. v)
   | SetFromName v \<Rightarrow> em_fromName_update (\<lambda>_. v) | SetReplyTo v \<Rightarrow> em_replyTo_update (\<lambda>_. v)
   | SetTls v \<Rightarrow> (\<lambda>e. e\<lparr>em_useTls := v, em_useSsl := (if v then False else em_useSsl e)\<rparr>)
   | SetSsl v \<Rightarrow> (\<lambda>e. e\<lparr>em_useSsl := v, em_useTls := (if v then False else em_useTls e)\<rparr>)) email"

definition sendable :: "EmailSetting \<Rightarrow> bool" where
  "sendable e \<longleftrightarrow> trim (em_smtpHost e) \<noteq> [] \<and> em_smtpPort e > 0 \<and> em_smtpPort e \<le> 65535 \<and> trim (em_fromEmail e) \<noteq> []"

definition allowSaveNotification :: "EmailSetting option \<Rightarrow> EmailSetting option \<Rightarrow> bool" where
  "allowSaveNotification original email =
     (if normalizeNotificationSetting original = email then False
      else case email of None \<Rightarrow> True | Some e \<Rightarrow> if \<not> em_enabled e then True else sendable e)"

definition saveNotificationSetting :: "(js_error \<Rightarrow> string) \<Rightarrow> setting_answers \<Rightarrow> ('p, EmailSetting option) form \<Rightarrow> ('p, EmailSetting option) form" where
  "saveNotificationSetting message ans s =
     (if allowSaveNotification (originalSetting notification_kind (fm_page s)) (fm_local s) then snd (form_save notification_kind message ans s) else s)"

definition canTestEmail :: "User option \<Rightarrow> EmailSetting option \<Rightarrow> bool" where
  "canTestEmail currentUser email = ((case currentUser of None \<Rightarrow> False | Some u \<Rightarrow> user_email u \<noteq> []) \<and> sendable (emailSetting email))"

text \<open>The test mail: the request it sends, with the setting in the form and the address of the user, and what is shown; \<open>answer\<close> is the server's.\<close>

definition testEmailSetting :: "(js_error \<Rightarrow> string) \<Rightarrow> (js_error + unit) \<Rightarrow> User option \<Rightarrow> EmailSetting option \<Rightarrow> (EmailSetting \<times> string) option \<times> toast" where
  "testEmailSetting message answer currentUser email =
     (case currentUser of
        Some u \<Rightarrow> if user_email u = [] then (None, ToastError ''setting.notification.test-email-missing-recipient'')
          else (Some (emailSetting email, user_email u),
                case answer of Inr _ \<Rightarrow> ToastSuccess ''setting.notification.test-email-success'' | Inl e \<Rightarrow> handleError message None e)
      | None \<Rightarrow> (None, ToastError ''setting.notification.test-email-missing-recipient''))"

section \<open>Tags\<close>

definition hex_char :: "nat \<Rightarrow> char" where "hex_char n = ''0123456789abcdef'' ! n"

text \<open>\<open>n.toString(16).padStart(2, "0")\<close> of a number below 256.\<close>

definition hex2 :: "nat \<Rightarrow> string" where "hex2 n = [hex_char (n div 16 mod 16), hex_char (n mod 16)]"

text \<open>\<open>lib/color.ts\<close>: \<open>Math.round\<close> rounds halves up.\<close>

definition color_clamp :: "rat option \<Rightarrow> rat" where
  "color_clamp v = (case v of Some n \<Rightarrow> max 0 (min 1 n) | None \<Rightarrow> 0)"

definition color_byte :: "rat option \<Rightarrow> nat" where
  "color_byte v = nat \<lfloor>color_clamp v * 255 + 1 / 2\<rfloor>"

definition colorToHex :: "Color option \<Rightarrow> string option" where
  "colorToHex color = (case color of None \<Rightarrow> None
     | Some c \<Rightarrow> Some (''#'' @ hex2 (color_byte (c_red c)) @ hex2 (color_byte (c_green c)) @ hex2 (color_byte (c_blue c))))"

definition hex_part :: "string \<Rightarrow> rat option" where
  "hex_part s = map_option (\<lambda>n. of_int n / 255) (parseInt (Some 16) s)"

definition hexToColor :: "string \<Rightarrow> Color" where
  "hexToColor hex = \<lparr>c_red = hex_part (slice 1 3 hex), c_green = hex_part (slice 3 5 hex), c_blue = hex_part (slice 5 7 hex)\<rparr>"

record LocalTagMeta =
  tag_color :: "string option"
  tag_blur :: bool

definition toLocalTagMeta :: "TagMetadata \<Rightarrow> LocalTagMeta" where
  "toLocalTagMeta m = \<lparr>tag_color = colorToHex (backgroundColor m), tag_blur = blurContent m\<rparr>"

definition toTagMetadata :: "LocalTagMeta \<Rightarrow> TagMetadata" where
  "toTagMetadata m = \<lparr>backgroundColor = (if truthy (tag_color m) then map_option hexToColor (tag_color m) else None), blurContent = tag_blur m\<rparr>"

type_synonym local_tags = "(string, LocalTagMeta) jsmap"

definition tags_kind :: "((string, TagMetadata) jsmap, local_tags) form_kind" where
  "tags_kind = \<lparr>fk_key = INSTANCE_TAGS, fk_case = TagsSettingCase, fk_of = (\<lambda>c. case c of TagsContent g \<Rightarrow> Some g | _ \<Rightarrow> None),
     fk_wrap = TagsContent, fk_default = [], fk_load = map (\<lambda>(n, m). (n, toLocalTagMeta m)), fk_store = map (\<lambda>(n, m). (n, toTagMetadata m))\<rparr>"

text \<open>\<open>isEqual\<close> of two objects does not look at the order of their keys.\<close>

definition tags_hasChanges :: "local_tags \<Rightarrow> local_tags \<Rightarrow> bool" where
  "tags_hasChanges original tags \<longleftrightarrow> \<not> (\<forall>n \<in> set (map fst original @ map fst tags). map_get original n = map_get tags n)"

text \<open>The handlers of a row, which exists for a configured tag only.\<close>

definition change_tag :: "string \<Rightarrow> (LocalTagMeta \<Rightarrow> LocalTagMeta) \<Rightarrow> local_tags \<Rightarrow> local_tags" where
  "change_tag name f tags = (case map_get tags name of Some m \<Rightarrow> map_set name (f m) tags | None \<Rightarrow> tags)"

definition handleColorChange :: "string \<Rightarrow> string \<Rightarrow> local_tags \<Rightarrow> local_tags" where
  "handleColorChange name hex = change_tag name (tag_color_update (\<lambda>_. Some hex))"

definition handleBlurChange :: "string \<Rightarrow> bool \<Rightarrow> local_tags \<Rightarrow> local_tags" where
  "handleBlurChange name blur = change_tag name (tag_blur_update (\<lambda>_. blur))"

definition handleClearColor :: "string \<Rightarrow> local_tags \<Rightarrow> local_tags" where
  "handleClearColor name = change_tag name (tag_color_update (\<lambda>_. None))"

definition handleRemoveTag :: "string \<Rightarrow> local_tags \<Rightarrow> local_tags" where
  "handleRemoveTag name tags = map_delete name tags"

record tag_input =
  newTagName :: string
  newTagColor :: "string option"
  newTagBlur :: bool

text \<open>\<open>compiles\<close> tells whether a text is a regular expression. The result has the message shown, if any.\<close>

definition handleAddTag :: "(string \<Rightarrow> bool) \<Rightarrow> local_tags \<Rightarrow> tag_input \<Rightarrow> local_tags \<times> tag_input \<times> toast option" where
  "handleAddTag compiles tags inp =
     (let name = trim (newTagName inp)
      in if name = [] then (tags, inp, None)
         else if js_get tags name \<noteq> None then (tags, inp, Some (ToastError ''setting.tags.tag-already-exists''))
         else if \<not> isValidTagPattern compiles name then (tags, inp, Some (ToastError ''setting.tags.invalid-regex''))
         else (map_set name \<lparr>tag_color = newTagColor inp, tag_blur = newTagBlur inp\<rparr> tags, \<lparr>newTagName = [], newTagColor = None, newTagBlur = False\<rparr>, None))"

section \<open>The forms have the shape\<close>

interpretation gf: setting_form general_kind
  by unfold_locales (simp add: general_kind_def)

interpretation sf: setting_form storage_kind
  by unfold_locales (simp add: storage_kind_def)

interpretation mf: setting_form memo_related_kind
  by unfold_locales (simp add: memo_related_kind_def)

interpretation nf: setting_form notification_kind
  by unfold_locales (simp add: notification_kind_def)

interpretation tf: setting_form tags_kind
  by unfold_locales (simp add: tags_kind_def)

section \<open>Colors\<close>

lemma hex_char_props:
  assumes "n < 16"
  shows "digit_of (hex_char n) = n" "\<not> is_space (hex_char n)" "hex_char n \<notin> set ''+-xX''"
proof -
  have "list_all (\<lambda>n. digit_of (hex_char n) = n \<and> \<not> is_space (hex_char n) \<and> hex_char n \<notin> set ''+-xX'') [0..<16]" by code_simp
  then show "digit_of (hex_char n) = n" "\<not> is_space (hex_char n)" "hex_char n \<notin> set ''+-xX''" using assms by (simp_all add: list_all_iff)
qed

lemma parse_hex2:
  assumes "n < 256"
  shows "parseInt (Some 16) (hex2 n) = Some (int n)"
proof -
  define a b where "a = n div 16" and "b = n mod 16"
  have ab: "a < 16" "b < 16" "a * 16 + b = n" using assms by (auto simp: a_def b_def)
  have h: "hex2 n = [hex_char a, hex_char b]" using ab by (simp add: hex2_def a_def b_def)
  note p = hex_char_props[OF ab(1)] hex_char_props[OF ab(2)]
  have "trim_start (hex2 n) = hex2 n" using p by (simp add: trim_start_def h)
  moreover have "hd (hex2 n) \<notin> set ''+-''" "hd (hex2 n) \<noteq> CHR ''-''" using p by (auto simp: h)
  moreover have "\<not> starts_with (hex2 n) ''0x''" "\<not> starts_with (hex2 n) ''0X''" using p by (auto simp: h starts_with_def)
  moreover have "takeWhile (\<lambda>c. digit_of c < 16) (hex2 n) = hex2 n" using p ab by (simp add: h)
  moreover have "digits_value 16 (hex2 n) = n" using p ab by (simp add: h digits_value_def)
  ultimately show ?thesis by (simp add: parseInt_def Let_def h)
qed

lemma color_byte_close:
  assumes "n < 256" "\<bar>q - of_nat n / 255\<bar> \<le> 1 / 1000"
  shows "color_byte (Some q) = n"
proof -
  have n: "(0::rat) \<le> of_nat n / 255" "of_nat n / 255 \<le> (1::rat)" using assms(1) by (simp_all add: divide_le_eq)
  then have "\<bar>color_clamp (Some q) - of_nat n / 255\<bar> \<le> 1 / 1000" using assms(2) by (auto simp: color_clamp_def max_def min_def)
  then have "color_clamp (Some q) - of_nat n / 255 \<le> 1 / 1000" "of_nat n / 255 - color_clamp (Some q) \<le> 1 / 1000" by linarith+
  then have "color_clamp (Some q) * 255 - of_nat n \<le> 255 / 1000" "of_nat n - color_clamp (Some q) * 255 \<le> 255 / 1000" by (simp_all add: field_simps)
  then have "of_int (int n) \<le> color_clamp (Some q) * 255 + 1 / 2" "color_clamp (Some q) * 255 + 1 / 2 < of_int (int n) + 1" by simp_all
  then have "\<lfloor>color_clamp (Some q) * 255 + 1 / 2\<rfloor> = int n" by (rule floor_unique)
  then show ?thesis by (simp add: color_byte_def)
qed

text \<open>A value of a color input.\<close>

definition picker_color :: "string \<Rightarrow> bool" where
  "picker_color h \<longleftrightarrow> (\<exists>r < 256. \<exists>g < 256. \<exists>b < 256. h = ''#'' @ hex2 r @ hex2 g @ hex2 b)"

text \<open>Colors that differ by what a transport in single precision changes.\<close>

fun close_part :: "rat option \<Rightarrow> rat option \<Rightarrow> bool" where
  "close_part (Some x) (Some y) \<longleftrightarrow> \<bar>x - y\<bar> \<le> 1 / 1000"
| "close_part x y \<longleftrightarrow> x = y"

definition close_color :: "Color \<Rightarrow> Color \<Rightarrow> bool" where
  "close_color c c' \<longleftrightarrow> close_part (c_red c) (c_red c') \<and> close_part (c_green c) (c_green c') \<and> close_part (c_blue c) (c_blue c')"

lemma length_hex2 [simp]: "length (hex2 n) = 2"
  by (simp add: hex2_def)

lemma close_byte: "close_part (hex_part (hex2 n)) q \<Longrightarrow> n < 256 \<Longrightarrow> color_byte q = n"
  by (cases q) (auto simp: hex_part_def parse_hex2 color_byte_close abs_minus_commute)

lemma color_roundtrip:
  assumes "picker_color h" "close_color (hexToColor h) c"
  shows "colorToHex (Some c) = Some h"
proof -
  obtain r g b where h: "h = ''#'' @ hex2 r @ hex2 g @ hex2 b" "r < 256" "g < 256" "b < 256" using assms(1) by (auto simp: picker_color_def)
  have "slice 1 3 h = hex2 r" "slice 3 5 h = hex2 g" "slice 5 7 h = hex2 b" using length_hex2 by (simp_all add: h slice_def drop_Cons')
  with assms(2) have "color_byte (c_red c) = r" "color_byte (c_green c) = g" "color_byte (c_blue c) = b"
    using h by (auto simp: close_color_def hexToColor_def intro!: close_byte)
  then show ?thesis by (simp add: colorToHex_def h)
qed

definition close_meta :: "TagMetadata \<Rightarrow> TagMetadata \<Rightarrow> bool" where
  "close_meta m m' \<longleftrightarrow> blurContent m = blurContent m' \<and> rel_option close_color (backgroundColor m) (backgroundColor m')"

lemma meta_roundtrip:
  assumes "pred_option picker_color (tag_color m)" "close_meta (toTagMetadata m) m'"
  shows "toLocalTagMeta m' = m"
proof (cases "tag_color m")
  case None
  then have "backgroundColor m' = None" "blurContent m' = tag_blur m" using assms(2) by (simp_all add: close_meta_def toTagMetadata_def truthy_def)
  then show ?thesis using None by (simp add: toLocalTagMeta_def colorToHex_def)
next
  case (Some h)
  then have h: "picker_color h" "h \<noteq> []" using assms(1) by (auto simp: picker_color_def)
  then obtain c where "backgroundColor m' = Some c" "close_color (hexToColor h) c" "blurContent m' = tag_blur m"
    using assms(2) Some by (auto simp: close_meta_def toTagMetadata_def truthy_def option_rel_Some1)
  then show ?thesis using color_roundtrip[OF h(1)] Some by (simp add: toLocalTagMeta_def)
qed

lemma map_get_map: "map_get (map (\<lambda>(n, m). (n, f m)) xs) n = map_option f (map_get xs n)"
  by (induction xs) (auto simp: map_get_def)

text \<open>C40. The tags that were configured are the tags that are stored. When the server stores what the form sent, its keys in any order and its
  colors with the precision of the message, the form shows after the save, for every tag, the color and the blur that were chosen, and has no
  changes to save; when the server refuses, all choices stay in the form, which still offers to save them, and the stored tags stay as they were.\<close>

theorem tags_form_roundtrip:
  assumes "form_save tags_kind message ans s = (ok, s')" "\<And>n m. map_get (fm_local s) n = Some m \<Longrightarrow> pred_option picker_color (tag_color m)"
    and "buildInstanceSettingName INSTANCE_TAGS \<in> fetchedSettings (sp_instance (fm_page s))"
  shows "(\<forall>b. upd_answer ans = Inr (setting_message INSTANCE_TAGS TagsSettingCase (TagsContent b)) \<longrightarrow>
        (\<forall>n. rel_option close_meta (map_get (fk_store tags_kind (fm_local s)) n) (map_get b n)) \<longrightarrow>
        ok \<and> (\<forall>n. map_get (fm_local s') n = map_get (fm_local s) n) \<and> \<not> tags_hasChanges (fk_load tags_kind (originalSetting tags_kind (fm_page s'))) (fm_local s')) \<and>
    (\<forall>e. upd_answer ans = Inl e \<longrightarrow> \<not> ok \<and> fm_local s' = fm_local s \<and> originalSetting tags_kind (fm_page s') = originalSetting tags_kind (fm_page s))"
proof (intro conjI allI impI)
  fix b
  assume a: "upd_answer ans = Inr (setting_message INSTANCE_TAGS TagsSettingCase (TagsContent b))"
    and c: "\<forall>n. rel_option close_meta (map_get (fk_store tags_kind (fm_local s)) n) (map_get b n)"
  have k: "fk_key tags_kind = INSTANCE_TAGS" "fk_case tags_kind = TagsSettingCase" "fk_wrap tags_kind = TagsContent"
    "fk_load tags_kind = map (\<lambda>(n, m). (n, toLocalTagMeta m))" "fk_store tags_kind = map (\<lambda>(n, m). (n, toTagMetadata m))"
    by (simp_all add: tags_kind_def)
  from tf.save_done[of ans b s message ok s'] a assms(1,3)
  have d: "ok" "fm_local s' = fk_load tags_kind b" "originalSetting tags_kind (fm_page s') = b" by (simp_all add: k)
  show "ok" by (rule d)
  show "\<not> tags_hasChanges (fk_load tags_kind (originalSetting tags_kind (fm_page s'))) (fm_local s')"
    by (simp add: d tags_hasChanges_def)
  fix n
  from c have "rel_option close_meta (map_option toTagMetadata (map_get (fm_local s) n)) (map_get b n)" by (simp add: k map_get_map)
  then show "map_get (fm_local s') n = map_get (fm_local s) n"
    using assms(2)[of n] by (cases "map_get (fm_local s) n"; cases "map_get b n") (auto simp: d k map_get_map meta_roundtrip)
next
  fix e
  assume "upd_answer ans = Inl e"
  from tf.save_failed[OF this, of message s] assms(1)
  show "\<not> ok" "fm_local s' = fm_local s" "originalSetting tags_kind (fm_page s') = originalSetting tags_kind (fm_page s)"
    by (auto simp: add_toast_def originalSetting_def)
qed

definition demo_tags :: local_tags where
  "demo_tags = [(''work'', \<lparr>tag_color = Some ''#1a2b3c'', tag_blur = True\<rparr>), (''home'', \<lparr>tag_color = None, tag_blur = False\<rparr>)]"

definition demo_tags_form :: "(unit, local_tags) form" where
  "demo_tags_form = \<lparr>fm_page = \<lparr>sp_instance = (initial_instance ())\<lparr>fetchedSettings := {buildInstanceSettingName INSTANCE_TAGS}\<rparr>, sp_sent = [], sp_toasts = []\<rparr>,
     fm_local = demo_tags\<rparr>"

lemma close_refl: "close_meta m m"
proof -
  have p: "close_part x x" for x by (cases x) simp_all
  then show ?thesis unfolding close_meta_def close_color_def by (cases "backgroundColor m") simp_all
qed

theorem tags_form_roundtrip_witness:
  "\<exists>s'. form_save tags_kind (\<lambda>_. []) \<lparr>upd_answer = Inr (setting_message INSTANCE_TAGS TagsSettingCase (TagsContent (rev (fk_store tags_kind demo_tags)))),
      get_answer = Inl (Thrown [])\<rparr> demo_tags_form = (True, s') \<and>
     map_get (fm_local s') ''work'' = Some \<lparr>tag_color = Some ''#1a2b3c'', tag_blur = True\<rparr> \<and> fst (hd (fm_local s')) = ''home''"
proof -
  let ?b = "rev (fk_store tags_kind demo_tags)"
  let ?ans = "\<lparr>upd_answer = Inr (setting_message INSTANCE_TAGS TagsSettingCase (TagsContent ?b)), get_answer = Inl (Thrown [])\<rparr>"
  obtain ok s' where f: "form_save tags_kind (\<lambda>_. []) ?ans demo_tags_form = (ok, s')" by fastforce
  have h: "''#1a2b3c'' = ''#'' @ hex2 26 @ hex2 43 @ hex2 60" by code_simp
  have pc: "picker_color ''#1a2b3c''"
    unfolding picker_color_def
    by (rule exI[of _ 26], rule conjI, simp, rule exI[of _ 43], rule conjI, simp, rule exI[of _ 60], rule conjI, simp, rule h)
  have p: "pred_option picker_color (tag_color m)" if "map_get (fm_local demo_tags_form) n = Some m" for n m
    using that pc by (auto simp: demo_tags_form_def demo_tags_def map_get_def split: if_splits)
  have c: "rel_option close_meta (map_get (fk_store tags_kind (fm_local demo_tags_form)) n) (map_get ?b n)" for n
    by (auto simp: demo_tags_form_def demo_tags_def tags_kind_def map_get_def close_refl)
  have "buildInstanceSettingName INSTANCE_TAGS \<in> fetchedSettings (sp_instance (fm_page demo_tags_form))" by (simp add: demo_tags_form_def)
  from tags_form_roundtrip[OF f p this] c
  have r: "ok" "\<forall>n. map_get (fm_local s') n = map_get (fm_local demo_tags_form) n" by simp_all
  have "fm_local s' = fk_load tags_kind ?b"
    using tf.save_done[of ?ans ?b demo_tags_form "\<lambda>_. []" ok s'] f by (simp add: tags_kind_def demo_tags_form_def)
  then have "fst (hd (fm_local s')) = ''home''" by (simp add: tags_kind_def demo_tags_def)
  moreover have "map_get (fm_local s') ''work'' = Some \<lparr>tag_color = Some ''#1a2b3c'', tag_blur = True\<rparr>"
    using spec[OF r(2), of "''work''"] by (simp add: demo_tags_form_def demo_tags_def map_get_def)
  ultimately show ?thesis using f r(1) by (intro exI[of _ s']) simp
qed

section \<open>What the forms do not save\<close>

text \<open>A run of changes in the general form, each made with a control that is enabled then.\<close>

fun general_run :: "bool \<Rightarrow> 'i list \<Rightarrow> InstanceGeneralSetting \<Rightarrow> general_change list \<Rightarrow> InstanceGeneralSetting option" where
  "general_run demo idps g [] = Some g"
| "general_run demo idps g (c # cs) = (if general_enabled demo idps g c then general_run demo idps (updateGeneral c g) cs else None)"

lemma general_run_password:
  "general_run demo idps g cs = Some g' \<Longrightarrow> disallowPasswordAuth g' \<Longrightarrow> \<not> disallowPasswordAuth g \<Longrightarrow> idps \<noteq> [] \<and> \<not> demo"
proof (induction cs arbitrary: g)
  case (Cons c cs)
  from Cons.prems(1) have e: "general_enabled demo idps g c" "general_run demo idps (updateGeneral c g) cs = Some g'" by (auto split: if_splits)
  show ?case
  proof (cases "disallowPasswordAuth (updateGeneral c g)")
    case True
    then have "c = SetPasswordAuth True" using Cons.prems(3) by (cases c) (auto simp: updateGeneral_def)
    then show ?thesis using e(1) Cons.prems(3) by (simp add: general_enabled_def)
  qed (use Cons.IH e(2) Cons.prems(2) in blast)
qed simp

definition not_both :: "EmailSetting option \<Rightarrow> bool" where
  "not_both email \<longleftrightarrow> \<not> (em_useTls (emailSetting email) \<and> em_useSsl (emailSetting email))"

lemma change_email_not_both: "not_both email \<Longrightarrow> not_both (change_email ch email)"
  by (cases ch) (auto simp: not_both_def change_email_def updateEmailSetting_def emailSetting_def)

text \<open>The three forms that guard what they save. Signing in with a password is never switched off on a demo instance, nor where no identity provider is left to
  sign in with; mail never has both kinds of encryption, and enabled mail has a host, a port of a machine and a sender; storage has a limit and what its kind needs,
  and a new S3 configuration its secret.\<close>

theorem form_guards:
  "general_run demo idps g cs = Some g' \<Longrightarrow> disallowPasswordAuth g' \<Longrightarrow> disallowPasswordAuth g \<or> (idps \<noteq> [] \<and> \<not> demo)"
  "not_both (Some e) \<Longrightarrow> not_both (fold change_email chs (normalizeNotificationSetting (Some e)))"
  "allowSaveNotification o1 (Some e1) \<Longrightarrow> em_enabled e1 \<Longrightarrow> trim (em_smtpHost e1) \<noteq> [] \<and> 0 < em_smtpPort e1 \<and> em_smtpPort e1 < 2 ^ 16 \<and> trim (em_fromEmail e1) \<noteq> []"
  "allowSaveStorageSetting o2 s2 \<Longrightarrow> s2 \<noteq> o2 \<and> 0 < uploadSizeLimitMb s2 \<and>
     (storageType s2 = STORAGE_LOCAL \<longrightarrow> filepathTemplate s2 \<noteq> []) \<and>
     (storageType s2 = STORAGE_S3 \<longrightarrow> filepathTemplate s2 \<noteq> [] \<and> (\<exists>c. s3Config s2 = Some c \<and> s3_accessKeyId c \<noteq> [] \<and> s3_endpoint c \<noteq> [] \<and>
        s3_region c \<noteq> [] \<and> s3_bucket c \<noteq> [] \<and> (s3Config o2 = None \<longrightarrow> s3_accessKeySecret c \<noteq> [])))"
proof -
  show "general_run demo idps g cs = Some g' \<Longrightarrow> disallowPasswordAuth g' \<Longrightarrow> disallowPasswordAuth g \<or> (idps \<noteq> [] \<and> \<not> demo)"
    using general_run_password by blast
  have "not_both x \<Longrightarrow> not_both (fold change_email chs x)" for x by (induction chs arbitrary: x) (auto intro: change_email_not_both)
  moreover have "not_both (Some e) \<Longrightarrow> not_both (normalizeNotificationSetting (Some e))"
    by (simp add: normalizeNotificationSetting_def not_both_def emailSetting_def defaultEmailSetting_def emptyEmail_def)
  ultimately show "not_both (Some e) \<Longrightarrow> not_both (fold change_email chs (normalizeNotificationSetting (Some e)))" by blast
qed (auto simp: allowSaveNotification_def sendable_def allowSaveStorageSetting_def split: if_splits option.splits)

end
