(* ===== verification/IdpDialog.thy ===== *)
theory IdpDialog
  imports SignIn MemoActions
begin

text \<open>
  The dialog that creates and edits an identity provider, \<open>components/CreateIdentityProviderDialog.tsx\<close>: its templates, its
  fields, the identifier it derives, what may be confirmed, and the request it sends.
\<close>

section \<open>Templates\<close>

definition DEFAULT_TEMPLATE :: string where "DEFAULT_TEMPLATE = ''GitHub''"
definition CUSTOM_TEMPLATE :: string where "CUSTOM_TEMPLATE = ''custom''"

definition template :: "string \<Rightarrow> string \<Rightarrow> string \<Rightarrow> string \<Rightarrow> string list \<Rightarrow> string \<times> string \<times> string \<Rightarrow> IdentityProvider" where
  "template title authUrl tokenUrl userInfoUrl scopes mapping = (case mapping of (identifier, displayName, email) \<Rightarrow>
     \<lparr>ip_name = [], ip_type = OAUTH2, ip_title = title, ip_identifierFilter = [],
      ip_config = Some \<lparr>oc_clientId = [], oc_clientSecret = [], oc_authUrl = authUrl, oc_tokenUrl = tokenUrl, oc_userInfoUrl = userInfoUrl, oc_scopes = scopes,
        oc_fieldMapping = Some \<lparr>fm_identifier = identifier, fm_displayName = displayName, fm_email = email, fm_avatarUrl = []\<rparr>\<rparr>\<rparr>)"

definition templateList :: "IdentityProvider list" where
  "templateList =
    [template ''GitHub'' ''https://github.com/login/oauth/authorize'' ''https://github.com/login/oauth/access_token'' ''https://api.github.com/user''
       [''read:user''] (''login'', ''name'', ''email''),
     template ''GitLab'' ''https://gitlab.com/oauth/authorize'' ''https://gitlab.com/oauth/token'' ''https://gitlab.com/oauth/userinfo''
       [''openid''] (''name'', ''name'', ''email''),
     template ''Google'' ''https://accounts.google.com/o/oauth2/v2/auth'' ''https://oauth2.googleapis.com/token'' ''https://www.googleapis.com/oauth2/v2/userinfo''
       [''https://www.googleapis.com/auth/userinfo.email'', ''https://www.googleapis.com/auth/userinfo.profile''] (''email'', ''name'', ''email''),
     template CUSTOM_TEMPLATE [] [] [] [] ([], [], [])]"

definition createEmptyFieldMapping :: FieldMapping where
  "createEmptyFieldMapping = \<lparr>fm_identifier = [], fm_displayName = [], fm_email = [], fm_avatarUrl = []\<rparr>"

definition createEmptyOAuth2Config :: OAuth2Config where
  "createEmptyOAuth2Config = \<lparr>oc_clientId = [], oc_clientSecret = [], oc_authUrl = [], oc_tokenUrl = [], oc_userInfoUrl = [], oc_scopes = [],
     oc_fieldMapping = Some createEmptyFieldMapping\<rparr>"

record BasicInfoState =
  bi_title :: string
  bi_identifier :: string
  bi_identifierFilter :: string

definition createEmptyBasicInfo :: BasicInfoState where
  "createEmptyBasicInfo = \<lparr>bi_title = [], bi_identifier = [], bi_identifierFilter = []\<rparr>"

section \<open>Identifiers and scopes\<close>

definition identifier_char :: "char \<Rightarrow> bool" where
  "identifier_char c \<longleftrightarrow> (97 \<le> code c \<and> code c \<le> 122) \<or> is_digit c"

definition hyphen :: char where "hyphen = CHR ''-''"

text \<open>The replacements of \<open>sanitizeIdentifier\<close>: other characters, runs of hyphens, hyphens at the ends.\<close>

fun collapse_hyphens :: "string \<Rightarrow> string" where
  "collapse_hyphens (x # y # s) = (if x = hyphen \<and> y = hyphen then collapse_hyphens (y # s) else x # collapse_hyphens (y # s))"
| "collapse_hyphens s = s"

definition strip_hyphens :: "string \<Rightarrow> string" where
  "strip_hyphens s = rev (dropWhile (\<lambda>c. c = hyphen) (rev (dropWhile (\<lambda>c. c = hyphen) s)))"

definition sanitizeIdentifier :: "string \<Rightarrow> string" where
  "sanitizeIdentifier v = strip_hyphens (collapse_hyphens (map (\<lambda>c. if identifier_char c then c else hyphen) (to_lower v)))"

lemma split_space_smaller: "dropWhile P s = x # r \<Longrightarrow> length (dropWhile Q r) < length s"
  using length_dropWhile_le[of P s] length_dropWhile_le[of Q r] by simp

text \<open>\<open>split(/\s+/)\<close>.\<close>

function split_space :: "string \<Rightarrow> string list" where
  "split_space s = (case dropWhile (\<lambda>c. \<not> is_space c) s of
     [] \<Rightarrow> [s] | x # r \<Rightarrow> takeWhile (\<lambda>c. \<not> is_space c) s # split_space (dropWhile is_space r))"
  by pat_completeness auto

termination by (relation "measure length") (auto intro: split_space_smaller)

declare split_space.simps [simp del]

definition normalizeScopes :: "string \<Rightarrow> string list" where
  "normalizeScopes v = filter (\<lambda>s. s \<noteq> []) (map trim (split_space v))"

section \<open>The dialog\<close>

text \<open>\<open>dg_open\<close> and \<open>dg_provider\<close> are its properties.\<close>

record idp_dialog =
  dg_open :: bool
  dg_provider :: "IdentityProvider option"
  dg_basicInfo :: BasicInfoState
  dg_type :: IdentityProvider_Type
  dg_config :: OAuth2Config
  dg_scopes :: string
  dg_template :: string
  dg_submitting :: bool

record dialog_state =
  ds_basicInfo :: BasicInfoState
  ds_type :: IdentityProvider_Type
  ds_config :: OAuth2Config
  ds_scopes :: string

definition provider_config :: "IdentityProvider \<Rightarrow> OAuth2Config" where
  "provider_config p = (case ip_config p of Some c \<Rightarrow> if ip_type p = OAUTH2 then c else createEmptyOAuth2Config | None \<Rightarrow> createEmptyOAuth2Config)"

definition buildDialogStateFromTemplate :: "string \<Rightarrow> string \<Rightarrow> dialog_state" where
  "buildDialogStateFromTemplate templateName customTitle =
     (let t = (case find (\<lambda>i. ip_title i = templateName) templateList of Some t \<Rightarrow> t | None \<Rightarrow> hd templateList);
          title = (if ip_title t = CUSTOM_TEMPLATE then customTitle else ip_title t);
          config = provider_config t
      in \<lparr>ds_basicInfo = \<lparr>bi_title = title, bi_identifier = sanitizeIdentifier (ip_title t), bi_identifierFilter = ip_identifierFilter t\<rparr>,
          ds_type = ip_type t, ds_config = config, ds_scopes = join '' '' (oc_scopes config)\<rparr>)"

definition buildDialogStateFromProvider :: "IdentityProvider \<Rightarrow> dialog_state" where
  "buildDialogStateFromProvider p =
     (let config = provider_config p
      in \<lparr>ds_basicInfo = \<lparr>bi_title = ip_title p, bi_identifier = [], bi_identifierFilter = ip_identifierFilter p\<rparr>,
          ds_type = ip_type p, ds_config = config, ds_scopes = join '' '' (oc_scopes config)\<rparr>)"

definition isCreating :: "idp_dialog \<Rightarrow> bool" where "isCreating d \<longleftrightarrow> dg_provider d = None"

text \<open>The effect on the properties and the template; \<open>custom\<close> is the translated title of the custom template.\<close>

definition dialog_effect :: "string \<Rightarrow> idp_dialog \<Rightarrow> idp_dialog" where
  "dialog_effect custom d =
     (if \<not> dg_open d
      then d\<lparr>dg_template := DEFAULT_TEMPLATE, dg_basicInfo := createEmptyBasicInfo, dg_type := OAUTH2, dg_config := createEmptyOAuth2Config,
             dg_scopes := [], dg_submitting := False\<rparr>
      else (let n = (case dg_provider d of None \<Rightarrow> buildDialogStateFromTemplate (dg_template d) custom | Some p \<Rightarrow> buildDialogStateFromProvider p)
            in d\<lparr>dg_basicInfo := ds_basicInfo n, dg_type := ds_type n, dg_config := ds_config n, dg_scopes := ds_scopes n\<rparr>))"

definition open_dialog :: "string \<Rightarrow> IdentityProvider option \<Rightarrow> idp_dialog" where
  "open_dialog custom provider = dialog_effect custom
     \<lparr>dg_open = True, dg_provider = provider, dg_basicInfo = createEmptyBasicInfo, dg_type = OAUTH2, dg_config = createEmptyOAuth2Config, dg_scopes = [],
      dg_template = DEFAULT_TEMPLATE, dg_submitting = False\<rparr>"

definition handleDialogClose :: "bool \<Rightarrow> idp_dialog \<Rightarrow> idp_dialog" where
  "handleDialogClose nextOpen d = (if dg_submitting d \<and> \<not> nextOpen then d else d\<lparr>dg_open := nextOpen\<rparr>)"

definition handleCloseBtnClick :: "idp_dialog \<Rightarrow> idp_dialog" where
  "handleCloseBtnClick d = (if dg_submitting d then d else handleDialogClose False d)"

definition oauth2FieldMapping :: "idp_dialog \<Rightarrow> FieldMapping" where
  "oauth2FieldMapping d = (case oc_fieldMapping (dg_config d) of Some m \<Rightarrow> m | None \<Rightarrow> createEmptyFieldMapping)"

definition allowConfirmAction :: "idp_dialog \<Rightarrow> bool" where
  "allowConfirmAction d =
     (if trim (bi_title (dg_basicInfo d)) = [] then False
      else if isCreating d \<and> trim (bi_identifier (dg_basicInfo d)) = [] then False
      else if dg_type d = OAUTH2 \<and> (trim (oc_clientId (dg_config d)) = [] \<or> trim (oc_authUrl (dg_config d)) = [] \<or> trim (oc_tokenUrl (dg_config d)) = [] \<or>
          trim (oc_userInfoUrl (dg_config d)) = [] \<or> normalizeScopes (dg_scopes d) = [] \<or> trim (fm_identifier (oauth2FieldMapping d)) = []) then False
      else if dg_type d = OAUTH2 \<and> isCreating d \<and> trim (oc_clientSecret (dg_config d)) = [] then False
      else \<not> dg_submitting d)"

datatype idp_request = CreateIdentityProvider string IdentityProvider | UpdateIdentityProvider IdentityProvider "string list"

definition setPartialOAuth2Config :: "(OAuth2Config \<Rightarrow> OAuth2Config) \<Rightarrow> idp_dialog \<Rightarrow> idp_dialog" where
  "setPartialOAuth2Config f d = d\<lparr>dg_config := f (dg_config d)\<rparr>"

definition setPartialFieldMapping :: "(FieldMapping \<Rightarrow> FieldMapping) \<Rightarrow> idp_dialog \<Rightarrow> idp_dialog" where
  "setPartialFieldMapping f d = setPartialOAuth2Config (oc_fieldMapping_update (\<lambda>_. Some (f (oauth2FieldMapping d)))) d"

text \<open>What is entered. The identifier's field exists for a new provider only and holds at most 32 characters.\<close>

datatype idp_change = EnterIdentifier string | EnterTitle string | EnterFilter string | EnterClientId string | EnterClientSecret string
  | EnterAuthUrl string | EnterTokenUrl string | EnterUserInfoUrl string | EnterScopes string | EnterMapIdentifier string | EnterMapDisplayName string
  | EnterMapEmail string | EnterMapAvatar string | ChooseTemplate string

definition enter :: "string \<Rightarrow> idp_change \<Rightarrow> idp_dialog \<Rightarrow> idp_dialog" where
  "enter custom ch d = (case ch of
     EnterIdentifier v \<Rightarrow> if isCreating d \<and> length v \<le> 32 then d\<lparr>dg_basicInfo := (dg_basicInfo d)\<lparr>bi_identifier := sanitizeIdentifier v\<rparr>\<rparr> else d
   | EnterTitle v \<Rightarrow> d\<lparr>dg_basicInfo := (dg_basicInfo d)\<lparr>bi_title := v\<rparr>\<rparr>
   | EnterFilter v \<Rightarrow> d\<lparr>dg_basicInfo := (dg_basicInfo d)\<lparr>bi_identifierFilter := v\<rparr>\<rparr>
   | EnterClientId v \<Rightarrow> setPartialOAuth2Config (oc_clientId_update (\<lambda>_. v)) d
   | EnterClientSecret v \<Rightarrow> setPartialOAuth2Config (oc_clientSecret_update (\<lambda>_. v)) d
   | EnterAuthUrl v \<Rightarrow> setPartialOAuth2Config (oc_authUrl_update (\<lambda>_. v)) d
   | EnterTokenUrl v \<Rightarrow> setPartialOAuth2Config (oc_tokenUrl_update (\<lambda>_. v)) d
   | EnterUserInfoUrl v \<Rightarrow> setPartialOAuth2Config (oc_userInfoUrl_update (\<lambda>_. v)) d
   | EnterScopes v \<Rightarrow> d\<lparr>dg_scopes := v\<rparr>
   | EnterMapIdentifier v \<Rightarrow> setPartialFieldMapping (fm_identifier_update (\<lambda>_. v)) d
   | EnterMapDisplayName v \<Rightarrow> setPartialFieldMapping (fm_displayName_update (\<lambda>_. v)) d
   | EnterMapEmail v \<Rightarrow> setPartialFieldMapping (fm_email_update (\<lambda>_. v)) d
   | EnterMapAvatar v \<Rightarrow> setPartialFieldMapping (fm_avatarUrl_update (\<lambda>_. v)) d
   | ChooseTemplate v \<Rightarrow> if isCreating d \<and> v \<noteq> dg_template d then dialog_effect custom (d\<lparr>dg_template := v\<rparr>) else d)"

text \<open>\<open>handleConfirmBtnClick\<close>: the request, the dialog afterwards and what is shown; \<open>answer\<close> is the server's.\<close>

definition dialog_provider :: "string \<Rightarrow> idp_dialog \<Rightarrow> IdentityProvider" where
  "dialog_provider name d = \<lparr>ip_name = name, ip_type = dg_type d, ip_title = trim (bi_title (dg_basicInfo d)),
     ip_identifierFilter = trim (bi_identifierFilter (dg_basicInfo d)), ip_config = Some ((dg_config d)\<lparr>oc_scopes := normalizeScopes (dg_scopes d)\<rparr>)\<rparr>"

definition handleConfirmBtnClick :: "(js_error \<Rightarrow> string) \<Rightarrow> (js_error + unit) \<Rightarrow> idp_dialog \<Rightarrow> idp_request \<times> toast \<times> idp_dialog" where
  "handleConfirmBtnClick message answer d0 =
     (let d = d0\<lparr>dg_submitting := True\<rparr>;
          request = (case dg_provider d of
            None \<Rightarrow> CreateIdentityProvider (bi_identifier (dg_basicInfo d)) (dialog_provider [] d)
          | Some p \<Rightarrow> UpdateIdentityProvider (dialog_provider (ip_name p) d) [''title'', ''identifier_filter'', ''config''])
      in case answer of
           Inl e \<Rightarrow> (request, handleError message None e, d\<lparr>dg_submitting := False\<rparr>)
         | Inr _ \<Rightarrow> (request, ToastSuccess (if isCreating d then ''setting.sso.sso-created'' else ''setting.sso.sso-updated''),
             (d\<lparr>dg_submitting := False, dg_open := False\<rparr>)))"

section \<open>Identifiers\<close>

text \<open>Words of small letters and digits, joined by single hyphens.\<close>

definition identifier_ok :: "string \<Rightarrow> bool" where
  "identifier_ok s \<longleftrightarrow> (\<forall>c \<in> set s. identifier_char c \<or> c = hyphen) \<and> (s \<noteq> [] \<longrightarrow> hd s \<noteq> hyphen \<and> last s \<noteq> hyphen) \<and> \<not> sublist [hyphen, hyphen] s"

lemma hyphen_not_identifier [simp]: "\<not> identifier_char hyphen"
  by code_simp

lemma set_collapse: "set (collapse_hyphens s) = set s"
  by (induction s rule: collapse_hyphens.induct) auto

lemma hd_collapse: "s \<noteq> [] \<Longrightarrow> collapse_hyphens s \<noteq> [] \<and> hd (collapse_hyphens s) = hd s"
  by (induction s rule: collapse_hyphens.induct) auto

lemma double_Cons: "sublist [h, h] (x # s) \<longleftrightarrow> (x = h \<and> s \<noteq> [] \<and> hd s = h) \<or> sublist [h, h] s"
  by (cases s) (auto simp: sublist_Cons_right)

lemma collapse_no_double: "\<not> sublist [hyphen, hyphen] (collapse_hyphens s)"
  by (induction s rule: collapse_hyphens.induct) (auto simp: double_Cons hd_collapse)

lemma collapse_id: "\<not> sublist [hyphen, hyphen] s \<Longrightarrow> collapse_hyphens s = s"
  by (induction s rule: collapse_hyphens.induct) (auto simp: double_Cons)

lemma strip_sublist: "sublist (strip_hyphens s) s"
proof -
  have "suffix (dropWhile P xs) xs" for P and xs :: string by (rule suffix_dropWhile)
  moreover have "prefix (rev (dropWhile P (rev xs))) xs" for P and xs :: string
    using suffix_dropWhile[of P "rev xs"] by (simp add: suffix_to_prefix)
  ultimately show ?thesis unfolding strip_hyphens_def by (meson sublist_order.order.trans prefix_imp_sublist suffix_imp_sublist)
qed

lemma strip_ends: "strip_hyphens s \<noteq> [] \<Longrightarrow> hd (strip_hyphens s) \<noteq> hyphen \<and> last (strip_hyphens s) \<noteq> hyphen"
proof -
  let ?P = "\<lambda>c. c = hyphen" and ?t = "dropWhile (\<lambda>c. c = hyphen) s"
  assume n: "strip_hyphens s \<noteq> []"
  then have d: "dropWhile ?P (rev ?t) \<noteq> []" by (simp add: strip_hyphens_def)
  then have l: "last (strip_hyphens s) \<noteq> hyphen" using hd_dropWhile[of ?P "rev ?t"] by (simp add: strip_hyphens_def last_rev)
  have t: "?t \<noteq> []"
  proof
    assume "?t = []"
    with d show False by simp
  qed
  have "prefix (strip_hyphens s) ?t" using suffix_dropWhile[of ?P "rev ?t"] by (simp add: strip_hyphens_def suffix_to_prefix)
  then have "hd (strip_hyphens s) = hd ?t" using n by (metis hd_append2 prefix_def)
  then show ?thesis using l hd_dropWhile[OF t] by simp
qed

lemma drop_hyphens_id: "s \<noteq> [] \<Longrightarrow> hd s \<noteq> hyphen \<Longrightarrow> dropWhile (\<lambda>c. c = hyphen) s = s"
  by (cases s) auto

lemma drop_replicate: "dropWhile (\<lambda>c. c = h) (replicate n h @ s) = dropWhile (\<lambda>c. c = h) s"
  by (induction n) auto

lemma strip_end: "s \<noteq> [] \<Longrightarrow> hd s \<noteq> hyphen \<Longrightarrow> last s \<noteq> hyphen \<Longrightarrow> strip_hyphens (s @ replicate n hyphen) = s"
  using drop_hyphens_id[of "s @ replicate n hyphen"] drop_hyphens_id[of "rev s"]
  by (simp add: strip_hyphens_def hd_rev drop_replicate)

lemma strip_id: "(s \<noteq> [] \<longrightarrow> hd s \<noteq> hyphen \<and> last s \<noteq> hyphen) \<Longrightarrow> strip_hyphens s = s"
  using strip_end[of s 0] by (cases "s = []") (auto simp: strip_hyphens_def)

lemma sanitize_ok: "identifier_ok (sanitizeIdentifier v)"
proof -
  let ?c = "collapse_hyphens (map (\<lambda>c. if identifier_char c then c else hyphen) (to_lower v))"
  have "sublist (sanitizeIdentifier v) ?c" by (simp add: sanitizeIdentifier_def strip_sublist)
  then have "set (sanitizeIdentifier v) \<subseteq> set ?c" "\<not> sublist [hyphen, hyphen] (sanitizeIdentifier v)"
    using collapse_no_double by (auto dest: set_mono_sublist) (meson sublist_order.order.trans)
  moreover have "\<forall>c \<in> set ?c. identifier_char c \<or> c = hyphen" by (auto simp: set_collapse)
  ultimately show ?thesis using strip_ends unfolding identifier_ok_def sanitizeIdentifier_def by blast
qed

lemma lower_identifier: "identifier_char c \<or> c = hyphen \<Longrightarrow> lower_char c = c"
  by (auto simp: identifier_char_def is_digit_def lower_char_def hyphen_def code_def)

lemma sanitize_id:
  assumes "identifier_ok s"
  shows "sanitizeIdentifier s = s"
proof -
  have "map (\<lambda>c. if identifier_char c then c else hyphen) (to_lower s) = s"
    using assms lower_identifier by (auto simp: identifier_ok_def to_lower_def intro!: map_idI)
  then show ?thesis using assms by (simp add: sanitizeIdentifier_def identifier_ok_def collapse_id strip_id)
qed

lemma collapse_snoc: "collapse_hyphens (s @ [hyphen]) = (if s \<noteq> [] \<and> last s = hyphen then collapse_hyphens s else collapse_hyphens s @ [hyphen])"
  by (induction s rule: collapse_hyphens.induct) (auto split: if_splits)

text \<open>A hyphen that is typed after an identifier is removed at once, so identifiers with hyphens cannot be typed, only pasted.\<close>

theorem hyphen_cannot_be_typed:
  assumes "identifier_ok s"
  shows "sanitizeIdentifier (s @ ''-'') = s"
proof -
  have m: "map (\<lambda>c. if identifier_char c then c else hyphen) (to_lower (s @ ''-'')) = s @ [hyphen]"
    using assms lower_identifier by (auto simp: identifier_ok_def to_lower_def hyphen_def[symmetric] intro!: map_idI)
  show ?thesis
  proof (cases "s = []")
    case True
    then show ?thesis using m by (simp add: sanitizeIdentifier_def strip_hyphens_def)
  next
    case False
    then have l: "hd s \<noteq> hyphen" "last s \<noteq> hyphen" "\<not> sublist [hyphen, hyphen] s" using assms by (auto simp: identifier_ok_def)
    then have "strip_hyphens (s @ [hyphen]) = s" using strip_end[of s 1] False by simp
    then show ?thesis using m l False by (simp add: sanitizeIdentifier_def collapse_snoc collapse_id)
  qed
qed

section \<open>Scopes\<close>

definition scope_ok :: "string \<Rightarrow> bool" where
  "scope_ok s \<longleftrightarrow> s \<noteq> [] \<and> (\<forall>c \<in> set s. \<not> is_space c)"

lemma trim_no_space: "\<forall>c \<in> set s. \<not> is_space c \<Longrightarrow> trim s = s"
proof -
  assume s: "\<forall>c \<in> set s. \<not> is_space c"
  have "dropWhile is_space t = t" if "set t \<subseteq> set s" for t using s that by (cases t) auto
  then show ?thesis by (simp add: trim_def trim_start_def trim_end_def)
qed

lemma split_space_pieces: "x \<in> set (split_space s) \<Longrightarrow> \<forall>c \<in> set x. \<not> is_space c"
proof (induction s rule: split_space.induct)
  case (1 s)
  show ?case
  proof (cases "dropWhile (\<lambda>c. \<not> is_space c) s")
    case Nil
    then have "\<forall>c \<in> set s. \<not> is_space c" by (simp add: dropWhile_eq_Nil_conv)
    then show ?thesis using 1(2) Nil by (simp add: split_space.simps)
  next
    case (Cons y r)
    then have "x = takeWhile (\<lambda>c. \<not> is_space c) s \<or> x \<in> set (split_space (dropWhile is_space r))"
      using 1(2) split_space.simps[of s] by simp
    then show ?thesis using 1(1)[OF Cons] by (auto dest: set_takeWhileD)
  qed
qed

lemma scopes_ok: "s \<in> set (normalizeScopes v) \<Longrightarrow> scope_ok s"
  by (auto simp: normalizeScopes_def scope_ok_def trim_no_space split_space_pieces)

lemma space_char [simp]: "is_space (CHR '' '')"
  by code_simp

lemma split_space_join: "\<forall>s \<in> set ss. scope_ok s \<Longrightarrow> ss \<noteq> [] \<Longrightarrow> split_space (join '' '' ss) = ss"
proof (induction ss)
  case (Cons x ss)
  then have x: "\<forall>c \<in> set x. \<not> is_space c" by (simp add: scope_ok_def)
  show ?case
  proof (cases ss)
    case Nil
    have d: "dropWhile (\<lambda>c. \<not> is_space c) x = []" using x by (simp add: dropWhile_eq_Nil_conv)
    have "split_space x = [x]" by (subst split_space.simps) (simp only: d list.case)
    with Nil show ?thesis by simp
  next
    case (Cons y ys)
    let ?j = "join '' '' ss"
    have j: "dropWhile is_space ?j = ?j"
    proof -
      obtain z where z: "?j = y @ z" using Cons by (cases ys) auto
      have "y \<noteq> []" "\<not> is_space (hd y)" using Cons.prems(1) Cons by (auto simp: scope_ok_def)
      then show ?thesis unfolding z by (cases y) auto
    qed
    have e: "join '' '' (x # ss) = x @ CHR '' '' # ?j" using Cons by simp
    have "dropWhile (\<lambda>c. \<not> is_space c) (x @ CHR '' '' # ?j) = CHR '' '' # ?j" "takeWhile (\<lambda>c. \<not> is_space c) (x @ CHR '' '' # ?j) = x"
      using x by (simp_all add: dropWhile_append2 takeWhile_append2)
    then have "split_space (x @ CHR '' '' # ?j) = x # split_space ?j" by (subst split_space.simps) (simp add: j)
    then show ?thesis using Cons.IH Cons.prems Cons unfolding e by simp
  qed
qed simp

lemma normalize_join:
  assumes "\<forall>s \<in> set ss. scope_ok s"
  shows "normalizeScopes (join '' '' ss) = ss"
proof (cases "ss = []")
  case True
  then show ?thesis by (simp add: normalizeScopes_def split_space.simps trim_no_space)
next
  case False
  have "map trim ss = ss" using assms by (intro map_idI) (simp add: scope_ok_def trim_no_space)
  then show ?thesis using assms False by (auto simp: normalizeScopes_def split_space_join scope_ok_def intro!: filter_True)
qed

section \<open>What the dialog sends\<close>

lemma length_sanitize: "length (sanitizeIdentifier v) \<le> length v"
proof -
  have "length (collapse_hyphens s) \<le> length s" for s by (induction s rule: collapse_hyphens.induct) auto
  from this[of "map (\<lambda>c. if identifier_char c then c else hyphen) (to_lower v)"] show ?thesis
    using sublist_length_le[OF strip_sublist] le_trans unfolding sanitizeIdentifier_def by (fastforce simp: to_lower_def)
qed

definition dialog_inv :: "IdentityProvider option \<Rightarrow> idp_dialog \<Rightarrow> bool" where
  "dialog_inv provider d \<longleftrightarrow> dg_open d \<and> dg_provider d = provider \<and> \<not> dg_submitting d \<and>
     identifier_ok (bi_identifier (dg_basicInfo d)) \<and> length (bi_identifier (dg_basicInfo d)) \<le> 32 \<and>
     dg_type d = (case provider of None \<Rightarrow> OAUTH2 | Some p \<Rightarrow> ip_type p)"

lemma find_Some_in: "find P xs = Some x \<Longrightarrow> x \<in> set xs \<and> P x"
  by (auto simp: find_Some_iff)

lemma template_state: "identifier_ok (bi_identifier (ds_basicInfo (buildDialogStateFromTemplate n c))) \<and>
  length (bi_identifier (ds_basicInfo (buildDialogStateFromTemplate n c))) \<le> 32 \<and> ds_type (buildDialogStateFromTemplate n c) = OAUTH2"
proof -
  define t where "t = (case find (\<lambda>i. ip_title i = n) templateList of Some t \<Rightarrow> t | None \<Rightarrow> hd templateList)"
  have "t \<in> set templateList"
  proof (cases "find (\<lambda>i. ip_title i = n) templateList")
    case None
    then show ?thesis by (simp add: t_def templateList_def)
  next
    case (Some a)
    then show ?thesis using find_Some_in[OF Some] by (simp add: t_def)
  qed
  moreover have "\<forall>t \<in> set templateList. length (ip_title t) \<le> 32 \<and> ip_type t = OAUTH2" by code_simp
  ultimately have "length (ip_title t) \<le> 32" "ip_type t = OAUTH2" by auto
  then show ?thesis using length_sanitize[of "ip_title t"]
    by (simp add: buildDialogStateFromTemplate_def t_def[symmetric] Let_def sanitize_ok)
qed

lemma identifier_ok_Nil: "identifier_ok []"
  by (simp add: identifier_ok_def)

lemma effect_inv: "dg_open d \<Longrightarrow> dg_provider d = provider \<Longrightarrow> \<not> dg_submitting d \<Longrightarrow> dialog_inv provider (dialog_effect custom d)"
  using template_state by (cases provider) (auto simp: dialog_inv_def dialog_effect_def Let_def buildDialogStateFromProvider_def identifier_ok_Nil)

lemma enter_inv: "dialog_inv provider d \<Longrightarrow> dialog_inv provider (enter custom ch d)"
proof (cases ch)
  case (EnterIdentifier v)
  assume "dialog_inv provider d"
  then show ?thesis using EnterIdentifier length_sanitize[of v] by (auto simp: dialog_inv_def enter_def sanitize_ok)
next
  case (ChooseTemplate v)
  assume "dialog_inv provider d"
  then show ?thesis using ChooseTemplate effect_inv[of "d\<lparr>dg_template := v\<rparr>" provider custom] by (auto simp: enter_def dialog_inv_def)
qed (auto simp: dialog_inv_def enter_def setPartialOAuth2Config_def setPartialFieldMapping_def)

definition entered :: "string \<Rightarrow> IdentityProvider option \<Rightarrow> idp_change list \<Rightarrow> idp_dialog" where
  "entered custom provider chs = fold (enter custom) chs (open_dialog custom provider)"

lemma entered_inv: "dialog_inv provider (entered custom provider chs)"
proof -
  have "dialog_inv provider d \<Longrightarrow> dialog_inv provider (fold (enter custom) chs d)" for d
    by (induction chs arbitrary: d) (auto intro: enter_inv)
  then show ?thesis using effect_inv by (simp add: entered_def open_dialog_def)
qed

text \<open>A configuration that has all a sign-in needs.\<close>

definition config_complete :: "OAuth2Config \<Rightarrow> bool" where
  "config_complete c \<longleftrightarrow> trim (oc_clientId c) \<noteq> [] \<and> trim (oc_authUrl c) \<noteq> [] \<and> trim (oc_tokenUrl c) \<noteq> [] \<and> trim (oc_userInfoUrl c) \<noteq> [] \<and>
     oc_scopes c \<noteq> [] \<and> (\<forall>s \<in> set (oc_scopes c). scope_ok s) \<and> (\<exists>m. oc_fieldMapping c = Some m \<and> trim (fm_identifier m) \<noteq> [])"

text \<open>A provider as the server stores it, whose scopes are words.\<close>

definition provider_normal :: "IdentityProvider \<Rightarrow> bool" where
  "provider_normal p \<longleftrightarrow> ip_type p = OAUTH2 \<and> trim (ip_title p) = ip_title p \<and> trim (ip_identifierFilter p) = ip_identifierFilter p \<and>
     (\<exists>c. ip_config p = Some c \<and> (\<forall>s \<in> set (oc_scopes c). scope_ok s))"

lemma dialog_provider_complete:
  assumes "allowConfirmAction d" "dg_type d = OAUTH2"
  shows "trim (ip_title (dialog_provider n d)) \<noteq> [] \<and> (\<exists>c. ip_config (dialog_provider n d) = Some c \<and> config_complete c \<and>
    (isCreating d \<longrightarrow> trim (oc_clientSecret c) \<noteq> []))"
proof -
  have t: "trim [] = []" by (simp add: trim_no_space)
  obtain m where "oc_fieldMapping (dg_config d) = Some m" "trim (fm_identifier m) \<noteq> []"
    using assms t by (cases "oc_fieldMapping (dg_config d)") (auto simp: allowConfirmAction_def oauth2FieldMapping_def createEmptyFieldMapping_def split: if_splits)
  then show ?thesis using assms scopes_ok
    by (auto simp: allowConfirmAction_def dialog_provider_def config_complete_def trim_idem split: if_splits)
qed


definition demo_changes :: "idp_change list" where
  "demo_changes = [ChooseTemplate ''GitLab'', EnterIdentifier ''My Lab!'', EnterClientId ''id'', EnterClientSecret ''secret'', EnterScopes '' openid  email'']"


end
