(* ===== verification/EditorParts.thy ===== *)
theory EditorParts
  imports Media Filters Errors
begin

text \<open>
  The parts of the editor around its text: choosing files (\<open>hooks/useFileUpload.ts\<close>), which pairs the two halves of a live photo,
  the list of attachments and local files with its buttons (\<open>components/MemoMetadata/Attachment/AttachmentListEditor.tsx\<close>),
  and linking other memos (\<open>hooks/useLinkMemo.ts\<close>).
\<close>

section \<open>Choosing files\<close>

definition normalizeFilenameStem :: "string \<Rightarrow> string" where
  "normalizeFilenameStem filename =
     (let parts = split_on (CHR ''.'') filename
      in if length parts \<le> 1 then to_lower filename else to_lower (join ''.'' (butlast parts)))"

definition file_stem :: "LocalFile \<Rightarrow> string" where
  "file_stem f = normalizeFilenameStem (file_name (lf_file f))"

definition buildLocalMotionMedia :: "string \<Rightarrow> MotionMediaRole \<Rightarrow> MotionMedia" where
  "buildLocalMotionMedia g r = \<lparr>family = APPLE_LIVE_PHOTO, role = r, groupId = g, presentationTimestampUs = 0, hasEmbeddedVideo = False\<rparr>"

text \<open>The one image and the one video among the files of a stem, where there is exactly one of each.\<close>

definition live_pair :: "LocalFile list \<Rightarrow> string \<Rightarrow> (LocalFile \<times> LocalFile) option" where
  "live_pair fs stem =
     (let group = filter (\<lambda>f. file_stem f = stem) fs
      in case (filter (\<lambda>f. starts_with (file_type (lf_file f)) ''image/'') group, filter (\<lambda>f. starts_with (file_type (lf_file f)) ''video/'') group) of
           ([img], [vid]) \<Rightarrow> Some (img, vid)
         | _ \<Rightarrow> None)"

text \<open>The map over the files, with the identifiers of the groups so far and the number of random identifiers drawn; \<open>uuid\<close> is the sequence of these.\<close>

fun pair_files :: "(nat \<Rightarrow> string) \<Rightarrow> LocalFile list \<Rightarrow> (string, string) jsmap \<Rightarrow> nat \<Rightarrow> LocalFile list \<Rightarrow> LocalFile list" where
  "pair_files uuid fs ids k [] = []"
| "pair_files uuid fs ids k (f # rest) =
     (let stem = file_stem f
      in case live_pair fs stem of
           None \<Rightarrow> f # pair_files uuid fs ids k rest
         | Some (img, vid) \<Rightarrow>
             (let (g, k') = (case map_get ids stem of Some g \<Rightarrow> (g, k) | None \<Rightarrow> (stem @ ''-'' @ uuid k, Suc k));
                  f' = (if lf_previewUrl f = lf_previewUrl img then f\<lparr>lf_motionMedia := Some (buildLocalMotionMedia g STILL)\<rparr>
                        else if lf_previewUrl f = lf_previewUrl vid then f\<lparr>lf_motionMedia := Some (buildLocalMotionMedia g VIDEO)\<rparr>
                        else f)
              in f' # pair_files uuid fs (map_set stem g ids) k' rest))"

definition pairAppleLivePhotoFiles :: "(nat \<Rightarrow> string) \<Rightarrow> LocalFile list \<Rightarrow> LocalFile list" where
  "pairAppleLivePhotoFiles uuid fs = pair_files uuid fs [] 0 fs"

text \<open>\<open>handleFileInputChange\<close>: the files that the editor is given, if any. \<open>createObjectURL\<close> gives the address of each file.\<close>

definition handleFileInputChange :: "(nat \<Rightarrow> string) \<Rightarrow> (nat \<Rightarrow> string) \<Rightarrow> bool \<Rightarrow> File list \<Rightarrow> LocalFile list option" where
  "handleFileInputChange createObjectURL uuid selecting files =
     (if files = [] \<or> selecting then None
      else Some (pairAppleLivePhotoFiles uuid (map (\<lambda>(i, file). \<lparr>lf_file = file, lf_previewUrl = createObjectURL i, lf_origin = Some upload,
        lf_durationSeconds = None, lf_motionMedia = None\<rparr>) (enumerate 0 files))))"

section \<open>The list of attachments\<close>

definition attachmentItems :: "string \<Rightarrow> Attachment list \<Rightarrow> LocalFile list \<Rightarrow> AttachmentItem list" where
  "attachmentItems origin as fs = filter (\<lambda>i. \<not> i_isLocal i) (toAttachmentItems origin as fs)"

definition localItems :: "string \<Rightarrow> Attachment list \<Rightarrow> LocalFile list \<Rightarrow> AttachmentItem list" where
  "localItems origin as fs = filter i_isLocal (toAttachmentItems origin as fs)"

text \<open>The position of the first item with an identifier, and the swap with its neighbour; \<open>None\<close> where the button does nothing.\<close>

definition findIndex :: "('a \<Rightarrow> bool) \<Rightarrow> 'a list \<Rightarrow> int" where
  "findIndex P xs = (if list_ex P xs then int (length (takeWhile (\<lambda>x. \<not> P x) xs)) else - 1)"

definition swap_items :: "AttachmentItem list \<Rightarrow> string \<Rightarrow> int \<Rightarrow> AttachmentItem list option" where
  "swap_items its itemId direction =
     (let i = findIndex (\<lambda>x. i_id x = itemId) its; j = i + direction
      in if i < 0 \<or> j < 0 \<or> j \<ge> int (length its) then None
         else Some (its[nat i := its ! nat j, nat j := its ! nat i]))"

text \<open>A \<open>Map\<close> from pairs keeps the last value of a key.\<close>

definition last_with :: "('a \<Rightarrow> string) \<Rightarrow> 'a list \<Rightarrow> string \<Rightarrow> 'a option" where
  "last_with key xs k = find (\<lambda>x. key x = k) (rev xs)"

definition lookup_members :: "('a \<Rightarrow> string) \<Rightarrow> 'a list \<Rightarrow> AttachmentItem list \<Rightarrow> 'a list" where
  "lookup_members key xs its = concat (map (\<lambda>i. List.map_filter (last_with key xs) (i_memberIds i)) its)"

definition handleMoveAttachments :: "string \<Rightarrow> Attachment list \<Rightarrow> LocalFile list \<Rightarrow> string \<Rightarrow> int \<Rightarrow> Attachment list" where
  "handleMoveAttachments origin as fs itemId direction =
     (case swap_items (attachmentItems origin as fs) itemId direction of
        None \<Rightarrow> as
      | Some reordered \<Rightarrow> lookup_members att_name as reordered)"

definition handleMoveLocalFiles :: "string \<Rightarrow> Attachment list \<Rightarrow> LocalFile list \<Rightarrow> string \<Rightarrow> int \<Rightarrow> LocalFile list" where
  "handleMoveLocalFiles origin as fs itemId direction =
     (case swap_items (localItems origin as fs) itemId direction of
        None \<Rightarrow> fs
      | Some reordered \<Rightarrow> lookup_members lf_previewUrl fs reordered)"

definition handleRemoveItem :: "AttachmentItem \<Rightarrow> Attachment list \<times> LocalFile list \<Rightarrow> Attachment list \<times> LocalFile list" where
  "handleRemoveItem item st = (case st of (as, fs) \<Rightarrow>
     if i_isLocal item then (as, filter (\<lambda>f. lf_previewUrl f \<notin> set (i_memberIds item)) fs)
     else (filter (\<lambda>a. att_name a \<notin> set (i_memberIds item)) as, fs))"

text \<open>The buttons that are enabled.\<close>

definition item_index :: "string \<Rightarrow> Attachment list \<Rightarrow> LocalFile list \<Rightarrow> AttachmentItem \<Rightarrow> int \<times> nat" where
  "item_index origin as fs item =
     (let itemList = (if i_isLocal item then localItems origin as fs else attachmentItems origin as fs)
      in (findIndex (\<lambda>e. i_id e = i_id item) itemList, length itemList))"

definition canMoveUp :: "string \<Rightarrow> Attachment list \<Rightarrow> LocalFile list \<Rightarrow> AttachmentItem \<Rightarrow> bool" where
  "canMoveUp origin as fs item \<longleftrightarrow> fst (item_index origin as fs item) > 0"

definition canMoveDown :: "string \<Rightarrow> Attachment list \<Rightarrow> LocalFile list \<Rightarrow> AttachmentItem \<Rightarrow> bool" where
  "canMoveDown origin as fs item \<longleftrightarrow> (case item_index origin as fs item of (i, n) \<Rightarrow> 0 \<le> i \<and> i < int n - 1)"

text \<open>The items that can be previewed, and where the preview of one starts.\<close>

record preview_entry =
  pv_id :: string
  pv_kind :: FileCategory
  pv_url :: string
  pv_posterUrl :: string
  pv_filename :: string

definition previewItems :: "AttachmentItem list \<Rightarrow> preview_entry list" where
  "previewItems its = map (\<lambda>i. \<lparr>pv_id = i_id i, pv_kind = i_category i, pv_url = i_sourceUrl i, pv_posterUrl = i_thumbnailUrl i, pv_filename = i_filename i\<rparr>)
     (filter (\<lambda>i. i_category i \<in> {image_cat, video_cat, motion_cat}) its)"

definition handlePreviewItem :: "AttachmentItem list \<Rightarrow> AttachmentItem \<Rightarrow> nat option" where
  "handlePreviewItem its item =
     (let i = findIndex (\<lambda>p. pv_id p = i_id item) (previewItems its) in if i < 0 then None else Some (nat i))"

section \<open>Linking memos\<close>

definition filteredMemos :: "string option \<Rightarrow> Memo list \<Rightarrow> Memo list" where
  "filteredMemos currentMemoName fetched = filter (\<lambda>m. Some (memo_name m) \<noteq> currentMemoName) fetched"

definition isAlreadyLinked :: "MemoRelation list \<Rightarrow> string \<Rightarrow> bool" where
  "isAlreadyLinked rels name = (Some name \<in> (\<lambda>r. map_option rm_name (rel_relatedMemo r)) ` set rels)"

text \<open>The filter of the search, with the text as it was typed between quotes.\<close>

definition link_filter :: "User option \<Rightarrow> string \<Rightarrow> string" where
  "link_filter user searchText =
     (let creator = buildMemoCreatorFilter (case user of Some u \<Rightarrow> user_name u | None \<Rightarrow> [])
      in join '' && '' ((case creator of Some c \<Rightarrow> [c] | None \<Rightarrow> []) @
           (if searchText \<noteq> [] then [''content.contains('' @ [CHR 0x22] @ searchText @ [CHR 0x22] @ '')''] else [])))"

definition link_search :: "(string \<Rightarrow> js_error + Memo list) \<Rightarrow> bool \<Rightarrow> User option \<Rightarrow> string \<Rightarrow> Memo list \<Rightarrow> Memo list" where
  "link_search listMemos isOpen user searchText fetched =
     (if \<not> isOpen then fetched else (case listMemos (link_filter user searchText) of Inr memos \<Rightarrow> memos | Inl e \<Rightarrow> fetched))"

definition addMemoRelation :: "Memo \<Rightarrow> MemoRelation" where
  "addMemoRelation m = \<lparr>rel_memo = None, rel_relatedMemo = Some \<lparr>rm_name = memo_name m, rm_snippet = memo_snippet m\<rparr>, rel_type = REFERENCE\<rparr>"

section \<open>Moving items\<close>

lemma mset_map_filter:
  assumes "mset xs = mset ys"
  shows "mset (List.map_filter f xs) = mset (List.map_filter f ys)"
  using assms by (simp add: map_filter_def)

lemma last_with_unique:
  assumes "distinct (map key xs)" "x \<in> set xs"
  shows "last_with key xs (key x) = Some x"
proof (cases "last_with key xs (key x)")
  case None
  then show ?thesis using assms(2) by (auto simp: last_with_def find_None_iff)
next
  case (Some y)
  then have "y \<in> set (rev xs)" "key y = key x" by (auto simp: last_with_def find_Some_iff simp del: set_rev)
  then have "y = x" using assms by (auto simp: distinct_map inj_on_def)
  with Some show ?thesis by simp
qed

lemma members_perm:
  assumes "distinct (map key xs)" "mset (concat (map i_memberIds its)) = mset (map key xs)"
  shows "mset (lookup_members key xs its) = mset xs"
proof -
  have c: "concat (map (\<lambda>i. List.map_filter f (i_memberIds i)) its) = List.map_filter f (concat (map i_memberIds its))" for f :: "string \<Rightarrow> 'a option"
    by (induction its) (simp_all add: map_filter_def)
  have m: "List.map_filter (last_with key xs) (map key ys) = ys" if "set ys \<subseteq> set xs" for ys
    using that by (induction ys) (simp_all add: map_filter_simps last_with_unique[OF assms(1)])
  have "mset (lookup_members key xs its) = mset (List.map_filter (last_with key xs) (map key xs))"
    unfolding lookup_members_def c by (rule mset_map_filter[OF assms(2)])
  then show ?thesis by (simp add: m)
qed

lemma findIndex_bound: "findIndex P xs < int (length xs)"
proof (cases "list_ex P xs")
  case True
  then have "length (takeWhile (\<lambda>x. \<not> P x) xs) < length xs"
    by (induction xs) (auto split: if_splits)
  then show ?thesis using True by (simp add: findIndex_def)
qed (simp add: findIndex_def)

lemma swap_perm:
  assumes "swap_items its i d = Some its'"
  shows "mset (concat (map i_memberIds its')) = mset (concat (map i_memberIds its))"
proof -
  have "mset its' = mset its"
    using assms findIndex_bound[of "\<lambda>x. i_id x = i" its] mset_swap[of _ its] by (auto simp: swap_items_def Let_def split: if_splits)
  moreover have "mset (concat (map i_memberIds xs)) = (\<Sum>i \<in># mset xs. mset (i_memberIds i))" for xs :: "AttachmentItem list"
    by (induction xs) simp_all
  ultimately show ?thesis by simp
qed

section \<open>The items cover what they are made from\<close>

lemma group_by_files: "(g, files) \<in> set (group_by k xs) \<Longrightarrow> set files \<subseteq> set xs"
proof -
  assume "(g, files) \<in> set (group_by k xs)"
  then have "set files \<subseteq> set (concat (map snd (group_by k xs)))" by force
  also have "\<dots> = set (filter (\<lambda>x. k x \<noteq> None) xs)" using mset_groups[of k xs] by (metis set_mset_mset)
  finally show ?thesis by auto
qed

lemma local_group_members: "mset (concat (map i_memberIds (local_group_items gf))) = mset (map lf_previewUrl (snd gf))"
proof -
  obtain g files where gf: "gf = (g, files)" by (cases gf)
  have singles: "concat (map i_memberIds (map fileToItem fs)) = map lf_previewUrl fs" for fs
    by (induction fs) (simp_all add: fileToItem_def Let_def)
  let ?s = "\<lambda>f. apple_role STILL (lf_motionMedia f)" and ?v = "\<lambda>f. apple_role VIDEO (lf_motionMedia f)"
  show ?thesis
  proof (cases "find ?s files \<noteq> None \<and> find ?v files \<noteq> None \<and> length files = 2")
    case True
    then obtain s v where sv: "find ?s files = Some s" "find ?v files = Some v" "length files = 2" by auto
    have ex: "?s f \<Longrightarrow> \<not> ?v f" for f by (auto simp: apple_role_def split: option.splits)
    then have "files = [s, v] \<or> files = [v, s]" using sv
      by (cases files; cases "tl files") (auto split: if_splits)
    with sv show ?thesis by (auto simp: gf local_group_items_def)
  next
    case False
    then have "local_group_items gf = map fileToItem files" by (auto simp: gf local_group_items_def split: option.splits)
    then show ?thesis using singles by (simp add: gf)
  qed
qed

lemma local_items_cover: "mset (concat (map i_memberIds (toLocalMotionItems fs))) = mset (map lf_previewUrl fs)"
proof -
  let ?k = "\<lambda>f. motion_group (lf_motionMedia f)"
  have singles: "concat (map i_memberIds (map fileToItem xs)) = map lf_previewUrl xs" for xs
    by (induction xs) (simp_all add: fileToItem_def Let_def)
  have g: "mset (concat (map i_memberIds (concat (map local_group_items gs)))) = image_mset lf_previewUrl (mset (concat (map snd gs)))" for gs
    by (induction gs) (simp_all add: local_group_members)
  have "mset (concat (map i_memberIds (toLocalMotionItems fs))) =
      image_mset lf_previewUrl (mset (filter (\<lambda>f. ?k f \<noteq> None) fs)) + image_mset lf_previewUrl (mset (filter (\<lambda>f. ?k f = None) fs))"
    unfolding toLocalMotionItems_def map_append concat_append mset_append g singles mset_groups by simp
  also have "\<dots> = mset (map lf_previewUrl fs)" by (induction fs) auto
  finally show ?thesis .
qed

text \<open>The attachments that the list can show: all but Photoshop files without a motion.\<close>

definition listed :: "Attachment \<Rightarrow> bool" where
  "listed a \<longleftrightarrow> \<not> isPSD (att_type a) \<or> att_motionMedia a \<noteq> None"

lemma local_item_local: "i \<in> set (toLocalMotionItems fs) \<Longrightarrow> i_isLocal i"
proof -
  have s: "i_isLocal (fileToItem f)" for f by (simp add: fileToItem_def Let_def)
  have "list_all i_isLocal (local_group_items gf)" for gf
    by (cases gf) (auto simp: local_group_items_def list_all_iff s split: option.split)
  then show "i \<in> set (toLocalMotionItems fs) \<Longrightarrow> i_isLocal i" by (auto simp: toLocalMotionItems_def list_all_iff s)
qed

lemma attachment_items_cover:
  assumes "names_ok as" "\<forall>a \<in> set as. listed a"
  shows "mset (concat (map i_memberIds (attachmentItems origin as fs))) = mset (map att_name as)"
proof -
  let ?vis = "\<lambda>a. getAttachmentType a = ''image/*'' \<or> getAttachmentType a = ''video/*'' \<or> att_motionMedia a \<noteq> None"
  define vs where "vs = filter ?vis as"
  define its where "its = buildAttachmentVisualItems origin vs"
  have "names_ok vs" using assms(1) distinct_map_filter[of att_name as] by (auto simp: names_ok_def vs_def)
  from visual_items_exact[OF this, of origin]
  have v: "distinct (concat (map v_attachmentNames its))" "set (concat (map v_attachmentNames its)) = att_name ` set vs"
    by (simp_all add: its_def)
  have n: "filter (\<lambda>i. i_category i = audio_cat \<or> i_category i = document_cat) (map (attachmentGroupToItem origin) (filter (\<lambda>a. att_name a \<notin> set (concat (map v_attachmentNames its))) as))
      = map (attachmentGroupToItem origin) (filter (\<lambda>a. \<not> ?vis a) as)"
  proof -
    have "filter (\<lambda>a. att_name a \<notin> set (concat (map v_attachmentNames its))) as = filter (\<lambda>a. \<not> ?vis a) as"
    proof (rule filter_cong[OF refl])
      fix a
      assume a: "a \<in> set as"
      have "b = a" if "b \<in> set vs" "att_name b = att_name a" for b
        using names_okD(1)[OF assms(1)] that a by (simp add: vs_def)
      then have "att_name a \<in> att_name ` set vs \<longleftrightarrow> a \<in> set vs" by (metis image_iff)
      moreover have "a \<in> set vs \<longleftrightarrow> ?vis a" using a by (simp add: vs_def)
      ultimately show "(att_name a \<notin> set (concat (map v_attachmentNames its))) = (\<not> ?vis a)"
        unfolding v(2) by blast
    qed
    moreover have "i_category (attachmentGroupToItem origin a) = audio_cat \<or> i_category (attachmentGroupToItem origin a) = document_cat"
      if "a \<in> set as" "\<not> ?vis a" for a
    proof -
      have i: "\<not> isImage (att_type a)" using that by (auto simp: getAttachmentType_def)
      then have v: "\<not> starts_with (att_type a) ''video''" using that by (auto simp: getAttachmentType_def)
      have "\<not> starts_with (att_type a) ''image/''" using i that assms(2) by (auto simp: isImage_def listed_def)
      moreover have "\<not> starts_with (att_type a) ''video/''"
        using v prefix_order.trans[of "''video''" "''video/''" "att_type a"] by (auto simp: starts_with_def)
      ultimately have "\<not> starts_with (att_type a) ''image/''" "\<not> starts_with (att_type a) ''video/''" .
      then show ?thesis by (simp add: attachmentGroupToItem_def Let_def categorizeFile_def)
    qed
    ultimately show ?thesis by (auto intro!: filter_True)
  qed
  have l: "\<not> i_isLocal (visualItemToAttachmentItem x)" "i_memberIds (visualItemToAttachmentItem x) = v_attachmentNames x" for x
    by (simp_all add: visualItemToAttachmentItem_def)
  have g: "\<not> i_isLocal (attachmentGroupToItem origin a)" "i_memberIds (attachmentGroupToItem origin a) = [att_name a]" for a
    by (simp_all add: attachmentGroupToItem_def Let_def)
  note loc = local_item_local
  have "attachmentItems origin as fs = map visualItemToAttachmentItem its @ map (attachmentGroupToItem origin) (filter (\<lambda>a. \<not> ?vis a) as)"
    unfolding attachmentItems_def toAttachmentItems_def Let_def vs_def[symmetric] its_def[symmetric] n using l g loc by (simp add: filter_empty_conv)
  then have "concat (map i_memberIds (attachmentItems origin as fs)) = concat (map v_attachmentNames its) @ map att_name (filter (\<lambda>a. \<not> ?vis a) as)"
    by (simp add: comp_def l g)
  moreover have "mset (concat (map v_attachmentNames its)) = mset (map att_name vs)"
    using v \<open>names_ok vs\<close> set_eq_iff_mset_eq_distinct[of "concat (map v_attachmentNames its)" "map att_name vs"] by (simp add: names_ok_def)
  moreover have "mset (map att_name vs) + mset (map att_name (filter (\<lambda>a. \<not> ?vis a) as)) = mset (map att_name as)"
    unfolding vs_def by (induction as) auto
  ultimately show ?thesis by simp
qed

lemma local_items_are_local: "localItems origin as fs = toLocalMotionItems fs"
proof -
  note local_item_local
  moreover have "\<not> i_isLocal (visualItemToAttachmentItem x)" "\<not> i_isLocal (attachmentGroupToItem origin a)" for x a
    by (simp_all add: visualItemToAttachmentItem_def attachmentGroupToItem_def Let_def)
  ultimately show ?thesis by (auto simp: localItems_def toAttachmentItems_def Let_def filter_empty_conv intro!: filter_True)
qed


definition demo_mixed :: "Attachment list" where
  "demo_mixed = demo_live @ [default_attachment\<lparr>att_name := ''attachments/d'', att_type := ''text/plain''\<rparr>]"


text \<open>A Photoshop file is not in the list, and a move of another item drops it from the memo.\<close>

theorem photoshop_file_dropped:
  "map att_name (handleMoveAttachments ''http://h''
      [default_attachment\<lparr>att_name := ''attachments/a'', att_type := ''text/plain''\<rparr>,
       default_attachment\<lparr>att_name := ''attachments/b'', att_type := ''text/plain''\<rparr>,
       default_attachment\<lparr>att_name := ''attachments/psd'', att_type := ''image/vnd.adobe.photoshop''\<rparr>] [] ''attachments/b'' (- 1)) =
   [''attachments/b'', ''attachments/a'']"
  by code_simp

section \<open>Live photos\<close>

text \<open>The positions of the images and of the videos of a stem among the chosen files, and the two halves of a live photo.\<close>

definition of_stem :: "string \<Rightarrow> File list \<Rightarrow> string \<Rightarrow> nat list" where
  "of_stem kind files st = filter (\<lambda>i. normalizeFilenameStem (file_name (files ! i)) = st \<and> starts_with (file_type (files ! i)) kind) [0..<length files]"

definition live_halves :: "File list \<Rightarrow> nat \<Rightarrow> nat \<Rightarrow> bool" where
  "live_halves files i j \<longleftrightarrow> (\<exists>st. of_stem ''image/'' files st = [i] \<and> of_stem ''video/'' files st = [j])"

definition chosen :: "(nat \<Rightarrow> string) \<Rightarrow> File list \<Rightarrow> nat \<Rightarrow> LocalFile" where
  "chosen url files i = \<lparr>lf_file = files ! i, lf_previewUrl = url i, lf_origin = Some upload, lf_durationSeconds = None, lf_motionMedia = None\<rparr>"

definition mark :: "LocalFile list \<Rightarrow> (string \<Rightarrow> string) \<Rightarrow> LocalFile \<Rightarrow> LocalFile" where
  "mark fs G f = (case live_pair fs (file_stem f) of
     None \<Rightarrow> f
   | Some (img, vid) \<Rightarrow> if lf_previewUrl f = lf_previewUrl img then f\<lparr>lf_motionMedia := Some (buildLocalMotionMedia (G (file_stem f)) STILL)\<rparr>
       else if lf_previewUrl f = lf_previewUrl vid then f\<lparr>lf_motionMedia := Some (buildLocalMotionMedia (G (file_stem f)) VIDEO)\<rparr>
       else f)"

lemma pair_files_mark:
  assumes "\<And>st g. map_get ids st = Some g \<Longrightarrow> \<exists>j. g = st @ ''-'' @ uuid j"
  shows "\<exists>G. pair_files uuid fs ids k rest = map (mark fs G) rest \<and> (\<forall>st g. map_get ids st = Some g \<longrightarrow> G st = g) \<and>
    (\<forall>st. \<exists>j. G st = st @ ''-'' @ uuid j)"
  using assms
proof (induction rest arbitrary: ids k)
  case Nil
  define G where "G st = (case map_get ids st of Some g \<Rightarrow> g | None \<Rightarrow> st @ ''-'' @ uuid 0)" for st
  have "\<exists>j. G st = st @ ''-'' @ uuid j" for st using Nil[of st] by (auto simp: G_def split: option.split)
  then show ?case by (intro exI[of _ G]) (auto simp: G_def)
next
  case (Cons f rest)
  show ?case
  proof (cases "live_pair fs (file_stem f)")
    case None
    from Cons.IH[OF Cons.prems] show ?thesis by (auto simp: None mark_def Let_def)
  next
    case (Some p)
    obtain img vid where p: "p = (img, vid)" by (cases p)
    define g k' where "g = (case map_get ids (file_stem f) of Some g \<Rightarrow> g | None \<Rightarrow> file_stem f @ ''-'' @ uuid k)"
      and "k' = (case map_get ids (file_stem f) of Some g \<Rightarrow> k | None \<Rightarrow> Suc k)"
    have "\<exists>j. h = st @ ''-'' @ uuid j" if "map_get (map_set (file_stem f) g ids) st = Some h" for st h
      using that Cons.prems by (auto simp: g_def split: if_splits option.splits)
    from Cons.IH[of "map_set (file_stem f) g ids" k', OF this] obtain G where G: "pair_files uuid fs (map_set (file_stem f) g ids) k' rest = map (mark fs G) rest"
      "\<forall>st h. map_get (map_set (file_stem f) g ids) st = Some h \<longrightarrow> G st = h" "\<forall>st. \<exists>j. G st = st @ ''-'' @ uuid j" by blast
    have gs: "G (file_stem f) = g" using G(2) by simp
    have "G st = h" if "map_get ids st = Some h" for st h
      using that G(2) by (cases "st = file_stem f") (auto simp: g_def)
    moreover have "pair_files uuid fs ids k (f # rest) = map (mark fs G) (f # rest)"
      using G(1) gs by (auto simp: Some p mark_def Let_def g_def k'_def split: option.splits)
    ultimately show ?thesis using G(3) by blast
  qed
qed

lemma live_pair_chosen:
  "live_pair (map (chosen url files) [0..<length files]) st =
    (case (of_stem ''image/'' files st, of_stem ''video/'' files st) of ([i], [j]) \<Rightarrow> Some (chosen url files i, chosen url files j) | _ \<Rightarrow> None)"
proof -
  have f: "filter (\<lambda>f. starts_with (file_type (lf_file f)) kind) (filter (\<lambda>f. file_stem f = st) (map (chosen url files) [0..<length files])) =
      map (chosen url files) (of_stem kind files st)" for kind
    by (simp add: filter_map comp_def of_stem_def file_stem_def chosen_def conj_commute)
  show ?thesis unfolding live_pair_def Let_def f by (auto split: list.splits)
qed

lemma of_stem_mem: "of_stem kind files st = [i] \<Longrightarrow> i < length files \<and> normalizeFilenameStem (file_name (files ! i)) = st \<and> starts_with (file_type (files ! i)) kind"
proof -
  assume "of_stem kind files st = [i]"
  then have "i \<in> set (of_stem kind files st)" by simp
  then show ?thesis by (simp add: of_stem_def)
qed

lemma mark_chosen:
  assumes "inj url" "i < length files"
  shows "mark (map (chosen url files) [0..<length files]) G (chosen url files i) =
    (if \<exists>j. live_halves files i j then (chosen url files i)\<lparr>lf_motionMedia := Some (buildLocalMotionMedia (G (normalizeFilenameStem (file_name (files ! i)))) STILL)\<rparr>
     else if \<exists>j. live_halves files j i then (chosen url files i)\<lparr>lf_motionMedia := Some (buildLocalMotionMedia (G (normalizeFilenameStem (file_name (files ! i)))) VIDEO)\<rparr>
     else chosen url files i)"
proof -
  let ?st = "normalizeFilenameStem (file_name (files ! i))"
  have st: "file_stem (chosen url files i) = ?st" by (simp add: file_stem_def chosen_def)
  have h: "(\<exists>j. live_halves files i j) \<longleftrightarrow> of_stem ''image/'' files ?st = [i] \<and> (\<exists>j. of_stem ''video/'' files ?st = [j])"
    "(\<exists>j. live_halves files j i) \<longleftrightarrow> of_stem ''video/'' files ?st = [i] \<and> (\<exists>j. of_stem ''image/'' files ?st = [j])"
    using of_stem_mem by (auto simp: live_halves_def)
  have u: "lf_previewUrl (chosen url files a) = lf_previewUrl (chosen url files b) \<longleftrightarrow> a = b" for a b
    using assms(1) by (auto simp: chosen_def inj_def)
  show ?thesis
  proof (cases "\<exists>a b. of_stem ''image/'' files ?st = [a] \<and> of_stem ''video/'' files ?st = [b]")
    case True
    then obtain a b where ab: "of_stem ''image/'' files ?st = [a]" "of_stem ''video/'' files ?st = [b]" by blast
    then have "live_pair (map (chosen url files) [0..<length files]) ?st = Some (chosen url files a, chosen url files b)" by (simp add: live_pair_chosen)
    then show ?thesis unfolding h by (auto simp: mark_def st u ab)
  next
    case False
    then have "live_pair (map (chosen url files) [0..<length files]) ?st = None" by (auto simp: live_pair_chosen split: list.splits)
    with False show ?thesis unfolding h by (auto simp: mark_def st)
  qed
qed

lemma live_halves_mem: "live_halves files i j \<Longrightarrow> i < length files \<and> j < length files \<and>
    normalizeFilenameStem (file_name (files ! i)) = normalizeFilenameStem (file_name (files ! j)) \<and>
    starts_with (file_type (files ! i)) ''image/'' \<and> starts_with (file_type (files ! j)) ''video/''"
  using of_stem_mem by (auto simp: live_halves_def)

lemma live_halves_one: "\<not> (live_halves files i j \<and> live_halves files j' i)"
proof -
  have "\<not> (starts_with t ''image/'' \<and> starts_with t ''video/'')" for t by (auto simp: starts_with_def prefix_def)
  then show ?thesis using live_halves_mem by blast
qed

lemma live_halves_same:
  assumes "live_halves files i a \<or> live_halves files a i" "live_halves files j b \<or> live_halves files b j"
    "normalizeFilenameStem (file_name (files ! i)) = normalizeFilenameStem (file_name (files ! j))" "i \<noteq> j"
  shows "live_halves files i j \<or> live_halves files j i"
proof -
  let ?stem = "\<lambda>i. normalizeFilenameStem (file_name (files ! i))"
  have h: "\<exists>x y. of_stem ''image/'' files (?stem k) = [x] \<and> of_stem ''video/'' files (?stem k) = [y] \<and> (k = x \<or> k = y)"
    if "live_halves files k c \<or> live_halves files c k" for k c
    using that of_stem_mem by (auto simp: live_halves_def)
  obtain x y where x: "of_stem ''image/'' files (?stem i) = [x]" "of_stem ''video/'' files (?stem i) = [y]" "i = x \<or> i = y" using h[OF assms(1)] by blast
  moreover have "j = x \<or> j = y" using h[OF assms(2)] x(1,2) unfolding assms(3) by auto
  moreover have "live_halves files x y" using x(1,2) by (auto simp: live_halves_def)
  ultimately show ?thesis using assms(4) by blast
qed

text \<open>The chosen files after pairing, with the group of each stem.\<close>

lemma chosen_files:
  assumes "handleFileInputChange url uuid False files = Some fs" "inj url"
  obtains G where "length fs = length files" "\<And>st. \<exists>j. G st = st @ ''-'' @ uuid j"
    "\<And>i. i < length files \<Longrightarrow> lf_file (fs ! i) = files ! i \<and> lf_previewUrl (fs ! i) = url i"
    "\<And>i. i < length files \<Longrightarrow> lf_motionMedia (fs ! i) =
       (if \<exists>j. live_halves files i j then Some (buildLocalMotionMedia (G (normalizeFilenameStem (file_name (files ! i)))) STILL)
        else if \<exists>j. live_halves files j i then Some (buildLocalMotionMedia (G (normalizeFilenameStem (file_name (files ! i)))) VIDEO) else None)"
proof -
  let ?n = "length files"
  have c: "map (\<lambda>(i, file). \<lparr>lf_file = file, lf_previewUrl = url i, lf_origin = Some upload, lf_durationSeconds = None, lf_motionMedia = None\<rparr>) (enumerate 0 files) =
      map (chosen url files) [0..<?n]"
    by (rule nth_equalityI) (simp_all add: nth_enumerate_eq chosen_def)
  then have fs: "fs = pairAppleLivePhotoFiles uuid (map (chosen url files) [0..<?n])" using assms(1) by (simp add: handleFileInputChange_def split: if_splits)
  obtain G where G: "fs = map (mark (map (chosen url files) [0..<?n]) G) (map (chosen url files) [0..<?n])" "\<forall>st. \<exists>j. G st = st @ ''-'' @ uuid j"
    using pair_files_mark[of "[]" uuid] unfolding fs pairAppleLivePhotoFiles_def by (metis map_get_Nil option.distinct(1))
  have at: "fs ! i = mark (map (chosen url files) [0..<?n]) G (chosen url files i)" if "i < ?n" for i using that by (simp add: G(1))
  show ?thesis
    by (rule that[of G]) (use G at mark_chosen[OF assms(2), of _ files G] in \<open>auto simp: chosen_def\<close>)
qed

text \<open>C18. Live photos are recognised exactly. Two of the files chosen at once get the same group if and only if they are the one image and the one video
  whose names agree up to case and extension; the image is its still and the video its clip. The files themselves stay as they are, in
  their order.\<close>

theorem live_photo_pairs:
  assumes "handleFileInputChange url uuid False files = Some fs" "inj url" "\<And>k. length (uuid k) = 36"
  shows "map lf_file fs = files \<and> map lf_previewUrl fs = map url [0..<length files] \<and>
    (\<forall>i j. live_halves files i j \<longrightarrow> (\<exists>g. lf_motionMedia (fs ! i) = Some (buildLocalMotionMedia g STILL) \<and> lf_motionMedia (fs ! j) = Some (buildLocalMotionMedia g VIDEO))) \<and>
    (\<forall>i < length files. \<forall>j < length files. i \<noteq> j \<longrightarrow>
       (motion_group (lf_motionMedia (fs ! i)) \<noteq> None \<and> motion_group (lf_motionMedia (fs ! i)) = motion_group (lf_motionMedia (fs ! j)) \<longleftrightarrow>
        live_halves files i j \<or> live_halves files j i))"
proof -
  let ?n = "length files" and ?stem = "\<lambda>i. normalizeFilenameStem (file_name (files ! i))"
  obtain G where len: "length fs = ?n" and G: "\<And>st. \<exists>j. G st = st @ ''-'' @ uuid j"
    and keep: "\<And>i. i < ?n \<Longrightarrow> lf_file (fs ! i) = files ! i \<and> lf_previewUrl (fs ! i) = url i"
    and mm: "\<And>i. i < ?n \<Longrightarrow> lf_motionMedia (fs ! i) = (if \<exists>j. live_halves files i j then Some (buildLocalMotionMedia (G (?stem i)) STILL)
      else if \<exists>j. live_halves files j i then Some (buildLocalMotionMedia (G (?stem i)) VIDEO) else None)"
    by (rule chosen_files[OF assms(1,2)]) blast
  have inj: "G a = G b \<Longrightarrow> a = b" for a b
    using G assms(3) by (metis append_eq_append_conv append_assoc length_append)
  have ne: "G a \<noteq> []" for a using G by (metis append_is_Nil_conv list.distinct(1))
  have gr: "motion_group (lf_motionMedia (fs ! i)) = (if (\<exists>j. live_halves files i j \<or> live_halves files j i) then Some (G (?stem i)) else None)" if "i < ?n" for i
    using mm[OF that] ne by (auto simp: motion_group_def buildLocalMotionMedia_def)
  have "map lf_file fs = files" "map lf_previewUrl fs = map url [0..<?n]" by (rule nth_equalityI; simp add: len keep)+
  moreover have "\<exists>g. lf_motionMedia (fs ! i) = Some (buildLocalMotionMedia g STILL) \<and> lf_motionMedia (fs ! j) = Some (buildLocalMotionMedia g VIDEO)"
    if "live_halves files i j" for i j
    using mm[of i] mm[of j] live_halves_mem[OF that] that live_halves_one[of files j] by auto
  moreover have "motion_group (lf_motionMedia (fs ! i)) \<noteq> None \<and> motion_group (lf_motionMedia (fs ! i)) = motion_group (lf_motionMedia (fs ! j)) \<longleftrightarrow>
      live_halves files i j \<or> live_halves files j i" if "i < ?n" "j < ?n" "i \<noteq> j" for i j
  proof
    assume a: "motion_group (lf_motionMedia (fs ! i)) \<noteq> None \<and> motion_group (lf_motionMedia (fs ! i)) = motion_group (lf_motionMedia (fs ! j))"
    with gr[OF that(1)] gr[OF that(2)] have "\<exists>a. live_halves files i a \<or> live_halves files a i" "\<exists>b. live_halves files j b \<or> live_halves files b j" "G (?stem i) = G (?stem j)"
      by (auto split: if_splits)
    with live_halves_same inj that(3) show "live_halves files i j \<or> live_halves files j i" by metis
  next
    assume "live_halves files i j \<or> live_halves files j i"
    with gr[OF that(1)] gr[OF that(2)] live_halves_mem show "motion_group (lf_motionMedia (fs ! i)) \<noteq> None \<and> motion_group (lf_motionMedia (fs ! i)) = motion_group (lf_motionMedia (fs ! j))"
      by (auto dest: live_halves_mem)
  qed
  ultimately show ?thesis by blast
qed

definition demo_files :: "File list" where
  "demo_files = [\<lparr>file_name = ''IMG_1.HEIC'', file_size = 3, file_type = ''image/heic'', file_bytes = [1, 2, 3]\<rparr>,
     \<lparr>file_name = ''note.txt'', file_size = 1, file_type = ''text/plain'', file_bytes = [7]\<rparr>,
     \<lparr>file_name = ''img_1.mov'', file_size = 2, file_type = ''video/quicktime'', file_bytes = [4, 5]\<rparr>]"

theorem live_photo_pairs_witness:
  "\<exists>fs. handleFileInputChange (\<lambda>n. replicate n (CHR ''u'')) (\<lambda>k. replicate 36 (CHR ''x'')) False demo_files = Some fs \<and>
     motion_group (lf_motionMedia (fs ! 0)) \<noteq> None \<and> motion_group (lf_motionMedia (fs ! 0)) = motion_group (lf_motionMedia (fs ! 2)) \<and>
     motion_group (lf_motionMedia (fs ! 0)) \<noteq> motion_group (lf_motionMedia (fs ! 1))"
proof -
  obtain fs where f: "handleFileInputChange (\<lambda>n. replicate n (CHR ''u'')) (\<lambda>k. replicate 36 (CHR ''x'')) False demo_files = Some fs"
    by (simp add: handleFileInputChange_def demo_files_def)
  have i: "inj (\<lambda>n. replicate n (CHR ''u''))" by (rule injI) (metis length_replicate)
  have h: "of_stem ''image/'' demo_files ''img_1'' = [0]" "of_stem ''video/'' demo_files ''img_1'' = [2]"
    by code_simp+
  have t: "\<not> starts_with (file_type (demo_files ! 1)) ''image/''" "\<not> starts_with (file_type (demo_files ! 1)) ''video/''" by code_simp+
  have l: "live_halves demo_files 0 2" using h by (auto simp: live_halves_def)
  have n: "\<not> live_halves demo_files 0 1" "\<not> live_halves demo_files 1 0"
    using of_stem_mem[of "''image/''" demo_files _ 1] of_stem_mem[of "''video/''" demo_files _ 1] t by (auto simp: live_halves_def)
  have len: "length demo_files = 3" by (simp add: demo_files_def)
  have "\<forall>a < length demo_files. \<forall>b < length demo_files. a \<noteq> b \<longrightarrow>
      (motion_group (lf_motionMedia (fs ! a)) \<noteq> None \<and> motion_group (lf_motionMedia (fs ! a)) = motion_group (lf_motionMedia (fs ! b)) \<longleftrightarrow>
       live_halves demo_files a b \<or> live_halves demo_files b a)"
    using live_photo_pairs[OF f i] by simp
  then have "a < 3 \<Longrightarrow> b < 3 \<Longrightarrow> a \<noteq> b \<Longrightarrow>
      (motion_group (lf_motionMedia (fs ! a)) \<noteq> None \<and> motion_group (lf_motionMedia (fs ! a)) = motion_group (lf_motionMedia (fs ! b)) \<longleftrightarrow>
       live_halves demo_files a b \<or> live_halves demo_files b a)" for a b unfolding len by blast
  then have a: "motion_group (lf_motionMedia (fs ! 0)) \<noteq> None \<and> motion_group (lf_motionMedia (fs ! 0)) = motion_group (lf_motionMedia (fs ! 2)) \<longleftrightarrow>
       live_halves demo_files 0 2 \<or> live_halves demo_files 2 0"
    and b: "motion_group (lf_motionMedia (fs ! 0)) \<noteq> None \<and> motion_group (lf_motionMedia (fs ! 0)) = motion_group (lf_motionMedia (fs ! 1)) \<longleftrightarrow>
       live_halves demo_files 0 1 \<or> live_halves demo_files 1 0" by simp_all
  from a b l n have "motion_group (lf_motionMedia (fs ! 0)) \<noteq> None \<and> motion_group (lf_motionMedia (fs ! 0)) = motion_group (lf_motionMedia (fs ! 2)) \<and>
     motion_group (lf_motionMedia (fs ! 0)) \<noteq> motion_group (lf_motionMedia (fs ! 1))" by blast
  with f show ?thesis by blast
qed

section \<open>The search of the link dialog\<close>

text \<open>The text of the search goes into the filter as it is typed, so a quotation mark in it ends the quoted text, and what follows is read as a filter.\<close>

theorem link_search_unquoted:
  "link_filter None (''x'' @ [CHR 0x22] @ '') || pinned || content.contains('' @ [CHR 0x22] @ ''y'') =
     ''content.contains('' @ [CHR 0x22] @ ''x'' @ [CHR 0x22] @ '') || pinned || content.contains('' @ [CHR 0x22] @ ''y'' @ [CHR 0x22] @ '')''"
  by (simp add: link_filter_def buildMemoCreatorFilter_def)

text \<open>What the dialog offers: never the memo itself, and a memo that was added counts as linked.\<close>

lemma link_dialog: "memo_name m \<noteq> n \<Longrightarrow> m \<in> set (filteredMemos (Some n) ms) \<longleftrightarrow> m \<in> set ms"
  "memo_name m = n \<Longrightarrow> m \<notin> set (filteredMemos (Some n) ms)" "isAlreadyLinked (addMemoRelation m # rels) (memo_name m)"
  by (auto simp: filteredMemos_def isAlreadyLinked_def addMemoRelation_def)

end
