(* ===== verification/ImportDialog.thy ===== *)
theory ImportDialog
  imports Export MemoActions Transitions
begin

text \<open>
  The dialog that imports an export file, \<open>components/Settings/MemoImportDialog.tsx\<close>: choosing a file, its preview, the
  confirmation, the import. The steps of the dialog are the events of its controls and the answers of the two calls of
  \<open>services/memoImportService.ts\<close>; \<open>import_spec\<close> is the protocol that it implements.
\<close>

section \<open>Messages\<close>

record MemoImportSkippedCounts =
  sk_attachments :: int
  sk_comments :: int
  sk_relations :: int
  sk_reactions :: int
  sk_locations :: int
  sk_settings :: int

datatype MemoImportIssueKind = ISSUE_KIND_UNSPECIFIED | INVALID | UNSUPPORTED

record MemoImportIssue =
  is_recordIndex :: int
  is_sourceName :: string
  is_kind :: MemoImportIssueKind
  is_message :: string

record MemoImportPreview =
  pr_envelopeValid :: bool
  pr_canImport :: bool
  pr_blockingReason :: string
  pr_total :: int
  pr_normal :: int
  pr_archived :: int
  pr_invalid :: int
  pr_unsupported :: int
  pr_skipped :: "MemoImportSkippedCounts option"
  pr_issues :: "MemoImportIssue list"
  pr_sourceUser :: string
  pr_exportedAt :: string

record MemoImportResult =
  re_restored :: int
  re_skippedTotal :: int
  re_failed :: int
  re_normal :: int
  re_archived :: int
  re_skipped :: "MemoImportSkippedCounts option"
  re_warnings :: "string list"

section \<open>The dialog\<close>

datatype ImportPhase = SelectPhase | PreviewPhase | ConfirmPhase | ResultPhase

definition emptySkippedCounts :: MemoImportSkippedCounts where
  "emptySkippedCounts = \<lparr>sk_attachments = 0, sk_comments = 0, sk_relations = 0, sk_reactions = 0, sk_locations = 0, sk_settings = 0\<rparr>"

text \<open>\<open>im_open\<close> is a property; the toasts and the invalidated queries are effects.\<close>

record import_dialog =
  im_open :: bool
  im_phase :: ImportPhase
  im_busy :: bool
  im_filename :: string
  im_data :: "nat list option"
  im_preview :: "MemoImportPreview option"
  im_result :: "MemoImportResult option"
  im_errorMessage :: string
  im_toasts :: "toast list"
  im_invalidated :: "query_key list"

definition import_reset :: "import_dialog \<Rightarrow> import_dialog" where
  "import_reset s = s\<lparr>im_phase := SelectPhase, im_busy := False, im_filename := [], im_data := None, im_preview := None, im_result := None,
     im_errorMessage := []\<rparr>"

definition handleOpenChange :: "bool \<Rightarrow> import_dialog \<Rightarrow> import_dialog" where
  "handleOpenChange nextOpen s = (if im_busy s then s else (if \<not> nextOpen then import_reset s else s)\<lparr>im_open := nextOpen\<rparr>)"

definition getLocalizedError :: "(js_error \<Rightarrow> string) \<Rightarrow> import_error \<Rightarrow> string" where
  "getLocalizedError message error = (case error of
     MemoImportFileError EmptyFile \<Rightarrow> ''setting.account.import-file-empty''
   | MemoImportFileError NotJson \<Rightarrow> ''setting.account.import-file-not-json''
   | MemoImportFileError TooLarge \<Rightarrow> ''setting.account.import-file-too-large''
   | ImportCallError e \<Rightarrow> getErrorMessage message e)"

definition reportError :: "(js_error \<Rightarrow> string) \<Rightarrow> import_error \<Rightarrow> import_dialog \<Rightarrow> import_dialog" where
  "reportError message error s =
     (let m = getLocalizedError message error in s\<lparr>im_errorMessage := m, im_toasts := im_toasts s @ [ToastError m]\<rparr>)"

text \<open>\<open>handleFileChange\<close> up to its call, and with the outcome of \<open>previewMemoImportFile\<close>.\<close>

definition handleFileChange :: "import_file \<Rightarrow> import_dialog \<Rightarrow> import_dialog" where
  "handleFileChange file s = s\<lparr>im_busy := True, im_filename := if_name file, im_data := None, im_preview := None, im_result := None,
     im_errorMessage := [], im_phase := SelectPhase\<rparr>"

definition preview_outcome :: "(js_error \<Rightarrow> string) \<Rightarrow> import_error + nat list \<times> MemoImportPreview \<Rightarrow> import_dialog \<Rightarrow> import_dialog" where
  "preview_outcome message outcome s =
     (case outcome of
        Inr (data, preview) \<Rightarrow> s\<lparr>im_data := Some data, im_preview := Some preview, im_phase := PreviewPhase\<rparr>
      | Inl e \<Rightarrow> reportError message e s)\<lparr>im_busy := False\<rparr>"

definition may_import :: "import_dialog \<Rightarrow> bool" where
  "may_import s \<longleftrightarrow> (case im_preview s of Some p \<Rightarrow> pr_canImport p | None \<Rightarrow> False)"

text \<open>\<open>handleImport\<close> up to its call, with the outcome of \<open>importPreparedMemoExport\<close>, and after the queries were refetched.\<close>

definition handleImport :: "import_dialog \<Rightarrow> nat list option \<times> import_dialog" where
  "handleImport s = (case im_data s of
     Some data \<Rightarrow> if \<not> im_busy s \<and> may_import s then (Some data, s\<lparr>im_busy := True, im_errorMessage := []\<rparr>) else (None, s)
   | None \<Rightarrow> (None, s))"

definition import_outcome :: "(js_error \<Rightarrow> string) \<Rightarrow> import_error + MemoImportResult \<Rightarrow> import_dialog \<Rightarrow> import_dialog" where
  "import_outcome message outcome s =
     (case outcome of
        Inr result \<Rightarrow> s\<lparr>im_result := Some result, im_phase := ResultPhase, im_invalidated := im_invalidated s @ [memoKeys_all, userKeys_stats]\<rparr>
      | Inl e \<Rightarrow> (reportError message e s)\<lparr>im_busy := False\<rparr>)"

text \<open>What the dialog shows of a preview.\<close>

definition skipped_shown :: "import_dialog \<Rightarrow> MemoImportSkippedCounts" where
  "skipped_shown s = (case Option.bind (im_preview s) pr_skipped of Some k \<Rightarrow> k | None \<Rightarrow> emptySkippedCounts)"

definition restorableCount :: "import_dialog \<Rightarrow> int" where
  "restorableCount s = (case im_preview s of Some p \<Rightarrow> pr_normal p + pr_archived p | None \<Rightarrow> 0)"

section \<open>The steps of the dialog\<close>

text \<open>The call that an asynchronous handler waits for, and the log of what was asked for and answered.\<close>

datatype import_call = Previewing import_file | Importing "nat list" | Refetching

datatype import_entry = FileChosen | Closed | Previewed "nat list" MemoImportPreview | ImportSent "nat list"
  | ImportDone "import_error + MemoImportResult"

record import_world =
  iw_dialog :: import_dialog
  iw_call :: "import_call option"
  iw_log :: "import_entry list"

text \<open>The controls of the dialog: a file input in the first two phases, cancel and done (also by a key or a click outside), continue and import.
  \<open>OpenDialog\<close> is the button of the account section. The server's answers come with the events.\<close>

datatype import_event = OpenDialog | OpenChange bool | ChooseFile import_file | PreviewAnswer "js_error + MemoImportPreview" | ContinueClick
  | ImportClick | ImportAnswer "js_error + MemoImportResult" | Refetched

definition import_next :: "(js_error \<Rightarrow> string) \<Rightarrow> import_event \<Rightarrow> import_world \<Rightarrow> import_world option" where
  "import_next message ev w = (let s = iw_dialog w in case ev of
     OpenDialog \<Rightarrow> if im_open s then None else Some (w\<lparr>iw_dialog := s\<lparr>im_open := True\<rparr>\<rparr>)
   | OpenChange b \<Rightarrow> if \<not> im_open s then None
       else Some (w\<lparr>iw_dialog := handleOpenChange b s, iw_log := iw_log w @ (if im_busy s \<or> b then [] else [Closed])\<rparr>)
   | ChooseFile file \<Rightarrow> if \<not> im_open s \<or> im_busy s \<or> im_phase s \<notin> {SelectPhase, PreviewPhase} then None
       else Some \<lparr>iw_dialog = handleFileChange file s, iw_call = Some (Previewing file), iw_log = iw_log w @ [FileChosen]\<rparr>
   | PreviewAnswer a \<Rightarrow> (case iw_call w of
       Some (Previewing file) \<Rightarrow>
         let r = previewMemoImportFile (\<lambda>_. a) file
         in Some \<lparr>iw_dialog = preview_outcome message r s, iw_call = None,
              iw_log = iw_log w @ (case r of Inr (d, p) \<Rightarrow> [Previewed d p] | Inl _ \<Rightarrow> [])\<rparr>
     | _ \<Rightarrow> None)
   | ContinueClick \<Rightarrow> if im_open s \<and> im_phase s = PreviewPhase \<and> \<not> im_busy s \<and> may_import s
       then Some (w\<lparr>iw_dialog := s\<lparr>im_phase := ConfirmPhase\<rparr>\<rparr>) else None
   | ImportClick \<Rightarrow> if im_open s \<and> im_phase s = ConfirmPhase \<and> \<not> im_busy s
       then (case handleImport s of
               (None, s') \<Rightarrow> Some (w\<lparr>iw_dialog := s'\<rparr>)
             | (Some d, s') \<Rightarrow> Some \<lparr>iw_dialog = s', iw_call = Some (Importing d),
                 iw_log = iw_log w @ (if isl (validateImportSize (int (length d))) then [] else [ImportSent d])\<rparr>)
       else None
   | ImportAnswer a \<Rightarrow> (case iw_call w of
       Some (Importing d) \<Rightarrow>
         let r = importPreparedMemoExport (\<lambda>_. a) d
         in Some \<lparr>iw_dialog = import_outcome message r s, iw_call = (if isl r then None else Some Refetching),
              iw_log = iw_log w @ (if isl (validateImportSize (int (length d))) then [] else [ImportDone r])\<rparr>
     | _ \<Rightarrow> None)
   | Refetched \<Rightarrow> (case iw_call w of
       Some Refetching \<Rightarrow> Some (w\<lparr>iw_dialog := s\<lparr>im_busy := False\<rparr>, iw_call := None\<rparr>)
     | _ \<Rightarrow> None))"

definition import_initial :: import_world where
  "import_initial = \<lparr>iw_dialog = \<lparr>im_open = False, im_phase = SelectPhase, im_busy = False, im_filename = [], im_data = None, im_preview = None,
     im_result = None, im_errorMessage = [], im_toasts = [], im_invalidated = []\<rparr>, iw_call = None, iw_log = []\<rparr>"

abbreviation import_step :: "(js_error \<Rightarrow> string) \<Rightarrow> import_event \<Rightarrow> import_world \<Rightarrow> import_world \<Rightarrow> bool" where
  "import_step message ev w w' \<equiv> import_next message ev w = Some w'"

abbreviation import_reachable :: "(js_error \<Rightarrow> string) \<Rightarrow> import_world \<Rightarrow> bool" where
  "import_reachable message \<equiv> reachable (\<lambda>w. w = import_initial) (import_step message)"

section \<open>The protocol\<close>

text \<open>A file that was previewed and may be imported is licensed for one successful import, until another file is chosen or the dialog is closed.
  An import is sent for the licensed file only, one at a time, within the size limits.\<close>

fun import_spec :: "nat list option \<times> bool \<Rightarrow> import_entry \<Rightarrow> (nat list option \<times> bool) option" where
  "import_spec (licensed, flight) FileChosen = (if flight then None else Some (None, False))"
| "import_spec (licensed, flight) Closed = (if flight then None else Some (None, False))"
| "import_spec (licensed, flight) (Previewed d p) = (if flight \<or> licensed \<noteq> None then None else Some (if pr_canImport p then Some d else None, False))"
| "import_spec (licensed, flight) (ImportSent d) =
     (if \<not> flight \<and> licensed = Some d \<and> d \<noteq> [] \<and> int (length d) \<le> MAX_MEMO_IMPORT_FILE_BYTES then Some (licensed, True) else None)"
| "import_spec (licensed, flight) (ImportDone (Inl e)) = (if flight then Some (licensed, False) else None)"
| "import_spec (licensed, flight) (ImportDone (Inr r)) = (if flight then Some (None, False) else None)"

definition spec_run :: "import_entry list \<Rightarrow> (nat list option \<times> bool) option" where
  "spec_run l = foldl (\<lambda>s e. Option.bind s (\<lambda>s. import_spec s e)) (Some (None, False)) l"

text \<open>What the dialog's state says of the protocol.\<close>

definition import_abs :: "import_world \<Rightarrow> nat list option \<times> bool" where
  "import_abs w = (let s = iw_dialog w in
     (if im_result s = None \<and> may_import s then im_data s else None, case iw_call w of Some (Importing d) \<Rightarrow> True | _ \<Rightarrow> False))"

lemma spec_run_simps [simp]: "spec_run [] = Some (None, False)" "spec_run (l @ [e]) = Option.bind (spec_run l) (\<lambda>s. import_spec s e)"
  by (simp_all add: spec_run_def)

definition import_inv :: "import_world \<Rightarrow> bool" where
  "import_inv w \<longleftrightarrow> (let s = iw_dialog w in
     spec_run (iw_log w) = Some (import_abs w) \<and>
     (im_busy s \<longleftrightarrow> iw_call w \<noteq> None) \<and>
     (\<not> im_open s \<longrightarrow> iw_call w = None \<and> import_reset s = s) \<and>
     (im_data s = None \<longleftrightarrow> im_preview s = None) \<and>
     (case im_data s of Some d \<Rightarrow> d \<noteq> [] \<and> int (length d) \<le> MAX_MEMO_IMPORT_FILE_BYTES | None \<Rightarrow> True) \<and>
     (im_phase s = ResultPhase \<longleftrightarrow> im_result s \<noteq> None) \<and>
     (im_phase s = SelectPhase \<longrightarrow> im_data s = None) \<and>
     (im_phase s \<in> {PreviewPhase, ConfirmPhase, ResultPhase} \<longrightarrow> im_data s \<noteq> None) \<and>
     (im_phase s \<in> {ConfirmPhase, ResultPhase} \<longrightarrow> may_import s) \<and>
     (case im_result s of Some r \<Rightarrow> iw_log w \<noteq> [] \<and> last (iw_log w) = ImportDone (Inr r) | None \<Rightarrow> True) \<and>
     (case iw_call w of
        Some (Previewing f) \<Rightarrow> im_phase s = SelectPhase
      | Some (Importing d) \<Rightarrow> im_phase s = ConfirmPhase \<and> im_data s = Some d
      | Some Refetching \<Rightarrow> im_phase s = ResultPhase
      | None \<Rightarrow> True))"

lemma import_inv_initial: "import_inv import_initial"
  by (simp add: import_inv_def import_initial_def import_abs_def may_import_def import_reset_def)

lemma validate_bounds: "\<not> isl (validateImportSize (int (length d))) \<longleftrightarrow> d \<noteq> [] \<and> int (length d) \<le> MAX_MEMO_IMPORT_FILE_BYTES"
  by (auto simp: validateImportSize_def)

lemma previewed_bounds:
  assumes "previewMemoImportFile f file = Inr (d, p)"
  shows "d \<noteq> [] \<and> int (length d) \<le> MAX_MEMO_IMPORT_FILE_BYTES"
  using assms validate_bounds[of d]
  by (auto simp: previewMemoImportFile_def readMemoImportFile_def split: if_splits sum.splits)

lemma validate_cases: "validateImportSize n = Inr ()" if "\<not> isl (validateImportSize n)"
  using that by (cases "validateImportSize n") auto

lemma prepared_import: "d \<noteq> [] \<Longrightarrow> int (length d) \<le> MAX_MEMO_IMPORT_FILE_BYTES \<Longrightarrow>
    importPreparedMemoExport f d = (case f d of Inl e \<Rightarrow> Inl (ImportCallError e) | Inr r \<Rightarrow> Inr r)"
  using validate_bounds[of d] validate_cases[of "int (length d)"] by (simp add: importPreparedMemoExport_def)

text \<open>What the invariant says while a call is under way, and while none is.\<close>

lemma inv_previewing:
  assumes "import_inv w" "iw_call w = Some (Previewing f)"
  shows "im_open (iw_dialog w) \<and> im_phase (iw_dialog w) = SelectPhase \<and> im_data (iw_dialog w) = None \<and> im_preview (iw_dialog w) = None \<and>
    im_result (iw_dialog w) = None \<and> spec_run (iw_log w) = Some (None, False)"
proof -
  have p: "im_phase (iw_dialog w) = SelectPhase" "im_open (iw_dialog w)" using assms unfolding import_inv_def Let_def by auto
  with assms(1) have "im_data (iw_dialog w) = None" "im_result (iw_dialog w) = None" "im_preview (iw_dialog w) = None"
    unfolding import_inv_def Let_def by auto
  moreover have "spec_run (iw_log w) = Some (import_abs w)" using assms(1) unfolding import_inv_def Let_def by blast
  ultimately show ?thesis using p assms(2) by (simp add: import_abs_def may_import_def)
qed

lemma inv_importing:
  assumes "import_inv w" "iw_call w = Some (Importing d)"
  shows "im_open (iw_dialog w) \<and> im_phase (iw_dialog w) = ConfirmPhase \<and> im_data (iw_dialog w) = Some d \<and> may_import (iw_dialog w) \<and> im_preview (iw_dialog w) \<noteq> None \<and>
    im_result (iw_dialog w) = None \<and> d \<noteq> [] \<and> int (length d) \<le> MAX_MEMO_IMPORT_FILE_BYTES \<and> spec_run (iw_log w) = Some (Some d, True)"
proof -
  have p: "im_phase (iw_dialog w) = ConfirmPhase" "im_open (iw_dialog w)" "im_data (iw_dialog w) = Some d"
    using assms unfolding import_inv_def Let_def by auto
  with assms(1) have "im_result (iw_dialog w) = None" "may_import (iw_dialog w)" "im_preview (iw_dialog w) \<noteq> None"
      "d \<noteq> []" "int (length d) \<le> MAX_MEMO_IMPORT_FILE_BYTES"
    unfolding import_inv_def Let_def by auto
  moreover have "spec_run (iw_log w) = Some (import_abs w)" using assms(1) unfolding import_inv_def Let_def by blast
  ultimately show ?thesis using p assms(2) by (simp add: import_abs_def)
qed

lemma inv_idle:
  assumes "import_inv w" "\<not> im_busy (iw_dialog w)"
  shows "iw_call w = None \<and> spec_run (iw_log w) = Some (if im_result (iw_dialog w) = None \<and> may_import (iw_dialog w) then im_data (iw_dialog w) else None, False)"
proof -
  have c: "iw_call w = None" using assms unfolding import_inv_def Let_def by blast
  moreover have "spec_run (iw_log w) = Some (import_abs w)" using assms(1) unfolding import_inv_def Let_def by blast
  ultimately show ?thesis by (simp add: import_abs_def Let_def)
qed

lemma inv_closed:
  assumes "import_inv w" "\<not> im_open (iw_dialog w)"
  shows "iw_call w = None \<and> im_phase (iw_dialog w) = SelectPhase \<and> \<not> im_busy (iw_dialog w) \<and> im_data (iw_dialog w) = None \<and> im_preview (iw_dialog w) = None \<and>
    im_result (iw_dialog w) = None \<and> spec_run (iw_log w) = Some (None, False)"
proof -
  have "iw_call w = None" and r: "import_reset (iw_dialog w) = iw_dialog w" using assms unfolding import_inv_def Let_def by blast+
  moreover have "im_phase (import_reset s) = SelectPhase \<and> \<not> im_busy (import_reset s) \<and> im_data (import_reset s) = None \<and> im_preview (import_reset s) = None \<and>
      im_result (import_reset s) = None" for s
    by (simp add: import_reset_def)
  from this[of "iw_dialog w"] have f: "im_phase (iw_dialog w) = SelectPhase" "\<not> im_busy (iw_dialog w)" "im_data (iw_dialog w) = None" "im_preview (iw_dialog w) = None"
    "im_result (iw_dialog w) = None" unfolding r by blast+
  ultimately show ?thesis using inv_idle[OF assms(1) f(2)] by (simp add: may_import_def)
qed

lemma import_inv_open:
  assumes "import_inv w" "import_next m OpenDialog w = Some w'"
  shows "import_inv w'"
proof -
  have o: "\<not> im_open (iw_dialog w)" and w: "w' = w\<lparr>iw_dialog := (iw_dialog w)\<lparr>im_open := True\<rparr>\<rparr>"
    using assms(2) by (auto simp: import_next_def Let_def split: if_splits)
  from inv_closed[OF assms(1) o] show ?thesis unfolding w by (simp add: import_inv_def import_abs_def Let_def may_import_def)
qed

lemma import_inv_change:
  assumes "import_inv w" "import_next m (OpenChange b) w = Some w'"
  shows "import_inv w'"
proof (cases "im_busy (iw_dialog w)")
  case True
  then have "w' = w" using assms(2) by (auto simp: import_next_def Let_def handleOpenChange_def split: if_splits)
  then show ?thesis using assms(1) by simp
next
  case False
  note idle = inv_idle[OF assms(1) False]
  show ?thesis
  proof (cases b)
    case True
    then have "w' = w" using assms(2) False by (auto simp: import_next_def Let_def handleOpenChange_def split: if_splits)
    then show ?thesis using assms(1) by simp
  next
    case closing: False
    then have "w' = w\<lparr>iw_dialog := (import_reset (iw_dialog w))\<lparr>im_open := False\<rparr>, iw_log := iw_log w @ [Closed]\<rparr>"
      using assms(2) False by (auto simp: import_next_def Let_def handleOpenChange_def split: if_splits)
    with idle show ?thesis by (simp add: import_inv_def import_abs_def Let_def may_import_def import_reset_def)
  qed
qed

lemma import_inv_choose:
  assumes "import_inv w" "import_next m (ChooseFile f) w = Some w'"
  shows "import_inv w'"
proof -
  have g: "im_open (iw_dialog w)" "\<not> im_busy (iw_dialog w)"
    and w: "w' = \<lparr>iw_dialog = handleFileChange f (iw_dialog w), iw_call = Some (Previewing f), iw_log = iw_log w @ [FileChosen]\<rparr>"
    using assms(2) by (auto simp: import_next_def Let_def split: if_splits)
  from inv_idle[OF assms(1) g(2)] g(1) show ?thesis
    unfolding w by (simp add: import_inv_def import_abs_def Let_def may_import_def handleFileChange_def)
qed

lemma import_inv_previewed:
  assumes "import_inv w" "import_next m (PreviewAnswer a) w = Some w'"
  shows "import_inv w'"
proof -
  obtain f where c: "iw_call w = Some (Previewing f)"
    using assms(2) by (auto simp: import_next_def Let_def split: option.splits import_call.splits)
  define r where "r = previewMemoImportFile (\<lambda>_. a) f"
  have w: "w' = \<lparr>iw_dialog = preview_outcome m r (iw_dialog w), iw_call = None, iw_log = iw_log w @ (case r of Inr (d, p) \<Rightarrow> [Previewed d p] | Inl _ \<Rightarrow> [])\<rparr>"
    using assms(2) c by (simp add: import_next_def Let_def r_def)
  note s = inv_previewing[OF assms(1) c]
  show ?thesis
  proof (cases r)
    case (Inl e)
    then show ?thesis using s unfolding w by (simp add: import_inv_def import_abs_def Let_def may_import_def preview_outcome_def reportError_def)
  next
    case (Inr dp)
    obtain d p where dp: "dp = (d, p)" by (cases dp)
    with previewed_bounds[of "\<lambda>_. a" f d p] Inr have "d \<noteq> []" "int (length d) \<le> MAX_MEMO_IMPORT_FILE_BYTES" by (simp_all add: r_def)
    then show ?thesis using s Inr unfolding w dp by (simp add: import_inv_def import_abs_def Let_def may_import_def preview_outcome_def)
  qed
qed

lemma import_inv_continue:
  assumes "import_inv w" "import_next m ContinueClick w = Some w'"
  shows "import_inv w'"
proof -
  have g: "im_open (iw_dialog w)" "im_phase (iw_dialog w) = PreviewPhase" "\<not> im_busy (iw_dialog w)" "may_import (iw_dialog w)"
    and w: "w' = w\<lparr>iw_dialog := (iw_dialog w)\<lparr>im_phase := ConfirmPhase\<rparr>\<rparr>"
    using assms(2) by (auto simp: import_next_def Let_def split: if_splits)
  have "im_result (iw_dialog w) = None" "im_data (iw_dialog w) \<noteq> None" "im_data (iw_dialog w) = None \<longleftrightarrow> im_preview (iw_dialog w) = None"
      "case im_data (iw_dialog w) of Some d \<Rightarrow> d \<noteq> [] \<and> int (length d) \<le> MAX_MEMO_IMPORT_FILE_BYTES | None \<Rightarrow> True"
    using assms(1) g(2) unfolding import_inv_def Let_def by auto
  with g inv_idle[OF assms(1) g(3)] show ?thesis
    unfolding w by (auto simp: import_inv_def import_abs_def Let_def may_import_def)
qed

lemma import_inv_click:
  assumes "import_inv w" "import_next m ImportClick w = Some w'"
  shows "import_inv w'"
proof -
  have g: "im_open (iw_dialog w)" "im_phase (iw_dialog w) = ConfirmPhase" "\<not> im_busy (iw_dialog w)"
    using assms(2) by (auto simp: import_next_def Let_def split: if_splits)
  have i: "im_result (iw_dialog w) = None" "may_import (iw_dialog w)" "im_data (iw_dialog w) \<noteq> None" "im_data (iw_dialog w) = None \<longleftrightarrow> im_preview (iw_dialog w) = None"
    "case im_data (iw_dialog w) of Some d \<Rightarrow> d \<noteq> [] \<and> int (length d) \<le> MAX_MEMO_IMPORT_FILE_BYTES | None \<Rightarrow> True"
    using assms(1) g(2) unfolding import_inv_def Let_def by auto
  then obtain d where d: "im_data (iw_dialog w) = Some d" "d \<noteq> []" "int (length d) \<le> MAX_MEMO_IMPORT_FILE_BYTES" by (auto split: option.splits)
  have v: "\<not> isl (validateImportSize (int (length d)))" using d validate_bounds by blast
  have w: "w' = \<lparr>iw_dialog = (iw_dialog w)\<lparr>im_busy := True, im_errorMessage := []\<rparr>, iw_call = Some (Importing d), iw_log = iw_log w @ [ImportSent d]\<rparr>"
    using assms(2) g i d v by (simp add: import_next_def Let_def handleImport_def)
  from g i d inv_idle[OF assms(1) g(3)] show ?thesis
    unfolding w by (auto simp: import_inv_def import_abs_def Let_def may_import_def)
qed

lemma import_inv_answer:
  assumes "import_inv w" "import_next m (ImportAnswer a) w = Some w'"
  shows "import_inv w'"
proof -
  obtain d where c: "iw_call w = Some (Importing d)"
    using assms(2) by (auto simp: import_next_def Let_def split: option.splits import_call.splits)
  note s = inv_importing[OF assms(1) c]
  have v: "\<not> isl (validateImportSize (int (length d)))" using s validate_bounds by blast
  define r where "r = importPreparedMemoExport (\<lambda>_. a) d"
  have w: "w' = \<lparr>iw_dialog = import_outcome m r (iw_dialog w), iw_call = (if isl r then None else Some Refetching), iw_log = iw_log w @ [ImportDone r]\<rparr>"
    using assms(2) c v by (simp add: import_next_def Let_def r_def)
  have busy: "im_busy (iw_dialog w)" using assms(1) c unfolding import_inv_def Let_def by blast
  show ?thesis
  proof (cases r)
    case (Inl e)
    then show ?thesis using s unfolding w by (auto simp: import_inv_def import_abs_def Let_def may_import_def import_outcome_def reportError_def)
  next
    case (Inr x)
    then show ?thesis using s busy unfolding w by (auto simp: import_inv_def import_abs_def Let_def may_import_def import_outcome_def)
  qed
qed

lemma import_inv_refetched:
  assumes "import_inv w" "import_next m Refetched w = Some w'"
  shows "import_inv w'"
proof -
  have c: "iw_call w = Some Refetching" and w: "w' = w\<lparr>iw_dialog := (iw_dialog w)\<lparr>im_busy := False\<rparr>, iw_call := None\<rparr>"
    using assms(2) by (auto simp: import_next_def Let_def split: option.splits import_call.splits)
  have o: "im_open (iw_dialog w)" "im_phase (iw_dialog w) = ResultPhase" using assms(1) c unfolding import_inv_def Let_def by auto
  then obtain x where "im_result (iw_dialog w) = Some x" using assms(1) unfolding import_inv_def Let_def by auto
  moreover have "may_import (s\<lparr>im_busy := b\<rparr>) = may_import s" for s b by (simp add: may_import_def)
  ultimately show ?thesis using o assms(1) c unfolding w by (auto simp: import_inv_def import_abs_def Let_def)
qed

lemma import_inv_step: "import_inv w \<Longrightarrow> import_step m e w w' \<Longrightarrow> import_inv w'"
  by (cases e) (auto intro: import_inv_open import_inv_change import_inv_choose import_inv_previewed import_inv_continue import_inv_click import_inv_answer
      import_inv_refetched)

interpretation imp: invariant "\<lambda>w. w = import_initial" "import_step m" import_inv for m
  by unfold_locales (auto intro: import_inv_step import_inv_initial)

lemma spec_licensed: "spec_run l = Some (Some d, b) \<Longrightarrow> \<exists>p. Previewed d p \<in> set l \<and> pr_canImport p"
proof (induction l arbitrary: b rule: rev_induct)
  case (snoc e l)
  then obtain s where s: "spec_run l = Some s" "import_spec s e = Some (Some d, b)" by (cases "spec_run l") auto
  then show ?case using snoc.IH
    by (cases "(s, e)" rule: import_spec.cases) (auto split: if_splits)
qed simp

lemma spec_run_prefix: "spec_run (xs @ ys) \<noteq> None \<Longrightarrow> spec_run xs \<noteq> None"
proof (induction ys rule: rev_induct)
  case (snoc y ys)
  then show ?case by (cases "spec_run (xs @ ys)") (auto simp flip: append_assoc)
qed simp

lemma spec_sent:
  assumes "spec_run (xs @ ImportSent d # ys) \<noteq> None"
  shows "\<exists>p. Previewed d p \<in> set xs \<and> pr_canImport p"
proof -
  have "spec_run (xs @ [ImportSent d]) \<noteq> None" using assms spec_run_prefix[of "xs @ [ImportSent d]" ys] by simp
  then obtain s where "spec_run xs = Some s" "import_spec s (ImportSent d) \<noteq> None" by (cases "spec_run xs") auto
  then have "spec_run xs = Some (Some d, False)" by (cases s) (auto split: if_splits)
  then show ?thesis by (rule spec_licensed)
qed

text \<open>C22. The import dialog keeps the protocol \<open>import_spec\<close>, whatever its user does and whenever the answers come: an import is sent only for the
  very bytes that were previewed last and that the server said may be imported, never twice at once, never again after it succeeded, never
  for an earlier file. While a call is under way the dialog cannot be closed; a closed dialog has forgotten its file; a result on the
  screen is the server's answer; and an answer that fails leaves the dialog ready for another attempt.\<close>

theorem import_dialog_protocol:
  assumes "import_reachable message w"
  shows "spec_run (iw_log w) = Some (import_abs w) \<and>
    (\<forall>xs d ys. iw_log w = xs @ ImportSent d # ys \<longrightarrow> (\<exists>p. Previewed d p \<in> set xs \<and> pr_canImport p)) \<and>
    (iw_call w \<noteq> None \<longrightarrow> handleOpenChange False (iw_dialog w) = iw_dialog w) \<and>
    (\<not> im_open (iw_dialog w) \<longrightarrow> iw_call w = None \<and> import_reset (iw_dialog w) = iw_dialog w) \<and>
    (\<forall>r. im_result (iw_dialog w) = Some r \<longrightarrow> last (iw_log w) = ImportDone (Inr r)) \<and>
    (\<forall>d e. iw_call w = Some (Importing d) \<longrightarrow> (\<exists>w'. import_next message (ImportAnswer (Inl e)) w = Some w' \<and>
       im_phase (iw_dialog w') = ConfirmPhase \<and> handleImport (iw_dialog w') = (Some d, (iw_dialog w')\<lparr>im_busy := True, im_errorMessage := []\<rparr>)))"
proof -
  have inv: "import_inv w" using assms by (rule imp.reachable_I)
  then have "spec_run (iw_log w) = Some (import_abs w)" by (simp add: import_inv_def Let_def)
  moreover from this have "\<exists>p. Previewed d p \<in> set xs \<and> pr_canImport p" if "iw_log w = xs @ ImportSent d # ys" for xs d ys
    using that spec_sent[of xs d ys] by simp
  moreover have "handleOpenChange False (iw_dialog w) = iw_dialog w" if "iw_call w \<noteq> None"
    using inv that unfolding import_inv_def Let_def by (simp add: handleOpenChange_def)
  moreover have "\<not> im_open (iw_dialog w) \<longrightarrow> iw_call w = None \<and> import_reset (iw_dialog w) = iw_dialog w"
    using inv unfolding import_inv_def Let_def by blast
  moreover have "last (iw_log w) = ImportDone (Inr r)" if "im_result (iw_dialog w) = Some r" for r
    using inv that unfolding import_inv_def Let_def by simp
  moreover have "\<exists>w'. import_next message (ImportAnswer (Inl e)) w = Some w' \<and> im_phase (iw_dialog w') = ConfirmPhase \<and>
      handleImport (iw_dialog w') = (Some d, (iw_dialog w')\<lparr>im_busy := True, im_errorMessage := []\<rparr>)" if c: "iw_call w = Some (Importing d)" for d e
    using inv_importing[OF inv c] c
    by (simp add: import_next_def Let_def prepared_import import_outcome_def reportError_def handleImport_def may_import_def)
  ultimately show ?thesis by blast
qed

definition demo_preview :: MemoImportPreview where
  "demo_preview = \<lparr>pr_envelopeValid = True, pr_canImport = True, pr_blockingReason = [], pr_total = 1, pr_normal = 1, pr_archived = 0, pr_invalid = 0,
     pr_unsupported = 0, pr_skipped = None, pr_issues = [], pr_sourceUser = ''ann'', pr_exportedAt = []\<rparr>"

definition demo_import_events :: "import_event list" where
  "demo_import_events = [OpenDialog, ChooseFile \<lparr>if_name = ''a.json'', if_size = 2, if_read = Inr [123, 125]\<rparr>, PreviewAnswer (Inr demo_preview), ContinueClick,
     ImportClick, OpenChange False, ImportAnswer (Inl (PlainError ''Error'' ''offline'')), ImportClick]"

definition import_run :: "(js_error \<Rightarrow> string) \<Rightarrow> import_event list \<Rightarrow> import_world option" where
  "import_run message evs = foldl (\<lambda>w e. Option.bind w (import_next message e)) (Some import_initial) evs"

lemma import_run_reachable: "import_run m evs = Some w \<Longrightarrow> import_reachable m w"
proof (induction evs arbitrary: w rule: rev_induct)
  case Nil
  then show ?case by (auto simp: import_run_def intro: reachable.start)
next
  case (snoc e evs)
  then show ?case by (cases "import_run m evs") (auto simp: import_run_def intro: reachable.step)
qed

lemma demo_import_runs:
  "map_option (\<lambda>w. (iw_call w, import_abs w)) (import_run (\<lambda>_. ''failed'') demo_import_events) = Some (Some (Importing [123, 125]), Some [123, 125], True)"
  by code_simp

theorem import_dialog_protocol_witness:
  "\<exists>w. import_run (\<lambda>_. ''failed'') demo_import_events = Some w \<and> iw_call w = Some (Importing [123, 125]) \<and>
     spec_run (iw_log w) = Some (Some [123, 125], True) \<and> handleOpenChange False (iw_dialog w) = iw_dialog w"
proof -
  obtain w where w: "import_run (\<lambda>_. ''failed'') demo_import_events = Some w" "iw_call w = Some (Importing [123, 125])"
    "import_abs w = (Some [123, 125], True)" using demo_import_runs by auto
  show ?thesis using w import_dialog_protocol[OF import_run_reachable[OF w(1)]] by (intro exI[of _ w]) simp
qed

text \<open>The counts that are shown.\<close>

lemma counts_shown: "im_preview s = Some p \<Longrightarrow> pr_skipped p = None \<Longrightarrow> skipped_shown s = emptySkippedCounts"
  by (simp add: skipped_shown_def)

end
