(* ===== verification/AttachmentLibrary.thy ===== *)
theory AttachmentLibrary
  imports Media MemoActions
begin

text \<open>
  The page of all attachments: what \<open>hooks/useAttachmentLibrary.ts\<close> makes of the listed pages, the queries and mutations of
  \<open>hooks/useAttachmentQueries.ts\<close>, and the handlers of \<open>pages/Attachments.tsx\<close>, among them the deletion of all unused attachments.
\<close>

section \<open>Queries\<close>

record ListAttachmentsRequest =
  la_pageSize :: int
  la_pageToken :: string
  la_filter :: string
  la_orderBy :: string

record ListAttachmentsResponse =
  lar_attachments :: "Attachment list"
  lar_nextPageToken :: string
  lar_totalSize :: int

definition attachmentKeys_all :: query_key where "attachmentKeys_all = [KStr ''attachments'']"
definition attachmentKeys_lists :: query_key where "attachmentKeys_lists = attachmentKeys_all @ [KStr ''list'']"
definition attachmentKeys_list :: "json option \<Rightarrow> query_key" where "attachmentKeys_list filters = attachmentKeys_lists @ [KOther filters]"
definition attachmentKeys_details :: query_key where "attachmentKeys_details = attachmentKeys_all @ [KStr ''detail'']"
definition attachmentKeys_detail :: "string \<Rightarrow> query_key" where "attachmentKeys_detail name = attachmentKeys_details @ [KStr name]"

lemmas attachment_key_defs = attachmentKeys_all_def attachmentKeys_lists_def attachmentKeys_list_def attachmentKeys_details_def attachmentKeys_detail_def

text \<open>\<open>useInfiniteAttachments\<close>: the request of a page and the parameter of the next one.\<close>

definition attachments_page_request :: "ListAttachmentsRequest \<Rightarrow> string \<Rightarrow> ListAttachmentsRequest" where
  "attachments_page_request request pageParam = request\<lparr>la_pageToken := pageParam\<rparr>"

definition attachments_next_page :: "ListAttachmentsResponse \<Rightarrow> string option" where
  "attachments_next_page lastPage = (if lar_nextPageToken lastPage = [] then None else Some (lar_nextPageToken lastPage))"

text \<open>The three mutations, with the server's answer as an argument.\<close>

definition createAttachment_mutation :: "'c query_client \<Rightarrow> js_error + Attachment \<Rightarrow> 'c \<Rightarrow> (js_error + Attachment) \<times> 'c" where
  "createAttachment_mutation qc answer c = (case answer of Inl e \<Rightarrow> (Inl e, c) | Inr a \<Rightarrow> (Inr a, invalidateQueries qc attachmentKeys_lists c))"

definition deleteAttachment_mutation :: "'c query_client \<Rightarrow> js_error + unit \<Rightarrow> string \<Rightarrow> 'c \<Rightarrow> (js_error + string) \<times> 'c" where
  "deleteAttachment_mutation qc answer name c = (case answer of
     Inl e \<Rightarrow> (Inl e, c)
   | Inr _ \<Rightarrow> (Inr name, invalidateQueries qc attachmentKeys_lists (removeQueries qc (attachmentKeys_detail name) c)))"

definition batchDelete_mutation :: "'c query_client \<Rightarrow> js_error + unit \<Rightarrow> string list \<Rightarrow> 'c \<Rightarrow> (js_error + string list) \<times> 'c" where
  "batchDelete_mutation qc answer names c = (case answer of
     Inl e \<Rightarrow> (Inl e, c)
   | Inr _ \<Rightarrow> (Inr names, invalidateQueries qc attachmentKeys_lists (fold (\<lambda>n. removeQueries qc (attachmentKeys_detail n)) names c)))"

section \<open>useAttachmentLibrary\<close>

text \<open>The formats of dates, months, types and sizes, the comparison of texts by the locale, and the origin of the page.\<close>

record library_env =
  le_wkt :: wkt
  le_origin :: string
  le_date :: "date \<Rightarrow> string"
  le_noDate :: string
  le_month :: "date \<Rightarrow> string"
  le_monthLabel :: "string \<Rightarrow> string"
  le_localeCompare :: "string \<Rightarrow> string \<Rightarrow> int"
  le_fileType :: "string \<Rightarrow> string"
  le_fileSize :: "int \<Rightarrow> string"

datatype AttachmentLibraryTab = MediaTab | DocumentsTab | AudioTab

record AttachmentLibraryStats =
  st_unused :: nat
  st_media :: nat
  st_documents :: nat
  st_audio :: nat

record AttachmentLibraryListItem =
  li_attachment :: Attachment
  li_createdAt :: "date option"
  li_createdLabel :: string
  li_fileTypeLabel :: string
  li_fileSizeLabel :: "string option"
  li_memoName :: "string option"
  li_sourceUrl :: string

record AttachmentLibraryMediaItem =
  ml_item :: AttachmentVisualItem
  ml_primaryAttachment :: Attachment
  ml_createdAt :: "date option"
  ml_createdLabel :: string
  ml_fileTypeLabel :: string

record AttachmentLibraryMonthGroup =
  mg_key :: string
  mg_label :: string
  mg_items :: "AttachmentLibraryMediaItem list"

definition PAGE_SIZE :: int where "PAGE_SIZE = 50"

definition time_or_zero :: "date option \<Rightarrow> int" where
  "time_or_zero d = (case d of Some t \<Rightarrow> t | None \<Rightarrow> 0)"

definition sortByNewest :: "date option \<Rightarrow> date option \<Rightarrow> int" where
  "sortByNewest a b = time_or_zero b - time_or_zero a"

definition isLinkedAttachment :: "Attachment \<Rightarrow> bool" where
  "isLinkedAttachment a \<longleftrightarrow> (case att_memo a of Some m \<Rightarrow> m \<noteq> [] | None \<Rightarrow> False)"

definition isVisualAttachment :: "Attachment \<Rightarrow> bool" where
  "isVisualAttachment a \<longleftrightarrow> isImageAttachment a \<or> isVideoAttachment a \<or> isMotionAttachment a"

definition toCreatedAt :: "library_env \<Rightarrow> Attachment \<Rightarrow> date option" where
  "toCreatedAt env a = map_option (timestampDate (le_wkt env)) (att_createTime a)"

definition formatCreatedAt :: "library_env \<Rightarrow> date option \<Rightarrow> string" where
  "formatCreatedAt env d = (case d of None \<Rightarrow> le_noDate env | Some t \<Rightarrow> le_date env t)"

definition toLibraryListItem :: "library_env \<Rightarrow> Attachment \<Rightarrow> AttachmentLibraryListItem" where
  "toLibraryListItem env a = \<lparr>li_attachment = a, li_createdAt = toCreatedAt env a, li_createdLabel = formatCreatedAt env (toCreatedAt env a),
     li_fileTypeLabel = le_fileType env (att_type a), li_fileSizeLabel = (if att_size a = 0 then None else Some (le_fileSize env (att_size a))),
     li_memoName = att_memo a,
     li_sourceUrl = (if att_externalLink a \<noteq> [] then att_externalLink a else le_origin env @ ''/file/'' @ att_name a @ ''/'' @ att_filename a)\<rparr>"

definition toLibraryMediaItem :: "library_env \<Rightarrow> AttachmentVisualItem \<Rightarrow> AttachmentLibraryMediaItem" where
  "toLibraryMediaItem env it =
     (let primary = hd (v_attachments it); created = toCreatedAt env primary
      in \<lparr>ml_item = it, ml_primaryAttachment = primary, ml_createdAt = created, ml_createdLabel = formatCreatedAt env created,
          ml_fileTypeLabel = (if v_kind it = KMotion then ''attachment-library.labels.live-photo'' else le_fileType env (att_type primary))\<rparr>)"

text \<open>The months of the media items; items without a date come under \<open>unknown\<close>, which is last.\<close>

definition month_key :: "library_env \<Rightarrow> AttachmentLibraryMediaItem \<Rightarrow> string" where
  "month_key env it = (case ml_createdAt it of Some d \<Rightarrow> le_month env d | None \<Rightarrow> ''unknown'')"

definition compare_months :: "library_env \<Rightarrow> string \<Rightarrow> string \<Rightarrow> int" where
  "compare_months env a b = (if a = ''unknown'' then 1 else if b = ''unknown'' then - 1 else le_localeCompare env b a)"

definition groupMediaByMonth :: "library_env \<Rightarrow> AttachmentLibraryMediaItem list \<Rightarrow> AttachmentLibraryMonthGroup list" where
  "groupMediaByMonth env its =
     map (\<lambda>(k, grouped). \<lparr>mg_key = k, mg_label = (if k = ''unknown'' then ''attachment-library.labels.unknown-date'' else le_monthLabel env k),
          mg_items = js_sort (\<lambda>a b. sortByNewest (ml_createdAt a) (ml_createdAt b)) grouped\<rparr>)
       (js_sort (\<lambda>a b. compare_months env (fst a) (fst b)) (group_by (\<lambda>it. Some (month_key env it)) its))"

record attachment_library =
  lb_attachments :: "Attachment list"
  lb_mediaGroups :: "AttachmentLibraryMonthGroup list"
  lb_mediaItems :: "AttachmentLibraryMediaItem list"
  lb_mediaPreviewItems :: "PreviewMediaItem list"
  lb_documentItems :: "AttachmentLibraryListItem list"
  lb_audioItems :: "AttachmentLibraryListItem list"
  lb_unusedItems :: "AttachmentLibraryListItem list"
  lb_stats :: AttachmentLibraryStats

definition by_newest :: "library_env \<Rightarrow> Attachment list \<Rightarrow> Attachment list" where
  "by_newest env = js_sort (\<lambda>a b. sortByNewest (toCreatedAt env a) (toCreatedAt env b))"

definition library_media :: "library_env \<Rightarrow> Attachment list \<Rightarrow> AttachmentLibraryMediaItem list" where
  "library_media env linked = js_sort (\<lambda>a b. sortByNewest (ml_createdAt a) (ml_createdAt b))
     (map (toLibraryMediaItem env) (buildAttachmentVisualItems (le_origin env) (filter isVisualAttachment linked)))"

definition useAttachmentLibrary :: "library_env \<Rightarrow> ListAttachmentsResponse list \<Rightarrow> attachment_library" where
  "useAttachmentLibrary env pages =
     (let as = concat (map lar_attachments pages);
          linked = by_newest env (filter isLinkedAttachment as);
          unused = by_newest env (filter (\<lambda>a. \<not> isLinkedAttachment a) as);
          media = library_media env linked;
          docs = map (toLibraryListItem env) (filter (\<lambda>a. \<not> isVisualAttachment a \<and> \<not> isAudioAttachment a) linked);
          audio = map (toLibraryListItem env) (filter isAudioAttachment linked)
      in \<lparr>lb_attachments = as, lb_mediaGroups = groupMediaByMonth env media, lb_mediaItems = media,
          lb_mediaPreviewItems = map (\<lambda>m. v_previewItem (ml_item m)) media, lb_documentItems = docs, lb_audioItems = audio,
          lb_unusedItems = map (toLibraryListItem env) unused,
          lb_stats = \<lparr>st_unused = length unused, st_media = length media, st_documents = length docs, st_audio = length audio\<rparr>\<rparr>)"

section \<open>pages/Attachments.tsx\<close>

definition UNUSED_PAGE_SIZE :: int where "UNUSED_PAGE_SIZE = 1000"
definition BATCH_DELETE_SIZE :: nat where "BATCH_DELETE_SIZE = 100"

definition TAB_COUNT_SELECTOR :: "AttachmentLibraryTab \<Rightarrow> AttachmentLibraryStats \<Rightarrow> nat" where
  "TAB_COUNT_SELECTOR tab s = (case tab of MediaTab \<Rightarrow> st_media s | DocumentsTab \<Rightarrow> st_documents s | AudioTab \<Rightarrow> st_audio s)"

fun preview_id :: "PreviewMediaItem \<Rightarrow> string" where
  "preview_id (ImagePreview i _ _ _) = i"
| "preview_id (VideoPreview i _ _ _) = i"
| "preview_id (MotionPreview i _ _ _ _) = i"

text \<open>\<open>handlePreview\<close>: the index at which the preview opens.\<close>

definition handlePreview :: "attachment_library \<Rightarrow> string \<Rightarrow> nat" where
  "handlePreview lib itemId =
     (if list_ex (\<lambda>p. preview_id p = itemId) (lb_mediaPreviewItems lib)
      then length (takeWhile (\<lambda>p. preview_id p \<noteq> itemId) (lb_mediaPreviewItems lib)) else 0)"

text \<open>What the page shows, and the effect that hides the section of unused attachments when there are none.\<close>

datatype library_content = SkeletonGrid | LibraryError | LibraryEmpty AttachmentLibraryTab | MediaGrid "AttachmentLibraryMonthGroup list"
  | DocumentRows "AttachmentLibraryListItem list" | AudioRows "AttachmentLibraryListItem list"

definition renderContent :: "bool \<Rightarrow> bool \<Rightarrow> AttachmentLibraryTab \<Rightarrow> attachment_library \<Rightarrow> library_content" where
  "renderContent pending broken tab lib =
     (if pending then SkeletonGrid
      else if broken then LibraryError
      else if TAB_COUNT_SELECTOR tab (lb_stats lib) = 0 then LibraryEmpty tab
      else case tab of MediaTab \<Rightarrow> MediaGrid (lb_mediaGroups lib) | DocumentsTab \<Rightarrow> DocumentRows (lb_documentItems lib)
             | AudioTab \<Rightarrow> AudioRows (lb_audioItems lib))"

definition unused_section_effect :: "attachment_library \<Rightarrow> bool \<Rightarrow> bool" where
  "unused_section_effect lib showUnusedSection = (if st_unused (lb_stats lib) = 0 then False else showUnusedSection)"

lemma chunk_smaller: "i < length names \<Longrightarrow> 0 < n \<Longrightarrow> length names - (i + n) < length names - i"
  by simp

text \<open>\<open>chunkNames\<close> from an index on. The step is never zero, since the code passes a constant.\<close>

function chunk_from :: "string list \<Rightarrow> nat \<Rightarrow> nat \<Rightarrow> string list list" where
  "chunk_from names n i = (if i < length names \<and> 0 < n then slice i (i + n) names # chunk_from names n (i + n) else [])"
  by pat_completeness auto

termination by (relation "measure (\<lambda>(names, n, i). length names - i)") (auto intro: chunk_smaller)

declare chunk_from.simps [simp del]

definition chunkNames :: "string list \<Rightarrow> nat \<Rightarrow> string list list" where
  "chunkNames names n = chunk_from names n 0"

text \<open>\<open>listUnusedAttachmentNames\<close>: the loop has no bound of its own.\<close>

definition unused_request :: "string \<Rightarrow> ListAttachmentsRequest" where
  "unused_request pageToken = \<lparr>la_pageSize = UNUSED_PAGE_SIZE, la_pageToken = pageToken, la_filter = ''memo_id == null'', la_orderBy = []\<rparr>"

partial_function (option) list_unused ::
  "(nat \<Rightarrow> ListAttachmentsRequest \<Rightarrow> js_error + ListAttachmentsResponse) \<Rightarrow> nat \<Rightarrow> string list \<Rightarrow> string \<Rightarrow> (js_error + string list) option" where
  [code]: "list_unused client k names pageToken =
     (case client k (unused_request pageToken) of
        Inl e \<Rightarrow> Some (Inl e)
      | Inr response \<Rightarrow>
          let names' = names @ map att_name (lar_attachments response)
          in if lar_nextPageToken response = [] then Some (Inr names') else list_unused client (Suc k) names' (lar_nextPageToken response))"

definition listUnusedAttachmentNames :: "(nat \<Rightarrow> ListAttachmentsRequest \<Rightarrow> js_error + ListAttachmentsResponse) \<Rightarrow> (js_error + string list) option" where
  "listUnusedAttachmentNames client = list_unused client 0 [] []"

text \<open>The batches one after the other: those that were sent, the failure that ends them, and the cache.\<close>

fun delete_batches :: "'c query_client \<Rightarrow> (nat \<Rightarrow> string list \<Rightarrow> js_error + unit) \<Rightarrow> nat \<Rightarrow> string list list \<Rightarrow> 'c
    \<Rightarrow> string list list \<times> js_error option \<times> 'c" where
  "delete_batches qc server k [] c = ([], None, c)"
| "delete_batches qc server k (b # bs) c = (case batchDelete_mutation qc (server k b) b c of
     (Inl e, c') \<Rightarrow> ([b], Some e, c')
   | (Inr _, c') \<Rightarrow> (case delete_batches qc server (Suc k) bs c' of (sent, e, c'') \<Rightarrow> (b # sent, e, c'')))"

record 'c deletion =
  dl_sent :: "string list list"
  dl_toasts :: "toast list"
  dl_refetched :: bool
  dl_cache :: 'c

text \<open>\<open>handleDeleteUnusedAttachments\<close>; a refetch cannot fail, since \<open>refetch\<close> reports errors in the query.\<close>

definition handleDeleteUnusedAttachments :: "'c query_client \<Rightarrow> (nat \<Rightarrow> ListAttachmentsRequest \<Rightarrow> js_error + ListAttachmentsResponse)
    \<Rightarrow> (nat \<Rightarrow> string list \<Rightarrow> js_error + unit) \<Rightarrow> 'c \<Rightarrow> 'c deletion option" where
  "handleDeleteUnusedAttachments qc client server c =
     (let failed = (\<lambda>e. handleError (\<lambda>_. []) (Some ''resource.delete-all-unused-error'') e)
      in case listUnusedAttachmentNames client of
        None \<Rightarrow> None
      | Some (Inl e) \<Rightarrow> Some \<lparr>dl_sent = [], dl_toasts = [failed e], dl_refetched = False, dl_cache = c\<rparr>
      | Some (Inr names) \<Rightarrow>
          if names = [] then Some \<lparr>dl_sent = [], dl_toasts = [], dl_refetched = True, dl_cache = c\<rparr>
          else (case delete_batches qc server 0 (chunkNames names BATCH_DELETE_SIZE) c of
                  (sent, None, c') \<Rightarrow> Some \<lparr>dl_sent = sent, dl_toasts = [ToastSuccess ''resource.delete-all-unused-success''], dl_refetched = True, dl_cache = c'\<rparr>
                | (sent, Some e, c') \<Rightarrow> Some \<lparr>dl_sent = sent, dl_toasts = [failed e], dl_refetched = False, dl_cache = c'\<rparr>))"

section \<open>Deleting what is unused\<close>

lemma concat_chunks: "0 < n \<Longrightarrow> concat (chunk_from names n i) = drop i names"
proof (induction names n i rule: chunk_from.induct)
  case (1 names n i)
  have "take n (drop i names) @ drop (i + n) names = drop i names"
    by (metis append_take_drop_id drop_drop add.commute)
  then show ?case using 1 by (subst chunk_from.simps) (auto simp: slice_def)
qed

lemma chunk_length: "b \<in> set (chunk_from names n i) \<Longrightarrow> b \<noteq> [] \<and> length b \<le> n"
proof (induction names n i rule: chunk_from.induct)
  case (1 names n i)
  then show ?case by (subst (asm) chunk_from.simps) (auto simp: slice_def split: if_splits)
qed

text \<open>The pages of the listing: each request carries the token of the page before, and the last page has none.\<close>

fun unused_pages :: "(nat \<Rightarrow> ListAttachmentsRequest \<Rightarrow> js_error + ListAttachmentsResponse) \<Rightarrow> nat \<Rightarrow> string \<Rightarrow> ListAttachmentsResponse list \<Rightarrow> bool" where
  "unused_pages client k tok [] = False"
| "unused_pages client k tok (p # ps) = (client k (unused_request tok) = Inr p \<and>
     (if lar_nextPageToken p = [] then ps = [] else unused_pages client (Suc k) (lar_nextPageToken p) ps))"

lemma list_unused_pages:
  "unused_pages client k tok ps \<Longrightarrow> list_unused client k names tok = Some (Inr (names @ map att_name (concat (map lar_attachments ps))))"
proof (induction ps arbitrary: k tok names)
  case (Cons p ps)
  then show ?case by (cases ps) (auto simp: list_unused.simps[of client k] Let_def split: if_splits)
qed simp

text \<open>A server that gives the same token for ever keeps the loop going for ever.\<close>

theorem unused_listing_loops:
  assumes "\<And>k r. \<exists>p. client k r = Inr p \<and> lar_nextPageToken p \<noteq> []"
  shows "listUnusedAttachmentNames client = None"
proof -
  have "list_unused client k names tok \<noteq> Some y" for k names tok y
  proof
    assume "list_unused client k names tok = Some y"
    then have "client = client \<longrightarrow> False"
    proof (rule list_unused.raw_induct[of "\<lambda>cl k names tok y. cl = client \<longrightarrow> False", rotated])
      fix f cl k names tok and y :: "js_error + string list"
      assume 1: "\<And>cl k names tok y. f cl k names tok = Some y \<Longrightarrow> cl = client \<longrightarrow> False"
        and 2: "(case cl k (unused_request tok) of Inl e \<Rightarrow> Some (Inl e)
          | Inr response \<Rightarrow> let names' = names @ map att_name (lar_attachments response)
              in if lar_nextPageToken response = [] then Some (Inr names') else f cl (Suc k) names' (lar_nextPageToken response)) = Some y"
      show "cl = client \<longrightarrow> False"
      proof
        assume cl: "cl = client"
        obtain p where p: "client k (unused_request tok) = Inr p" "lar_nextPageToken p \<noteq> []" using assms by blast
        with 2 cl have "f client (Suc k) (names @ map att_name (lar_attachments p)) (lar_nextPageToken p) = Some y" by (simp add: Let_def)
        with 1 show False by blast
      qed
    qed
    then show False by simp
  qed
  then show ?thesis by (cases "list_unused client 0 [] []") (auto simp: listUnusedAttachmentNames_def)
qed

lemma fold_remove_get:
  assumes "client_laws qc"
  shows "getQueryData qc j (fold (\<lambda>n. removeQueries qc (attachmentKeys_detail n)) names c) =
    (if \<exists>n \<in> set names. prefix (attachmentKeys_detail n) j then None else getQueryData qc j c)"
proof (induction names arbitrary: c)
  case (Cons n names)
  have "getQueryData qc j (removeQueries qc (attachmentKeys_detail n) c) = (if prefix (attachmentKeys_detail n) j then None else getQueryData qc j c)"
    using assms by (simp add: client_laws_def)
  then show ?case using Cons by simp
qed simp

text \<open>The batches that were deleted: all that were sent, but for the last one where it failed.\<close>

lemma delete_batches_props:
  assumes "client_laws qc" "delete_batches qc server k bs c = (sent, e, c')"
  shows "prefix sent bs \<and> (e = None \<longrightarrow> sent = bs) \<and> (e \<noteq> None \<longrightarrow> sent \<noteq> []) \<and>
    (\<forall>j. getQueryData qc j c' = (if \<exists>n \<in> set (concat (if e = None then sent else butlast sent)). prefix (attachmentKeys_detail n) j
       then None else getQueryData qc j c))"
  using assms(2)
proof (induction bs arbitrary: k c sent e c')
  case (Cons b bs)
  show ?case
  proof (cases "server k b")
    case (Inl x)
    then show ?thesis using Cons.prems by (auto simp: batchDelete_mutation_def)
  next
    case (Inr u)
    let ?c = "invalidateQueries qc attachmentKeys_lists (fold (\<lambda>n. removeQueries qc (attachmentKeys_detail n)) b c)"
    obtain s e' d where r: "delete_batches qc server (Suc k) bs ?c = (s, e', d)" by (cases "delete_batches qc server (Suc k) bs ?c") auto
    then have eq: "sent = b # s" "e = e'" "c' = d" using Cons.prems Inr by (auto simp: batchDelete_mutation_def)
    note IH = Cons.IH[OF r]
    have "getQueryData qc j ?c = (if \<exists>n \<in> set b. prefix (attachmentKeys_detail n) j then None else getQueryData qc j c)" for j
      using fold_remove_get[OF assms(1)] assms(1) by (simp add: client_laws_def)
    then show ?thesis using IH unfolding eq by auto
  qed
qed simp


section \<open>Every attachment has its place\<close>

interpretation newest: js_comparator "\<lambda>a b. sortByNewest (f a) (f b)" for f
  by unfold_locales (auto simp: sortByNewest_def)

lemma mset_by_newest: "mset (by_newest env as) = mset as"
  by (simp add: by_newest_def newest.mset_js_sort)

text \<open>An insertion asks the comparator only for pairs of different places.\<close>

lemma js_insert_cong: "\<forall>y \<in> set ys. cmp x y = cmp' x y \<Longrightarrow> js_insert cmp x ys = js_insert cmp' x ys"
  by (induction ys) auto

lemma set_js_sort: "set (js_insert c a ys) = insert a (set ys)" "set (js_sort c xs) = set xs"
proof -
  show s: "set (js_insert c a ys) = insert a (set ys)" for a ys by (induction ys) auto
  show "set (js_sort c xs) = set xs" by (induction xs) (auto simp: js_sort_def s)
qed

lemma js_sort_cong:
  assumes "distinct (map key xs)" "\<And>x y. x \<in> set xs \<Longrightarrow> y \<in> set xs \<Longrightarrow> key x \<noteq> key y \<Longrightarrow> cmp x y = cmp' x y"
  shows "js_sort cmp xs = js_sort cmp' xs"
  using assms
proof (induction xs)
  case (Cons x xs)
  have "js_sort cmp xs = js_sort cmp' xs" using Cons by simp
  moreover have "\<forall>y \<in> set xs. cmp x y = cmp' x y" using Cons.prems by force
  ultimately show ?case using js_insert_cong[of "js_sort cmp' xs" cmp x cmp'] set_js_sort(2)[of cmp' xs] by (simp add: js_sort_def)
qed (simp add: js_sort_def)

text \<open>What is relied on of the locale's comparison and of the month of a date, for the dates in question: the comparison is an order
  on texts that puts an earlier month before a later one, and no month is called \<open>unknown\<close>.\<close>

definition months_ok :: "library_env \<Rightarrow> date set \<Rightarrow> bool" where
  "months_ok env D \<longleftrightarrow>
     (\<forall>a b. le_localeCompare env a b \<le> 0 \<or> le_localeCompare env b a \<le> 0) \<and>
     (\<forall>a b c. le_localeCompare env a b \<le> 0 \<longrightarrow> le_localeCompare env b c \<le> 0 \<longrightarrow> le_localeCompare env a c \<le> 0) \<and>
     (\<forall>d \<in> D. \<forall>e \<in> D. (d \<le> e \<longrightarrow> le_localeCompare env (le_month env d) (le_month env e) \<le> 0) \<and>
        (le_localeCompare env (le_month env d) (le_month env e) \<le> 0 \<and> le_localeCompare env (le_month env e) (le_month env d) \<le> 0 \<longrightarrow>
           le_month env d = le_month env e)) \<and>
     (\<forall>d \<in> D. le_month env d \<noteq> ''unknown'')"

text \<open>Newest first, and what has no date at the end.\<close>

definition not_newer :: "AttachmentLibraryMediaItem \<Rightarrow> AttachmentLibraryMediaItem \<Rightarrow> bool" where
  "not_newer a b \<longleftrightarrow> (case (ml_createdAt a, ml_createdAt b) of (Some d, Some e) \<Rightarrow> e \<le> d | (None, Some e) \<Rightarrow> False | _ \<Rightarrow> True)"

lemma distinct_group_by: "distinct (map fst (group_by f xs))"
proof (induction xs rule: rev_induct)
  case (snoc x xs)
  have "group_by f (xs @ [x]) = group_add f x (group_by f xs)" by (simp add: group_by_def)
  with snoc show ?case by (auto simp: group_add_def keys_map_set split: option.splits)
qed (simp add: group_by_def)

lemma group_by_member:
  assumes "(k, g) \<in> set (group_by f xs)"
  shows "g = filter (\<lambda>x. f x = Some k) xs"
proof -
  have "map_get (group_by f xs) k = Some g" using assms distinct_group_by[of f xs] by (simp add: map_get_def)
  then show ?thesis by (simp add: group_by_get split: if_splits)
qed

text \<open>The order of the groups, with \<open>unknown\<close> equal to itself.\<close>

definition month_order :: "library_env \<Rightarrow> string \<times> 'a \<Rightarrow> string \<times> 'a \<Rightarrow> int" where
  "month_order env a b = (if fst a = ''unknown'' \<and> fst b = ''unknown'' then 0 else compare_months env (fst a) (fst b))"

lemma month_comparator:
  assumes "months_ok env D"
  shows "js_comparator (month_order env)"
proof
  have t: "le_localeCompare env a b \<le> 0 \<or> le_localeCompare env b a \<le> 0"
    and tr: "le_localeCompare env a b \<le> 0 \<Longrightarrow> le_localeCompare env b c \<le> 0 \<Longrightarrow> le_localeCompare env a c \<le> 0" for a b c
    using assms unfolding months_ok_def by blast+
  show "month_order env a b \<le> 0 \<or> month_order env b a \<le> 0" for a b :: "string \<times> 'a"
    using t[of "fst a" "fst b"] by (auto simp: month_order_def compare_months_def)
  show "month_order env a c \<le> 0" if "month_order env a b \<le> 0" "month_order env b c \<le> 0" for a b c :: "string \<times> 'a"
    using that tr[of "fst c" "fst b" "fst a"] by (auto simp: month_order_def compare_months_def split: if_splits)
qed

text \<open>The months of the items, in their order.\<close>

definition months :: "library_env \<Rightarrow> AttachmentLibraryMediaItem list \<Rightarrow> (string \<times> AttachmentLibraryMediaItem list) list" where
  "months env its = js_sort (month_order env) (group_by (\<lambda>it. Some (month_key env it)) its)"

lemma mg_items_months: "map mg_items (groupMediaByMonth env its) =
  map (\<lambda>kg. js_sort (\<lambda>a b. sortByNewest (ml_createdAt a) (ml_createdAt b)) (snd kg)) (months env its)"
proof -
  have "js_sort (\<lambda>a b. compare_months env (fst a) (fst b)) (group_by (\<lambda>it. Some (month_key env it)) its) = months env its"
    unfolding months_def by (rule js_sort_cong[OF distinct_group_by]) (auto simp: month_order_def)
  then show ?thesis by (simp add: groupMediaByMonth_def comp_def case_prod_unfold)
qed

lemma months_props:
  assumes "months_ok env D"
  shows "mset (months env its) = mset (group_by (\<lambda>it. Some (month_key env it)) its)" "sorted_wrt (\<lambda>a b. month_order env a b \<le> 0) (months env its)"
    "distinct (map fst (months env its))" "\<And>k g. (k, g) \<in> set (months env its) \<Longrightarrow> g = filter (\<lambda>i. month_key env i = k) its"
proof -
  note c = month_comparator[OF assms]
  show m: "mset (months env its) = mset (group_by (\<lambda>it. Some (month_key env it)) its)"
    unfolding months_def by (rule js_comparator.mset_js_sort[OF c])
  show "sorted_wrt (\<lambda>a b. month_order env a b \<le> 0) (months env its)"
    unfolding months_def by (rule js_comparator.sorted_js_sort[OF c])
  show "distinct (map fst (months env its))"
    using distinct_group_by[of "\<lambda>it. Some (month_key env it)" its] mset_eq_imp_distinct_iff[of "map fst (months env its)"] m by (metis mset_map)
  show "g = filter (\<lambda>i. month_key env i = k) its" if "(k, g) \<in> set (months env its)" for k g
    using that mset_eq_setD[OF m] group_by_member[of k g "\<lambda>it. Some (month_key env it)" its] by simp
qed

lemma groups_complete:
  assumes "months_ok env D"
  shows "mset (concat (map mg_items (groupMediaByMonth env its))) = mset its"
proof -
  let ?s = "js_sort (\<lambda>a b. sortByNewest (ml_createdAt a) (ml_createdAt b))"
  have a: "mset (concat (map (\<lambda>kg. ?s (snd kg)) gs)) = (\<Sum>kg \<in># mset gs. mset (snd kg))" for gs :: "(string \<times> AttachmentLibraryMediaItem list) list"
    by (induction gs) (simp_all add: newest.mset_js_sort)
  have b: "(\<Sum>kg \<in># mset gs. mset (snd kg)) = mset (concat (map snd gs))" for gs :: "(string \<times> AttachmentLibraryMediaItem list) list"
    by (induction gs) simp_all
  show ?thesis unfolding mg_items_months a months_props(1)[OF assms] b by (simp add: mset_groups)
qed

lemma sorted_wrt_concat:
  "\<forall>g \<in> set gs. sorted_wrt P g \<Longrightarrow> sorted_wrt (\<lambda>g h. \<forall>x \<in> set g. \<forall>y \<in> set h. P x y) gs \<Longrightarrow> sorted_wrt P (concat gs)"
  by (induction gs) (auto simp: sorted_wrt_append)

text \<open>Two items of a month, and of two months.\<close>

lemma same_month_order:
  assumes "months_ok env D" "\<forall>i \<in> {a, b}. \<forall>d. ml_createdAt i = Some d \<longrightarrow> d \<in> D" "month_key env a = month_key env b"
    "sortByNewest (ml_createdAt a) (ml_createdAt b) \<le> 0"
  shows "not_newer a b"
  using assms unfolding months_ok_def
  by (cases "ml_createdAt a"; cases "ml_createdAt b") (auto simp: not_newer_def month_key_def sortByNewest_def time_or_zero_def)

lemma other_month_order:
  assumes "months_ok env D" "\<forall>i \<in> {a, b}. \<forall>d. ml_createdAt i = Some d \<longrightarrow> d \<in> D" "month_key env a \<noteq> month_key env b"
    "month_order env (month_key env a, x) (month_key env b, y) \<le> 0"
  shows "not_newer a b"
proof (cases "ml_createdAt b")
  case (Some e)
  then have e: "month_key env b \<noteq> ''unknown''" "e \<in> D" using assms(1,2) unfolding months_ok_def by (auto simp: month_key_def)
  then have a: "month_key env a \<noteq> ''unknown''" using assms(4) by (auto simp: month_order_def compare_months_def split: if_splits)
  then obtain d where d: "ml_createdAt a = Some d" "d \<in> D" using assms(2) by (cases "ml_createdAt a") (auto simp: month_key_def)
  have "le_localeCompare env (le_month env e) (le_month env d) \<le> 0"
    using assms(4) a e(1) Some d(1) by (simp add: month_order_def compare_months_def month_key_def)
  moreover have "le_month env d \<noteq> le_month env e" using assms(3) Some d(1) by (simp add: month_key_def)
  ultimately have "\<not> d \<le> e" using assms(1) d(2) e(2) unfolding months_ok_def by blast
  then show ?thesis using Some d(1) by (simp add: not_newer_def)
qed (auto simp: not_newer_def split: option.splits)

lemma groups_sorted:
  assumes "months_ok env D" "\<forall>i \<in> set its. \<forall>d. ml_createdAt i = Some d \<longrightarrow> d \<in> D"
  shows "sorted_wrt not_newer (concat (map mg_items (groupMediaByMonth env its)))"
proof -
  let ?s = "js_sort (\<lambda>a b. sortByNewest (ml_createdAt a) (ml_createdAt b))" and ?ms = "months env its"
  have set_s: "set (?s g) = set g" for g using newest.mset_js_sort[of ml_createdAt g] mset_eq_setD by blast
  have mem: "i \<in> set its \<and> month_key env i = fst kg" if "kg \<in> set ?ms" "i \<in> set (snd kg)" for kg i
    using that months_props(4)[OF assms(1), of "fst kg" "snd kg" its] by auto
  have "sorted_wrt not_newer (?s (snd kg))" if kg: "kg \<in> set ?ms" for kg
  proof (rule sorted_wrt_mono_rel[OF _ newest.sorted_js_sort])
    fix a b
    assume "a \<in> set (?s (snd kg))" "b \<in> set (?s (snd kg))" "sortByNewest (ml_createdAt a) (ml_createdAt b) \<le> 0"
    then show "not_newer a b" using mem[OF kg] assms set_s by (intro same_month_order[OF assms(1)]) auto
  qed
  moreover have "sorted_wrt (\<lambda>kg kh. \<forall>x \<in> set (snd kg). \<forall>y \<in> set (snd kh). not_newer x y) ?ms"
    unfolding sorted_wrt_iff_nth_less
  proof (intro allI impI ballI)
    fix i j x y
    assume ij: "i < j" "j < length ?ms" and xy: "x \<in> set (snd (?ms ! i))" "y \<in> set (snd (?ms ! j))"
    then have x: "x \<in> set its" "month_key env x = fst (?ms ! i)" and y: "y \<in> set its" "month_key env y = fst (?ms ! j)"
      using mem[of "?ms ! i" x] mem[of "?ms ! j" y] by auto
    have "map fst ?ms ! i \<noteq> map fst ?ms ! j"
      using months_props(3)[OF assms(1), of its] ij nth_eq_iff_index_eq[of "map fst ?ms" i j] by simp
    then have "month_key env x \<noteq> month_key env y" using x y ij by simp
    moreover have "month_order env (?ms ! i) (?ms ! j) \<le> 0"
      using months_props(2)[OF assms(1), of its] ij by (simp add: sorted_wrt_iff_nth_less)
    ultimately show "not_newer x y"
      using other_month_order[OF assms(1), of x y "snd (?ms ! i)" "snd (?ms ! j)"] x y assms(2) by simp
  qed
  ultimately show ?thesis unfolding mg_items_months by (intro sorted_wrt_concat) (auto simp: sorted_wrt_map set_s)
qed

text \<open>The items of a preview have the identifiers of their items.\<close>

lemma visual_items_all:
  assumes "\<And>a. a \<in> set as \<Longrightarrow> P (buildSingleAttachmentItem origin a)" "\<And>a. a \<in> set as \<Longrightarrow> P (buildAndroidMotionItem origin a)"
    "\<And>s v. s \<in> set as \<Longrightarrow> v \<in> set as \<Longrightarrow> P (buildAppleMotionItem origin s v)"
  shows "list_all P (buildAttachmentVisualItems origin as)"
proof -
  let ?g = "group_by getAttachmentMotionGroupId as"
  have step: "list_all P (snd (visual_step origin ?g a (c, its)))" if st: "list_all P its" and a: "a \<in> set as" for a c its
  proof (cases "isAndroidMotionContainer a \<or> getAttachmentMotionGroupId a = None \<or> (\<exists>g \<in> set c. getAttachmentMotionGroupId a = Some g)")
    case True
    then show ?thesis using st a assms(1,2) by (auto simp: visual_step_def)
  next
    case False
    then obtain g where g: "\<not> isAndroidMotionContainer a" "getAttachmentMotionGroupId a = Some g" "g \<notin> set c" by auto
    from g a show ?thesis
    proof (cases rule: visual_step_group[of _ _ _ _ origin its])
      case (pair s v)
      then show ?thesis using st live_photo_members(5,6)[OF pair(1)] assms(3) by simp
    next
      case each
      have "m \<in> set as" if "m \<in> set (members as g)" for m using that by (simp add: members_def)
      then show ?thesis using st a assms(1) by (auto simp: each(2) list_all_iff)
    qed
  qed
  have "list_all P (snd (visual_step origin ?g a st))" if "list_all P (snd st)" "a \<in> set as" for a st
    using step that by (cases st) simp
  then have "list_all P (snd (fold (visual_step origin ?g) xs st))" if "list_all P (snd st)" "set xs \<subseteq> set as" for xs st
    using that by (induction xs arbitrary: st) simp_all
  from this[of "([], [])" as] show ?thesis using uniq_by_props(2)[of v_id "[]"]
    by (auto simp: buildAttachmentVisualItems_def dedupeVisualItems_def Let_def list_all_iff)
qed

lemma preview_ids: "list_all (\<lambda>it. preview_id (v_previewItem it) = v_id it) (buildAttachmentVisualItems origin as)"
  by (rule visual_items_all) (auto simp: buildSingleAttachmentItem_def buildAndroidMotionItem_def buildAppleMotionItem_def Let_def)

lemma primary_in: "list_all (\<lambda>it. hd (v_attachments it) \<in> set as) (buildAttachmentVisualItems origin as)"
  by (rule visual_items_all) (auto simp: buildSingleAttachmentItem_def buildAndroidMotionItem_def buildAppleMotionItem_def Let_def)

lemma media_created:
  assumes "m \<in> set (library_media env linked)"
  shows "\<exists>a \<in> set linked. ml_createdAt m = toCreatedAt env a"
proof -
  from assms obtain i where "i \<in> set (buildAttachmentVisualItems (le_origin env) (filter isVisualAttachment linked))" "m = toLibraryMediaItem env i"
    by (auto simp: library_media_def set_js_sort)
  then show ?thesis using primary_in[of "filter isVisualAttachment linked" "le_origin env"]
    by (auto simp: toLibraryMediaItem_def Let_def list_all_iff)
qed

lemma visual_ids_distinct: "distinct (map v_id (buildAttachmentVisualItems origin as))"
  using uniq_by_props(1)[of v_id "[]"] by (simp add: buildAttachmentVisualItems_def dedupeVisualItems_def Let_def)

text \<open>The media items of a list of attachments: what they stand for, and when it was created.\<close>

lemma media_items:
  assumes "names_ok as" "set linked \<subseteq> set as" "distinct (map att_name linked)"
  shows "mset (map ml_item (library_media env linked)) = mset (buildAttachmentVisualItems (le_origin env) (filter isVisualAttachment linked))"
    "mset (concat (map (\<lambda>m. v_attachmentNames (ml_item m)) (library_media env linked))) = mset (map att_name (filter isVisualAttachment linked))"
    "distinct (map (\<lambda>m. v_id (ml_item m)) (library_media env linked))"
    "\<And>m. m \<in> set (library_media env linked) \<Longrightarrow> preview_id (v_previewItem (ml_item m)) = v_id (ml_item m)"
proof -
  define its where "its = buildAttachmentVisualItems (le_origin env) (filter isVisualAttachment linked)"
  have "ml_item (toLibraryMediaItem env i) = i" for i by (simp add: toLibraryMediaItem_def Let_def)
  then have item: "map ml_item (map (toLibraryMediaItem env) its) = its" by (simp add: comp_def)
  have "mset (library_media env linked) = mset (map (toLibraryMediaItem env) its)" by (simp add: library_media_def newest.mset_js_sort its_def)
  then have "image_mset ml_item (mset (library_media env linked)) = image_mset ml_item (mset (map (toLibraryMediaItem env) its))" by simp
  then have m: "mset (map ml_item (library_media env linked)) = mset its" unfolding mset_map[symmetric] item .
  then show "mset (map ml_item (library_media env linked)) = mset (buildAttachmentVisualItems (le_origin env) (filter isVisualAttachment linked))"
    by (simp add: its_def)
  have "names_ok (filter isVisualAttachment linked)" using assms distinct_map_filter[OF assms(3)] by (auto simp: names_ok_def)
  note v = visual_items_exact[OF this, of "le_origin env", folded its_def]
  have c: "mset (concat (map v_attachmentNames xs)) = (\<Sum>x \<in># mset xs. mset (v_attachmentNames x))" for xs by (induction xs) auto
  have "mset (concat (map v_attachmentNames (map ml_item (library_media env linked)))) = mset (concat (map v_attachmentNames its))" unfolding c m ..
  also have "\<dots> = mset (map att_name (filter isVisualAttachment linked))"
    using v distinct_map_filter[OF assms(3)] set_eq_iff_mset_eq_distinct[of "concat (map v_attachmentNames its)" "map att_name (filter isVisualAttachment linked)"]
    by simp
  finally show "mset (concat (map (\<lambda>m. v_attachmentNames (ml_item m)) (library_media env linked))) = mset (map att_name (filter isVisualAttachment linked))"
    by (simp add: comp_def)
  have "mset (map v_id (map ml_item (library_media env linked))) = mset (map v_id its)" using m by (metis mset_map)
  then show "distinct (map (\<lambda>m. v_id (ml_item m)) (library_media env linked))"
    using visual_ids_distinct[of "le_origin env" "filter isVisualAttachment linked", folded its_def] mset_eq_imp_distinct_iff by (fastforce simp: comp_def)
  show "preview_id (v_previewItem (ml_item m)) = v_id (ml_item m)" if "m \<in> set (library_media env linked)" for m
  proof -
    have "ml_item m \<in> set its" using that mset_eq_setD[OF m] by auto
    then show ?thesis using preview_ids[of "le_origin env" "filter isVisualAttachment linked", folded its_def] by (simp add: list_all_iff)
  qed
qed

lemma handlePreview_item:
  assumes "distinct (map preview_id (lb_mediaPreviewItems lib))" "p \<in> set (lb_mediaPreviewItems lib)"
  shows "lb_mediaPreviewItems lib ! handlePreview lib (preview_id p) = p"
proof -
  let ?ps = "lb_mediaPreviewItems lib" and ?n = "length (takeWhile (\<lambda>q. preview_id q \<noteq> preview_id p) (lb_mediaPreviewItems lib))"
  have ex: "list_ex (\<lambda>q. preview_id q = preview_id p) ?ps" using assms(2) by (auto simp: list_ex_iff)
  have lt: "?n < length ?ps"
  proof -
    have "takeWhile (\<lambda>q. preview_id q \<noteq> preview_id p) ?ps \<noteq> ?ps" using assms(2) by (metis (mono_tags, lifting) set_takeWhileD)
    then show ?thesis by (metis (no_types, lifting) append_Nil2 length_append less_add_same_cancel1 length_greater_0_conv takeWhile_dropWhile_id)
  qed
  then have "preview_id (?ps ! ?n) = preview_id p" using nth_length_takeWhile[OF lt] by blast
  then have "?ps ! ?n = p" using assms lt unfolding distinct_map by (meson inj_onD nth_mem)
  then show ?thesis using ex by (simp add: handlePreview_def)
qed

text \<open>The parts of a page of attachments.\<close>

lemma parts_names:
  assumes "\<forall>a \<in> set as. isMotionAttachment a \<longrightarrow> \<not> isAudioAttachment a"
  shows "mset (map att_name (filter isVisualAttachment as)) + mset (map att_name (filter (\<lambda>a. \<not> isVisualAttachment a \<and> \<not> isAudioAttachment a) as)) +
    mset (map att_name (filter isAudioAttachment as)) = mset (map att_name as)"
proof -
  have "\<not> (isVisualAttachment a \<and> isAudioAttachment a)" if "a \<in> set as" for a
    using that assms by (auto simp: isVisualAttachment_def isImageAttachment_def isVideoAttachment_def isAudioAttachment_def)
  then show ?thesis by (induction as) auto
qed


text \<open>A library of a photo, a sound, and a file that no memo has.\<close>

definition demo_number :: "string \<Rightarrow> int" where
  "demo_number s = foldl (\<lambda>n c. n * 256 + int (code c)) 0 s"

definition demo_env :: library_env where
  "demo_env = \<lparr>le_wkt = ms_wkt, le_origin = ''http://h'', le_date = to_iso, le_noDate = ''-'', le_month = (\<lambda>d. take 7 (to_iso d)), le_monthLabel = (\<lambda>k. k),
     le_localeCompare = (\<lambda>a b. demo_number a - demo_number b), le_fileType = (\<lambda>t. t), le_fileSize = (\<lambda>n. ''size'')\<rparr>"

definition demo_pages :: "ListAttachmentsResponse list" where
  "demo_pages = [\<lparr>lar_attachments =
       [default_attachment\<lparr>att_name := ''attachments/p'', att_type := ''image/png'', att_memo := Some ''memos/1'', att_createTime := Some \<lparr>seconds = 0, nanos = 0\<rparr>\<rparr>,
        default_attachment\<lparr>att_name := ''attachments/s'', att_type := ''audio/mp3'', att_memo := Some ''memos/1''\<rparr>], lar_nextPageToken = ''2'', lar_totalSize = 4\<rparr>,
     \<lparr>lar_attachments =
       [default_attachment\<lparr>att_name := ''attachments/q'', att_type := ''image/png'', att_memo := Some ''memos/1'',
          att_createTime := Some \<lparr>seconds = 5184000, nanos = 0\<rparr>\<rparr>,
        default_attachment\<lparr>att_name := ''attachments/u'', att_type := ''text/plain''\<rparr>], lar_nextPageToken = [], lar_totalSize = 4\<rparr>]"

lemma demo_months: "months_ok demo_env {0, 5184000000}"
proof -
  have "take 7 (to_iso 0) = ''1970-01''" "take 7 (to_iso 5184000000) = ''1970-03''" by code_simp+
  moreover have "demo_number ''1970-01'' < demo_number ''1970-03''" by code_simp
  moreover have "x \<le> y \<or> y \<le> x" for x y :: int by linarith
  ultimately show ?thesis unfolding months_ok_def demo_env_def by simp
qed



end
