(* ===== verification/Account.thy ===== *)
theory Account
  imports AuthFlow MemoActions Export
begin

text \<open>
  The account section and the member section of the settings: \<open>components/UpdateAccountDialog.tsx\<close>, \<open>components/ChangeMemberPasswordDialog.tsx\<close>,
  \<open>components/CreateUserDialog.tsx\<close>, \<open>components/Settings/MemberSection.tsx\<close>, \<open>components/Settings/MyAccountSection.tsx\<close>, access tokens
  (\<open>components/Settings/AccessTokenSection.tsx\<close>, \<open>components/CreateAccessTokenDialog.tsx\<close>) and webhooks (\<open>components/Settings/WebhookSection.tsx\<close>,
  \<open>components/CreateWebhookDialog.tsx\<close>), with the confirmation dialog they share (\<open>components/ConfirmDialog/index.tsx\<close>).
\<close>

section \<open>Updating a user\<close>

text \<open>The mutations of \<open>hooks/useUserQueries.ts\<close>, with the server's answer.\<close>

definition updateUser_mutation :: "'c query_client \<Rightarrow> js_error + User \<Rightarrow> 'c \<Rightarrow> (js_error + User) \<times> 'c" where
  "updateUser_mutation qc answer c = (case answer of
     Inl e \<Rightarrow> (Inl e, c)
   | Inr u \<Rightarrow> (Inr u, invalidateQueries qc userKeys_currentUser (setQueryData qc (userKeys_detail (user_name u)) (UserData u) c)))"

definition deleteUser_mutation :: "'c query_client \<Rightarrow> js_error + unit \<Rightarrow> string \<Rightarrow> 'c \<Rightarrow> (js_error + string) \<times> 'c" where
  "deleteUser_mutation qc answer name c = (case answer of
     Inl e \<Rightarrow> (Inl e, c)
   | Inr _ \<Rightarrow> (Inr name, invalidateQueries qc userKeys_all (removeQueries qc (userKeys_detail name) c)))"

text \<open>The fields of a user that a request may carry; \<open>None\<close> is a field left out.\<close>

record user_patch =
  up_name :: "string option"
  up_username :: "string option"
  up_displayName :: "string option"
  up_email :: "string option"
  up_avatarUrl :: "string option"
  up_description :: "string option"
  up_password :: "string option"
  up_role :: "User_Role option"
  up_state :: "MemoState option"

definition no_user_patch :: user_patch where
  "no_user_patch = \<lparr>up_name = None, up_username = None, up_displayName = None, up_email = None, up_avatarUrl = None, up_description = None, up_password = None,
     up_role = None, up_state = None\<rparr>"

section \<open>The form of the own account\<close>

record account_form =
  af_avatarUrl :: string
  af_username :: string
  af_displayName :: string
  af_email :: string
  af_description :: string

definition account_form_of :: "User option \<Rightarrow> account_form" where
  "account_form_of user = (case user of
     None \<Rightarrow> \<lparr>af_avatarUrl = [], af_username = [], af_displayName = [], af_email = [], af_description = []\<rparr>
   | Some u \<Rightarrow> \<lparr>af_avatarUrl = user_avatarUrl u, af_username = user_username u, af_displayName = user_displayName u, af_email = user_email u,
        af_description = user_description u\<rparr>)"

text \<open>The fields as they are typed, the button that removes the avatar (an empty address), and a chosen picture: its size and what
  \<open>convertFileToBase64\<close> makes of it. Fields that the instance locks are disabled.\<close>

datatype account_change = EnterUsername string | EnterDisplayName string | EnterEmail string | EnterDescription string | RemoveAvatar
  | ChooseAvatar int "js_error + string"

definition account_enter :: "bool \<Rightarrow> bool \<Rightarrow> account_change \<Rightarrow> account_form \<Rightarrow> account_form \<times> toast list" where
  "account_enter disallowChangeUsername disallowChangeNickname ch f = (case ch of
     EnterUsername v \<Rightarrow> (if disallowChangeUsername then f else f\<lparr>af_username := v\<rparr>, [])
   | EnterDisplayName v \<Rightarrow> (if disallowChangeNickname then f else f\<lparr>af_displayName := v\<rparr>, [])
   | EnterEmail v \<Rightarrow> (f\<lparr>af_email := v\<rparr>, [])
   | EnterDescription v \<Rightarrow> (f\<lparr>af_description := v\<rparr>, [])
   | RemoveAvatar \<Rightarrow> (f\<lparr>af_avatarUrl := []\<rparr>, [])
   | ChooseAvatar sz r \<Rightarrow>
       if 2 * 1024 * 1024 < sz then (f, [ToastError ''ui.max-file-size-2mb''])
       else (case r of Inl e \<Rightarrow> (f, [ToastError ''ui.image-base64-failed'']) | Inr b \<Rightarrow> (f\<lparr>af_avatarUrl := b\<rparr>, [])))"

definition account_mask :: "User option \<Rightarrow> account_form \<Rightarrow> string list" where
  "account_mask user f =
     (if map_option user_username user \<noteq> Some (af_username f) then [''username''] else []) @
     (if map_option user_displayName user \<noteq> Some (af_displayName f) then [''display_name''] else []) @
     (if map_option user_email user \<noteq> Some (af_email f) then [''email''] else []) @
     (if map_option user_avatarUrl user \<noteq> Some (af_avatarUrl f) then [''avatar_url''] else []) @
     (if map_option user_description user \<noteq> Some (af_description f) then [''description''] else [])"

definition account_patch :: "User option \<Rightarrow> account_form \<Rightarrow> user_patch" where
  "account_patch user f = no_user_patch\<lparr>up_name := map_option user_name user, up_username := Some (af_username f), up_displayName := Some (af_displayName f),
     up_email := Some (af_email f), up_avatarUrl := Some (af_avatarUrl f), up_description := Some (af_description f)\<rparr>"

record 'c account_outcome =
  ao_app :: "'c app"
  ao_request :: "(user_patch \<times> string list) option"
  ao_toast :: toast
  ao_closed :: bool

text \<open>\<open>handleSaveBtnClick\<close> of the account dialog.\<close>

definition save_account :: "'c query_client \<Rightarrow> (js_error \<Rightarrow> string) \<Rightarrow> (user_patch \<Rightarrow> string list \<Rightarrow> js_error + User) \<Rightarrow> account_form \<Rightarrow> 'c app
    \<Rightarrow> 'c account_outcome" where
  "save_account qc message server f a =
     (if af_username f = [] then \<lparr>ao_app = a, ao_request = None, ao_toast = ToastError ''message.fill-all'', ao_closed = False\<rparr>
      else let user = currentUser (ctx a); p = account_patch user f; updateMask = account_mask user f
           in case updateUser_mutation qc (server p updateMask) (cache a) of
                (Inl e, c) \<Rightarrow> \<lparr>ao_app = a\<lparr>cache := c\<rparr>, ao_request = Some (p, updateMask), ao_toast = handleError message None e, ao_closed = False\<rparr>
              | (Inr u, c) \<Rightarrow> \<lparr>ao_app = setCurrentUser qc (Some u) (a\<lparr>cache := c\<rparr>), ao_request = Some (p, updateMask),
                  ao_toast = ToastSuccess ''message.update-succeed'', ao_closed = True\<rparr>)"

section \<open>Changing a password\<close>

record password_form =
  pf_newPassword :: string
  pf_newPasswordAgain :: string

text \<open>The request, the form afterwards, what is shown (a plain toast counts as one of success), and whether the dialog closes.\<close>

definition change_password :: "(js_error \<Rightarrow> string) \<Rightarrow> (user_patch \<Rightarrow> string list \<Rightarrow> js_error + User) \<Rightarrow> User option \<Rightarrow> password_form
    \<Rightarrow> (user_patch \<times> string list) option \<times> password_form \<times> toast option \<times> bool" where
  "change_password message server user f = (case user of
     None \<Rightarrow> (None, f, None, False)
   | Some u \<Rightarrow>
       if pf_newPassword f = [] \<or> pf_newPasswordAgain f = [] then (None, f, Some (ToastError ''message.fill-all''), False)
       else if pf_newPassword f \<noteq> pf_newPasswordAgain f
         then (None, f\<lparr>pf_newPasswordAgain := []\<rparr>, Some (ToastError ''message.new-password-not-match''), False)
       else let p = no_user_patch\<lparr>up_name := Some (user_name u), up_password := Some (pf_newPassword f)\<rparr>
            in case server p [''password''] of
                 Inl e \<Rightarrow> (Some (p, [''password'']), f, Some (handleError message None e), False)
               | Inr _ \<Rightarrow> (Some (p, [''password'']), f, Some (ToastSuccess ''message.password-changed''), True))"

section \<open>Creating and editing members\<close>

text \<open>The form of a member: the user that is edited, if any, and the typed values. A new message has no password.\<close>

record member_form =
  mf_initial :: "User option"
  mf_name :: string
  mf_username :: string
  mf_password :: string
  mf_role :: User_Role

text \<open>The state of a new dialog and the effect on \<open>initialUser\<close>: it runs only when that changes.\<close>

definition member_form_of :: "User option \<Rightarrow> member_form" where
  "member_form_of user = (case user of
     None \<Rightarrow> \<lparr>mf_initial = None, mf_name = [], mf_username = [], mf_password = [], mf_role = ROLE_UNSPECIFIED\<rparr>
   | Some u \<Rightarrow> \<lparr>mf_initial = Some u, mf_name = user_name u, mf_username = user_username u, mf_password = [], mf_role = user_role u\<rparr>)"

definition member_effect :: "User option \<Rightarrow> member_form \<Rightarrow> member_form" where
  "member_effect user f = (if user = mf_initial f then f else member_form_of user)"

definition member_mask :: "User \<Rightarrow> member_form \<Rightarrow> string list" where
  "member_mask u f =
     (if mf_username f \<noteq> user_username u then [''username''] else []) @
     (if mf_password f \<noteq> [] then [''password''] else []) @
     (if mf_role f \<noteq> user_role u then [''role''] else [])"

definition member_patch :: "string \<Rightarrow> member_form \<Rightarrow> user_patch" where
  "member_patch name f = no_user_patch\<lparr>up_name := Some name, up_username := Some (mf_username f), up_password := Some (mf_password f), up_role := Some (mf_role f)\<rparr>"

datatype member_request = CreateUser user_patch | UpdateUser user_patch "string list"

text \<open>\<open>handleConfirm\<close>: the request, what is shown, and whether the dialog closes and the list is fetched again. The form stays as it is.\<close>

definition confirm_member :: "(js_error \<Rightarrow> string) \<Rightarrow> (member_request \<Rightarrow> js_error + User) \<Rightarrow> member_form \<Rightarrow> member_request option \<times> toast \<times> bool" where
  "confirm_member message server f =
     (if mf_initial f = None \<and> (mf_username f = [] \<or> mf_password f = []) then (None, ToastError ''ui.username-password-required'', False)
      else let request = (case mf_initial f of
                 None \<Rightarrow> CreateUser (member_patch (mf_name f) f)
               | Some u \<Rightarrow> UpdateUser (member_patch (user_name u) f) (member_mask u f))
           in case server request of
                Inl e \<Rightarrow> (Some request, handleError message None e, False)
              | Inr _ \<Rightarrow> (Some request, ToastSuccess (if mf_initial f = None then ''ui.user-created'' else ''ui.user-updated''), True))"

text \<open>Archiving, restoring and deleting a member of the list. A target is confirmed in a dialog; \<open>refetch\<close> is the answer to \<open>refetchUsers\<close>.\<close>

record member_section =
  ms_users :: "User list"
  ms_archiveTarget :: "User option"
  ms_deleteTarget :: "User option"
  ms_toasts :: "toast list"

definition set_user_state :: "MemoState \<Rightarrow> string \<Rightarrow> (js_error \<Rightarrow> string) \<Rightarrow> js_error + User \<Rightarrow> (js_error + User list) \<Rightarrow> User \<Rightarrow> member_section
    \<Rightarrow> (user_patch \<times> string list) \<times> member_section" where
  "set_user_state st m message answer refetch u s =
     ((no_user_patch\<lparr>up_name := Some (user_name u), up_state := Some st\<rparr>, [''state'']),
      case answer of
        Inl e \<Rightarrow> s\<lparr>ms_toasts := ms_toasts s @ [handleError message None e]\<rparr>
      | Inr _ \<Rightarrow> s\<lparr>ms_toasts := ms_toasts s @ [ToastSuccess m], ms_users := (case refetch of Inr us \<Rightarrow> us | Inl _ \<Rightarrow> ms_users s)\<rparr>)"

definition confirmArchiveUser :: "(js_error \<Rightarrow> string) \<Rightarrow> js_error + User \<Rightarrow> (js_error + User list) \<Rightarrow> member_section
    \<Rightarrow> (user_patch \<times> string list) option \<times> member_section" where
  "confirmArchiveUser message answer refetch s = (case ms_archiveTarget s of
     None \<Rightarrow> (None, s)
   | Some u \<Rightarrow> (case set_user_state ARCHIVED ''setting.member.archive-success'' message answer refetch u s of
        (r, s') \<Rightarrow> (Some r, s'\<lparr>ms_archiveTarget := None\<rparr>)))"

definition handleRestoreUserClick :: "(js_error \<Rightarrow> string) \<Rightarrow> js_error + User \<Rightarrow> (js_error + User list) \<Rightarrow> User \<Rightarrow> member_section
    \<Rightarrow> (user_patch \<times> string list) \<times> member_section" where
  "handleRestoreUserClick message answer refetch u s = set_user_state NORMAL ''setting.member.restore-success'' message answer refetch u s"

definition confirmDeleteUser :: "'c query_client \<Rightarrow> (js_error \<Rightarrow> string) \<Rightarrow> js_error + unit \<Rightarrow> member_section \<times> 'c \<Rightarrow> member_section \<times> 'c" where
  "confirmDeleteUser qc message answer sc = (case sc of (s, c) \<Rightarrow> (case ms_deleteTarget s of
     None \<Rightarrow> (s, c)
   | Some u \<Rightarrow> (case deleteUser_mutation qc answer (user_name u) c of
        (Inl e, c') \<Rightarrow> (s\<lparr>ms_deleteTarget := None, ms_toasts := ms_toasts s @ [handleError message None e]\<rparr>, c')
      | (Inr _, c') \<Rightarrow> (s\<lparr>ms_deleteTarget := None, ms_toasts := ms_toasts s @ [ToastSuccess ''setting.member.delete-success'']\<rparr>, c'))))"

section \<open>The own account: export and deletion\<close>

text \<open>\<open>handleExportMemos\<close>: \<open>created\<close> is what \<open>createMemoExportFile\<close> gives, \<open>download\<close> how the download ends. \<open>None\<close> is no attempt.\<close>

definition handleExportMemos :: "bool \<Rightarrow> User option \<Rightarrow> js_error + MemoExportFile \<Rightarrow> (MemoExportFile \<Rightarrow> js_error + unit) \<Rightarrow> toast option" where
  "handleExportMemos isExporting user created download =
     (if map_option user_name user \<in> {None, Some []} \<or> isExporting then None
      else Some (case Sum_Type.map_sum id download created of
        Inl e \<Rightarrow> handleError (\<lambda>_. []) (Some ''setting.account.export-failed'') e
      | Inr (Inl e) \<Rightarrow> handleError (\<lambda>_. []) (Some ''setting.account.export-failed'') e
      | Inr (Inr _) \<Rightarrow> ToastSuccess ''setting.account.export-success''))"

text \<open>\<open>handleDeleteAccount\<close>: the session ends only when the account is deleted; the page moves to the sign-in;
  otherwise the failure goes on to the confirmation dialog.\<close>

definition handleDeleteAccount :: "'c query_client \<Rightarrow> (js_error \<Rightarrow> string) \<Rightarrow> js_error + unit \<Rightarrow> 'c app \<Rightarrow> (js_error + unit) \<times> toast list \<times> string option \<times> 'c app" where
  "handleDeleteAccount qc message answer a =
     (if map_option user_name (currentUser (ctx a)) \<in> {None, Some []} then (Inr (), [], None, a)
      else case answer of
        Inl e \<Rightarrow> (Inl e, [handleError message None e], None, a)
      | Inr _ \<Rightarrow> (Inr (), [ToastSuccess ''setting.member.delete-success''], Some ROUTES_AUTH, logout qc a))"

section \<open>Confirmed deletions\<close>

text \<open>\<open>handleConfirm\<close> of \<open>components/ConfirmDialog/index.tsx\<close>: the dialog closes when the action has ended well; an error keeps it open and goes no
  further. While the action runs, the dialog cannot be closed.\<close>

definition confirm_dialog :: "('s \<Rightarrow> (js_error + unit) \<times> 's) \<Rightarrow> ('s \<Rightarrow> 's) \<Rightarrow> 's \<Rightarrow> 's" where
  "confirm_dialog onConfirm close s = (case onConfirm s of (Inr _, s') \<Rightarrow> close s' | (Inl _, s') \<Rightarrow> s')"

definition confirm_open_change :: "bool \<Rightarrow> ('s \<Rightarrow> 's) \<Rightarrow> 's \<Rightarrow> 's" where
  "confirm_open_change running close s = (if running then s else close s)"

text \<open>What a user does with a list whose rows can be deleted, with the server's answers to the deletion of a name.\<close>

datatype 'a row_deletion = Choose 'a | Cancel | Confirm "string \<Rightarrow> js_error + unit"

text \<open>The abstract specification: the chosen row and the names the server has deleted.\<close>

definition deletion_spec :: "('a \<Rightarrow> string) \<Rightarrow> 'a row_deletion \<Rightarrow> 'a option \<times> string set \<Rightarrow> 'a option \<times> string set" where
  "deletion_spec nm d ts = (case d of
     Choose x \<Rightarrow> (Some x, snd ts)
   | Cancel \<Rightarrow> (None, snd ts)
   | Confirm answer \<Rightarrow> (case fst ts of
       None \<Rightarrow> (None, snd ts)
     | Some x \<Rightarrow> (case answer (nm x) of Inl _ \<Rightarrow> ts | Inr _ \<Rightarrow> (None, insert (nm x) (snd ts)))))"

locale confirmed_deletion =
  fixes target :: "'s \<Rightarrow> 'a option"
    and listed :: "'s \<Rightarrow> 'a list"
    and nm :: "'a \<Rightarrow> string"
    and pick :: "'a \<Rightarrow> 's \<Rightarrow> 's"
    and onConfirm :: "(string \<Rightarrow> js_error + unit) \<Rightarrow> 's \<Rightarrow> (js_error + unit) \<times> 's"
    and close :: "'s \<Rightarrow> 's"
  assumes target_pick: "target (pick x s) = Some x"
    and listed_pick: "listed (pick x s) = listed s"
    and target_close: "target (close s) = None"
    and listed_close: "listed (close s) = listed s"
    and no_target: "target s = None \<Longrightarrow> onConfirm answer s = (Inr (), s)"
    and rejected: "target s = Some x \<Longrightarrow> answer (nm x) = Inl e \<Longrightarrow> onConfirm answer s = (Inl e, s)"
    and accepted: "target s = Some x \<Longrightarrow> answer (nm x) = Inr u \<Longrightarrow>
      \<exists>s'. onConfirm answer s = (Inr (), s') \<and> listed s' = filter (\<lambda>y. nm y \<noteq> nm x) (listed s)"
begin

definition perform :: "'a row_deletion \<Rightarrow> 's \<Rightarrow> 's" where
  "perform d s = (case d of
     Choose x \<Rightarrow> pick x s
   | Cancel \<Rightarrow> confirm_open_change False close s
   | Confirm answer \<Rightarrow> confirm_dialog (onConfirm answer) close s)"

lemma perform_spec:
  assumes "target s = fst ts" "listed s = filter (\<lambda>y. nm y \<notin> snd ts) xs"
  shows "target (perform d s) = fst (deletion_spec nm d ts)
    \<and> listed (perform d s) = filter (\<lambda>y. nm y \<notin> snd (deletion_spec nm d ts)) xs"
proof (cases d)
  case (Confirm answer)
  show ?thesis
  proof (cases "target s")
    case None
    moreover have "fst ts = None" using None assms(1) by simp
    ultimately show ?thesis using Confirm assms
      by (simp add: perform_def deletion_spec_def confirm_dialog_def no_target target_close listed_close)
  next
    case (Some x)
    have fst: "fst ts = Some x" using Some assms(1) by simp
    show ?thesis
    proof (cases "answer (nm x)")
      case (Inl e)
      then show ?thesis using Confirm assms Some fst rejected[of s x answer e, OF Some Inl]
        by (simp add: perform_def deletion_spec_def confirm_dialog_def)
    next
      case (Inr u)
      obtain s' where s': "onConfirm answer s = (Inr (), s')" "listed s' = filter (\<lambda>y. nm y \<noteq> nm x) (listed s)"
        using accepted[of s x answer u, OF Some Inr] by blast
      have "filter (\<lambda>y. nm y \<notin> snd ts \<and> nm y \<noteq> nm x) xs = filter (\<lambda>y. nm y \<noteq> nm x \<and> nm y \<notin> snd ts) xs" by (rule filter_cong) auto
      then show ?thesis using Confirm Some fst Inr s' assms
        by (simp add: perform_def deletion_spec_def confirm_dialog_def target_close listed_close)
    qed
  qed
qed (use assms in \<open>simp_all add: perform_def deletion_spec_def confirm_open_change_def target_pick listed_pick target_close listed_close\<close>)

lemma run_spec:
  assumes "target s = fst ts" "listed s = filter (\<lambda>y. nm y \<notin> snd ts) xs"
  shows "target (fold perform ds s) = fst (fold (deletion_spec nm) ds ts)
    \<and> listed (fold perform ds s) = filter (\<lambda>y. nm y \<notin> snd (fold (deletion_spec nm) ds ts)) xs"
  using assms
proof (induction ds arbitrary: s ts)
  case (Cons d ds)
  show ?case using Cons.IH[of "perform d s" "deletion_spec nm d ts"] perform_spec[OF Cons.prems] by simp
qed simp

text \<open>The list is always the loaded one without what the server has deleted; nothing else leaves it.\<close>

lemma listed_exactly:
  assumes "target s = None"
  shows "listed (fold perform ds s) = filter (\<lambda>y. nm y \<notin> snd (fold (deletion_spec nm) ds (None, {}))) (listed s)"
  using run_spec[of s "(None, {})" "listed s" ds] assms by simp

end

text \<open>A name is deleted only when some confirmation got the server's consent for it.\<close>

lemma deletion_spec_consent:
  "n \<in> snd (fold (deletion_spec nm) ds ts) \<Longrightarrow> n \<in> snd ts \<or> (\<exists>answer u. Confirm answer \<in> set ds \<and> answer n = Inr u)"
proof (induction ds arbitrary: ts)
  case (Cons d ds)
  have "n \<in> snd (deletion_spec nm d ts) \<Longrightarrow> n \<in> snd ts \<or> (\<exists>answer u. Confirm answer = d \<and> answer n = Inr u)"
    by (auto simp: deletion_spec_def split: row_deletion.splits option.splits sum.splits)
  then show ?case using Cons.IH[of "deletion_spec nm d ts"] Cons.prems by auto
qed simp

section \<open>Access tokens\<close>

record PersonalAccessToken =
  pat_name :: string
  pat_description :: string
  pat_createdAt :: "Timestamp option"
  pat_expiresAt :: "Timestamp option"
  pat_lastUsedAt :: "Timestamp option"

record CreatePersonalAccessTokenResponse =
  cr_personalAccessToken :: "PersonalAccessToken option"
  cr_token :: string

definition compare_tokens :: "wkt \<Rightarrow> PersonalAccessToken \<Rightarrow> PersonalAccessToken \<Rightarrow> int" where
  "compare_tokens w a b =
     (case pat_createdAt b of None \<Rightarrow> 0 | Some t \<Rightarrow> timestampDate w t) - (case pat_createdAt a of None \<Rightarrow> 0 | Some t \<Rightarrow> timestampDate w t)"

definition listAccessTokens :: "wkt \<Rightarrow> (string \<Rightarrow> js_error + PersonalAccessToken list) \<Rightarrow> string \<Rightarrow> js_error + PersonalAccessToken list" where
  "listAccessTokens w server parent = (case server parent of Inl e \<Rightarrow> Inl e | Inr ts \<Rightarrow> Inr (js_sort (compare_tokens w) ts))"

text \<open>\<open>ts_copied\<close> has the texts given to the clipboard.\<close>

record token_section =
  ts_tokens :: "PersonalAccessToken list"
  ts_deleteTarget :: "PersonalAccessToken option"
  ts_toasts :: "toast list"
  ts_copied :: "string list"

text \<open>The end of the effect that loads the tokens of the signed-in user; the effect is \<open>canceled\<close> when that user has changed in between.\<close>

definition tokens_effect :: "wkt \<Rightarrow> (js_error \<Rightarrow> string) \<Rightarrow> bool \<Rightarrow> string option \<Rightarrow> (string \<Rightarrow> js_error + PersonalAccessToken list) \<Rightarrow> token_section \<Rightarrow> token_section" where
  "tokens_effect w message canceled currentName server s = (case currentName of
     None \<Rightarrow> s
   | Some n \<Rightarrow> if n = [] \<or> canceled then s else (case listAccessTokens w server n of
        Inl e \<Rightarrow> s\<lparr>ts_toasts := ts_toasts s @ [handleError message None e]\<rparr>
      | Inr tokens \<Rightarrow> s\<lparr>ts_tokens := tokens\<rparr>))"

text \<open>When the list cannot be fetched, the promise is rejected, nobody handles it, and the token is not copied.\<close>

definition handleCreateAccessTokenDialogConfirm :: "wkt \<Rightarrow> string option \<Rightarrow> (string \<Rightarrow> js_error + PersonalAccessToken list) \<Rightarrow> CreatePersonalAccessTokenResponse
    \<Rightarrow> token_section \<Rightarrow> (js_error + unit) \<times> token_section" where
  "handleCreateAccessTokenDialogConfirm w currentName server response s =
     (case listAccessTokens w server (case currentName of None \<Rightarrow> [] | Some n \<Rightarrow> n) of
        Inl e \<Rightarrow> (Inl e, s)
      | Inr tokens \<Rightarrow> (Inr (), s\<lparr>ts_tokens := tokens,
          ts_copied := ts_copied s @ (if cr_token response \<noteq> [] then [cr_token response] else []),
          ts_toasts := ts_toasts s @ (if cr_token response \<noteq> [] then [ToastSuccess ''setting.access-token.access-token-copied-to-clipboard''] else [])
            @ [ToastSuccess ''setting.access-token.create-dialog.access-token-created'']\<rparr>))"

definition handleDeleteAccessToken :: "PersonalAccessToken \<Rightarrow> token_section \<Rightarrow> token_section" where
  "handleDeleteAccessToken tk s = s\<lparr>ts_deleteTarget := Some tk\<rparr>"

definition confirmDeleteAccessToken :: "(string \<Rightarrow> js_error + unit) \<Rightarrow> token_section \<Rightarrow> (js_error + unit) \<times> token_section" where
  "confirmDeleteAccessToken server s = (case ts_deleteTarget s of
     None \<Rightarrow> (Inr (), s)
   | Some tk \<Rightarrow> (case server (pat_name tk) of
        Inl e \<Rightarrow> (Inl e, s)
      | Inr _ \<Rightarrow> (Inr (), s\<lparr>ts_tokens := filter (\<lambda>t. pat_name t \<noteq> pat_name tk) (ts_tokens s), ts_deleteTarget := None,
          ts_toasts := ts_toasts s @ [ToastSuccess ''setting.access-token.access-token-deleted'']\<rparr>)))"

definition closeDeleteAccessToken :: "token_section \<Rightarrow> token_section" where
  "closeDeleteAccessToken s = s\<lparr>ts_deleteTarget := None\<rparr>"

interpretation token_deletion: confirmed_deletion ts_deleteTarget ts_tokens pat_name handleDeleteAccessToken confirmDeleteAccessToken closeDeleteAccessToken
  by unfold_locales (auto simp: handleDeleteAccessToken_def confirmDeleteAccessToken_def closeDeleteAccessToken_def)

interpretation tokens_newest: js_comparator "compare_tokens w" for w
  by unfold_locales (auto simp: compare_tokens_def)

text \<open>The dialog that creates a token; it shows the token once, and an effect clears it whenever the dialog opens.\<close>

record token_dialog =
  td_description :: string
  td_expiration :: int
  td_createdToken :: "string option"

definition expirationOptions :: "int list" where "expirationOptions = [30, 90, 0]"

definition token_dialog_effect :: "bool \<Rightarrow> token_dialog \<Rightarrow> token_dialog" where
  "token_dialog_effect opened d = (if opened then \<lparr>td_description = [], td_expiration = 30, td_createdToken = None\<rparr> else d)"

text \<open>\<open>handleSaveBtnClick\<close>: the answer, what is shown, the dialog, and whether the dialog stays open.\<close>

definition create_token :: "(js_error \<Rightarrow> string) \<Rightarrow> string option \<Rightarrow> (string option \<Rightarrow> string \<Rightarrow> int \<Rightarrow> js_error + CreatePersonalAccessTokenResponse) \<Rightarrow> token_dialog
    \<Rightarrow> CreatePersonalAccessTokenResponse option \<times> toast list \<times> token_dialog \<times> bool" where
  "create_token message currentName server d =
     (if td_description d = [] then (None, [ToastError ''message.description-is-required''], d, True)
      else case server currentName (td_description d) (td_expiration d) of
        Inl e \<Rightarrow> (None, [handleError message None e], d, True)
      | Inr r \<Rightarrow> if cr_token r \<noteq> [] then (Some r, [], d\<lparr>td_createdToken := Some (cr_token r)\<rparr>, True) else (Some r, [], d, False))"

definition handleCopyToken :: "token_dialog \<Rightarrow> string list \<times> toast list" where
  "handleCopyToken d = (case td_createdToken d of
     None \<Rightarrow> ([], []) | Some k \<Rightarrow> if k = [] then ([], []) else ([k], [ToastSuccess ''message.copied'']))"

section \<open>Webhooks\<close>

record webhook_section =
  wk_webhooks :: "UserWebhook list"
  wk_deleteTarget :: "UserWebhook option"
  wk_createOpen :: bool
  wk_toasts :: "toast list"

definition fetchWebhooks :: "User option \<Rightarrow> (string \<Rightarrow> js_error + UserWebhook list) \<Rightarrow> js_error + UserWebhook list" where
  "fetchWebhooks user server = (case user of None \<Rightarrow> Inr [] | Some u \<Rightarrow> server (user_name u))"

text \<open>The effect shows whatever list arrives, a failure shows nothing.\<close>

definition webhooks_effect :: "User option \<Rightarrow> (string \<Rightarrow> js_error + UserWebhook list) \<Rightarrow> webhook_section \<Rightarrow> webhook_section" where
  "webhooks_effect user server s = (case fetchWebhooks user server of Inl _ \<Rightarrow> s | Inr ws \<Rightarrow> s\<lparr>wk_webhooks := ws\<rparr>)"

definition handleCreateWebhookDialogConfirm :: "User option \<Rightarrow> (string \<Rightarrow> js_error + UserWebhook list) \<Rightarrow> webhook_section \<Rightarrow> (js_error + unit) \<times> webhook_section" where
  "handleCreateWebhookDialogConfirm user server s = (case fetchWebhooks user server of
     Inl e \<Rightarrow> (Inl e, s)
   | Inr ws \<Rightarrow> (Inr (), s\<lparr>wk_webhooks := ws, wk_createOpen := False,
       wk_toasts := wk_toasts s @ [ToastSuccess ''setting.webhook.create-dialog.create-webhook-success'']\<rparr>))"

definition handleDeleteWebhook :: "UserWebhook \<Rightarrow> webhook_section \<Rightarrow> webhook_section" where
  "handleDeleteWebhook wh s = s\<lparr>wk_deleteTarget := Some wh\<rparr>"

definition confirmDeleteWebhook :: "(string \<Rightarrow> js_error + unit) \<Rightarrow> webhook_section \<Rightarrow> (js_error + unit) \<times> webhook_section" where
  "confirmDeleteWebhook server s = (case wk_deleteTarget s of
     None \<Rightarrow> (Inr (), s)
   | Some wh \<Rightarrow> (case server (wh_name wh) of
        Inl e \<Rightarrow> (Inl e, s)
      | Inr _ \<Rightarrow> (Inr (), s\<lparr>wk_webhooks := filter (\<lambda>x. wh_name x \<noteq> wh_name wh) (wk_webhooks s), wk_deleteTarget := None,
          wk_toasts := wk_toasts s @ [ToastSuccess ''setting.webhook.delete-dialog.delete-webhook-success'']\<rparr>)))"

definition closeDeleteWebhook :: "webhook_section \<Rightarrow> webhook_section" where
  "closeDeleteWebhook s = s\<lparr>wk_deleteTarget := None\<rparr>"

interpretation webhook_deletion: confirmed_deletion wk_deleteTarget wk_webhooks wh_name handleDeleteWebhook confirmDeleteWebhook closeDeleteWebhook
  by unfold_locales (auto simp: handleDeleteWebhook_def confirmDeleteWebhook_def closeDeleteWebhook_def)

text \<open>The dialog that creates or edits a webhook: \<open>webhookName\<close> is the webhook that is edited.\<close>

record webhook_form =
  wf_displayName :: string
  wf_url :: string

definition webhook_form_effect :: "string option \<Rightarrow> User option \<Rightarrow> (string \<Rightarrow> js_error + UserWebhook list) \<Rightarrow> webhook_form \<Rightarrow> webhook_form" where
  "webhook_form_effect webhookName user server f =
     (if webhookName \<in> {None, Some []} \<or> user = None then f
      else case server (user_name (the user)) of
        Inl _ \<Rightarrow> f
      | Inr ws \<Rightarrow> (case find (\<lambda>x. Some (wh_name x) = webhookName) ws of
          None \<Rightarrow> f | Some x \<Rightarrow> \<lparr>wf_displayName = wh_displayName x, wf_url = wh_url x\<rparr>))"

datatype webhook_request = CreateWebhook string string string | UpdateWebhook string string string "string list"

definition save_webhook :: "(js_error \<Rightarrow> string) \<Rightarrow> string option \<Rightarrow> User option \<Rightarrow> (webhook_request \<Rightarrow> js_error + unit) \<Rightarrow> webhook_form
    \<Rightarrow> webhook_request option \<times> toast option \<times> bool" where
  "save_webhook message webhookName user server f =
     (if wf_displayName f = [] \<or> wf_url f = [] then (None, Some (ToastError ''message.fill-all-required-fields''), True)
      else case user of
        None \<Rightarrow> (None, Some (ToastError ''ui.user-not-authenticated''), True)
      | Some u \<Rightarrow>
          let request = (case webhookName of
                None \<Rightarrow> CreateWebhook (user_name u) (wf_displayName f) (wf_url f)
              | Some n \<Rightarrow> UpdateWebhook n (wf_displayName f) (wf_url f) [''display_name'', ''url''])
          in (case server request of
                Inl e \<Rightarrow> (Some request, Some (handleError message None e), True)
              | Inr _ \<Rightarrow> (Some request, None, False)))"

section \<open>Saving the account merges\<close>

text \<open>The documented behaviour of an update with a mask: an empty mask is refused; an accepted update answers the stored user with the
  fields of the mask taken from the request and every other field as it is stored.\<close>

definition masked :: "string list \<Rightarrow> string \<Rightarrow> 'a option \<Rightarrow> 'a \<Rightarrow> 'a" where
  "masked paths path new stored = (if path \<in> set paths then (case new of None \<Rightarrow> stored | Some v \<Rightarrow> v) else stored)"

definition mask_server :: "User \<Rightarrow> (user_patch \<Rightarrow> string list \<Rightarrow> js_error + User) \<Rightarrow> bool" where
  "mask_server stored server \<longleftrightarrow> (\<forall>p. \<exists>e. server p [] = Inl e) \<and>
     (\<forall>p paths u. server p paths = Inr u \<longrightarrow>
        user_name u = user_name stored \<and>
        user_username u = masked paths ''username'' (up_username p) (user_username stored) \<and>
        user_displayName u = masked paths ''display_name'' (up_displayName p) (user_displayName stored) \<and>
        user_email u = masked paths ''email'' (up_email p) (user_email stored) \<and>
        user_avatarUrl u = masked paths ''avatar_url'' (up_avatarUrl p) (user_avatarUrl stored) \<and>
        user_description u = masked paths ''description'' (up_description p) (user_description stored) \<and>
        user_role u = masked paths ''role'' (up_role p) (user_role stored) \<and>
        user_state u = masked paths ''state'' (up_state p) (user_state stored))"

text \<open>Three ways of a text: the one typed when it differs from the one shown, otherwise the stored one.\<close>

definition merged :: "'a \<Rightarrow> 'a \<Rightarrow> 'a \<Rightarrow> 'a" where
  "merged typed orig stored = (if typed = orig then stored else typed)"

lemma account_mask_paths:
  "''username'' \<in> set (account_mask (Some u) f) \<longleftrightarrow> af_username f \<noteq> user_username u"
  "''display_name'' \<in> set (account_mask (Some u) f) \<longleftrightarrow> af_displayName f \<noteq> user_displayName u"
  "''email'' \<in> set (account_mask (Some u) f) \<longleftrightarrow> af_email f \<noteq> user_email u"
  "''avatar_url'' \<in> set (account_mask (Some u) f) \<longleftrightarrow> af_avatarUrl f \<noteq> user_avatarUrl u"
  "''description'' \<in> set (account_mask (Some u) f) \<longleftrightarrow> af_description f \<noteq> user_description u"
  "''role'' \<notin> set (account_mask (Some u) f)" "''state'' \<notin> set (account_mask (Some u) f)" "''password'' \<notin> set (account_mask (Some u) f)"
  by (auto simp: account_mask_def)

lemma account_mask_empty: "account_mask (Some u) f = [] \<longleftrightarrow> f = account_form_of (Some u)"
  by (cases f) (auto simp: account_mask_def account_form_of_def)

lemma account_update_merges:
  assumes "mask_server stored server" "server (account_patch (Some u0) f) (account_mask (Some u0) f) = Inr u"
  shows "user_name u = user_name stored
    \<and> user_username u = merged (af_username f) (user_username u0) (user_username stored)
    \<and> user_displayName u = merged (af_displayName f) (user_displayName u0) (user_displayName stored)
    \<and> user_email u = merged (af_email f) (user_email u0) (user_email stored)
    \<and> user_avatarUrl u = merged (af_avatarUrl f) (user_avatarUrl u0) (user_avatarUrl stored)
    \<and> user_description u = merged (af_description f) (user_description u0) (user_description stored)
    \<and> user_role u = user_role stored \<and> user_state u = user_state stored"
  using assms unfolding mask_server_def
  by (auto simp: masked_def merged_def account_mask_paths account_patch_def no_user_patch_def)

lemma setCurrentUser_agrees:
  assumes "client_laws qc"
  shows "currentUser (ctx (setCurrentUser qc (Some u) a)) = Some u
    \<and> getQueryData qc userKeys_currentUser (cache (setCurrentUser qc (Some u) a)) = Some (UserData u)
    \<and> getQueryData qc (userKeys_detail (user_name u)) (cache (setCurrentUser qc (Some u) a)) = Some (UserData u)"
  using assms by (auto simp: setCurrentUser_def Let_def client_laws_def)


definition apply_mask :: "User \<Rightarrow> user_patch \<Rightarrow> string list \<Rightarrow> js_error + User" where
  "apply_mask stored p paths = (if paths = [] then Inl (PlainError ''Error'' ''update mask is empty'')
     else Inr (stored\<lparr>user_username := masked paths ''username'' (up_username p) (user_username stored),
       user_displayName := masked paths ''display_name'' (up_displayName p) (user_displayName stored),
       user_email := masked paths ''email'' (up_email p) (user_email stored),
       user_avatarUrl := masked paths ''avatar_url'' (up_avatarUrl p) (user_avatarUrl stored),
       user_description := masked paths ''description'' (up_description p) (user_description stored),
       user_role := masked paths ''role'' (up_role p) (user_role stored),
       user_state := masked paths ''state'' (up_state p) (user_state stored)\<rparr>))"

lemma mask_server_apply: "mask_server stored (apply_mask stored)"
  by (auto simp: mask_server_def apply_mask_def)


section \<open>Editing members\<close>

text \<open>The mask of an edited member names exactly the changed fields, and a password only when one was typed.\<close>

lemma member_mask_paths:
  "set (member_mask u f) = {x. x = ''username'' \<and> mf_username f \<noteq> user_username u \<or> x = ''password'' \<and> mf_password f \<noteq> []
     \<or> x = ''role'' \<and> mf_role f \<noteq> user_role u}"
  by (auto simp: member_mask_def)

lemma untouched_member: "member_mask u (member_form_of (Some u)) = []"
  by (simp add: member_mask_def member_form_of_def)

text \<open>The effect leaves a form alone while the same user, or still no user, is edited: what was typed into it stays, also after a successful save.\<close>

lemma member_form_stays: "member_effect (mf_initial f) f = f"
  by (simp add: member_effect_def)

text \<open>A token is newest first in the list, and every token of the answer is in it.\<close>

lemma listAccessTokens_complete:
  assumes "listAccessTokens w server parent = Inr ts" "server parent = Inr xs"
  shows "mset ts = mset xs \<and> sorted_wrt (\<lambda>a b. compare_tokens w a b \<le> 0) ts"
  using assms by (auto simp: listAccessTokens_def tokens_newest.mset_js_sort tokens_newest.sorted_js_sort)

end
